(* ===== verification/Prelude.thy ===== *)
theory Prelude
  imports Main
begin

text \<open>
  What every other theory of the library shares: the collections of rewrite rules the
  component proofs use, fixed-width integers of Go written out on \<open>int\<close>, the sort keys
  of the \<open>ORDER BY\<close> clauses, and a few facts on lists and association by key.
\<close>

named_theorems sql_simps \<open>what a query on a table returns\<close>
named_theorems frame_simps \<open>which tables an operation leaves alone\<close>
named_theorems resp_defs \<open>the response builders of the services\<close>

section \<open>Machine integers\<close>

text \<open>
  Go's \<open>int32\<close> and \<open>int64\<close> are two's complement and wrap. A value is an \<open>int\<close> in
  range; an addition is followed by the wrap of its width.
\<close>

definition int32_wrap :: "int \<Rightarrow> int" where
  "int32_wrap x = (x + 2147483648) mod 4294967296 - 2147483648"

definition int64_wrap :: "int \<Rightarrow> int" where
  "int64_wrap x = (x + 9223372036854775808) mod 18446744073709551616 - 9223372036854775808"

lemma int32_wrap_id [simp]: "- 2147483648 \<le> x \<Longrightarrow> x < 2147483648 \<Longrightarrow> int32_wrap x = x"
  by (simp add: int32_wrap_def)

lemma int64_wrap_id [simp]:
  "- 9223372036854775808 \<le> x \<Longrightarrow> x < 9223372036854775808 \<Longrightarrow> int64_wrap x = x"
  by (simp add: int64_wrap_def)

lemma int32_wrap_range: "- 2147483648 \<le> int32_wrap x \<and> int32_wrap x < 2147483648"
proof -
  have "0 \<le> (x + 2147483648) mod 4294967296" "(x + 2147483648) mod 4294967296 < 4294967296"
    by simp_all
  then show ?thesis by (simp add: int32_wrap_def)
qed

text \<open>The successor of an \<open>int32\<close> in range is positive exactly when it did not wrap.\<close>

lemma int32_succ_cases:
  assumes "- 2147483648 \<le> v" "v \<le> 2147483647"
  shows "int32_wrap (v + 1) = (if v = 2147483647 then - 2147483648 else v + 1)"
  using assms by (auto simp: int32_wrap_def)

lemma int32_succ_pos:
  assumes "1 \<le> v" "v \<le> 2147483647" "1 \<le> int32_wrap (v + 1)"
  shows "int32_wrap (v + 1) = v + 1"
  using assms by (auto simp: int32_succ_cases split: if_splits)

section \<open>Sort keys\<close>

text \<open>
  The queries order by two columns, the second one the primary key, so that the order is
  total: \<open>sort_order ASC, id ASC\<close> for tasks, \<open>updated_at DESC, id DESC\<close> for the
  history lists. A descending column enters the key negated.
\<close>

datatype order_key = OrderKey int int

instantiation order_key :: linorder
begin

fun less_eq_order_key :: "order_key \<Rightarrow> order_key \<Rightarrow> bool" where
  "less_eq_order_key (OrderKey a b) (OrderKey c d) \<longleftrightarrow> a < c \<or> a = c \<and> b \<le> d"

fun less_order_key :: "order_key \<Rightarrow> order_key \<Rightarrow> bool" where
  "less_order_key (OrderKey a b) (OrderKey c d) \<longleftrightarrow> a < c \<or> a = c \<and> b < d"

instance
proof
  fix x y z :: order_key
  show "x < y \<longleftrightarrow> x \<le> y \<and> \<not> y \<le> x" by (cases x; cases y) auto
  show "x \<le> x" by (cases x) auto
  show "x \<le> y \<Longrightarrow> y \<le> z \<Longrightarrow> x \<le> z" by (cases x; cases y; cases z) auto
  show "x \<le> y \<Longrightarrow> y \<le> x \<Longrightarrow> x = y" by (cases x; cases y) auto
  show "x \<le> y \<or> y \<le> x" by (cases x; cases y) auto
qed

end

definition asc_key :: "int \<Rightarrow> int \<Rightarrow> order_key" where
  "asc_key a b = OrderKey a b"

definition desc_key :: "int \<Rightarrow> int \<Rightarrow> order_key" where
  "desc_key a b = OrderKey (- a) (- b)"

lemma asc_key_le [simp]: "asc_key a b \<le> asc_key c d \<longleftrightarrow> a < c \<or> a = c \<and> b \<le> d"
  by (simp add: asc_key_def)

lemma desc_key_le [simp]: "desc_key a b \<le> desc_key c d \<longleftrightarrow> c < a \<or> c = a \<and> d \<le> b"
  by (auto simp: desc_key_def)

section \<open>Lists\<close>

text \<open>A loop that stops at the first error.\<close>

fun traverse :: "('a \<Rightarrow> 'e + 'b) \<Rightarrow> 'a list \<Rightarrow> 'e + 'b list" where
  "traverse f [] = Inr []"
| "traverse f (x # xs) =
     (case f x of
        Inl err \<Rightarrow> Inl err
      | Inr y \<Rightarrow> (case traverse f xs of Inl err \<Rightarrow> Inl err | Inr ys \<Rightarrow> Inr (y # ys)))"

lemma traverse_Inr_all2: "traverse f xs = Inr ys \<Longrightarrow> list_all2 (\<lambda>x y. f x = Inr y) xs ys"
  by (induction xs arbitrary: ys) (auto split: sum.splits)

lemma all2_traverse_Inr: "list_all2 (\<lambda>x y. f x = Inr y) xs ys \<Longrightarrow> traverse f xs = Inr ys"
  by (induction rule: list_all2_induct) auto

lemma traverse_Inr: "traverse f xs = Inr ys \<longleftrightarrow> list_all2 (\<lambda>x y. f x = Inr y) xs ys"
  using traverse_Inr_all2 all2_traverse_Inr by metis

lemma traverse_Inr_map: "(\<And>x. x \<in> set xs \<Longrightarrow> f x = Inr (g x)) \<Longrightarrow> traverse f xs = Inr (map g xs)"
  by (induction xs) auto

lemma traverse_Inl: "traverse f xs = Inl err \<Longrightarrow> \<exists>x\<in>set xs. f x = Inl err"
  by (induction xs) (auto split: sum.splits)

lemma filter_replace_same:
  "\<forall>x\<in>set xs. P x \<longrightarrow> Q (f x) = Q x \<Longrightarrow>
   filter Q (map (\<lambda>x. if P x then f x else x) xs) =
   map (\<lambda>x. if P x then f x else x) (filter Q xs)"
  by (induction xs) auto

lemma map_replace_same:
  "\<forall>x\<in>set xs. P x \<longrightarrow> g (f x) = g x \<Longrightarrow>
   map g (map (\<lambda>x. if P x then f x else x) xs) = map g xs"
  by (induction xs) auto

lemma distinct_map_filter_one:
  assumes "distinct (map k xs)" "x \<in> set xs"
  shows "filter (\<lambda>y. k y = k x) xs = [x]"
  using assms by (induction xs) (auto simp: filter_empty_conv image_iff)

lemma distinct_map_unique:
  "distinct (map k xs) \<Longrightarrow> x \<in> set xs \<Longrightarrow> y \<in> set xs \<Longrightarrow> k x = k y \<Longrightarrow> x = y"
  by (auto simp: distinct_map inj_on_def)

lemma filter_cong_one:
  assumes "filter P xs = [x]" "\<And>y. y \<in> set xs \<Longrightarrow> Q y \<Longrightarrow> P y" "Q x"
  shows "filter Q xs = [x]"
proof -
  have "filter Q xs = filter Q (filter P xs)"
    using assms(2) by (auto intro: filter_cong)
  then show ?thesis using assms(1,3) by simp
qed

lemma sort_key_single [simp]: "sort_key f [x] = [x]"
  by simp

lemma sort_key_Nil_iff [simp]: "sort_key f xs = [] \<longleftrightarrow> xs = []"
  by (metis length_0_conv length_sort)

lemma hd_sort_key_in: "sort_key f xs = y # ys \<Longrightarrow> y \<in> set xs"
  by (metis list.set_intros(1) set_sort)

end
