(* ===== verification/Errors.thy ===== *)
theory Errors
  imports Prelude
begin

text \<open>
  Error values. Go errors are chains: a sentinel (\<open>internal/logic/errors.go\<close>, the
  \<open>auth\<close> services, gorm's translated errors) wrapped by \<open>fmt.Errorf\<close> with \<open>%w\<close>.
  \<open>errors_Is\<close> walks the chain; \<open>write_error\<close> is \<open>common.WriteError\<close>, the table from an
  error to the response a client sees, and \<open>write_auth_error\<close> the one of the
  authentication handlers.
\<close>

section \<open>Errors\<close>

text \<open>What gorm reports of a statement, with \<open>TranslateError\<close> on.\<close>

datatype db_error =
    ErrRecordNotFound
  | ErrDuplicatedKey
  | ErrConstraintViolated
  | ErrStatement

datatype error =
    ErrDatabaseUnavailable
  | ErrCacheUnavailable
  | ErrInvalidInput
  | ErrNotFound
  | ErrConflict
  | ErrInvalidState
  | ErrPayloadTooLarge
  | ErrUnsupportedFileType
  | ErrPDFUnprocessable
  | ErrExtractionBusy
  | ErrRateLimited
  | ErrAIUnavailable
  | ErrEmailRegistered
  | ErrInvalidCredentials
  | ErrInvalidAccessToken
  | ErrInvalidRefreshToken
  | ErrRefreshTokenReused
  | GormErr db_error
  | ErrNew string
  | Wrapf string error
  | Detailf error string

text \<open>\<open>errors.Is\<close>: the target is the error or one it wraps.\<close>

fun errors_Is :: "error \<Rightarrow> error \<Rightarrow> bool" where
  "errors_Is (Wrapf m e) t \<longleftrightarrow> Wrapf m e = t \<or> errors_Is e t"
| "errors_Is (Detailf e m) t \<longleftrightarrow> Detailf e m = t \<or> errors_Is e t"
| "errors_Is e t \<longleftrightarrow> e = t"

text \<open>\<open>err.Error()\<close>.\<close>

fun error_text :: "error \<Rightarrow> string" where
  "error_text ErrDatabaseUnavailable = ''database not connected''"
| "error_text ErrCacheUnavailable = ''cache unavailable''"
| "error_text ErrInvalidInput = ''invalid input''"
| "error_text ErrNotFound = ''resource not found''"
| "error_text ErrConflict = ''resource conflict''"
| "error_text ErrInvalidState = ''invalid resource state''"
| "error_text ErrPayloadTooLarge = ''uploaded file too large''"
| "error_text ErrUnsupportedFileType = ''unsupported file type''"
| "error_text ErrPDFUnprocessable = ''PDF cannot be processed''"
| "error_text ErrExtractionBusy = ''PDF extraction service is busy''"
| "error_text ErrRateLimited = ''too many requests''"
| "error_text ErrAIUnavailable = ''AI assistant unavailable''"
| "error_text ErrEmailRegistered = ''email already registered''"
| "error_text ErrInvalidCredentials = ''invalid email or password''"
| "error_text ErrInvalidAccessToken = ''invalid access token''"
| "error_text ErrInvalidRefreshToken = ''invalid refresh token''"
| "error_text ErrRefreshTokenReused = ''refresh token reused''"
| "error_text (GormErr ErrRecordNotFound) = ''record not found''"
| "error_text (GormErr ErrDuplicatedKey) = ''duplicated key not allowed''"
| "error_text (GormErr ErrConstraintViolated) = ''violates constraint''"
| "error_text (GormErr ErrStatement) = ''statement failed''"
| "error_text (ErrNew m) = m"
| "error_text (Wrapf m e) = m @ '': '' @ error_text e"
| "error_text (Detailf e m) = error_text e @ '': '' @ m"

text \<open>The innermost error of a chain.\<close>

fun root_cause :: "error \<Rightarrow> error" where
  "root_cause (Wrapf m e) = root_cause e"
| "root_cause (Detailf e m) = root_cause e"
| "root_cause e = e"

fun is_leaf :: "error \<Rightarrow> bool" where
  "is_leaf (Wrapf m e) \<longleftrightarrow> False"
| "is_leaf (Detailf e m) \<longleftrightarrow> False"
| "is_leaf e \<longleftrightarrow> True"

lemma errors_Is_leaf: "is_leaf t \<Longrightarrow> errors_Is e t \<longleftrightarrow> root_cause e = t"
  by (induction e) auto

section \<open>Responses\<close>

text \<open>
  The envelope of \<open>response.Error\<close> (status, business code, message) and whether the
  error was logged.
\<close>

record error_response =
  http_status :: int
  biz_code :: int
  message :: string
  logged :: bool

definition respond :: "int \<Rightarrow> int \<Rightarrow> string \<Rightarrow> error_response" where
  "respond st code msg = \<lparr>http_status = st, biz_code = code, message = msg, logged = False\<rparr>"

definition respond_logged :: "int \<Rightarrow> int \<Rightarrow> string \<Rightarrow> error_response" where
  "respond_logged st code msg = \<lparr>http_status = st, biz_code = code, message = msg, logged = True\<rparr>"

abbreviation CodeBadRequest :: int where "CodeBadRequest \<equiv> 10001"
abbreviation CodeUnauthorized :: int where "CodeUnauthorized \<equiv> 10002"
abbreviation CodeEmailRegistered :: int where "CodeEmailRegistered \<equiv> 10003"
abbreviation CodeDatabaseUnavailable :: int where "CodeDatabaseUnavailable \<equiv> 10004"
abbreviation CodeInternalError :: int where "CodeInternalError \<equiv> 10005"
abbreviation CodeNotFound :: int where "CodeNotFound \<equiv> 10006"
abbreviation CodeConflict :: int where "CodeConflict \<equiv> 10007"
abbreviation CodeInvalidState :: int where "CodeInvalidState \<equiv> 10008"
abbreviation CodePayloadTooLarge :: int where "CodePayloadTooLarge \<equiv> 10009"
abbreviation CodeServiceUnavailable :: int where "CodeServiceUnavailable \<equiv> 10010"
abbreviation CodeForbidden :: int where "CodeForbidden \<equiv> 10011"
abbreviation CodeUnsupportedFileType :: int where "CodeUnsupportedFileType \<equiv> 10012"
abbreviation CodePDFUnprocessable :: int where "CodePDFUnprocessable \<equiv> 10013"
abbreviation CodeTooManyRequests :: int where "CodeTooManyRequests \<equiv> 10014"

text \<open>\<open>common.WriteError\<close>, case by case.\<close>

definition write_error :: "error \<Rightarrow> error_response" where
  "write_error err =
     (if errors_Is err ErrInvalidInput then respond 400 CodeBadRequest (error_text err)
      else if errors_Is err ErrNotFound then respond 404 CodeNotFound (error_text err)
      else if errors_Is err ErrConflict then respond 409 CodeConflict (error_text err)
      else if errors_Is err ErrInvalidState then respond 422 CodeInvalidState (error_text err)
      else if errors_Is err ErrPayloadTooLarge then respond 413 CodePayloadTooLarge (error_text err)
      else if errors_Is err ErrUnsupportedFileType
        then respond 415 CodeUnsupportedFileType (error_text err)
      else if errors_Is err ErrPDFUnprocessable
        then respond 422 CodePDFUnprocessable (error_text err)
      else if errors_Is err ErrExtractionBusy
        then respond 503 CodeServiceUnavailable (error_text err)
      else if errors_Is err ErrRateLimited then respond 429 CodeTooManyRequests (error_text err)
      else if errors_Is err ErrDatabaseUnavailable
        then respond 503 CodeDatabaseUnavailable (error_text err)
      else if errors_Is err ErrCacheUnavailable
        then respond_logged 503 CodeServiceUnavailable (error_text ErrCacheUnavailable)
      else if errors_Is err ErrAIUnavailable
        then respond 503 CodeServiceUnavailable (error_text ErrAIUnavailable)
      else respond_logged 500 CodeInternalError ''internal server error'')"

text \<open>\<open>writeAuthError\<close> of the authentication handlers.\<close>

definition write_auth_error :: "error \<Rightarrow> error_response" where
  "write_auth_error err =
     (if errors_Is err ErrEmailRegistered then respond 409 CodeEmailRegistered (error_text err)
      else if errors_Is err ErrInvalidCredentials \<or> errors_Is err ErrInvalidAccessToken
        then respond 401 CodeUnauthorized (error_text err)
      else if errors_Is err ErrInvalidRefreshToken \<or> errors_Is err ErrRefreshTokenReused
        then respond 401 CodeUnauthorized ''invalid or expired refresh token''
      else if errors_Is err ErrRateLimited then respond 429 CodeTooManyRequests (error_text err)
      else write_error err)"

text \<open>The errors whose own text is the client's business.\<close>

fun client_facing :: "error \<Rightarrow> bool" where
  "client_facing ErrInvalidInput \<longleftrightarrow> True"
| "client_facing ErrNotFound \<longleftrightarrow> True"
| "client_facing ErrConflict \<longleftrightarrow> True"
| "client_facing ErrInvalidState \<longleftrightarrow> True"
| "client_facing ErrPayloadTooLarge \<longleftrightarrow> True"
| "client_facing ErrUnsupportedFileType \<longleftrightarrow> True"
| "client_facing ErrPDFUnprocessable \<longleftrightarrow> True"
| "client_facing ErrExtractionBusy \<longleftrightarrow> True"
| "client_facing ErrRateLimited \<longleftrightarrow> True"
| "client_facing ErrDatabaseUnavailable \<longleftrightarrow> True"
| "client_facing _ \<longleftrightarrow> False"

lemma write_error_root:
  "\<not> client_facing (root_cause err) \<Longrightarrow>
   write_error err =
     (if root_cause err = ErrCacheUnavailable
        then respond_logged 503 CodeServiceUnavailable ''cache unavailable''
      else if root_cause err = ErrAIUnavailable
        then respond 503 CodeServiceUnavailable ''AI assistant unavailable''
      else respond_logged 500 CodeInternalError ''internal server error'')"
  by (cases "root_cause err") (simp_all add: write_error_def errors_Is_leaf)

text \<open>
  No internal detail reaches a client. Whatever chain of wrapped errors a handler
  passes to \<open>WriteError\<close>, unless its innermost error is one of the ten client-facing
  sentinels the message sent is one of three fixed texts, and the server-side cause is
  logged whenever it is not the missing AI assistant.
\<close>

theorem write_error_no_leak:
  assumes "\<not> client_facing (root_cause err)"
  shows "message (write_error err) \<in>
           {''cache unavailable'', ''AI assistant unavailable'', ''internal server error''}
         \<and> 500 \<le> http_status (write_error err)
         \<and> (logged (write_error err) \<longleftrightarrow> root_cause err \<noteq> ErrAIUnavailable)"
  using assms by (auto simp: write_error_root respond_def respond_logged_def)

theorem write_error_no_leak_witness:
  "message (write_error (Wrapf ''lock project'' (GormErr ErrStatement))) \<in>
     {''cache unavailable'', ''AI assistant unavailable'', ''internal server error''}"
  using write_error_no_leak [of "Wrapf ''lock project'' (GormErr ErrStatement)"] by simp

end
