(* ===== verification/Store.thy ===== *)
theory Store
  imports Errors
begin

text \<open>
  The statements the services send to PostgreSQL through gorm. A table is the list of its
  rows; the clauses of a statement (\<open>Where\<close>, \<open>Order\<close>, \<open>Offset\<close>, \<open>Limit\<close>, \<open>Set\<close>) are
  the arguments of \<open>sql_first\<close>, \<open>sql_find\<close>, \<open>sql_count\<close>, \<open>sql_update\<close>, \<open>sql_insert\<close>
  and \<open>sql_delete\<close>, copied from the Go source at each call. What the server alone decides
  is a parameter, the environment \<open>env\<close>: whether a statement fails, the identifiers its
  sequences hand out, the clock. The constraints of a table (\<open>scripts/migrate.sql\<close>) are a
  function \<open>viol\<close> from the new contents of the table to the error they raise, if any.
\<close>

section \<open>The environment of a request\<close>

text \<open>
  \<open>fault e l i\<close>: the statement called \<open>l\<close> (the \<open>i\<close>-th of a loop) fails, whatever
  the reason; \<open>new_id e i\<close>: the \<open>i\<close>-th identifier the request draws from a sequence.
\<close>

record env =
  db_up :: bool
  now :: int
  new_id :: "nat \<Rightarrow> int"
  fault :: "string \<Rightarrow> nat \<Rightarrow> bool"

definition no_faults :: "env \<Rightarrow> bool" where
  "no_faults e \<longleftrightarrow> db_up e \<and> fault e = (\<lambda>_ _. False)"

definition sql :: "env \<Rightarrow> string \<Rightarrow> nat \<Rightarrow> db_error + 'a \<Rightarrow> db_error + 'a" where
  "sql e l i r = (if fault e l i then Inl ErrStatement else r)"

lemma sql_Inr [simp]: "sql e l i r = Inr a \<longleftrightarrow> \<not> fault e l i \<and> r = Inr a"
  by (simp add: sql_def)

lemma sql_Inl:
  "sql e l i r = Inl x \<longleftrightarrow> fault e l i \<and> x = ErrStatement \<or> \<not> fault e l i \<and> r = Inl x"
  by (auto simp: sql_def)

lemma sql_no_faults [simp]: "no_faults e \<Longrightarrow> sql e l i r = r"
  by (simp add: sql_def no_faults_def)

text \<open>
  \<open>DB.Transaction\<close>: the body's changes are kept only if it returns no error and the
  commit succeeds.
\<close>

definition transaction :: "env \<Rightarrow> ('s \<Rightarrow> error + 'a \<times> 's) \<Rightarrow> 's \<Rightarrow> (error + 'a) \<times> 's" where
  "transaction e body s =
     (if fault e ''begin'' 0 then (Inl (GormErr ErrStatement), s)
      else case body s of
        Inl err \<Rightarrow> (Inl err, s)
      | Inr (a, s') \<Rightarrow>
          if fault e ''commit'' 0 then (Inl (GormErr ErrStatement), s) else (Inr a, s'))"

lemma transaction_Inr:
  "transaction e body s = (Inr a, s') \<longleftrightarrow>
   \<not> fault e ''begin'' 0 \<and> \<not> fault e ''commit'' 0 \<and> body s = Inr (a, s')"
  by (auto simp: transaction_def split: sum.splits)

lemma transaction_Inl: "transaction e body s = (Inl err, s') \<Longrightarrow> s' = s"
  by (auto simp: transaction_def split: sum.splits if_splits)

lemma transaction_Inl_cases:
  "transaction e body s = (Inl err, s') \<Longrightarrow> err = GormErr ErrStatement \<or> body s = Inl err"
  by (auto simp: transaction_def split: sum.splits if_splits)

lemma transaction_no_faults [simp]:
  "no_faults e \<Longrightarrow> transaction e body s =
     (case body s of Inl err \<Rightarrow> (Inl err, s) | Inr (a, s') \<Rightarrow> (Inr a, s'))"
  by (auto simp: transaction_def no_faults_def split: sum.splits)

section \<open>Statements\<close>

text \<open>\<open>First\<close>: the matching row with the least primary key.\<close>

definition sql_first :: "('r \<Rightarrow> int) \<Rightarrow> ('r \<Rightarrow> bool) \<Rightarrow> 'r list \<Rightarrow> db_error + 'r" where
  "sql_first key P rows =
     (case sort_key key (filter P rows) of [] \<Rightarrow> Inl ErrRecordNotFound | r # _ \<Rightarrow> Inr r)"

definition sql_find :: "('r \<Rightarrow> order_key) \<Rightarrow> ('r \<Rightarrow> bool) \<Rightarrow> 'r list \<Rightarrow> 'r list" where
  "sql_find key P rows = sort_key key (filter P rows)"

definition sql_page :: "int \<Rightarrow> int \<Rightarrow> 'r list \<Rightarrow> 'r list" where
  "sql_page off lim rows =
     (let rest = drop (nat off) rows in if lim < 0 then rest else take (nat lim) rest)"

definition sql_count :: "('r \<Rightarrow> bool) \<Rightarrow> 'r list \<Rightarrow> int" where
  "sql_count P rows = int (length (filter P rows))"

definition sql_update ::
  "('r list \<Rightarrow> db_error option) \<Rightarrow> ('r \<Rightarrow> bool) \<Rightarrow> ('r \<Rightarrow> 'r) \<Rightarrow> 'r list \<Rightarrow> db_error + 'r list \<times> int" where
  "sql_update viol P f rows =
     (let rows' = map (\<lambda>r. if P r then f r else r) rows
      in case viol rows' of
           Some x \<Rightarrow> Inl x
         | None \<Rightarrow> Inr (rows', sql_count P rows))"

definition sql_insert ::
  "('r list \<Rightarrow> db_error option) \<Rightarrow> 'r list \<Rightarrow> 'r list \<Rightarrow> db_error + 'r list" where
  "sql_insert viol new rows =
     (case viol (rows @ new) of Some x \<Rightarrow> Inl x | None \<Rightarrow> Inr (rows @ new))"

definition sql_delete :: "('r \<Rightarrow> bool) \<Rightarrow> 'r list \<Rightarrow> 'r list \<times> int" where
  "sql_delete P rows = (filter (\<lambda>r. \<not> P r) rows, sql_count P rows)"

lemma sql_first_Inr: "sql_first key P rows = Inr r \<Longrightarrow> r \<in> set rows \<and> P r"
  by (auto simp: sql_first_def split: list.splits dest: hd_sort_key_in)

lemma sql_first_Inl: "sql_first key P rows = Inl x \<Longrightarrow> x = ErrRecordNotFound \<and> (\<forall>r\<in>set rows. \<not> P r)"
  by (auto simp: sql_first_def filter_empty_conv split: list.splits)

lemma sql_first_one: "filter P rows = [r] \<Longrightarrow> sql_first key P rows = Inr r"
  by (simp add: sql_first_def)

lemma sql_first_none [simp]:
  "sql_first key P rows = Inl ErrRecordNotFound \<longleftrightarrow> (\<forall>r\<in>set rows. \<not> P r)"
proof (cases "sql_first key P rows")
  case (Inl x)
  then show ?thesis using sql_first_Inl by fastforce
next
  case (Inr r)
  then show ?thesis using sql_first_Inr by fastforce
qed

lemma set_sql_find [simp]: "set (sql_find key P rows) = {r \<in> set rows. P r}"
  by (simp add: sql_find_def)

lemma length_sql_find [simp]: "length (sql_find key P rows) = length (filter P rows)"
  by (simp add: sql_find_def)

lemma sorted_sql_find: "sorted (map key (sql_find key P rows))"
  by (simp add: sql_find_def)

lemma distinct_sql_find: "distinct (map k rows) \<Longrightarrow> distinct (map k (sql_find key P rows))"
  by (simp add: sql_find_def distinct_map inj_on_def)

lemma sql_insert_Inr:
  "sql_insert viol new rows = Inr rows' \<longleftrightarrow> viol (rows @ new) = None \<and> rows' = rows @ new"
  by (auto simp: sql_insert_def split: option.splits)

lemma sql_update_Inr:
  "sql_update viol P f rows = Inr (rows', n) \<longleftrightarrow>
   rows' = map (\<lambda>r. if P r then f r else r) rows \<and> viol rows' = None \<and> n = sql_count P rows"
  by (auto simp: sql_update_def Let_def split: option.splits)

lemma sql_count_nonneg [simp]: "0 \<le> sql_count P rows"
  by (simp add: sql_count_def)

lemma sql_count_0 [simp]: "sql_count P rows = 0 \<longleftrightarrow> (\<forall>r\<in>set rows. \<not> P r)"
  by (auto simp: sql_count_def filter_empty_conv)

text \<open>A page never holds more rows than its limit, and only rows of the query.\<close>

lemma sql_page_length: "0 \<le> lim \<Longrightarrow> int (length (sql_page off lim rows)) \<le> lim"
  by (auto simp: sql_page_def Let_def)

lemma sql_page_subset: "set (sql_page off lim rows) \<subseteq> set rows"
  by (auto simp: sql_page_def Let_def dest: in_set_takeD in_set_dropD split: if_splits)

section \<open>Tables with a primary key\<close>

text \<open>
  The contract between a table and the services: the constraints of a table make its key
  unique, and the state it is checked against does not matter for that. What the services
  rely on, once for all tables: a row that was read under its key is the only one an
  \<open>UPDATE\<close> or \<open>DELETE\<close> restricted to that key touches, the number of affected rows is 1,
  and reading it again returns the row just written.
\<close>

definition replace_row :: "('r \<Rightarrow> int) \<Rightarrow> 'r \<Rightarrow> 'r list \<Rightarrow> 'r list" where
  "replace_row key r' rows = map (\<lambda>r. if key r = key r' then r' else r) rows"

lemma map_replace_row:
  "(\<And>r. r \<in> set rows \<Longrightarrow> key r = key r' \<Longrightarrow> g r = g r') \<Longrightarrow>
   map g (replace_row key r' rows) = map g rows"
  by (auto simp: replace_row_def)

lemma length_replace_row [simp]: "length (replace_row key r' rows) = length rows"
  by (simp add: replace_row_def)

lemma keys_replace_row [simp]: "map key (replace_row key r' rows) = map key rows"
  by (rule map_replace_row)

lemma set_replace_row:
  "r \<in> set rows \<Longrightarrow> key r = key r' \<Longrightarrow>
   set (replace_row key r' rows) = insert r' {x \<in> set rows. key x \<noteq> key r'}"
  by (force simp: replace_row_def)

lemma in_replace_row:
  "x \<in> set (replace_row key r' rows) \<Longrightarrow> x = r' \<or> x \<in> set rows \<and> key x \<noteq> key r'"
  by (auto simp: replace_row_def split: if_splits)

lemma list_all_replace_row:
  "list_all C rows \<Longrightarrow> r \<in> set rows \<Longrightarrow> key r = key r' \<Longrightarrow>
   list_all C (replace_row key r' rows) \<longleftrightarrow> C r'"
  by (auto simp: list_all_iff set_replace_row dest: in_replace_row)

lemma replace_row_self:
  "distinct (map key rows) \<Longrightarrow> r \<in> set rows \<Longrightarrow> replace_row key r rows = rows"
  unfolding replace_row_def by (intro map_idI) (auto dest: distinct_map_unique)

lemma filter_replace_row:
  "\<not> P r' \<Longrightarrow> (\<And>x. x \<in> set rows \<Longrightarrow> key x = key r' \<Longrightarrow> \<not> P x) \<Longrightarrow>
   filter P (replace_row key r' rows) = filter P rows"
  by (induction rows) (auto simp: replace_row_def)

text \<open>A table as the map from its keys to its rows.\<close>

primrec table_map :: "('r \<Rightarrow> int) \<Rightarrow> 'r list \<Rightarrow> int \<rightharpoonup> 'r" where
  "table_map key [] = (\<lambda>_. None)"
| "table_map key (r # rows) = (table_map key rows)(key r \<mapsto> r)"

lemma table_map_Some: "table_map key rows k = Some r \<Longrightarrow> r \<in> set rows \<and> key r = k"
  by (induction rows) (auto split: if_splits)

lemma table_map_None: "table_map key rows k = None \<longleftrightarrow> k \<notin> key ` set rows"
  by (induction rows) auto

lemma table_map_in:
  "distinct (map key rows) \<Longrightarrow> r \<in> set rows \<Longrightarrow> table_map key rows (key r) = Some r"
  by (induction rows) (auto simp: image_iff)

lemma table_map_replace_row:
  "key r' \<in> key ` set rows \<Longrightarrow>
   table_map key (replace_row key r' rows) = (table_map key rows)(key r' \<mapsto> r')"
proof (induction rows)
  case (Cons r rows)
  show ?case
  proof (cases "key r' \<in> key ` set rows")
    case True
    with Cons.IH show ?thesis by (auto simp: replace_row_def fun_eq_iff)
  next
    case False
    then have "replace_row key r' rows = rows"
      unfolding replace_row_def by (intro map_idI) (metis image_eqI)
    with False Cons.prems show ?thesis by (auto simp: replace_row_def)
  qed
qed simp

lemma table_map_append_one:
  "key r \<notin> key ` set rows \<Longrightarrow> table_map key (rows @ [r]) = (table_map key rows)(key r \<mapsto> r)"
  by (induction rows) auto

locale keyed_table =
  fixes key :: "'r \<Rightarrow> int"
    and viol :: "'s \<Rightarrow> 'r list \<Rightarrow> db_error option"
  assumes viol_distinct: "viol s rows = None \<Longrightarrow> distinct (map key rows)"
begin

lemma insert_distinct:
  "sql_insert (viol s) new rows = Inr rows' \<Longrightarrow> distinct (map key rows')"
  using viol_distinct [of s "rows @ new"] by (simp add: sql_insert_Inr)

lemma update_distinct:
  "sql_update (viol s) P f rows = Inr (rows', n) \<Longrightarrow> distinct (map key rows')"
  by (rule viol_distinct [of s]) (auto simp: sql_update_Inr)

lemma selects_one:
  assumes "distinct (map key rows)" "r \<in> set rows" "P r"
    and "\<And>x. P x \<Longrightarrow> key x = key r" and "x \<in> set rows"
  shows "P x \<longleftrightarrow> key x = key r"
  using assms(3,4) distinct_map_unique [OF assms(1,5,2)] by metis

lemma filter_keyed:
  assumes "distinct (map key rows)" "r \<in> set rows" "P r"
    and only: "\<And>x. P x \<Longrightarrow> key x = key r"
  shows "filter P rows = [r]"
proof -
  have "filter P rows = filter (\<lambda>x. key x = key r) rows"
  proof (intro filter_cong refl)
    fix x assume "x \<in> set rows"
    with assms(1-3) only show "P x = (key x = key r)" by (rule selects_one)
  qed
  then show ?thesis using distinct_map_filter_one [OF assms(1,2)] by simp
qed

lemma first_keyed:
  assumes "distinct (map key rows)" "r \<in> set rows" "P r"
    and only: "\<And>x. P x \<Longrightarrow> key x = key r"
  shows "sql_first key P rows = Inr r"
  by (intro sql_first_one filter_keyed) (fact assms)+

lemma count_keyed:
  assumes "distinct (map key rows)" "r \<in> set rows" "P r"
    and only: "\<And>x. P x \<Longrightarrow> key x = key r"
  shows "sql_count P rows = 1"
proof -
  have "filter P rows = [r]" by (intro filter_keyed) (fact assms)+
  then show ?thesis by (simp add: sql_count_def)
qed

lemma update_keyed:
  assumes "distinct (map key rows)" "r \<in> set rows" "P r"
    and only: "\<And>x. P x \<Longrightarrow> key x = key r"
    and keep: "key (f r) = key r"
  shows "sql_update (viol s) P f rows =
    (case viol s (replace_row key (f r) rows) of
       Some x \<Rightarrow> Inl x | None \<Rightarrow> Inr (replace_row key (f r) rows, 1))"
proof -
  have sel: "P x \<longleftrightarrow> key x = key r" if "x \<in> set rows" for x
    using assms(1-3) only that by (rule selects_one)
  have "(if P x then f x else x) = (if key x = key (f r) then f r else x)" if "x \<in> set rows" for x
    using sel [OF that] keep distinct_map_unique [OF assms(1) that assms(2)] by auto
  then have "map (\<lambda>x. if P x then f x else x) rows = replace_row key (f r) rows"
    unfolding replace_row_def by (intro map_cong refl)
  moreover have "sql_count P rows = 1" by (intro count_keyed) (fact assms)+
  ultimately show ?thesis by (simp add: sql_update_def Let_def split: option.splits)
qed

lemma reload_keyed:
  assumes "distinct (map key rows)" "r \<in> set rows" "key r' = key r" "Q r'"
    and only: "\<And>x. Q x \<Longrightarrow> key x = key r"
  shows "sql_first key Q (replace_row key r' rows) = Inr r'"
proof (rule first_keyed)
  show "distinct (map key (replace_row key r' rows))" using assms(1) by simp
  show "r' \<in> set (replace_row key r' rows)"
    using set_replace_row [of r rows key r'] assms(2,3) by simp
  show "Q r'" by (rule assms(4))
  show "key x = key r'" if "Q x" for x using only [OF that] assms(3) by simp
qed

text \<open>The statement pair \<open>UPDATE ...; SELECT ...\<close> of every edit.\<close>

lemma update_reload:
  assumes upd: "sql_update (viol s) P f rows = Inr (rows', n)"
    and d: "distinct (map key rows)" and r: "r \<in> set rows" "P r"
    and only: "\<And>x. P x \<Longrightarrow> key x = key r" and keep: "key (f r) = key r"
  shows "rows' = replace_row key (f r) rows" "n = 1" "viol s (replace_row key (f r) rows) = None"
    and "sql_first key Q rows' = Inr r' \<Longrightarrow> key r' = key r \<Longrightarrow> r' = f r"
proof -
  have "sql_update (viol s) P f rows =
    (case viol s (replace_row key (f r) rows) of
       Some x \<Rightarrow> Inl x | None \<Rightarrow> Inr (replace_row key (f r) rows, 1))"
    using d r only keep by (rule update_keyed)
  with upd show rows': "rows' = replace_row key (f r) rows" and "n = 1"
    and "viol s (replace_row key (f r) rows) = None"
    by (auto split: option.splits)
  show "r' = f r" if "sql_first key Q rows' = Inr r'" "key r' = key r"
    using sql_first_Inr [OF that(1)] that(2) keep rows' in_replace_row by metis
qed

text \<open>An \<open>UPDATE\<close> on one key with any further condition: it writes one row or none.\<close>

lemma update_cases:
  assumes upd: "sql_update (viol s) P f rows = Inr (rows', n)" and d: "distinct (map key rows)"
    and only: "\<And>x. P x \<Longrightarrow> key x = k" and keep: "\<And>x. key (f x) = key x"
  shows "n = 0 \<and> rows' = rows \<and> (\<forall>x\<in>set rows. \<not> P x)
    \<or> (\<exists>r\<in>set rows. P r \<and> n = 1 \<and> rows' = replace_row key (f r) rows
          \<and> viol s (replace_row key (f r) rows) = None)"
proof (cases "\<exists>r\<in>set rows. P r")
  case True
  then obtain r where r: "r \<in> set rows" "P r" by blast
  then have "key x = key r" if "P x" for x using only [OF that] only [OF r(2)] by simp
  from update_reload(1-3) [OF upd d r this keep] r show ?thesis by blast
next
  case False
  then have "map (\<lambda>r. if P r then f r else r) rows = rows" by (intro map_idI) auto
  moreover have "n = 0" using upd False by (simp add: sql_update_Inr)
  ultimately show ?thesis using upd False by (simp add: sql_update_Inr)
qed

lemma lookup_keyed:
  assumes "distinct (map key rows)" and "\<And>x. P x \<longleftrightarrow> key x = k \<and> R x"
  shows "sql_first key P rows =
    (case table_map key rows k of
       None \<Rightarrow> Inl ErrRecordNotFound
     | Some r \<Rightarrow> if R r then Inr r else Inl ErrRecordNotFound)"
proof (cases "table_map key rows k")
  case None
  then have "\<forall>x\<in>set rows. \<not> P x" using assms(2) by (auto simp: table_map_None)
  then have "sql_first key P rows = Inl ErrRecordNotFound" by simp
  with None show ?thesis by simp
next
  case (Some r)
  note r = table_map_Some [OF Some]
  show ?thesis
  proof (cases "R r")
    case True
    then have "sql_first key P rows = Inr r"
      using assms r by (intro first_keyed) auto
    with True Some show ?thesis by simp
  next
    case False
    have "\<forall>x\<in>set rows. \<not> P x"
      using assms(2) False r distinct_map_unique [OF assms(1)] by metis
    then have "sql_first key P rows = Inl ErrRecordNotFound" by simp
    with False Some show ?thesis by simp
  qed
qed

lemma delete_keyed:
  assumes "distinct (map key rows)" "r \<in> set rows" "P r"
    and only: "\<And>x. P x \<Longrightarrow> key x = key r"
  shows "sql_delete P rows = (filter (\<lambda>x. key x \<noteq> key r) rows, 1)"
proof -
  have sel: "P x = (key x = key r)" if "x \<in> set rows" for x
    using assms(1-3) only that by (rule selects_one)
  then have "filter (\<lambda>x. \<not> P x) rows = filter (\<lambda>x. key x \<noteq> key r) rows"
    by (intro filter_cong refl) (simp add: sel)
  moreover have "sql_count P rows = 1" by (intro count_keyed) (fact assms)+
  ultimately show ?thesis by (simp add: sql_delete_def)
qed

end

end
