(* ===== verification/GoStrings.thy ===== *)
theory GoStrings
  imports Prelude
begin

text \<open>
  Go strings: a string is its bytes. \<open>segments\<close> reads them the way Go's
  \<open>range\<close> over a string does (\<open>utf8.DecodeRuneInString\<close>): each well-formed UTF-8
  sequence is one rune, each byte that starts none is one U+FFFD of width 1. On it rest
  \<open>utf8.RuneCountInString\<close>, \<open>strings.TrimSpace\<close> and the replacement of malformed bytes
  that \<open>json.Marshal\<close> does.
\<close>

section \<open>Decoding\<close>

definition byte_in :: "nat \<Rightarrow> nat \<Rightarrow> char \<Rightarrow> bool" where
  "byte_in lo hi c \<longleftrightarrow> lo \<le> of_char c \<and> of_char c \<le> hi"

definition lead2 :: "char \<Rightarrow> char \<Rightarrow> bool" where
  "lead2 a b \<longleftrightarrow> byte_in 194 223 a \<and> byte_in 128 191 b"

definition lead3 :: "char \<Rightarrow> char \<Rightarrow> char \<Rightarrow> bool" where
  "lead3 a b c \<longleftrightarrow> byte_in 128 191 c \<and>
     (byte_in 224 224 a \<and> byte_in 160 191 b
      \<or> byte_in 225 236 a \<and> byte_in 128 191 b
      \<or> byte_in 237 237 a \<and> byte_in 128 159 b
      \<or> byte_in 238 239 a \<and> byte_in 128 191 b)"

definition lead4 :: "char \<Rightarrow> char \<Rightarrow> char \<Rightarrow> char \<Rightarrow> bool" where
  "lead4 a b c d \<longleftrightarrow> byte_in 128 191 c \<and> byte_in 128 191 d \<and>
     (byte_in 240 240 a \<and> byte_in 144 191 b
      \<or> byte_in 241 243 a \<and> byte_in 128 191 b
      \<or> byte_in 244 244 a \<and> byte_in 128 143 b)"

definition low6 :: "char \<Rightarrow> nat" where
  "low6 c = of_char c - 128"

definition rune_error :: nat where
  "rune_error = 65533"

text \<open>The first rune of a string and its width, as \<open>utf8.DecodeRuneInString\<close>.\<close>

fun decode_rune :: "string \<Rightarrow> nat \<times> nat" where
  "decode_rune [] = (rune_error, 0)"
| "decode_rune [a] = (if of_char a < (128::nat) then (of_char a, 1) else (rune_error, 1))"
| "decode_rune [a, b] =
     (if of_char a < (128::nat) then (of_char a, 1)
      else if lead2 a b then ((of_char a - 192) * 64 + low6 b, 2)
      else (rune_error, 1))"
| "decode_rune [a, b, c] =
     (if of_char a < (128::nat) then (of_char a, 1)
      else if lead2 a b then ((of_char a - 192) * 64 + low6 b, 2)
      else if lead3 a b c then (((of_char a - 224) * 64 + low6 b) * 64 + low6 c, 3)
      else (rune_error, 1))"
| "decode_rune (a # b # c # d # s) =
     (if of_char a < (128::nat) then (of_char a, 1)
      else if lead2 a b then ((of_char a - 192) * 64 + low6 b, 2)
      else if lead3 a b c then (((of_char a - 224) * 64 + low6 b) * 64 + low6 c, 3)
      else if lead4 a b c d
        then ((((of_char a - 240) * 64 + low6 b) * 64 + low6 c) * 64 + low6 d, 4)
      else (rune_error, 1))"

fun segments :: "string \<Rightarrow> (nat \<times> string) list" where
  "segments [] = []"
| "segments (a # s) =
     (let rw = decode_rune (a # s)
      in (fst rw, take (snd rw) (a # s)) # segments (drop (snd rw - 1) s))"

declare segments.simps(2) [simp del]

definition rune_count :: "string \<Rightarrow> nat" where
  "rune_count s = length (segments s)"

definition runes :: "string \<Rightarrow> nat list" where
  "runes s = map fst (segments s)"

lemma decode_rune_width: "s \<noteq> [] \<Longrightarrow> 1 \<le> snd (decode_rune s) \<and> snd (decode_rune s) \<le> length s"
  by (cases s rule: decode_rune.cases) auto

lemma segments_Cons_eq:
  "s \<noteq> [] \<Longrightarrow> segments s =
     (fst (decode_rune s), take (snd (decode_rune s)) s) # segments (drop (snd (decode_rune s)) s)"
  using decode_rune_width [of s]
  by (cases s) (auto simp: segments.simps(2) Let_def drop_Cons' split: nat.splits)

lemma concat_segments [simp]: "concat (map snd (segments s)) = s"
proof (induction s rule: length_induct)
  case (1 s)
  show ?case
  proof (cases "s = []")
    case False
    let ?w = "snd (decode_rune s)"
    have "length (drop ?w s) < length s"
      using False decode_rune_width [OF False] by simp
    then have "concat (map snd (segments (drop ?w s))) = drop ?w s"
      using "1.IH" by blast
    then show ?thesis using False by (simp add: segments_Cons_eq)
  qed simp
qed

lemma segments_nonempty_bytes: "(r, b) \<in> set (segments s) \<Longrightarrow> b \<noteq> []"
proof (induction s rule: length_induct)
  case (1 s)
  show ?case
  proof (cases "s = []")
    case True
    with "1.prems" show ?thesis by simp
  next
    case False
    let ?w = "snd (decode_rune s)"
    have w: "1 \<le> ?w" and "length (drop ?w s) < length s"
      using False decode_rune_width [OF False] by simp_all
    with "1.IH" have IH: "(r, b) \<in> set (segments (drop ?w s)) \<Longrightarrow> b \<noteq> []" by blast
    from "1.prems" False have "(r, b) = (fst (decode_rune s), take ?w s) \<or> (r, b) \<in> set (segments (drop ?w s))"
      by (simp add: segments_Cons_eq)
    then show ?thesis using IH w False by auto
  qed
qed

lemma segments_eq_Nil [simp]: "segments s = [] \<longleftrightarrow> s = []"
  by (cases s) (auto simp: segments.simps(2) Let_def)

text \<open>
  What a rune decodes to depends on no byte after it: a prefix that still holds it
  decodes the same.
\<close>

lemma decode_rune_prefix:
  assumes "xs \<noteq> []" "snd (decode_rune (xs @ ys)) \<le> length xs"
  shows "decode_rune xs = decode_rune (xs @ ys)"
proof -
  obtain a s where xs: "xs = a # s" using assms(1) by (cases xs) auto
  consider "s = []" | b where "s = [b]" | b c where "s = [b, c]" | b c d t where "s = b # c # d # t"
    by (metis list.exhaust)
  then show ?thesis
  proof cases
    case 1
    then show ?thesis using assms(2) xs
      by (cases "a # ys" rule: decode_rune.cases) (auto split: if_splits)
  next
    case (2 b)
    then show ?thesis using assms(2) xs
      by (cases "a # b # ys" rule: decode_rune.cases) (auto split: if_splits)
  next
    case (3 b c)
    then show ?thesis using assms(2) xs
      by (cases "a # b # c # ys" rule: decode_rune.cases) (auto split: if_splits)
  next
    case (4 b c d t)
    then show ?thesis using xs by simp
  qed
qed

text \<open>So any run of consecutive segments of a string is how its own bytes decode.\<close>

lemma segments_suffix:
  "segments s = ps @ qs \<Longrightarrow> segments (concat (map snd qs)) = qs"
proof (induction ps arbitrary: s)
  case Nil
  then show ?case by (metis append_Nil concat_segments)
next
  case (Cons p ps)
  then have "s \<noteq> []" by auto
  with Cons.prems have "segments (drop (snd (decode_rune s)) s) = ps @ qs"
    by (simp add: segments_Cons_eq)
  then show ?case by (rule Cons.IH)
qed

lemma segments_prefix:
  "segments s = ps @ qs \<Longrightarrow> segments (concat (map snd ps)) = ps"
proof (induction ps arbitrary: s)
  case Nil
  then show ?case by simp
next
  case (Cons p ps)
  let ?d = "decode_rune s" and ?rest = "concat (map snd ps)"
  have s: "s \<noteq> []" using Cons.prems by auto
  then have p: "p = (fst ?d, take (snd ?d) s)" and tl: "segments (drop (snd ?d) s) = ps @ qs"
    using Cons.prems by (simp_all add: segments_Cons_eq)
  have IH: "segments ?rest = ps" by (rule Cons.IH [OF tl])
  have w: "1 \<le> snd ?d" "snd ?d \<le> length s" using decode_rune_width [OF s] by auto
  have rest: "drop (snd ?d) s = ?rest @ concat (map snd qs)"
    using tl by (metis concat_append concat_segments map_append)
  let ?t = "take (snd ?d) s @ ?rest"
  have "s = ?t @ concat (map snd qs)" using rest by (metis append.assoc append_take_drop_id)
  then have dt: "decode_rune ?t = ?d"
    using decode_rune_prefix [of ?t "concat (map snd qs)"] s w by (auto simp: take_eq_Nil)
  have ne: "?t \<noteq> []" using s w by (auto simp: take_eq_Nil)
  have "segments ?t = p # ps"
    using segments_Cons_eq [OF ne] dt IH p w by (simp add: min_def)
  then show ?case using p by simp
qed

section \<open>strings.TrimSpace\<close>

text \<open>\<open>unicode.IsSpace\<close>: the Latin-1 spaces, then the other runes of \<open>White_Space\<close>.\<close>

definition is_space :: "nat \<Rightarrow> bool" where
  "is_space r \<longleftrightarrow> (9 \<le> r \<and> r \<le> 13) \<or> r = 32 \<or> r = 133 \<or> r = 160 \<or> r = 5760
     \<or> (8192 \<le> r \<and> r \<le> 8202) \<or> r = 8232 \<or> r = 8233 \<or> r = 8239 \<or> r = 8287 \<or> r = 12288"

definition strip :: "('a \<Rightarrow> bool) \<Rightarrow> 'a list \<Rightarrow> 'a list" where
  "strip P xs = rev (dropWhile P (rev (dropWhile P xs)))"

definition trim_space :: "string \<Rightarrow> string" where
  "trim_space s = concat (map snd (strip (\<lambda>x. is_space (fst x)) (segments s)))"

lemma strip_infix: "\<exists>ps qs. xs = ps @ strip P xs @ qs"
proof -
  have "xs = takeWhile P xs @ dropWhile P xs" by simp
  moreover have "dropWhile P xs =
      strip P xs @ rev (takeWhile P (rev (dropWhile P xs)))"
    unfolding strip_def by (metis rev_append rev_rev_ident takeWhile_dropWhile_id)
  ultimately show ?thesis by metis
qed

lemma strip_length: "length (strip P xs) \<le> length xs"
  by (metis strip_infix length_append le_add1 le_add2 le_trans)

lemma hd_dropWhile_False: "dropWhile P xs \<noteq> [] \<Longrightarrow> \<not> P (hd (dropWhile P xs))"
  by (rule hd_dropWhile)

lemma strip_ends:
  assumes "strip P xs \<noteq> []"
  shows "\<not> P (hd (strip P xs)) \<and> \<not> P (last (strip P xs))"
proof -
  let ?d = "dropWhile P xs"
  have ne: "dropWhile P (rev ?d) \<noteq> []" using assms by (simp add: strip_def)
  then have last: "\<not> P (last (strip P xs))"
    using hd_dropWhile [OF ne] by (simp add: strip_def last_rev)
  have d: "?d \<noteq> []" using ne by (metis dropWhile.simps(1) rev.simps(1))
  have "?d = strip P xs @ rev (takeWhile P (rev ?d))"
    unfolding strip_def by (metis rev_append rev_rev_ident takeWhile_dropWhile_id)
  then have "hd ?d = hd (strip P xs)" using assms by (metis hd_append2)
  then show ?thesis using hd_dropWhile [OF d] last by simp
qed

lemma strip_idem [simp]: "strip P (strip P xs) = strip P xs"
proof (cases "strip P xs = []")
  case False
  let ?s = "strip P xs"
  have "dropWhile P ?s = ?s"
    using strip_ends [OF False] False by (metis dropWhile_eq_self_iff)
  moreover have "dropWhile P (rev ?s) = rev ?s"
    using strip_ends [OF False] False
    by (metis dropWhile_eq_self_iff hd_rev)
  ultimately show ?thesis by (metis rev_rev_ident strip_def)
next
  case True
  then show ?thesis by (simp only: True) (simp add: strip_def)
qed

text \<open>The trimmed string decodes into exactly the segments that were kept.\<close>

lemma segments_trim_space:
  "segments (trim_space s) = strip (\<lambda>x. is_space (fst x)) (segments s)"
proof -
  obtain ps qs where "segments s = ps @ strip (\<lambda>x. is_space (fst x)) (segments s) @ qs"
    using strip_infix by blast
  then show ?thesis unfolding trim_space_def
    by (metis segments_prefix segments_suffix)
qed

lemma trim_space_idem [simp]: "trim_space (trim_space s) = trim_space s"
  by (metis segments_trim_space strip_idem trim_space_def)

lemma rune_count_trim_space: "rune_count (trim_space s) \<le> rune_count s"
  by (simp add: rune_count_def segments_trim_space strip_length)

lemma trim_space_no_outer_space:
  assumes "trim_space s \<noteq> []"
  shows "\<not> is_space (hd (runes (trim_space s))) \<and> \<not> is_space (last (runes (trim_space s)))"
proof -
  have "segments (trim_space s) \<noteq> []" using assms by simp
  then have "strip (\<lambda>x. is_space (fst x)) (segments s) \<noteq> []" by (simp add: segments_trim_space)
  from strip_ends [OF this] show ?thesis
    using \<open>segments (trim_space s) \<noteq> []\<close>
    by (simp add: runes_def segments_trim_space hd_map last_map)
qed

lemma rune_count_0 [simp]: "rune_count s = 0 \<longleftrightarrow> s = []"
  by (simp add: rune_count_def)

section \<open>Well-formed strings\<close>

text \<open>\<open>utf8.ValidString\<close>: no byte decodes to a replacement rune of width 1.\<close>

definition bad_segment :: "nat \<times> string \<Rightarrow> bool" where
  "bad_segment x \<longleftrightarrow> fst x = rune_error \<and> length (snd x) = 1"

definition valid_utf8 :: "string \<Rightarrow> bool" where
  "valid_utf8 s \<longleftrightarrow> list_all (\<lambda>x. \<not> bad_segment x) (segments s)"

text \<open>What \<open>json.Marshal\<close> keeps of a string: malformed bytes become U+FFFD.\<close>

definition coerce_utf8 :: "string \<Rightarrow> string" where
  "coerce_utf8 s =
     concat (map (\<lambda>x. if bad_segment x then [CHR 0xEF, CHR 0xBF, CHR 0xBD] else snd x) (segments s))"

lemma coerce_utf8_valid [simp]: "valid_utf8 s \<Longrightarrow> coerce_utf8 s = s"
proof -
  assume "valid_utf8 s"
  then have "map (\<lambda>x. if bad_segment x then [CHR 0xEF, CHR 0xBF, CHR 0xBD] else snd x) (segments s)
      = map snd (segments s)"
    by (simp add: valid_utf8_def list_all_iff)
  then show ?thesis unfolding coerce_utf8_def by (simp only: concat_segments)
qed

lemma valid_utf8_trim_space: "valid_utf8 s \<Longrightarrow> valid_utf8 (trim_space s)"
proof -
  assume v: "valid_utf8 s"
  obtain ps qs where "segments s = ps @ strip (\<lambda>x. is_space (fst x)) (segments s) @ qs"
    using strip_infix by blast
  then have "set (strip (\<lambda>x. is_space (fst x)) (segments s)) \<subseteq> set (segments s)"
    by (metis Un_iff set_append subsetI)
  with v show ?thesis by (auto simp: valid_utf8_def list_all_iff segments_trim_space)
qed

text \<open>In an ASCII string every byte is a rune.\<close>

lemma segments_ascii_Cons: "of_char c < (128::nat) \<Longrightarrow> segments (c # s) = (of_char c, [c]) # segments s"
  by (cases "c # s" rule: decode_rune.cases) (auto simp: segments.simps(2) Let_def)

lemma valid_utf8_ascii: "list_all (\<lambda>c. of_char c < (128::nat)) s \<Longrightarrow> valid_utf8 s"
  by (induction s)
    (auto simp: valid_utf8_def segments_ascii_Cons bad_segment_def rune_error_def)

lemma rune_count_ascii: "list_all (\<lambda>c. of_char c < (128::nat)) s \<Longrightarrow> rune_count s = length s"
  by (induction s) (auto simp: rune_count_def segments_ascii_Cons)

section \<open>Numbers\<close>

text \<open>Decimal digits, as \<open>%d\<close> prints them.\<close>

fun dec :: "nat \<Rightarrow> string" where
  "dec n = (if n < 10 then [char_of (48 + n)] else dec (n div 10) @ [char_of (48 + n mod 10)])"

declare dec.simps [simp del]

text \<open>\<open>%d\<close> of a signed integer and \<open>%0nd\<close>, zeros up to the width after the sign.\<close>

definition dec_int :: "int \<Rightarrow> string" where
  "dec_int n = (if n < 0 then CHR ''-'' # dec (nat (- n)) else dec (nat n))"

definition dec_pad :: "nat \<Rightarrow> nat \<Rightarrow> string" where
  "dec_pad width n = replicate (width - length (dec n)) (CHR ''0'') @ dec n"

definition digit :: "char \<Rightarrow> bool" where
  "digit c \<longleftrightarrow> byte_in 48 57 c"

lemma dec_digits: "list_all digit (dec n)"
proof (induction n rule: dec.induct)
  case (1 n)
  have d: "digit (char_of (48 + m))" if "m < 10" for m :: nat
    using that by (simp add: digit_def byte_in_def)
  show ?case
  proof (cases "n < 10")
    case True
    then show ?thesis using d [of n] by (subst dec.simps) simp
  next
    case False
    then show ?thesis using d [of "n mod 10"] 1 by (subst dec.simps) simp
  qed
qed

lemma dec_pad_digits: "list_all digit (dec_pad width n)"
  using dec_digits by (auto simp: dec_pad_def list_all_iff digit_def byte_in_def)

lemma dec_not_Nil [simp]: "dec n \<noteq> []"
  by (subst dec.simps) simp

text \<open>\<open>hex.EncodeToString\<close>.\<close>

definition hex_digit :: "nat \<Rightarrow> char" where
  "hex_digit n = char_of (if n < 10 then 48 + n else 87 + n)"

definition hex_encode :: "nat list \<Rightarrow> string" where
  "hex_encode bs = concat (map (\<lambda>b. [hex_digit (b div 16 mod 16), hex_digit (b mod 16)]) bs)"

definition hex_char :: "char \<Rightarrow> bool" where
  "hex_char c \<longleftrightarrow> byte_in 48 57 c \<or> byte_in 97 102 c"

lemma hex_encode_chars: "list_all hex_char (hex_encode bs)"
proof -
  have "hex_char (hex_digit (n mod 16))" for n
  proof -
    have "n mod 16 < 16" by simp
    then show ?thesis by (auto simp: hex_char_def hex_digit_def byte_in_def)
  qed
  then show ?thesis by (auto simp: hex_encode_def list_all_iff)
qed

lemma length_hex_encode [simp]: "length (hex_encode bs) = 2 * length bs"
  by (induction bs) (simp_all add: hex_encode_def)

text \<open>\<open>string([]rune(s)[:n])\<close>.\<close>

definition take_runes :: "nat \<Rightarrow> string \<Rightarrow> string" where
  "take_runes n s =
     concat (map (\<lambda>x. if bad_segment x then [CHR 0xEF, CHR 0xBF, CHR 0xBD] else snd x)
       (take n (segments s)))"

end
