(* ===== verification/Json.thy ===== *)
theory Json
  imports GoStrings
begin

text \<open>
  The JSON columns. A \<open>jsonb\<close> column holds one JSON value; \<open>marshal_*\<close> is what
  \<open>json.Marshal\<close> writes for the Go types of the parse results and \<open>unmarshal_*\<close> what
  \<open>json.Unmarshal\<close> (or a \<open>Decoder\<close> with \<open>DisallowUnknownFields\<close>) reads back. A Go
  slice is an \<open>option\<close> of a list: \<open>None\<close> is \<open>nil\<close>, which encodes as \<open>null\<close>. How
  \<open>time.Time\<close> prints and parses (RFC 3339) is a parameter, \<open>time_codec\<close>.
\<close>

datatype json =
    JNull
  | JBool bool
  | JNum string
  | JStr string
  | JArr "json list"
  | JObj "(string \<times> json) list"

record time_codec =
  fmt_time :: "int \<Rightarrow> string"
  parse_time :: "string \<Rightarrow> int option"

definition codec_ok :: "time_codec \<Rightarrow> bool" where
  "codec_ok c \<longleftrightarrow> (\<forall>t. valid_utf8 (fmt_time c t) \<and> parse_time c (fmt_time c t) = Some t)"

text \<open>\<open>types.GeneratedTask\<close>, also \<open>ai.GeneratedTask\<close>.\<close>

record generated_task =
  gt_title :: string
  gt_description :: "string option"
  gt_priority :: string
  gt_deadline :: "int option"

section \<open>Marshal\<close>

definition marshal_string :: "string \<Rightarrow> json" where
  "marshal_string s = JStr (coerce_utf8 s)"

definition marshal_strings :: "string list option \<Rightarrow> json" where
  "marshal_strings xs = (case xs of None \<Rightarrow> JNull | Some ys \<Rightarrow> JArr (map marshal_string ys))"

definition marshal_task :: "time_codec \<Rightarrow> generated_task \<Rightarrow> json" where
  "marshal_task c t = JObj
     [(''title'', marshal_string (gt_title t)),
      (''description'', case gt_description t of None \<Rightarrow> JNull | Some d \<Rightarrow> marshal_string d),
      (''priority'', marshal_string (gt_priority t)),
      (''deadline'', case gt_deadline t of None \<Rightarrow> JNull | Some d \<Rightarrow> JStr (fmt_time c d))]"

definition marshal_tasks :: "time_codec \<Rightarrow> generated_task list option \<Rightarrow> json" where
  "marshal_tasks c ts = (case ts of None \<Rightarrow> JNull | Some xs \<Rightarrow> JArr (map (marshal_task c) xs))"

section \<open>Unmarshal\<close>

text \<open>
  Object keys match field names up to case folding: ASCII letters, and the two other
  letters that fold into ASCII, U+017F to s and U+212A to k.
\<close>

definition lower_char :: "char \<Rightarrow> char" where
  "lower_char c = (if byte_in 65 90 c then char_of (of_char c + 32 :: nat) else c)"

definition fold_segment :: "nat \<times> string \<Rightarrow> string" where
  "fold_segment x =
     (if fst x = 383 then ''s'' else if fst x = 8490 then ''k'' else map lower_char (snd x))"

definition fold_key :: "string \<Rightarrow> string" where
  "fold_key s = concat (map fold_segment (segments s))"

definition unmarshal_text :: "string \<Rightarrow> json \<Rightarrow> string option" where
  "unmarshal_text old j = (case j of JNull \<Rightarrow> Some old | JStr s \<Rightarrow> Some s | _ \<Rightarrow> None)"

definition unmarshal_text_ptr :: "json \<Rightarrow> string option option" where
  "unmarshal_text_ptr j = (case j of JNull \<Rightarrow> Some None | JStr s \<Rightarrow> Some (Some s) | _ \<Rightarrow> None)"

definition unmarshal_time_ptr :: "time_codec \<Rightarrow> json \<Rightarrow> int option option" where
  "unmarshal_time_ptr c j =
     (case j of JNull \<Rightarrow> Some None | JStr s \<Rightarrow> map_option Some (parse_time c s) | _ \<Rightarrow> None)"

text \<open>A list of values read one by one; one failure fails the whole.\<close>

fun unmarshal_all :: "('a \<Rightarrow> 'b option) \<Rightarrow> 'a list \<Rightarrow> 'b list option" where
  "unmarshal_all f [] = Some []"
| "unmarshal_all f (x # xs) =
     (case f x of
        None \<Rightarrow> None
      | Some y \<Rightarrow> (case unmarshal_all f xs of None \<Rightarrow> None | Some ys \<Rightarrow> Some (y # ys)))"

definition unmarshal_slice :: "(json \<Rightarrow> 'b option) \<Rightarrow> json \<Rightarrow> 'b list option option" where
  "unmarshal_slice f j =
     (case j of JNull \<Rightarrow> Some None | JArr xs \<Rightarrow> map_option Some (unmarshal_all f xs) | _ \<Rightarrow> None)"

definition unmarshal_strings :: "json \<Rightarrow> string list option option" where
  "unmarshal_strings = unmarshal_slice (unmarshal_text [])"

definition unmarshal_field ::
  "time_codec \<Rightarrow> bool \<Rightarrow> string \<times> json \<Rightarrow> generated_task \<Rightarrow> generated_task option" where
  "unmarshal_field c strict kv t =
     (let k = fold_key (fst kv); v = snd kv in
      if k = ''title'' then
        map_option (\<lambda>s. t\<lparr>gt_title := s\<rparr>) (unmarshal_text (gt_title t) v)
      else if k = ''description'' then
        map_option (\<lambda>d. t\<lparr>gt_description := d\<rparr>) (unmarshal_text_ptr v)
      else if k = ''priority'' then
        map_option (\<lambda>s. t\<lparr>gt_priority := s\<rparr>) (unmarshal_text (gt_priority t) v)
      else if k = ''deadline'' then
        map_option (\<lambda>d. t\<lparr>gt_deadline := d\<rparr>) (unmarshal_time_ptr c v)
      else if strict then None else Some t)"

fun unmarshal_fields ::
  "time_codec \<Rightarrow> bool \<Rightarrow> (string \<times> json) list \<Rightarrow> generated_task \<Rightarrow> generated_task option" where
  "unmarshal_fields c strict [] t = Some t"
| "unmarshal_fields c strict (kv # kvs) t =
     (case unmarshal_field c strict kv t of
        None \<Rightarrow> None | Some t' \<Rightarrow> unmarshal_fields c strict kvs t')"

definition zero_task :: generated_task where
  "zero_task = \<lparr>gt_title = [], gt_description = None, gt_priority = [], gt_deadline = None\<rparr>"

definition unmarshal_task :: "time_codec \<Rightarrow> bool \<Rightarrow> json \<Rightarrow> generated_task option" where
  "unmarshal_task c strict j =
     (case j of
        JNull \<Rightarrow> Some zero_task
      | JObj kvs \<Rightarrow> unmarshal_fields c strict kvs zero_task
      | _ \<Rightarrow> None)"

definition unmarshal_tasks ::
  "time_codec \<Rightarrow> bool \<Rightarrow> json \<Rightarrow> generated_task list option option" where
  "unmarshal_tasks c strict = unmarshal_slice (unmarshal_task c strict)"

section \<open>Round trips\<close>

definition valid_task :: "generated_task \<Rightarrow> bool" where
  "valid_task t \<longleftrightarrow> valid_utf8 (gt_title t) \<and> valid_utf8 (gt_priority t)
     \<and> (case gt_description t of None \<Rightarrow> True | Some d \<Rightarrow> valid_utf8 d)"

lemma fold_key_ascii:
  "list_all (\<lambda>c. of_char c < (128::nat)) s \<Longrightarrow> fold_key s = map lower_char s"
  by (induction s) (auto simp: fold_key_def segments_ascii_Cons fold_segment_def)

lemma fold_key_fields [simp]:
  "fold_key ''title'' = ''title''" "fold_key ''description'' = ''description''"
  "fold_key ''priority'' = ''priority''" "fold_key ''deadline'' = ''deadline''"
  by (simp_all add: fold_key_ascii lower_char_def byte_in_def)

lemma unmarshal_field_named [simp]:
  "unmarshal_field c strict (''title'', v) t =
     map_option (\<lambda>s. t\<lparr>gt_title := s\<rparr>) (unmarshal_text (gt_title t) v)"
  "unmarshal_field c strict (''description'', v) t =
     map_option (\<lambda>d. t\<lparr>gt_description := d\<rparr>) (unmarshal_text_ptr v)"
  "unmarshal_field c strict (''priority'', v) t =
     map_option (\<lambda>s. t\<lparr>gt_priority := s\<rparr>) (unmarshal_text (gt_priority t) v)"
  "unmarshal_field c strict (''deadline'', v) t =
     map_option (\<lambda>d. t\<lparr>gt_deadline := d\<rparr>) (unmarshal_time_ptr c v)"
  by (simp_all add: unmarshal_field_def)

text \<open>What survives a round trip: everything, with malformed UTF-8 replaced.\<close>

definition coerce_task :: "generated_task \<Rightarrow> generated_task" where
  "coerce_task t = t\<lparr>gt_title := coerce_utf8 (gt_title t),
     gt_description := map_option coerce_utf8 (gt_description t),
     gt_priority := coerce_utf8 (gt_priority t)\<rparr>"

lemma coerce_task_valid [simp]: "valid_task t \<Longrightarrow> coerce_task t = t"
  by (cases "gt_description t") (simp_all add: coerce_task_def valid_task_def)

lemma unmarshal_marshal_text [simp]:
  "unmarshal_text old (marshal_string s) = Some (coerce_utf8 s)"
  by (simp add: unmarshal_text_def marshal_string_def)

lemma unmarshal_marshal_text_ptr [simp]:
  "unmarshal_text_ptr (case d of None \<Rightarrow> JNull | Some x \<Rightarrow> marshal_string x) =
   Some (map_option coerce_utf8 d)"
  by (cases d) (simp_all add: unmarshal_text_ptr_def marshal_string_def)

lemma unmarshal_marshal_time_ptr [simp]:
  "codec_ok c \<Longrightarrow>
   unmarshal_time_ptr c (case d of None \<Rightarrow> JNull | Some x \<Rightarrow> JStr (fmt_time c x)) = Some d"
  by (cases d) (simp_all add: unmarshal_time_ptr_def codec_ok_def)

lemma unmarshal_marshal_task:
  "codec_ok c \<Longrightarrow> unmarshal_task c strict (marshal_task c t) = Some (coerce_task t)"
  by (simp add: unmarshal_task_def marshal_task_def zero_task_def coerce_task_def)

lemma unmarshal_marshal_tasks:
  assumes "codec_ok c"
  shows "unmarshal_tasks c strict (marshal_tasks c (Some ts)) = Some (Some (map coerce_task ts))"
proof -
  have "unmarshal_all (unmarshal_task c strict) (map (marshal_task c) ts) = Some (map coerce_task ts)"
    by (induction ts) (simp_all add: unmarshal_marshal_task [OF assms])
  then show ?thesis by (simp add: unmarshal_tasks_def marshal_tasks_def unmarshal_slice_def)
qed

lemma unmarshal_marshal_strings:
  "unmarshal_strings (marshal_strings (Some xs)) = Some (Some (map coerce_utf8 xs))"
proof -
  have "unmarshal_all (unmarshal_text []) (map marshal_string xs) = Some (map coerce_utf8 xs)"
    by (induction xs) simp_all
  then show ?thesis by (simp add: unmarshal_strings_def marshal_strings_def unmarshal_slice_def)
qed

lemma map_coerce_valid [simp]:
  "list_all valid_utf8 xs \<Longrightarrow> map coerce_utf8 xs = xs"
  "list_all valid_task ts \<Longrightarrow> map coerce_task ts = ts"
  by (simp_all add: list_all_iff map_idI)

section \<open>Normal forms\<close>

text \<open>The distinct values of a list, in the order of their first occurrences.\<close>

fun first_occurrences :: "'a list \<Rightarrow> 'a list" where
  "first_occurrences [] = []"
| "first_occurrences (x # xs) = x # filter (\<lambda>y. y \<noteq> x) (first_occurrences xs)"

lemma set_first_occurrences [simp]: "set (first_occurrences xs) = set xs"
  by (induction xs) auto

lemma distinct_first_occurrences [simp]: "distinct (first_occurrences xs)"
  by (induction xs) auto

lemma first_occurrences_distinct [simp]: "distinct xs \<Longrightarrow> first_occurrences xs = xs"
proof (induction xs)
  case (Cons x xs)
  then have "filter (\<lambda>y. y \<noteq> x) xs = xs" by (auto simp: filter_id_conv)
  with Cons show ?case by simp
qed simp

lemma length_first_occurrences: "length (first_occurrences xs) \<le> length xs"
  by (induction xs) (auto intro: le_trans [OF length_filter_le])

text \<open>A task in normal form: what validation lets through, and leaves alone.\<close>

definition normal_task :: "generated_task \<Rightarrow> bool" where
  "normal_task g \<longleftrightarrow>
     trim_space (gt_title g) = gt_title g \<and> gt_title g \<noteq> [] \<and> rune_count (gt_title g) \<le> 255
     \<and> (case gt_description g of
          None \<Rightarrow> True
        | Some d \<Rightarrow> trim_space d = d \<and> d \<noteq> [] \<and> rune_count d \<le> 2000)
     \<and> (gt_priority g = ''low'' \<or> gt_priority g = ''medium'' \<or> gt_priority g = ''high'')"

lemmas ascii_simps =
  trim_space_def strip_def is_space_def segments_ascii_Cons rune_count_ascii

lemma valid_utf8_priority: "valid_utf8 ''low''" "valid_utf8 ''medium''" "valid_utf8 ''high''"
  by (simp_all add: valid_utf8_ascii)


end
