(* ===== verification/Schema.thy ===== *)
theory Schema
  imports Store Json
begin

text \<open>
  The rows of \<open>model/\<close>, the database they form, and the constraints of
  \<open>scripts/migrate.sql\<close>. Each \<open>*_violation\<close> gives the error a statement raises when it
  would leave its table with those contents: a CHECK or NOT NULL first, a primary key or
  unique index next, a foreign key last. Every table interprets \<open>keyed_table\<close>.
\<close>

section \<open>Rows\<close>

record user =
  u_id :: int
  u_email :: string
  u_password_hash :: string
  u_nickname :: string
  u_avatar_url :: "string option"
  u_status :: int
  u_created_at :: int
  u_updated_at :: int

record document =
  doc_id :: int
  doc_user_id :: int
  doc_source_type :: string
  doc_title :: "string option"
  doc_file_name :: "string option"
  doc_file_url :: "string option"
  doc_raw_text :: "string option"
  doc_text_input :: "string option"
  doc_page_count :: "int option"
  doc_file_size :: "int option"
  doc_status :: string
  doc_created_at :: int
  doc_updated_at :: int
  doc_deleted_at :: "int option"

record parse_job =
  job_id :: int
  job_user_id :: int
  job_document_id :: int
  job_job_type :: string
  job_status :: string
  job_retry_count :: int
  job_error_message :: "string option"
  job_started_at :: "int option"
  job_finished_at :: "int option"
  job_created_at :: int
  job_updated_at :: int

record parse_result =
  res_id :: int
  res_user_id :: int
  res_document_id :: int
  res_parse_job_id :: int
  res_title :: string
  res_summary :: string
  res_deadline :: "int option"
  res_deliverables :: json
  res_key_requirements :: json
  res_risk_warnings :: json
  res_generated_tasks :: json
  res_ai_model :: "string option"
  res_version :: int
  res_is_confirmed :: bool
  res_created_at :: int
  res_updated_at :: int

record project =
  prj_id :: int
  prj_user_id :: int
  prj_source_document_id :: int
  prj_parse_result_id :: int
  prj_name :: string
  prj_description :: "string option"
  prj_deadline :: "int option"
  prj_status :: string
  prj_version :: int
  prj_created_at :: int
  prj_updated_at :: int

record task =
  tsk_id :: int
  tsk_project_id :: int
  tsk_user_id :: int
  tsk_source_parse_result_id :: "int option"
  tsk_title :: string
  tsk_description :: "string option"
  tsk_status :: string
  tsk_priority :: string
  tsk_deadline :: "int option"
  tsk_sort_order :: int
  tsk_source_type :: string
  tsk_version :: int
  tsk_created_at :: int
  tsk_updated_at :: int

record db =
  users :: "user list"
  documents :: "document list"
  parse_jobs :: "parse_job list"
  parse_results :: "parse_result list"
  projects :: "project list"
  tasks :: "task list"

section \<open>Constraints\<close>

definition int4 :: "int \<Rightarrow> bool" where
  "int4 x \<longleftrightarrow> - 2147483648 \<le> x \<and> x \<le> 2147483647"

definition varchar :: "nat \<Rightarrow> string option \<Rightarrow> bool" where
  "varchar n s = (case s of None \<Rightarrow> True | Some t \<Rightarrow> rune_count t \<le> n)"

definition active_status :: "string \<Rightarrow> bool" where
  "active_status st \<longleftrightarrow> st = ''pending'' \<or> st = ''processing''"

definition document_check :: "document \<Rightarrow> bool" where
  "document_check d \<longleftrightarrow>
     (doc_source_type d = ''pdf'' \<and> doc_file_name d \<noteq> None \<and> doc_file_url d \<noteq> None
      \<or> doc_source_type d = ''text'' \<and> doc_text_input d \<noteq> None)
     \<and> (doc_status d = ''uploaded'' \<or> doc_status d = ''ready'' \<or> doc_status d = ''failed'')
     \<and> varchar 255 (doc_title d) \<and> varchar 255 (doc_file_name d) \<and> varchar 500 (doc_file_url d)"

definition parse_job_check :: "parse_job \<Rightarrow> bool" where
  "parse_job_check j \<longleftrightarrow>
     job_job_type j = ''ai_parse''
     \<and> (job_status j = ''pending'' \<or> job_status j = ''processing''
        \<or> job_status j = ''success'' \<or> job_status j = ''failed'')
     \<and> 0 \<le> job_retry_count j \<and> int4 (job_retry_count j)"

definition parse_result_check :: "parse_result \<Rightarrow> bool" where
  "parse_result_check r \<longleftrightarrow>
     1 \<le> res_version r \<and> int4 (res_version r)
     \<and> varchar 255 (Some (res_title r)) \<and> varchar 64 (res_ai_model r)"

definition project_check :: "project \<Rightarrow> bool" where
  "project_check p \<longleftrightarrow>
     (prj_status p = ''active'' \<or> prj_status p = ''archived'' \<or> prj_status p = ''deleted'')
     \<and> 1 \<le> prj_version p \<and> int4 (prj_version p) \<and> varchar 255 (Some (prj_name p))"

definition task_check :: "task \<Rightarrow> bool" where
  "task_check t \<longleftrightarrow>
     (tsk_status t = ''todo'' \<or> tsk_status t = ''doing'' \<or> tsk_status t = ''done'')
     \<and> (tsk_priority t = ''low'' \<or> tsk_priority t = ''medium'' \<or> tsk_priority t = ''high'')
     \<and> (tsk_source_type t = ''ai'' \<or> tsk_source_type t = ''manual'')
     \<and> 0 \<le> tsk_sort_order t \<and> int4 (tsk_sort_order t)
     \<and> 1 \<le> tsk_version t \<and> int4 (tsk_version t) \<and> varchar 255 (Some (tsk_title t))"

text \<open>The order in which a statement meets the constraints.\<close>

definition violation :: "bool \<Rightarrow> bool \<Rightarrow> bool \<Rightarrow> db_error option" where
  "violation checks uniques refs =
     (if \<not> checks then Some ErrConstraintViolated
      else if \<not> uniques then Some ErrDuplicatedKey
      else if \<not> refs then Some ErrConstraintViolated
      else None)"

lemma violation_None [simp]: "violation c u r = None \<longleftrightarrow> c \<and> u \<and> r"
  by (simp add: violation_def)

definition document_refs :: "db \<Rightarrow> document \<Rightarrow> bool" where
  "document_refs s d \<longleftrightarrow> doc_user_id d \<in> u_id ` set (users s)"

definition parse_job_refs :: "db \<Rightarrow> parse_job \<Rightarrow> bool" where
  "parse_job_refs s j \<longleftrightarrow>
     job_user_id j \<in> u_id ` set (users s) \<and> job_document_id j \<in> doc_id ` set (documents s)"

definition parse_result_refs :: "db \<Rightarrow> parse_result \<Rightarrow> bool" where
  "parse_result_refs s r \<longleftrightarrow>
     res_user_id r \<in> u_id ` set (users s) \<and> res_document_id r \<in> doc_id ` set (documents s)
     \<and> res_parse_job_id r \<in> job_id ` set (parse_jobs s)"

definition project_refs :: "db \<Rightarrow> project \<Rightarrow> bool" where
  "project_refs s p \<longleftrightarrow>
     prj_user_id p \<in> u_id ` set (users s)
     \<and> prj_source_document_id p \<in> doc_id ` set (documents s)
     \<and> prj_parse_result_id p \<in> res_id ` set (parse_results s)"

definition task_refs :: "db \<Rightarrow> task \<Rightarrow> bool" where
  "task_refs s t \<longleftrightarrow>
     tsk_project_id t \<in> prj_id ` set (projects s) \<and> tsk_user_id t \<in> u_id ` set (users s)
     \<and> set_option (tsk_source_parse_result_id t) \<subseteq> res_id ` set (parse_results s)"

definition documents_violation :: "db \<Rightarrow> document list \<Rightarrow> db_error option" where
  "documents_violation s ds =
     violation (list_all document_check ds) (distinct (map doc_id ds))
       (list_all (document_refs s) ds)"

text \<open>\<open>uq_parse_jobs_active_document\<close> is a partial unique index.\<close>

definition parse_jobs_violation :: "db \<Rightarrow> parse_job list \<Rightarrow> db_error option" where
  "parse_jobs_violation s js =
     violation (list_all parse_job_check js)
       (distinct (map job_id js)
        \<and> distinct (map job_document_id (filter (\<lambda>j. active_status (job_status j)) js)))
       (list_all (parse_job_refs s) js)"

definition parse_results_violation :: "db \<Rightarrow> parse_result list \<Rightarrow> db_error option" where
  "parse_results_violation s rs =
     violation (list_all parse_result_check rs)
       (distinct (map res_id rs) \<and> distinct (map res_parse_job_id rs))
       (list_all (parse_result_refs s) rs)"

definition projects_violation :: "db \<Rightarrow> project list \<Rightarrow> db_error option" where
  "projects_violation s ps =
     violation (list_all project_check ps)
       (distinct (map prj_id ps) \<and> distinct (map prj_parse_result_id ps))
       (list_all (project_refs s) ps)"

definition tasks_violation :: "db \<Rightarrow> task list \<Rightarrow> db_error option" where
  "tasks_violation s ts =
     violation (list_all task_check ts) (distinct (map tsk_id ts)) (list_all (task_refs s) ts)"

lemmas violation_defs =
  documents_violation_def parse_jobs_violation_def parse_results_violation_def
  projects_violation_def tasks_violation_def

lemmas refs_defs =
  document_refs_def parse_job_refs_def parse_result_refs_def project_refs_def task_refs_def

interpretation dt: keyed_table doc_id documents_violation
  by unfold_locales (simp add: documents_violation_def)

interpretation jt: keyed_table job_id parse_jobs_violation
  by unfold_locales (simp add: parse_jobs_violation_def)

interpretation rt: keyed_table res_id parse_results_violation
  by unfold_locales (simp add: parse_results_violation_def)

interpretation pt: keyed_table prj_id projects_violation
  by unfold_locales (simp add: projects_violation_def)

interpretation tt: keyed_table tsk_id tasks_violation
  by unfold_locales (simp add: tasks_violation_def)

section \<open>The schema invariant\<close>

text \<open>Every table satisfies its constraints.\<close>

definition schema_ok :: "db \<Rightarrow> bool" where
  "schema_ok s \<longleftrightarrow>
     documents_violation s (documents s) = None
     \<and> parse_jobs_violation s (parse_jobs s) = None
     \<and> parse_results_violation s (parse_results s) = None
     \<and> projects_violation s (projects s) = None
     \<and> tasks_violation s (tasks s) = None"

lemma schema_ok_distinct:
  assumes "schema_ok s"
  shows "distinct (map doc_id (documents s))" "distinct (map job_id (parse_jobs s))"
    "distinct (map res_id (parse_results s))" "distinct (map prj_id (projects s))"
    "distinct (map tsk_id (tasks s))"
  using assms by (simp_all add: schema_ok_def violation_defs)

text \<open>
  A statement keeps the invariant when its own table still satisfies the constraints and
  no row another table refers to went away.
\<close>

lemma schema_ok_documents:
  "schema_ok s \<Longrightarrow> documents_violation s ds = None \<Longrightarrow>
   doc_id ` set (documents s) \<subseteq> doc_id ` set ds \<Longrightarrow> schema_ok (s\<lparr>documents := ds\<rparr>)"
  by (auto simp: schema_ok_def violation_defs refs_defs list_all_iff)

lemma schema_ok_parse_jobs:
  "schema_ok s \<Longrightarrow> parse_jobs_violation s js = None \<Longrightarrow>
   job_id ` set (parse_jobs s) \<subseteq> job_id ` set js \<Longrightarrow> schema_ok (s\<lparr>parse_jobs := js\<rparr>)"
  by (auto simp: schema_ok_def violation_defs refs_defs list_all_iff)

lemma schema_ok_parse_results:
  assumes "schema_ok s" "parse_results_violation s rs = None"
    and sub: "res_id ` set (parse_results s) \<subseteq> res_id ` set rs"
  shows "schema_ok (s\<lparr>parse_results := rs\<rparr>)"
proof -
  have "task_refs s t \<Longrightarrow> task_refs (s\<lparr>parse_results := rs\<rparr>) t" for t
    using sub by (auto simp: task_refs_def)
  moreover have "project_refs s p \<Longrightarrow> project_refs (s\<lparr>parse_results := rs\<rparr>) p" for p
    using sub by (auto simp: project_refs_def)
  ultimately have "list_all (task_refs s) ts \<Longrightarrow> list_all (task_refs (s\<lparr>parse_results := rs\<rparr>)) ts"
    and "list_all (project_refs s) ps \<Longrightarrow> list_all (project_refs (s\<lparr>parse_results := rs\<rparr>)) ps" for ts ps
    by (auto simp: list_all_iff)
  moreover have "document_refs (s\<lparr>parse_results := rs\<rparr>) = document_refs s"
    "parse_job_refs (s\<lparr>parse_results := rs\<rparr>) = parse_job_refs s"
    "parse_result_refs (s\<lparr>parse_results := rs\<rparr>) = parse_result_refs s"
    by (auto simp: refs_defs fun_eq_iff)
  ultimately show ?thesis using assms(1,2) by (simp add: schema_ok_def violation_defs)
qed

lemma schema_ok_projects:
  assumes "schema_ok s" "projects_violation s ps = None"
    and sub: "prj_id ` set (projects s) \<subseteq> prj_id ` set ps"
  shows "schema_ok (s\<lparr>projects := ps\<rparr>)"
proof -
  have "list_all (task_refs s) ts \<Longrightarrow> list_all (task_refs (s\<lparr>projects := ps\<rparr>)) ts" for ts
    using sub by (auto simp: list_all_iff task_refs_def)
  moreover have "document_refs (s\<lparr>projects := ps\<rparr>) = document_refs s"
    "parse_job_refs (s\<lparr>projects := ps\<rparr>) = parse_job_refs s"
    "parse_result_refs (s\<lparr>projects := ps\<rparr>) = parse_result_refs s"
    "project_refs (s\<lparr>projects := ps\<rparr>) = project_refs s"
    by (auto simp: refs_defs fun_eq_iff)
  ultimately show ?thesis using assms(1,2) by (simp add: schema_ok_def violation_defs)
qed

lemma schema_ok_tasks:
  assumes "schema_ok s" "tasks_violation s ts = None"
  shows "schema_ok (s\<lparr>tasks := ts\<rparr>)"
proof -
  have "document_refs (s\<lparr>tasks := ts\<rparr>) = document_refs s"
    "parse_job_refs (s\<lparr>tasks := ts\<rparr>) = parse_job_refs s"
    "parse_result_refs (s\<lparr>tasks := ts\<rparr>) = parse_result_refs s"
    "project_refs (s\<lparr>tasks := ts\<rparr>) = project_refs s"
    "task_refs (s\<lparr>tasks := ts\<rparr>) = task_refs s"
    by (auto simp: refs_defs fun_eq_iff split: option.splits)
  with assms show ?thesis by (simp add: schema_ok_def violation_defs)
qed

text \<open>Replacing a row by one with the same key removes no key.\<close>

lemma keys_subset_replace_row [simp]:
  "key ` set (replace_row key r' rows) = key ` set rows"
  by (metis keys_replace_row list.set_map)

lemma tasks_violation_filter:
  "tasks_violation s ts = None \<Longrightarrow> tasks_violation s (filter P ts) = None"
  by (auto simp: tasks_violation_def list_all_iff distinct_map_filter)

end
