(* ===== verification/Sample.thy ===== *)
theory Sample
  imports Schema
begin

text \<open>
  A small database that meets its constraints, and environments to run requests in: two
  users, one document with a finished parse job and its confirmed result, one active
  project with two tasks, and one archived project. The theorems are applied to it.
\<close>

definition sample_env :: env where
  "sample_env = \<lparr>db_up = True, now = 50, new_id = (\<lambda>n. 100 + int n), fault = (\<lambda>_ _. False)\<rparr>"

definition sample_user :: "int \<Rightarrow> user" where
  "sample_user i = \<lparr>u_id = i, u_email = ''a'', u_password_hash = ''h'', u_nickname = ''n'',
     u_avatar_url = None, u_status = 1, u_created_at = 0, u_updated_at = 0\<rparr>"

definition sample_document :: "int \<Rightarrow> document" where
  "sample_document i = \<lparr>doc_id = i, doc_user_id = 1, doc_source_type = ''text'',
     doc_title = Some ''t'', doc_file_name = None, doc_file_url = None, doc_raw_text = None,
     doc_text_input = Some ''build it'', doc_page_count = None, doc_file_size = None,
     doc_status = ''ready'', doc_created_at = 1, doc_updated_at = 1, doc_deleted_at = None\<rparr>"

definition sample_job :: "int \<Rightarrow> int \<Rightarrow> string \<Rightarrow> parse_job" where
  "sample_job i d st = \<lparr>job_id = i, job_user_id = 1, job_document_id = d,
     job_job_type = ''ai_parse'', job_status = st, job_retry_count = 0, job_error_message = None,
     job_started_at = None, job_finished_at = None, job_created_at = 2, job_updated_at = 2\<rparr>"

definition sample_task_json :: json where
  "sample_task_json = JObj [(''title'', JStr ''write''), (''description'', JNull),
     (''priority'', JStr ''high''), (''deadline'', JNull)]"

definition sample_result :: "int \<Rightarrow> int \<Rightarrow> int \<Rightarrow> bool \<Rightarrow> parse_result" where
  "sample_result i d j conf = \<lparr>res_id = i, res_user_id = 1, res_document_id = d,
     res_parse_job_id = j, res_title = ''t'', res_summary = ''s'', res_deadline = None,
     res_deliverables = JArr [], res_key_requirements = JArr [], res_risk_warnings = JArr [],
     res_generated_tasks = JArr [sample_task_json], res_ai_model = None, res_version = 1,
     res_is_confirmed = conf, res_created_at = 3, res_updated_at = 3\<rparr>"

definition sample_project :: "int \<Rightarrow> int \<Rightarrow> string \<Rightarrow> project" where
  "sample_project i r st = \<lparr>prj_id = i, prj_user_id = 1, prj_source_document_id = 1,
     prj_parse_result_id = r, prj_name = ''p'', prj_description = None, prj_deadline = None,
     prj_status = st, prj_version = 1, prj_created_at = 4, prj_updated_at = 4\<rparr>"

definition sample_task :: "int \<Rightarrow> int \<Rightarrow> int \<Rightarrow> task" where
  "sample_task i p n = \<lparr>tsk_id = i, tsk_project_id = p, tsk_user_id = 1,
     tsk_source_parse_result_id = None, tsk_title = ''w'', tsk_description = None,
     tsk_status = ''todo'', tsk_priority = ''low'', tsk_deadline = None, tsk_sort_order = n,
     tsk_source_type = ''manual'', tsk_version = 1, tsk_created_at = 5, tsk_updated_at = 5\<rparr>"

text \<open>
  Results 1 and 2 have projects 1 (active) and 2 (archived); result 3 is confirmed and
  has none yet; result 4 still waits for confirmation.
\<close>

definition sample_db :: db where
  "sample_db =
     \<lparr>users = [sample_user 1, sample_user 2],
      documents = [sample_document 1, sample_document 2],
      parse_jobs = [sample_job 1 1 ''success'', sample_job 2 1 ''success'',
        sample_job 3 1 ''success'', sample_job 4 1 ''success'', sample_job 5 2 ''failed''],
      parse_results = [sample_result 1 1 1 True, sample_result 2 1 2 True,
        sample_result 3 1 3 True, sample_result 4 1 4 False],
      projects = [sample_project 1 1 ''active'', sample_project 2 2 ''archived''],
      tasks = [sample_task 1 1 0, sample_task 2 1 1]\<rparr>"

lemmas sample_defs =
  sample_db_def sample_user_def sample_document_def sample_job_def sample_result_def
  sample_project_def sample_task_def sample_task_json_def

lemma no_faults_sample_env [simp]: "no_faults sample_env"
  by (simp add: no_faults_def sample_env_def)

lemma sample_env_sel [simp]:
  "db_up sample_env = True" "now sample_env = 50" "new_id sample_env n = 100 + int n"
  by (simp_all add: sample_env_def)

lemma rune_count_sample: "rune_count ''t'' = 1" "rune_count ''p'' = 1" "rune_count ''w'' = 1"
  by (simp_all add: rune_count_ascii)

lemma schema_ok_sample [simp]: "schema_ok sample_db"
  by (simp add: schema_ok_def violation_defs refs_defs sample_defs document_check_def
      parse_job_check_def parse_result_check_def project_check_def task_check_def
      active_status_def varchar_def int4_def rune_count_sample)

section \<open>A codec for times\<close>

text \<open>
  One concrete way to print and parse times, in unary with a sign: it meets the contract
  \<open>codec_ok\<close> that the theorems on JSON columns assume of RFC 3339.
\<close>

definition sample_codec :: time_codec where
  "sample_codec =
     \<lparr>fmt_time = (\<lambda>t. if t < 0 then CHR ''-'' # replicate (nat (- t)) (CHR ''i'')
                      else replicate (nat t) (CHR ''i'')),
      parse_time = (\<lambda>s. case s of
          [] \<Rightarrow> Some 0
        | c # cs \<Rightarrow> if c = CHR ''-'' then Some (- int (length cs))
                    else Some (int (length s)))\<rparr>"

lemma codec_ok_sample [simp]: "codec_ok sample_codec"
proof -
  have "valid_utf8 (fmt_time sample_codec t)" for t
    by (rule valid_utf8_ascii) (simp add: sample_codec_def list_all_iff)
  moreover have "parse_time sample_codec (fmt_time sample_codec t) = Some t" for t
    by (cases "nat t") (auto simp: sample_codec_def split: list.splits)
  ultimately show ?thesis by (simp add: codec_ok_def)
qed

end
