(* ===== verification/OptimisticLock.thy ===== *)
theory OptimisticLock
  imports Store
begin

text \<open>
  Optimistic locking. Projects, tasks and parse results carry a version; a client sends
  the version it read, and the update is accepted only for that one and counts it up. The
  locale \<open>versioned\<close> is that contract between an update operation and its callers; what
  callers get from it, whatever the interleaving of their requests, is proved here once.
\<close>

text \<open>
  Calls made one after the other, each on the state the former left: the calls that were
  accepted, in order, and the final state.
\<close>

fun run_updates :: "('a \<Rightarrow> 's \<Rightarrow> (error + 'r) \<times> 's) \<Rightarrow> 'a list \<Rightarrow> 's \<Rightarrow> 'a list \<times> 's" where
  "run_updates f [] s = ([], s)"
| "run_updates f (a # as) s =
     (case f a s of
        (Inl err, s') \<Rightarrow> run_updates f as s'
      | (Inr x, s') \<Rightarrow> (case run_updates f as s' of (acc, s'') \<Rightarrow> (a # acc, s'')))"

text \<open>\<open>n\<close> versions counted up from \<open>v\<close>.\<close>

definition versions_from :: "int \<Rightarrow> nat \<Rightarrow> int list" where
  "versions_from v n = map (\<lambda>k. v + int k) [0..<n]"

lemma versions_from_0 [simp]: "versions_from v 0 = []"
  by (simp add: versions_from_def)

lemma versions_from_Suc [simp]: "versions_from v (Suc n) = v # versions_from (v + 1) n"
  unfolding versions_from_def
  by (subst upt_conv_Cons) (auto simp: map_Suc_upt [symmetric] simp del: upt_Suc)

lemma distinct_versions_from: "distinct (versions_from v n)"
  by (simp add: versions_from_def distinct_map inj_on_def)

locale versioned =
  fixes update :: "'a \<Rightarrow> 's \<Rightarrow> (error + 'r) \<times> 's"
    and sent :: "'a \<Rightarrow> int"
    and current :: "'s \<Rightarrow> int option"
    and inv :: "'s \<Rightarrow> bool"
  assumes accepted: "inv s \<Longrightarrow> update a s = (Inr x, s') \<Longrightarrow>
      inv s' \<and> current s = Some (sent a) \<and> current s' = Some (sent a + 1)"
    and refused: "inv s \<Longrightarrow> update a s = (Inl err, s') \<Longrightarrow> s' = s"
begin

lemma run_versions:
  "inv s \<Longrightarrow> current s = Some v \<Longrightarrow> run_updates update as s = (acc, s') \<Longrightarrow>
   map sent acc = versions_from v (length acc) \<and> current s' = Some (v + int (length acc)) \<and> inv s'"
proof (induction as arbitrary: s v acc)
  case (Cons a as)
  show ?case
  proof (cases "update a s")
    case (Pair r s1)
    show ?thesis
    proof (cases r)
      case (Inl err)
      then have "s1 = s" using refused [OF Cons.prems(1)] Pair by blast
      then show ?thesis using Cons.IH [OF Cons.prems(1,2)] Cons.prems(3) Pair Inl by simp
    next
      case (Inr x)
      obtain acc1 where run: "run_updates update as s1 = (acc1, s')"
        using Cons.prems(3) Pair Inr by (auto split: prod.splits)
      have a: "inv s1" "current s = Some (sent a)" "current s1 = Some (sent a + 1)"
        using accepted [OF Cons.prems(1)] Pair Inr by auto
      from Cons.IH [OF a(1,3) run] show ?thesis using Cons.prems Pair Inr run a(2) by auto
    qed
  qed
qed simp

text \<open>Of two calls that send the same version, at most one is accepted.\<close>

lemma run_distinct:
  "inv s \<Longrightarrow> current s = Some v \<Longrightarrow> run_updates update as s = (acc, s') \<Longrightarrow> distinct (map sent acc)"
  by (metis run_versions distinct_versions_from)

text \<open>No update is accepted on a state where the object is gone.\<close>

lemma run_none:
  "inv s \<Longrightarrow> current s = None \<Longrightarrow> run_updates update as s = ([], s)"
proof (induction as)
  case (Cons a as)
  show ?case
  proof (cases "update a s")
    case (Pair r s1)
    obtain err where "r = Inl err"
      using accepted [OF Cons.prems(1)] Pair Cons.prems(2) by (cases r) auto
    moreover from this have "s1 = s" using refused [OF Cons.prems(1)] Pair by blast
    ultimately show ?thesis using Cons.IH [OF Cons.prems] Pair by simp
  qed
qed simp

end

end
