(* ===== verification/ProjectService.thy ===== *)
theory ProjectService
  imports Sample OptimisticLock
begin

text \<open>
  \<open>internal/logic/project/service.go\<close>: creating a project from a confirmed parse result,
  listing, reading and editing projects, and the status machine
  \<open>active -> archived -> active\<close>, \<open>archived -> deleted\<close>. Each method is a function from
  the environment, its arguments and the database to its result and the new database; the
  closure it passes to \<open>DB.Transaction\<close> is the definition ending in \<open>_tx\<close>.
\<close>

section \<open>Requests and responses\<close>

record create_project_request =
  cpr_parse_result_id :: int
  cpr_name :: string

record project_list_request =
  plr_page :: int
  plr_page_size :: int
  plr_status :: string

record update_project_request =
  upr_version :: int
  upr_name :: string
  upr_description :: "string option"
  upr_deadline :: "int option"

record project_response =
  pr_id :: int
  pr_source_document_id :: int
  pr_parse_result_id :: int
  pr_name :: string
  pr_description :: "string option"
  pr_deadline :: "int option"
  pr_status :: string
  pr_version :: int
  pr_created_at :: int
  pr_updated_at :: int

record project_list_response =
  pl_items :: "project_response list"
  pl_page :: int
  pl_page_size :: int
  pl_total :: int

record task_response =
  tr_id :: int
  tr_project_id :: int
  tr_source_parse_result_id :: "int option"
  tr_title :: string
  tr_description :: "string option"
  tr_status :: string
  tr_priority :: string
  tr_deadline :: "int option"
  tr_sort_order :: int
  tr_source_type :: string
  tr_version :: int
  tr_created_at :: int
  tr_updated_at :: int

record create_project_response =
  cp_project :: project_response
  cp_tasks :: "task_response list"

definition maxGeneratedTasks :: nat where
  "maxGeneratedTasks = 100"

abbreviation projectStatusActive :: string where "projectStatusActive \<equiv> ''active''"
abbreviation projectStatusArchived :: string where "projectStatusArchived \<equiv> ''archived''"
abbreviation projectStatusDeleted :: string where "projectStatusDeleted \<equiv> ''deleted''"

definition projectResponse :: "project \<Rightarrow> project_response" where
  "projectResponse p =
     \<lparr>pr_id = prj_id p, pr_source_document_id = prj_source_document_id p,
      pr_parse_result_id = prj_parse_result_id p, pr_name = prj_name p,
      pr_description = prj_description p, pr_deadline = prj_deadline p,
      pr_status = prj_status p, pr_version = prj_version p,
      pr_created_at = prj_created_at p, pr_updated_at = prj_updated_at p\<rparr>"

definition taskResponse :: "task \<Rightarrow> task_response" where
  "taskResponse t =
     \<lparr>tr_id = tsk_id t, tr_project_id = tsk_project_id t,
      tr_source_parse_result_id = tsk_source_parse_result_id t, tr_title = tsk_title t,
      tr_description = tsk_description t, tr_status = tsk_status t,
      tr_priority = tsk_priority t, tr_deadline = tsk_deadline t,
      tr_sort_order = tsk_sort_order t, tr_source_type = tsk_source_type t,
      tr_version = tsk_version t, tr_created_at = tsk_created_at t,
      tr_updated_at = tsk_updated_at t\<rparr>"

definition createProjectResponse :: "project \<Rightarrow> task list \<Rightarrow> create_project_response" where
  "createProjectResponse p ts =
     \<lparr>cp_project = projectResponse p, cp_tasks = map taskResponse ts\<rparr>"

section \<open>Validation\<close>

definition project_normalizeRequest ::
  "int \<Rightarrow> create_project_request option \<Rightarrow> error + string" where
  "project_normalizeRequest userID req =
     (case req of
        None \<Rightarrow> Inl ErrInvalidInput
      | Some r \<Rightarrow>
          if userID \<le> 0 \<or> cpr_parse_result_id r \<le> 0 then Inl ErrInvalidInput
          else let name = trim_space (cpr_name r) in
            if name = [] \<or> rune_count name > 255 then Inl ErrInvalidInput else Inr name)"

definition project_normalizeUpdateRequest ::
  "int \<Rightarrow> int \<Rightarrow> update_project_request option \<Rightarrow> error + update_project_request" where
  "project_normalizeUpdateRequest userID projectID req =
     (case req of
        None \<Rightarrow> Inl ErrInvalidInput
      | Some r \<Rightarrow>
          if userID \<le> 0 \<or> projectID \<le> 0 \<or> upr_version r < 1 then Inl ErrInvalidInput
          else let name = trim_space (upr_name r); normalized = r\<lparr>upr_name := name\<rparr> in
            if name = [] \<or> rune_count name > 255 then Inl ErrInvalidInput
            else case upr_description r of
                None \<Rightarrow> Inr normalized
              | Some d \<Rightarrow>
                  let description = trim_space d in
                  if description = [] \<or> rune_count description > 5000 then Inl ErrInvalidInput
                  else Inr (normalized\<lparr>upr_description := Some description\<rparr>))"

definition pagination :: "int \<Rightarrow> int \<Rightarrow> int \<times> int" where
  "pagination page pageSize =
     (if page = 0 then 1 else page, if pageSize = 0 then 10 else pageSize)"

definition validPagination :: "int \<Rightarrow> int \<Rightarrow> bool" where
  "validPagination page pageSize \<longleftrightarrow>
     0 \<le> page \<and> page \<le> 1000000 \<and> 0 \<le> pageSize \<and> pageSize \<le> 100"

text \<open>The body of the loop of \<open>decodeGeneratedTasks\<close>.\<close>

definition project_normalizeTask :: "generated_task \<Rightarrow> error + generated_task" where
  "project_normalizeTask original =
     (let title = trim_space (gt_title original); task1 = original\<lparr>gt_title := title\<rparr> in
      if title = [] \<or> rune_count title > 255
        then Inl (Detailf ErrInvalidState ''generated task title is invalid'')
      else
        (case (case gt_description task1 of
                 None \<Rightarrow> Inr task1
               | Some d \<Rightarrow>
                   let description = trim_space d in
                   if description = [] \<or> rune_count description > 2000
                     then Inl (Detailf ErrInvalidState ''generated task description is invalid'')
                   else Inr (task1\<lparr>gt_description := Some description\<rparr>)) of
           Inl err \<Rightarrow> Inl err
         | Inr task2 \<Rightarrow>
             let task3 = (if gt_priority task2 = [] then task2\<lparr>gt_priority := ''medium''\<rparr> else task2) in
             if gt_priority task3 \<noteq> ''low'' \<and> gt_priority task3 \<noteq> ''medium''
                \<and> gt_priority task3 \<noteq> ''high''
               then Inl (Detailf ErrInvalidState ''generated task priority is invalid'')
             else Inr task3))"

definition decodeGeneratedTasks :: "time_codec \<Rightarrow> json \<Rightarrow> error + generated_task list" where
  "decodeGeneratedTasks c raw =
     (case unmarshal_tasks c True raw of
        None \<Rightarrow> Inl (Detailf ErrInvalidState ''decode generated tasks'')
      | Some None \<Rightarrow> Inl (Detailf ErrInvalidState
          ''generated tasks must be an array with at most 100 items'')
      | Some (Some ts) \<Rightarrow>
          if length ts > maxGeneratedTasks
            then Inl (Detailf ErrInvalidState
              ''generated tasks must be an array with at most 100 items'')
          else traverse project_normalizeTask ts)"

section \<open>Reading\<close>

definition task_order :: "task \<Rightarrow> order_key" where
  "task_order t = asc_key (tsk_sort_order t) (tsk_id t)"

definition project_order :: "project \<Rightarrow> order_key" where
  "project_order p = desc_key (prj_updated_at p) (prj_id p)"

text \<open>\<open>findProjectWithTasks\<close>; its first error is passed on unwrapped.\<close>

definition findProjectWithTasks ::
  "env \<Rightarrow> int \<Rightarrow> int \<Rightarrow> db \<Rightarrow> error + project \<times> task list" where
  "findProjectWithTasks e userID parseResultID s =
     (case sql e ''find project'' 0
             (sql_first prj_id
               (\<lambda>p. prj_parse_result_id p = parseResultID \<and> prj_user_id p = userID) (projects s)) of
        Inl x \<Rightarrow> Inl (GormErr x)
      | Inr p \<Rightarrow>
          (case sql e ''list existing project tasks'' 0
                  (Inr (sql_find task_order
                    (\<lambda>t. tsk_project_id t = prj_id p \<and> tsk_user_id t = userID) (tasks s))) of
             Inl x \<Rightarrow> Inl (Wrapf ''list existing project tasks'' (GormErr x))
           | Inr ts \<Rightarrow> Inr (p, ts)))"

definition project_lockProject ::
  "env \<Rightarrow> int \<Rightarrow> int \<Rightarrow> bool \<Rightarrow> db \<Rightarrow> error + project" where
  "project_lockProject e userID projectID includeDeleted s =
     (case sql e ''lock project'' 0
             (sql_first prj_id
               (\<lambda>p. prj_id p = projectID \<and> prj_user_id p = userID
                  \<and> (includeDeleted \<or> prj_status p \<noteq> projectStatusDeleted)) (projects s)) of
        Inl ErrRecordNotFound \<Rightarrow> Inl ErrNotFound
      | Inl x \<Rightarrow> Inl (Wrapf ''lock project'' (GormErr x))
      | Inr p \<Rightarrow> Inr p)"

definition project_get :: "env \<Rightarrow> int \<Rightarrow> int \<Rightarrow> bool \<Rightarrow> db \<Rightarrow> error + project_response" where
  "project_get e userID projectID includeDeleted s =
     (if \<not> db_up e then Inl ErrDatabaseUnavailable
      else if userID \<le> 0 \<or> projectID \<le> 0 then Inl ErrInvalidInput
      else case sql e ''get project'' 0
             (sql_first prj_id
               (\<lambda>p. prj_id p = projectID \<and> prj_user_id p = userID
                  \<and> (includeDeleted \<or> prj_status p \<noteq> projectStatusDeleted)) (projects s)) of
        Inl ErrRecordNotFound \<Rightarrow> Inl ErrNotFound
      | Inl x \<Rightarrow> Inl (Wrapf ''get project'' (GormErr x))
      | Inr p \<Rightarrow> Inr (projectResponse p))"

definition project_Get :: "env \<Rightarrow> int \<Rightarrow> int \<Rightarrow> db \<Rightarrow> error + project_response" where
  "project_Get e userID projectID s = project_get e userID projectID False s"

definition project_HistoryGet :: "env \<Rightarrow> int \<Rightarrow> int \<Rightarrow> db \<Rightarrow> error + project_response" where
  "project_HistoryGet e userID projectID s = project_get e userID projectID True s"

definition project_list ::
  "env \<Rightarrow> int \<Rightarrow> int \<Rightarrow> int \<Rightarrow> string \<Rightarrow> bool \<Rightarrow> db \<Rightarrow> error + project_list_response" where
  "project_list e userID page pageSize status includeDeleted s =
     (let query = (\<lambda>p. prj_user_id p = userID
            \<and> (if status \<noteq> [] then prj_status p = status
               else if \<not> includeDeleted then prj_status p \<noteq> projectStatusDeleted
               else True)) in
      case sql e ''count projects'' 0 (Inr (sql_count query (projects s))) of
        Inl x \<Rightarrow> Inl (Wrapf ''count projects'' (GormErr x))
      | Inr cnt \<Rightarrow>
          (case sql e ''list projects'' 0
                  (Inr (sql_page (int64_wrap ((page - 1) * pageSize)) pageSize
                    (sql_find project_order query (projects s)))) of
             Inl x \<Rightarrow> Inl (Wrapf ''list projects'' (GormErr x))
           | Inr ps \<Rightarrow>
               Inr \<lparr>pl_items = map projectResponse ps, pl_page = page,
                    pl_page_size = pageSize, pl_total = cnt\<rparr>))"

definition project_List ::
  "env \<Rightarrow> int \<Rightarrow> project_list_request option \<Rightarrow> db \<Rightarrow> error + project_list_response" where
  "project_List e userID req s =
     (if \<not> db_up e then Inl ErrDatabaseUnavailable
      else case req of
        None \<Rightarrow> Inl ErrInvalidInput
      | Some r \<Rightarrow>
          if userID \<le> 0 \<or> \<not> validPagination (plr_page r) (plr_page_size r) then Inl ErrInvalidInput
          else
            (case pagination (plr_page r) (plr_page_size r) of
               (page, pageSize) \<Rightarrow>
                 let status = (if plr_status r = [] then projectStatusActive else plr_status r) in
                 if status \<noteq> projectStatusActive \<and> status \<noteq> projectStatusArchived
                   then Inl ErrInvalidInput
                 else project_list e userID page pageSize status False s))"

definition project_HistoryList ::
  "env \<Rightarrow> int \<Rightarrow> project_list_request option \<Rightarrow> db \<Rightarrow> error + project_list_response" where
  "project_HistoryList e userID req s =
     (if \<not> db_up e then Inl ErrDatabaseUnavailable
      else case req of
        None \<Rightarrow> Inl ErrInvalidInput
      | Some r \<Rightarrow>
          if userID \<le> 0 \<or> \<not> validPagination (plr_page r) (plr_page_size r) then Inl ErrInvalidInput
          else
            (case pagination (plr_page r) (plr_page_size r) of
               (page, pageSize) \<Rightarrow>
                 if plr_status r \<noteq> [] \<and> plr_status r \<noteq> projectStatusActive
                    \<and> plr_status r \<noteq> projectStatusArchived \<and> plr_status r \<noteq> projectStatusDeleted
                   then Inl ErrInvalidInput
                 else project_list e userID page pageSize (plr_status r) True s))"

section \<open>Creating\<close>

definition new_project :: "env \<Rightarrow> int \<Rightarrow> string \<Rightarrow> parse_result \<Rightarrow> project" where
  "new_project e userID name result =
     \<lparr>prj_id = new_id e 0, prj_user_id = userID,
      prj_source_document_id = res_document_id result, prj_parse_result_id = res_id result,
      prj_name = name, prj_description = Some (res_summary result),
      prj_deadline = res_deadline result, prj_status = projectStatusActive, prj_version = 1,
      prj_created_at = now e, prj_updated_at = now e\<rparr>"

definition new_project_task :: "env \<Rightarrow> int \<Rightarrow> int \<Rightarrow> int \<Rightarrow> nat \<times> generated_task \<Rightarrow> task" where
  "new_project_task e userID projectID resultID ig =
     \<lparr>tsk_id = new_id e (Suc (fst ig)), tsk_project_id = projectID, tsk_user_id = userID,
      tsk_source_parse_result_id = Some resultID, tsk_title = gt_title (snd ig),
      tsk_description = gt_description (snd ig), tsk_status = ''todo'',
      tsk_priority = gt_priority (snd ig), tsk_deadline = gt_deadline (snd ig),
      tsk_sort_order = int32_wrap (int (fst ig)), tsk_source_type = ''ai'', tsk_version = 1,
      tsk_created_at = now e, tsk_updated_at = now e\<rparr>"

definition project_Create_tx ::
  "time_codec \<Rightarrow> env \<Rightarrow> int \<Rightarrow> int \<Rightarrow> string \<Rightarrow> db \<Rightarrow> error + (project \<times> task list \<times> bool) \<times> db" where
  "project_Create_tx c e userID parseResultID name s =
     (case sql e ''lock parse result'' 0
             (sql_first res_id (\<lambda>r. res_id r = parseResultID \<and> res_user_id r = userID)
               (parse_results s)) of
        Inl ErrRecordNotFound \<Rightarrow> Inl ErrNotFound
      | Inl x \<Rightarrow> Inl (Wrapf ''lock parse result for project creation'' (GormErr x))
      | Inr result \<Rightarrow>
          (case findProjectWithTasks e userID (res_id result) s of
             Inr (existing, existingTasks) \<Rightarrow>
               if prj_status existing = projectStatusDeleted then Inl ErrConflict
               else Inr ((existing, existingTasks, False), s)
           | Inl findErr \<Rightarrow>
               if \<not> errors_Is findErr (GormErr ErrRecordNotFound) then Inl findErr
               else if \<not> res_is_confirmed result
                 then Inl (Detailf ErrInvalidState ''parse result is not confirmed'')
               else
                 (case decodeGeneratedTasks c (res_generated_tasks result) of
                    Inl err \<Rightarrow> Inl err
                  | Inr generatedTasks \<Rightarrow>
                      let p = new_project e userID name result in
                      (case sql e ''create project'' 0
                              (sql_insert (projects_violation s) [p] (projects s)) of
                         Inl x \<Rightarrow> Inl (Wrapf ''create project'' (GormErr x))
                       | Inr ps \<Rightarrow>
                           let s1 = s\<lparr>projects := ps\<rparr>;
                               ts = map (new_project_task e userID (prj_id p) (res_id result))
                                      (enumerate 0 generatedTasks) in
                           if ts = [] then Inr ((p, [], True), s1)
                           else
                             (case sql e ''create project tasks'' 0
                                     (sql_insert (tasks_violation s1) ts (tasks s1)) of
                                Inl x \<Rightarrow> Inl (Wrapf ''create project tasks'' (GormErr x))
                              | Inr ts' \<Rightarrow> Inr ((p, ts, True), s1\<lparr>tasks := ts'\<rparr>))))))"

definition project_Create ::
  "time_codec \<Rightarrow> env \<Rightarrow> int \<Rightarrow> create_project_request option \<Rightarrow> db
     \<Rightarrow> (error + create_project_response \<times> bool) \<times> db" where
  "project_Create c e userID req s =
     (case project_normalizeRequest userID req of
        Inl err \<Rightarrow> (Inl err, s)
      | Inr name \<Rightarrow>
          if \<not> db_up e then (Inl ErrDatabaseUnavailable, s)
          else let parseResultID = cpr_parse_result_id (the req) in
            (case transaction e (project_Create_tx c e userID parseResultID name) s of
               (Inl err, s') \<Rightarrow>
                 if errors_Is err (GormErr ErrDuplicatedKey) then
                   (case findProjectWithTasks e userID parseResultID s' of
                      Inr (existing, existingTasks) \<Rightarrow>
                        if prj_status existing = projectStatusDeleted then (Inl ErrConflict, s')
                        else (Inr (createProjectResponse existing existingTasks, False), s')
                    | Inl _ \<Rightarrow> (Inl err, s'))
                 else (Inl err, s')
             | (Inr (p, ts, created), s') \<Rightarrow> (Inr (createProjectResponse p ts, created), s')))"

section \<open>Editing\<close>

definition project_Update_set :: "env \<Rightarrow> update_project_request \<Rightarrow> int \<Rightarrow> project \<Rightarrow> project" where
  "project_Update_set e r version p =
     p\<lparr>prj_name := upr_name r, prj_description := upr_description r,
       prj_deadline := upr_deadline r, prj_version := int32_wrap (version + 1),
       prj_updated_at := now e\<rparr>"

definition project_Update_tx ::
  "env \<Rightarrow> int \<Rightarrow> int \<Rightarrow> update_project_request \<Rightarrow> db \<Rightarrow> error + project \<times> db" where
  "project_Update_tx e userID projectID r s =
     (case project_lockProject e userID projectID False s of
        Inl err \<Rightarrow> Inl err
      | Inr current \<Rightarrow>
          if prj_status current \<noteq> projectStatusActive then Inl ErrConflict
          else if prj_version current \<noteq> upr_version r then Inl ErrConflict
          else
            (case sql e ''update project'' 0
                    (sql_update (projects_violation s)
                      (\<lambda>p. prj_id p = projectID \<and> prj_user_id p = userID
                         \<and> prj_status p = projectStatusActive
                         \<and> prj_version p = prj_version current)
                      (project_Update_set e r (prj_version current)) (projects s)) of
               Inl x \<Rightarrow> Inl (Wrapf ''update project'' (GormErr x))
             | Inr (ps, rowsAffected) \<Rightarrow>
                 if rowsAffected \<noteq> 1 then Inl ErrConflict
                 else
                   (case sql e ''reload updated project'' 0
                           (sql_first prj_id
                             (\<lambda>p. prj_id p = projectID \<and> prj_user_id p = userID) ps) of
                      Inl x \<Rightarrow> Inl (Wrapf ''reload updated project'' (GormErr x))
                    | Inr updated \<Rightarrow> Inr (updated, s\<lparr>projects := ps\<rparr>))))"

definition project_Update ::
  "env \<Rightarrow> int \<Rightarrow> int \<Rightarrow> update_project_request option \<Rightarrow> db \<Rightarrow> (error + project_response) \<times> db" where
  "project_Update e userID projectID req s =
     (if \<not> db_up e then (Inl ErrDatabaseUnavailable, s)
      else case project_normalizeUpdateRequest userID projectID req of
        Inl err \<Rightarrow> (Inl err, s)
      | Inr normalized \<Rightarrow>
          (case transaction e (project_Update_tx e userID projectID normalized) s of
             (Inl err, s') \<Rightarrow> (Inl err, s')
           | (Inr updated, s') \<Rightarrow> (Inr (projectResponse updated), s')))"

section \<open>The status machine\<close>

definition project_status_set :: "env \<Rightarrow> string \<Rightarrow> int \<Rightarrow> project \<Rightarrow> project" where
  "project_status_set e target version p =
     p\<lparr>prj_status := target, prj_version := int32_wrap (version + 1), prj_updated_at := now e\<rparr>"

definition project_transition_tx ::
  "env \<Rightarrow> int \<Rightarrow> int \<Rightarrow> string \<Rightarrow> string \<Rightarrow> string \<Rightarrow> db \<Rightarrow> error + project \<times> db" where
  "project_transition_tx e userID projectID sourceStatus targetStatus idempotentStatus s =
     (case project_lockProject e userID projectID False s of
        Inl err \<Rightarrow> Inl err
      | Inr current \<Rightarrow>
          if prj_status current = idempotentStatus then Inr (current, s)
          else if prj_status current \<noteq> sourceStatus then Inl ErrConflict
          else
            (case sql e ''transition project status'' 0
                    (sql_update (projects_violation s)
                      (\<lambda>p. prj_id p = projectID \<and> prj_user_id p = userID
                         \<and> prj_status p = sourceStatus)
                      (project_status_set e targetStatus (prj_version current)) (projects s)) of
               Inl x \<Rightarrow> Inl (Wrapf ''transition project status'' (GormErr x))
             | Inr (ps, rowsAffected) \<Rightarrow>
                 if rowsAffected \<noteq> 1 then Inl ErrConflict
                 else
                   (case sql e ''reload transitioned project'' 0
                           (sql_first prj_id
                             (\<lambda>p. prj_id p = projectID \<and> prj_user_id p = userID) ps) of
                      Inl x \<Rightarrow> Inl (Wrapf ''reload transitioned project'' (GormErr x))
                    | Inr p \<Rightarrow> Inr (p, s\<lparr>projects := ps\<rparr>))))"

definition project_transition ::
  "env \<Rightarrow> int \<Rightarrow> int \<Rightarrow> string \<Rightarrow> string \<Rightarrow> string \<Rightarrow> db \<Rightarrow> (error + project_response) \<times> db" where
  "project_transition e userID projectID sourceStatus targetStatus idempotentStatus s =
     (if \<not> db_up e then (Inl ErrDatabaseUnavailable, s)
      else if userID \<le> 0 \<or> projectID \<le> 0 then (Inl ErrInvalidInput, s)
      else
        (case transaction e (project_transition_tx e userID projectID
                               sourceStatus targetStatus idempotentStatus) s of
           (Inl err, s') \<Rightarrow> (Inl err, s')
         | (Inr p, s') \<Rightarrow> (Inr (projectResponse p), s')))"

definition project_Archive :: "env \<Rightarrow> int \<Rightarrow> int \<Rightarrow> db \<Rightarrow> (error + project_response) \<times> db" where
  "project_Archive e userID projectID s =
     project_transition e userID projectID projectStatusActive projectStatusArchived
       projectStatusArchived s"

definition project_Unarchive :: "env \<Rightarrow> int \<Rightarrow> int \<Rightarrow> db \<Rightarrow> (error + project_response) \<times> db" where
  "project_Unarchive e userID projectID s =
     project_transition e userID projectID projectStatusArchived projectStatusActive
       projectStatusActive s"

definition project_Delete_tx :: "env \<Rightarrow> int \<Rightarrow> int \<Rightarrow> db \<Rightarrow> error + unit \<times> db" where
  "project_Delete_tx e userID projectID s =
     (case project_lockProject e userID projectID False s of
        Inl err \<Rightarrow> Inl err
      | Inr current \<Rightarrow>
          if prj_status current = projectStatusActive then Inl ErrConflict
          else if prj_status current \<noteq> projectStatusArchived then Inl ErrNotFound
          else
            (case sql e ''delete project'' 0
                    (sql_update (projects_violation s)
                      (\<lambda>p. prj_id p = projectID \<and> prj_user_id p = userID
                         \<and> prj_status p = projectStatusArchived)
                      (project_status_set e projectStatusDeleted (prj_version current))
                      (projects s)) of
               Inl x \<Rightarrow> Inl (Wrapf ''delete project'' (GormErr x))
             | Inr (ps, rowsAffected) \<Rightarrow>
                 if rowsAffected \<noteq> 1 then Inl ErrConflict
                 else Inr ((), s\<lparr>projects := ps\<rparr>)))"

definition project_Delete :: "env \<Rightarrow> int \<Rightarrow> int \<Rightarrow> db \<Rightarrow> (error + unit) \<times> db" where
  "project_Delete e userID projectID s =
     (if \<not> db_up e then (Inl ErrDatabaseUnavailable, s)
      else if userID \<le> 0 \<or> projectID \<le> 0 then (Inl ErrInvalidInput, s)
      else transaction e (project_Delete_tx e userID projectID) s)"

section \<open>What an accepted edit is\<close>

text \<open>
  The four edits of a project all do the same: they read the caller's row under a lock,
  write one new version of it and commit. \<open>project_edit s p p' s'\<close> is that effect; the
  next lemmas show it of each transaction body, whatever faults the environment injects.
\<close>

definition project_edit :: "db \<Rightarrow> project \<Rightarrow> project \<Rightarrow> db \<Rightarrow> bool" where
  "project_edit s p p' s' \<longleftrightarrow>
     p \<in> set (projects s) \<and> s' = s\<lparr>projects := replace_row prj_id p' (projects s)\<rparr>
     \<and> projects_violation s (replace_row prj_id p' (projects s)) = None"

lemma project_lockProject_Inr:
  "project_lockProject e u i del s = Inr p \<Longrightarrow>
   p \<in> set (projects s) \<and> prj_id p = i \<and> prj_user_id p = u
     \<and> (del \<or> prj_status p \<noteq> projectStatusDeleted)"
  by (auto simp: project_lockProject_def dest: sql_first_Inr split: sum.splits db_error.splits)

lemma project_Update_set_sel [simp]:
  "prj_id (project_Update_set e r v p) = prj_id p"
  "prj_user_id (project_Update_set e r v p) = prj_user_id p"
  "prj_source_document_id (project_Update_set e r v p) = prj_source_document_id p"
  "prj_parse_result_id (project_Update_set e r v p) = prj_parse_result_id p"
  "prj_status (project_Update_set e r v p) = prj_status p"
  "prj_version (project_Update_set e r v p) = int32_wrap (v + 1)"
  "prj_name (project_Update_set e r v p) = upr_name r"
  by (simp_all add: project_Update_set_def)

lemma project_status_set_sel [simp]:
  "prj_id (project_status_set e t v p) = prj_id p"
  "prj_user_id (project_status_set e t v p) = prj_user_id p"
  "prj_source_document_id (project_status_set e t v p) = prj_source_document_id p"
  "prj_parse_result_id (project_status_set e t v p) = prj_parse_result_id p"
  "prj_status (project_status_set e t v p) = t"
  "prj_version (project_status_set e t v p) = int32_wrap (v + 1)"
  "prj_name (project_status_set e t v p) = prj_name p"
  by (simp_all add: project_status_set_def)

lemma project_Update_tx_Inr:
  assumes "project_Update_tx e u i r s = Inr (p', s')" and ok: "schema_ok s"
  shows "\<exists>p. project_lockProject e u i False s = Inr p \<and> prj_status p = projectStatusActive
     \<and> prj_version p = upr_version r \<and> p' = project_Update_set e r (prj_version p) p
     \<and> project_edit s p p' s'"
proof -
  obtain p ps n where lock: "project_lockProject e u i False s = Inr p"
    and st: "prj_status p = projectStatusActive" "prj_version p = upr_version r"
    and upd: "sql_update (projects_violation s)
       (\<lambda>q. prj_id q = i \<and> prj_user_id q = u \<and> prj_status q = projectStatusActive
          \<and> prj_version q = prj_version p)
       (project_Update_set e r (prj_version p)) (projects s) = Inr (ps, n)"
    and re: "sql_first prj_id (\<lambda>q. prj_id q = i \<and> prj_user_id q = u) ps = Inr p'"
    and s': "s' = s\<lparr>projects := ps\<rparr>"
    using assms(1) unfolding project_Update_tx_def
    by (auto split: sum.splits prod.splits if_splits)
  note p = project_lockProject_Inr [OF lock]
  note ur = pt.update_reload [OF upd schema_ok_distinct(4) [OF ok], of p]
  have "ps = replace_row prj_id (project_Update_set e r (prj_version p) p) (projects s)"
    and "projects_violation s ps = None" and "p' = project_Update_set e r (prj_version p) p"
    using p st sql_first_Inr [OF re] ur ur(4) [OF _ _ _ _ re] by auto
  then show ?thesis using lock st p s' by (auto simp: project_edit_def)
qed

lemma project_transition_tx_Inr:
  assumes "project_transition_tx e u i src tgt idem s = Inr (p', s')" and ok: "schema_ok s"
  shows "\<exists>p. project_lockProject e u i False s = Inr p
     \<and> (if prj_status p = idem then p' = p \<and> s' = s
        else prj_status p = src \<and> p' = project_status_set e tgt (prj_version p) p
          \<and> project_edit s p p' s')"
proof (cases "project_lockProject e u i False s")
  case (Inl x)
  with assms(1) show ?thesis by (simp add: project_transition_tx_def)
next
  case lock: (Inr p)
  note p = project_lockProject_Inr [OF lock]
  show ?thesis
  proof (cases "prj_status p = idem")
    case True
    with assms(1) lock show ?thesis by (simp add: project_transition_tx_def)
  next
    case False
    with assms(1) lock obtain ps n where st: "prj_status p = src"
      and upd: "sql_update (projects_violation s)
         (\<lambda>q. prj_id q = i \<and> prj_user_id q = u \<and> prj_status q = src)
         (project_status_set e tgt (prj_version p)) (projects s) = Inr (ps, n)"
      and re: "sql_first prj_id (\<lambda>q. prj_id q = i \<and> prj_user_id q = u) ps = Inr p'"
      and s': "s' = s\<lparr>projects := ps\<rparr>"
      unfolding project_transition_tx_def by (auto split: sum.splits prod.splits if_splits)
    note ur = pt.update_reload [OF upd schema_ok_distinct(4) [OF ok], of p]
    have "ps = replace_row prj_id (project_status_set e tgt (prj_version p) p) (projects s)"
      and "projects_violation s ps = None" and "p' = project_status_set e tgt (prj_version p) p"
      using p st sql_first_Inr [OF re] ur ur(4) [OF _ _ _ _ re] by auto
    then show ?thesis using lock st p s' False by (auto simp: project_edit_def)
  qed
qed

lemma project_Delete_tx_Inr:
  assumes "project_Delete_tx e u i s = Inr (x, s')" and ok: "schema_ok s"
  shows "\<exists>p. project_lockProject e u i False s = Inr p \<and> prj_status p = projectStatusArchived
     \<and> project_edit s p (project_status_set e projectStatusDeleted (prj_version p) p) s'"
proof -
  obtain p ps n where lock: "project_lockProject e u i False s = Inr p"
    and st: "prj_status p = projectStatusArchived"
    and upd: "sql_update (projects_violation s)
       (\<lambda>q. prj_id q = i \<and> prj_user_id q = u \<and> prj_status q = projectStatusArchived)
       (project_status_set e projectStatusDeleted (prj_version p)) (projects s) = Inr (ps, n)"
    and s': "s' = s\<lparr>projects := ps\<rparr>"
    using assms(1) unfolding project_Delete_tx_def
    by (auto split: sum.splits prod.splits if_splits)
  note p = project_lockProject_Inr [OF lock]
  note ur = pt.update_reload [OF upd schema_ok_distinct(4) [OF ok], of p]
  show ?thesis using lock st p s' ur by (auto simp: project_edit_def)
qed

section \<open>The abstract project store\<close>

text \<open>
  What the four edits promise, on the map from project ids to rows: who may edit, which
  status admits which edit, and that each edit that changes a row counts its version up.
\<close>

datatype project_action =
    EditProject update_project_request
  | ArchiveProject
  | UnarchiveProject
  | DeleteProject

definition bump_project :: "int \<Rightarrow> string \<Rightarrow> project \<Rightarrow> error + project" where
  "bump_project t label p =
     (if prj_version p = 2147483647 then Inl (Wrapf label (GormErr ErrConstraintViolated))
      else Inr (p\<lparr>prj_version := prj_version p + 1, prj_updated_at := t\<rparr>))"

fun project_spec :: "int \<Rightarrow> project_action \<Rightarrow> project \<Rightarrow> error + project" where
  "project_spec t (EditProject r) p =
     (if prj_status p \<noteq> projectStatusActive \<or> prj_version p \<noteq> upr_version r then Inl ErrConflict
      else bump_project t ''update project''
        (p\<lparr>prj_name := upr_name r, prj_description := upr_description r,
           prj_deadline := upr_deadline r\<rparr>))"
| "project_spec t ArchiveProject p =
     (if prj_status p = projectStatusArchived then Inr p
      else if prj_status p \<noteq> projectStatusActive then Inl ErrConflict
      else bump_project t ''transition project status'' (p\<lparr>prj_status := projectStatusArchived\<rparr>))"
| "project_spec t UnarchiveProject p =
     (if prj_status p = projectStatusActive then Inr p
      else if prj_status p \<noteq> projectStatusArchived then Inl ErrConflict
      else bump_project t ''transition project status'' (p\<lparr>prj_status := projectStatusActive\<rparr>))"
| "project_spec t DeleteProject p =
     (if prj_status p = projectStatusActive then Inl ErrConflict
      else if prj_status p \<noteq> projectStatusArchived then Inl ErrNotFound
      else bump_project t ''delete project'' (p\<lparr>prj_status := projectStatusDeleted\<rparr>))"

definition project_spec_map ::
  "int \<Rightarrow> int \<Rightarrow> int \<Rightarrow> project_action \<Rightarrow> (int \<rightharpoonup> project) \<Rightarrow> (error + project) \<times> (int \<rightharpoonup> project)" where
  "project_spec_map t u i a m =
     (case m i of
        None \<Rightarrow> (Inl ErrNotFound, m)
      | Some p \<Rightarrow>
          if prj_user_id p \<noteq> u \<or> prj_status p = projectStatusDeleted then (Inl ErrNotFound, m)
          else (case project_spec t a p of Inl x \<Rightarrow> (Inl x, m) | Inr p' \<Rightarrow> (Inr p', m(i \<mapsto> p'))))"

text \<open>The operation an action stands for, and the request its transaction gets.\<close>

fun project_act ::
  "env \<Rightarrow> int \<Rightarrow> int \<Rightarrow> project_action \<Rightarrow> db \<Rightarrow> (error + project_response option) \<times> db" where
  "project_act e u i (EditProject r) s =
     map_prod (map_sum id Some) id (project_Update e u i (Some r) s)"
| "project_act e u i ArchiveProject s = map_prod (map_sum id Some) id (project_Archive e u i s)"
| "project_act e u i UnarchiveProject s = map_prod (map_sum id Some) id (project_Unarchive e u i s)"
| "project_act e u i DeleteProject s =
     map_prod (map_sum id (\<lambda>_. None)) id (project_Delete e u i s)"

fun project_accepts :: "int \<Rightarrow> int \<Rightarrow> project_action \<Rightarrow> project_action \<Rightarrow> bool" where
  "project_accepts u i (EditProject r) (EditProject n) \<longleftrightarrow>
     project_normalizeUpdateRequest u i (Some r) = Inr n"
| "project_accepts u i a b \<longleftrightarrow> 0 < u \<and> 0 < i \<and> a = b"

definition project_answer :: "project_action \<Rightarrow> project \<Rightarrow> project_response option" where
  "project_answer a =
     (case a of DeleteProject \<Rightarrow> (\<lambda>p. None) | _ \<Rightarrow> (\<lambda>p. Some (projectResponse p)))"

lemma projects_violation_replace:
  assumes ok: "schema_ok s" and p: "p \<in> set (projects s)"
    and same: "prj_id p' = prj_id p" "prj_user_id p' = prj_user_id p"
      "prj_source_document_id p' = prj_source_document_id p"
      "prj_parse_result_id p' = prj_parse_result_id p"
  shows "projects_violation s (replace_row prj_id p' (projects s)) =
    (if project_check p' then None else Some ErrConstraintViolated)"
proof -
  have v: "projects_violation s (projects s) = None" using ok by (simp add: schema_ok_def)
  have one: "r = p" if "r \<in> set (projects s)" "prj_id r = prj_id p'" for r
    using distinct_map_unique [OF schema_ok_distinct(4) [OF ok] that(1) p] that same by simp
  have "map prj_parse_result_id (replace_row prj_id p' (projects s)) =
      map prj_parse_result_id (projects s)"
    using one same by (intro map_replace_row) auto
  moreover have "project_refs s p' = project_refs s p" using same by (simp add: project_refs_def)
  moreover have all: "list_all project_check (projects s)" "list_all (project_refs s) (projects s)"
    and "distinct (map prj_id (projects s))" "distinct (map prj_parse_result_id (projects s))"
    using v by (simp_all add: projects_violation_def)
  moreover have "project_refs s p" using all(2) p by (simp add: list_all_iff)
  ultimately show ?thesis
    using list_all_replace_row [OF all(1) p same(1) [symmetric]]
      list_all_replace_row [OF all(2) p same(1) [symmetric]]
    by (simp add: projects_violation_def violation_def)
qed

lemma project_lockProject_spec:
  assumes "no_faults e" "schema_ok s"
  shows "project_lockProject e u i False s =
    (case table_map prj_id (projects s) i of
       None \<Rightarrow> Inl ErrNotFound
     | Some p \<Rightarrow> if prj_user_id p \<noteq> u \<or> prj_status p = projectStatusDeleted then Inl ErrNotFound
         else Inr p)"
proof -
  have "sql_first prj_id (\<lambda>p. prj_id p = i \<and> prj_user_id p = u
           \<and> (False \<or> prj_status p \<noteq> projectStatusDeleted)) (projects s) =
    (case table_map prj_id (projects s) i of
       None \<Rightarrow> Inl ErrRecordNotFound
     | Some p \<Rightarrow> if prj_user_id p = u \<and> prj_status p \<noteq> projectStatusDeleted then Inr p
         else Inl ErrRecordNotFound)"
    using schema_ok_distinct(4) [OF assms(2)] by (intro pt.lookup_keyed) auto
  with assms(1) show ?thesis by (auto simp: project_lockProject_def split: option.splits)
qed

lemma schema_ok_project_check:
  "schema_ok s \<Longrightarrow> p \<in> set (projects s) \<Longrightarrow> project_check p"
  by (auto simp: schema_ok_def projects_violation_def list_all_iff)

lemma projects_update_spec:
  assumes ok: "schema_ok s" and p: "p \<in> set (projects s)" "P p"
    and only: "\<And>q. P q \<Longrightarrow> prj_id q = prj_id p"
    and same: "prj_id (f p) = prj_id p" "prj_user_id (f p) = prj_user_id p"
      "prj_source_document_id (f p) = prj_source_document_id p"
      "prj_parse_result_id (f p) = prj_parse_result_id p"
  shows "sql_update (projects_violation s) P f (projects s) =
    (if project_check (f p) then Inr (replace_row prj_id (f p) (projects s), 1)
     else Inl ErrConstraintViolated)"
proof -
  have "sql_update (projects_violation s) P f (projects s) =
    (case projects_violation s (replace_row prj_id (f p) (projects s)) of
       Some x \<Rightarrow> Inl x | None \<Rightarrow> Inr (replace_row prj_id (f p) (projects s), 1))"
    using schema_ok_distinct(4) [OF ok] p only same(1) by (rule pt.update_keyed)
  then show ?thesis using projects_violation_replace [OF ok p(1) same] by simp
qed

lemma projects_reload_spec:
  assumes ok: "schema_ok s" and p: "p \<in> set (projects s)"
    and same: "prj_id p' = prj_id p" "prj_user_id p' = prj_user_id p"
    and k: "prj_id p = i" "prj_user_id p = u"
  shows "sql_first prj_id (\<lambda>q. prj_id q = i \<and> prj_user_id q = u)
    (replace_row prj_id p' (projects s)) = Inr p'"
  by (rule pt.reload_keyed [OF schema_ok_distinct(4) [OF ok] p same(1)]) (use same k in auto)

lemma project_normalizeUpdateRequest_Inr:
  "project_normalizeUpdateRequest u i (Some r) = Inr n \<Longrightarrow>
   0 < u \<and> 0 < i \<and> 1 \<le> upr_version n \<and> upr_version n = upr_version r
     \<and> upr_name n = trim_space (upr_name r) \<and> upr_name n \<noteq> [] \<and> rune_count (upr_name n) \<le> 255
     \<and> upr_deadline n = upr_deadline r
     \<and> upr_description n = map_option trim_space (upr_description r)"
  by (auto simp: project_normalizeUpdateRequest_def Let_def split: if_splits option.splits)

text \<open>
  The CHECK constraint stops exactly the wrap-around of the version: an edited row is
  stored unless its version was the largest \<open>int32\<close>.
\<close>

lemma project_check_next:
  assumes "project_check p" "rune_count (prj_name p') \<le> 255"
    "prj_status p' = ''active'' \<or> prj_status p' = ''archived'' \<or> prj_status p' = ''deleted''"
    "prj_version p' = int32_wrap (prj_version p + 1)"
  shows "project_check p' \<longleftrightarrow> prj_version p \<noteq> 2147483647"
  using assms by (auto simp: project_check_def int4_def varchar_def int32_succ_cases)

lemma project_check_version:
  "project_check p \<Longrightarrow> prj_version p \<noteq> 2147483647 \<Longrightarrow> int32_wrap (prj_version p + 1) = prj_version p + 1"
  by (auto simp: project_check_def int4_def int32_succ_cases)

lemma project_status_set_bump:
  assumes "project_check p" "st = ''active'' \<or> st = ''archived'' \<or> st = ''deleted''"
  shows "(if project_check (project_status_set e st (prj_version p) p)
          then Inr (project_status_set e st (prj_version p) p)
          else Inl (Wrapf l (GormErr ErrConstraintViolated))) =
         bump_project (now e) l (p\<lparr>prj_status := st\<rparr>)"
proof -
  have "rune_count (prj_name p) \<le> 255" using assms(1) by (simp add: project_check_def varchar_def)
  then have "project_check (project_status_set e st (prj_version p) p) \<longleftrightarrow> prj_version p \<noteq> 2147483647"
    using assms by (intro project_check_next) auto
  then show ?thesis using project_check_version [OF assms(1)]
    by (auto simp: bump_project_def project_status_set_def)
qed

lemma project_Update_set_bump:
  assumes "project_check p" "prj_status p = ''active''" "rune_count (upr_name r) \<le> 255"
  shows "(if project_check (project_Update_set e r (prj_version p) p)
          then Inr (project_Update_set e r (prj_version p) p)
          else Inl (Wrapf l (GormErr ErrConstraintViolated))) =
         bump_project (now e) l (p\<lparr>prj_name := upr_name r, prj_description := upr_description r,
           prj_deadline := upr_deadline r\<rparr>)"
proof -
  have "project_check (project_Update_set e r (prj_version p) p) \<longleftrightarrow> prj_version p \<noteq> 2147483647"
    using assms by (intro project_check_next) auto
  then show ?thesis using project_check_version [OF assms(1)]
    by (auto simp: bump_project_def project_Update_set_def)
qed

text \<open>One transaction body against the specification, on the row the caller may edit.\<close>

definition stored_edit :: "(error + project) \<Rightarrow> db \<Rightarrow> error + project \<times> db" where
  "stored_edit r s = map_sum id (\<lambda>p'. (p', s\<lparr>projects := replace_row prj_id p' (projects s)\<rparr>)) r"

lemma project_Update_tx_spec:
  assumes nf: "no_faults e" and ok: "schema_ok s"
    and lock: "project_lockProject e u i False s = Inr p" and len: "rune_count (upr_name r) \<le> 255"
  shows "project_Update_tx e u i r s = stored_edit (project_spec (now e) (EditProject r) p) s"
proof (cases "prj_status p = projectStatusActive \<and> prj_version p = upr_version r")
  case False
  then show ?thesis using lock by (auto simp: project_Update_tx_def stored_edit_def)
next
  case True
  note p = project_lockProject_Inr [OF lock]
  let ?p' = "project_Update_set e r (prj_version p) p"
  have upd: "sql_update (projects_violation s) (\<lambda>q. prj_id q = i \<and> prj_user_id q = u
       \<and> prj_status q = projectStatusActive \<and> prj_version q = prj_version p)
       (project_Update_set e r (prj_version p)) (projects s) =
     (if project_check ?p' then Inr (replace_row prj_id ?p' (projects s), 1)
      else Inl ErrConstraintViolated)"
    using p True by (intro projects_update_spec [OF ok]) auto
  have "sql_first prj_id (\<lambda>q. prj_id q = i \<and> prj_user_id q = u)
      (replace_row prj_id ?p' (projects s)) = Inr ?p'"
    using p by (intro projects_reload_spec [OF ok]) auto
  with upd have "project_Update_tx e u i r s = stored_edit (if project_check ?p' then Inr ?p'
      else Inl (Wrapf ''update project'' (GormErr ErrConstraintViolated))) s"
    using lock True nf by (auto simp: project_Update_tx_def stored_edit_def)
  also have "\<dots> = stored_edit (project_spec (now e) (EditProject r) p) s"
    using schema_ok_project_check [OF ok] p True len by (subst project_Update_set_bump) auto
  finally show ?thesis .
qed

lemma project_transition_tx_spec:
  assumes nf: "no_faults e" and ok: "schema_ok s"
    and lock: "project_lockProject e u i False s = Inr p"
    and src: "src = ''active'' \<or> src = ''archived''" and tgt: "tgt = ''active'' \<or> tgt = ''archived''"
  shows "project_transition_tx e u i src tgt tgt s =
    (if prj_status p = tgt then Inr (p, s)
     else if prj_status p \<noteq> src then Inl ErrConflict
     else stored_edit (bump_project (now e) ''transition project status'' (p\<lparr>prj_status := tgt\<rparr>)) s)"
proof (cases "prj_status p \<noteq> tgt \<and> prj_status p = src")
  case False
  then show ?thesis using lock by (auto simp: project_transition_tx_def)
next
  case True
  note p = project_lockProject_Inr [OF lock]
  let ?p' = "project_status_set e tgt (prj_version p) p"
  have upd: "sql_update (projects_violation s)
       (\<lambda>q. prj_id q = i \<and> prj_user_id q = u \<and> prj_status q = src)
       (project_status_set e tgt (prj_version p)) (projects s) =
     (if project_check ?p' then Inr (replace_row prj_id ?p' (projects s), 1)
      else Inl ErrConstraintViolated)"
    using p True by (intro projects_update_spec [OF ok]) auto
  have "sql_first prj_id (\<lambda>q. prj_id q = i \<and> prj_user_id q = u)
      (replace_row prj_id ?p' (projects s)) = Inr ?p'"
    using p by (intro projects_reload_spec [OF ok]) auto
  with upd have "project_transition_tx e u i src tgt tgt s = stored_edit (if project_check ?p'
      then Inr ?p' else Inl (Wrapf ''transition project status'' (GormErr ErrConstraintViolated))) s"
    using lock True nf by (auto simp: project_transition_tx_def stored_edit_def)
  also have "\<dots> = stored_edit
      (bump_project (now e) ''transition project status'' (p\<lparr>prj_status := tgt\<rparr>)) s"
    using schema_ok_project_check [OF ok] p tgt by (subst project_status_set_bump) auto
  finally show ?thesis using True by auto
qed

lemma project_Delete_tx_spec:
  assumes nf: "no_faults e" and ok: "schema_ok s"
    and lock: "project_lockProject e u i False s = Inr p"
  shows "project_Delete_tx e u i s =
    map_sum id (\<lambda>(p', s'). ((), s')) (stored_edit (project_spec (now e) DeleteProject p) s)"
proof (cases "prj_status p = projectStatusArchived")
  case False
  then show ?thesis using lock by (auto simp: project_Delete_tx_def stored_edit_def)
next
  case True
  note p = project_lockProject_Inr [OF lock]
  let ?p' = "project_status_set e projectStatusDeleted (prj_version p) p"
  have "sql_update (projects_violation s)
       (\<lambda>q. prj_id q = i \<and> prj_user_id q = u \<and> prj_status q = projectStatusArchived)
       (project_status_set e projectStatusDeleted (prj_version p)) (projects s) =
     (if project_check ?p' then Inr (replace_row prj_id ?p' (projects s), 1)
      else Inl ErrConstraintViolated)"
    using p True by (intro projects_update_spec [OF ok]) auto
  then have eq: "project_Delete_tx e u i s = map_sum id (\<lambda>(p', s'). ((), s'))
     (stored_edit (if project_check ?p' then Inr ?p'
       else Inl (Wrapf ''delete project'' (GormErr ErrConstraintViolated))) s)"
    using lock True nf by (auto simp: project_Delete_tx_def stored_edit_def)
  show ?thesis unfolding eq
    using schema_ok_project_check [OF ok] p True by (subst project_status_set_bump) auto
qed

lemma project_spec_same_id: "project_spec t a p = Inr p' \<Longrightarrow> prj_id p' = prj_id p"
  by (cases a) (auto simp: bump_project_def split: if_splits)

text \<open>All four bodies at once, as one transaction on the specification.\<close>

definition project_spec_tx :: "env \<Rightarrow> int \<Rightarrow> int \<Rightarrow> project_action \<Rightarrow> db \<Rightarrow> (error + project) \<times> db" where
  "project_spec_tx e u i a s =
     (case project_lockProject e u i False s of
        Inl x \<Rightarrow> (Inl x, s)
      | Inr p \<Rightarrow>
          (case project_spec (now e) a p of
             Inl x \<Rightarrow> (Inl x, s)
           | Inr p' \<Rightarrow> (Inr p', s\<lparr>projects := replace_row prj_id p' (projects s)\<rparr>)))"

lemma project_transition_spec_tx:
  assumes "no_faults e" "schema_ok s" "0 < u" "0 < i"
  shows "project_Archive e u i s =
      map_prod (map_sum id projectResponse) id (project_spec_tx e u i ArchiveProject s)"
    and "project_Unarchive e u i s =
      map_prod (map_sum id projectResponse) id (project_spec_tx e u i UnarchiveProject s)"
proof -
  have up: "db_up e" using assms(1) by (simp add: no_faults_def)
  have self: "s\<lparr>projects := replace_row prj_id p (projects s)\<rparr> = s"
    if "project_lockProject e u i False s = Inr p" for p
    using project_lockProject_Inr [OF that] schema_ok_distinct(4) [OF assms(2)]
    by (simp add: replace_row_self)
  show "project_Archive e u i s =
      map_prod (map_sum id projectResponse) id (project_spec_tx e u i ArchiveProject s)"
  proof (cases "project_lockProject e u i False s")
    case (Inl x)
    then show ?thesis using assms up
      by (simp add: project_Archive_def project_transition_def project_spec_tx_def
          project_transition_tx_def)
  next
    case (Inr p)
    then show ?thesis using assms up self [OF Inr]
      by (auto simp: project_Archive_def project_transition_def project_spec_tx_def
          project_transition_tx_spec [OF assms(1,2) Inr] stored_edit_def split: sum.splits)
  qed
  show "project_Unarchive e u i s =
      map_prod (map_sum id projectResponse) id (project_spec_tx e u i UnarchiveProject s)"
  proof (cases "project_lockProject e u i False s")
    case (Inl x)
    then show ?thesis using assms up
      by (simp add: project_Unarchive_def project_transition_def project_spec_tx_def
          project_transition_tx_def)
  next
    case (Inr p)
    then show ?thesis using assms up self [OF Inr]
      by (auto simp: project_Unarchive_def project_transition_def project_spec_tx_def
          project_transition_tx_spec [OF assms(1,2) Inr] stored_edit_def split: sum.splits)
  qed
qed

lemma project_Delete_spec_tx:
  assumes "no_faults e" "schema_ok s" "0 < u" "0 < i"
  shows "project_Delete e u i s =
    map_prod (map_sum id (\<lambda>_. ())) id (project_spec_tx e u i DeleteProject s)"
proof (cases "project_lockProject e u i False s")
  case (Inl x)
  then show ?thesis using assms
    by (simp add: project_Delete_def project_spec_tx_def project_Delete_tx_def no_faults_def)
next
  case (Inr p)
  have up: "db_up e" using assms(1) by (simp add: no_faults_def)
  show ?thesis using assms up Inr
    by (auto simp: project_Delete_def project_spec_tx_def
        project_Delete_tx_spec [OF assms(1,2) Inr] stored_edit_def split: sum.splits)
qed

lemma project_Update_spec_tx:
  assumes "no_faults e" "schema_ok s" "project_normalizeUpdateRequest u i (Some r) = Inr n"
  shows "project_Update e u i (Some r) s =
    map_prod (map_sum id projectResponse) id (project_spec_tx e u i (EditProject n) s)"
proof -
  have up: "db_up e" using assms(1) by (simp add: no_faults_def)
  have len: "rune_count (upr_name n) \<le> 255"
    using project_normalizeUpdateRequest_Inr [OF assms(3)] by blast
  show ?thesis
  proof (cases "project_lockProject e u i False s")
    case (Inl x)
    then show ?thesis using assms up
      by (simp add: project_Update_def project_spec_tx_def project_Update_tx_def)
  next
    case (Inr p)
    then show ?thesis using assms up
      by (auto simp: project_Update_def project_spec_tx_def
          project_Update_tx_spec [OF assms(1,2) Inr len] stored_edit_def split: sum.splits)
  qed
qed

lemma project_act_spec_tx:
  assumes "no_faults e" "schema_ok s" "project_accepts u i a n"
  shows "project_act e u i a s =
    map_prod (map_sum id (project_answer n)) id (project_spec_tx e u i n s)"
  using assms
  by (cases a; cases n)
    (auto simp: project_Update_spec_tx project_transition_spec_tx project_Delete_spec_tx
      prod.map_comp sum.map_comp comp_def id_def project_answer_def)

text \<open>
  C1: The four edits of a project (Update, Archive, Unarchive, Delete) implement the
  abstract project store. On a database that meets its constraints and answers, the
  response and the new rows are those of the specification: the caller's own, not deleted
  project is found or the answer is not-found; Update needs an active project at the
  version the client sent; Archive and Unarchive toggle the status and repeat harmlessly;
  Delete needs an archived project; each change counts the version up by one, and at the
  largest int32 the change is refused rather than wrapped.
\<close>

theorem project_edits_refine_spec:
  assumes "no_faults e" "schema_ok s" "project_accepts u i a n"
  shows "fst (project_act e u i a s) =
      map_sum id (project_answer n) (fst (project_spec_map (now e) u i n (table_map prj_id (projects s))))
    \<and> table_map prj_id (projects (snd (project_act e u i a s))) =
      snd (project_spec_map (now e) u i n (table_map prj_id (projects s)))"
proof (cases "project_lockProject e u i False s")
  case (Inl x)
  then show ?thesis
    by (auto simp: project_act_spec_tx [OF assms] project_spec_tx_def project_spec_map_def
        project_lockProject_spec [OF assms(1,2)] split: option.splits if_splits)
next
  case (Inr p)
  then have "table_map prj_id (projects s) i = Some p"
    and own: "prj_user_id p = u" "prj_status p \<noteq> projectStatusDeleted"
    by (auto simp: project_lockProject_spec [OF assms(1,2)] split: option.splits if_splits)
  moreover have "prj_id p \<in> prj_id ` set (projects s)" "prj_id p = i"
    using project_lockProject_Inr [OF Inr] by auto
  ultimately show ?thesis
    by (auto simp: project_act_spec_tx [OF assms] project_spec_tx_def project_spec_map_def Inr
        table_map_replace_row split: sum.splits dest!: project_spec_same_id)
qed

theorem project_edits_refine_spec_witness:
  "fst (project_act sample_env 1 1 ArchiveProject sample_db) =
     Inr (Some (projectResponse ((sample_project 1 1 ''archived'')
       \<lparr>prj_version := 2, prj_updated_at := 50\<rparr>)))"
proof -
  have "fst (project_spec_map 50 1 1 ArchiveProject (table_map prj_id (projects sample_db))) =
      Inr ((sample_project 1 1 ''archived'')\<lparr>prj_version := 2, prj_updated_at := 50\<rparr>)"
    by (simp add: project_spec_map_def sample_db_def sample_project_def bump_project_def)
  then show ?thesis
    using project_edits_refine_spec [of sample_env sample_db 1 1 ArchiveProject ArchiveProject]
    by (simp add: project_answer_def)
qed

section \<open>Edits under faults\<close>

text \<open>The edges of the status machine; an edit of an active project stays on its node.\<close>

definition lifecycle_edge :: "string \<Rightarrow> string \<Rightarrow> bool" where
  "lifecycle_edge a b \<longleftrightarrow>
     (a, b) \<in> {(''active'', ''active''), (''active'', ''archived''),
       (''archived'', ''active''), (''archived'', ''deleted'')}"

text \<open>What one accepted change may do to the row it changes.\<close>

definition next_row :: "project \<Rightarrow> project \<Rightarrow> bool" where
  "next_row p p' \<longleftrightarrow>
     prj_id p' = prj_id p \<and> prj_user_id p' = prj_user_id p
     \<and> prj_source_document_id p' = prj_source_document_id p
     \<and> prj_parse_result_id p' = prj_parse_result_id p
     \<and> lifecycle_edge (prj_status p) (prj_status p')
     \<and> prj_version p' = prj_version p + 1"

definition project_change :: "int \<Rightarrow> int \<Rightarrow> db \<Rightarrow> db \<Rightarrow> bool" where
  "project_change u i s s' \<longleftrightarrow>
     s' = s \<or> (\<exists>p\<in>set (projects s). \<exists>p'. prj_id p = i \<and> prj_user_id p = u \<and> next_row p p'
                 \<and> project_edit s p p' s')"

lemma project_edit_check:
  "project_edit s p p' s' \<Longrightarrow> prj_id p' = prj_id p \<Longrightarrow> project_check p'"
  using set_replace_row [of p "projects s" prj_id p']
  by (auto simp: project_edit_def projects_violation_def list_all_iff)

lemma project_edit_version:
  assumes "project_edit s p p' s'" "prj_id p' = prj_id p" "schema_ok s"
    "prj_version p' = int32_wrap (prj_version p + 1)"
  shows "prj_version p' = prj_version p + 1"
proof -
  have "project_check p" using assms(1,3) schema_ok_project_check by (auto simp: project_edit_def)
  with project_edit_check [OF assms(1,2)] assms(4) show ?thesis
    using int32_succ_pos by (auto simp: project_check_def int4_def)
qed

lemma project_Update_change:
  assumes "project_Update e u i r s = (x, s')" "schema_ok s"
  shows "project_change u i s s' \<and> (\<forall>err. x = Inl err \<longrightarrow> s' = s)"
proof -
  consider "s' = s" | n p' where "transaction e (project_Update_tx e u i n) s = (Inr p', s')" "\<exists>y. x = Inr y"
    using assms(1) by (auto simp: project_Update_def dest: transaction_Inl
        split: if_splits sum.splits prod.splits)
  then show ?thesis
  proof cases
    case 2
    then have "project_Update_tx e u i n s = Inr (p', s')" by (simp add: transaction_Inr)
    from project_Update_tx_Inr [OF this assms(2)] obtain p where
      p: "project_lockProject e u i False s = Inr p" "prj_status p = projectStatusActive"
        "p' = project_Update_set e n (prj_version p) p" "project_edit s p p' s'"
      by blast
    have "next_row p p'"
      using p project_edit_version [OF p(4) _ assms(2)]
      by (auto simp: next_row_def lifecycle_edge_def)
    then show ?thesis using project_lockProject_Inr [OF p(1)] p(4) 2(2) by (auto simp: project_change_def)
  qed (auto simp: project_change_def)
qed

lemma project_transition_change:
  assumes "project_transition e u i src tgt tgt s = (x, s')" "schema_ok s" "lifecycle_edge src tgt"
  shows "project_change u i s s' \<and> (\<forall>err. x = Inl err \<longrightarrow> s' = s)"
proof -
  consider "s' = s" | p' where "transaction e (project_transition_tx e u i src tgt tgt) s = (Inr p', s')" "\<exists>y. x = Inr y"
    using assms(1) by (auto simp: project_transition_def dest: transaction_Inl
        split: if_splits sum.splits prod.splits)
  then show ?thesis
  proof cases
    case 2
    then have "project_transition_tx e u i src tgt tgt s = Inr (p', s')" by (simp add: transaction_Inr)
    from project_transition_tx_Inr [OF this assms(2)] obtain p where
      lock: "project_lockProject e u i False s = Inr p"
      and p: "s' = s \<or> prj_status p = src \<and> p' = project_status_set e tgt (prj_version p) p
            \<and> project_edit s p p' s'"
      by (metis (full_types))
    have "s' = s \<or> next_row p p' \<and> project_edit s p p' s'"
      using p assms(3) project_edit_version [of s p p' s'] assms(2) by (auto simp: next_row_def)
    then show ?thesis using project_lockProject_Inr [OF lock] 2(2) by (auto simp: project_change_def)
  qed (auto simp: project_change_def)
qed

lemma project_Delete_change:
  assumes "project_Delete e u i s = (x, s')" "schema_ok s"
  shows "project_change u i s s' \<and> (\<forall>err. x = Inl err \<longrightarrow> s' = s)"
proof -
  consider "s' = s" | y where "transaction e (project_Delete_tx e u i) s = (Inr y, s')" "x = Inr y"
    using assms(1) by (cases x) (auto simp: project_Delete_def dest: transaction_Inl split: if_splits)
  then show ?thesis
  proof cases
    case 2
    then have "project_Delete_tx e u i s = Inr (y, s')" by (simp add: transaction_Inr)
    from project_Delete_tx_Inr [OF this assms(2)] obtain p where
      lock: "project_lockProject e u i False s = Inr p"
      and p: "prj_status p = projectStatusArchived"
        "project_edit s p (project_status_set e projectStatusDeleted (prj_version p) p) s'"
      by blast
    have "next_row p (project_status_set e projectStatusDeleted (prj_version p) p)"
      using p project_edit_version [OF p(2) _ assms(2)]
      by (auto simp: next_row_def lifecycle_edge_def)
    then show ?thesis using project_lockProject_Inr [OF lock] p 2(2) by (auto simp: project_change_def)
  qed (auto simp: project_change_def)
qed

lemma project_act_change:
  assumes "project_act e u i a s = (x, s')" "schema_ok s"
  shows "project_change u i s s' \<and> (\<forall>err. x = Inl err \<longrightarrow> s' = s)"
proof (cases a)
  case (EditProject r)
  then show ?thesis using assms project_Update_change [of e u i "Some r" s]
    by (cases "project_Update e u i (Some r) s") (auto simp: map_sum_def split: sum.splits)
next
  case ArchiveProject
  then show ?thesis using assms project_transition_change [of e u i "''active''" "''archived''" s]
    by (cases "project_Archive e u i s")
      (auto simp: project_Archive_def lifecycle_edge_def map_sum_def split: sum.splits)
next
  case UnarchiveProject
  then show ?thesis using assms project_transition_change [of e u i "''archived''" "''active''" s]
    by (cases "project_Unarchive e u i s")
      (auto simp: project_Unarchive_def lifecycle_edge_def map_sum_def split: sum.splits)
next
  case DeleteProject
  then show ?thesis using assms project_Delete_change [of e u i s]
    by (cases "project_Delete e u i s") (auto simp: map_sum_def split: sum.splits)
qed

section \<open>Optimistic locking\<close>

lemma project_edit_schema_ok:
  "schema_ok s \<Longrightarrow> project_edit s p p' s' \<Longrightarrow> prj_id p' = prj_id p \<Longrightarrow> schema_ok s'"
  by (auto simp: project_edit_def intro!: schema_ok_projects)

definition project_version :: "int \<Rightarrow> db \<Rightarrow> int option" where
  "project_version i s = map_option prj_version (table_map prj_id (projects s) i)"

lemma project_edit_versions:
  assumes "schema_ok s" "project_edit s p p' s'" "prj_id p' = prj_id p"
  shows "project_version (prj_id p) s = Some (prj_version p)"
    "project_version (prj_id p) s' = Some (prj_version p')"
proof -
  have p: "p \<in> set (projects s)" and s': "projects s' = replace_row prj_id p' (projects s)"
    using assms(2) by (simp_all add: project_edit_def)
  show "project_version (prj_id p) s = Some (prj_version p)"
    using table_map_in [OF schema_ok_distinct(4) [OF assms(1)] p] by (simp add: project_version_def)
  have "table_map prj_id (projects s') = (table_map prj_id (projects s))(prj_id p' \<mapsto> p')"
    unfolding s' using p assms(3) by (intro table_map_replace_row) auto
  then show "project_version (prj_id p) s' = Some (prj_version p')"
    using assms(3) by (simp add: project_version_def)
qed

abbreviation project_update_call ::
  "int \<Rightarrow> int \<Rightarrow> env \<times> update_project_request \<Rightarrow> db \<Rightarrow> (error + project_response) \<times> db" where
  "project_update_call u i call \<equiv> project_Update (fst call) u i (Some (snd call))"

interpretation pv: versioned "project_update_call u i" "\<lambda>call. upr_version (snd call)"
  "project_version i" schema_ok for u i
proof
  fix s s' call x
  assume ok: "schema_ok s" and upd: "project_update_call u i call s = (Inr x, s')"
  then obtain n p' where n: "project_normalizeUpdateRequest u i (Some (snd call)) = Inr n"
    and "transaction (fst call) (project_Update_tx (fst call) u i n) s = (Inr p', s')"
    by (auto simp: project_Update_def split: if_splits sum.splits prod.splits)
  then have "project_Update_tx (fst call) u i n s = Inr (p', s')" by (simp add: transaction_Inr)
  from project_Update_tx_Inr [OF this ok] obtain p where
    p: "project_lockProject (fst call) u i False s = Inr p" "prj_version p = upr_version n"
      "p' = project_Update_set (fst call) n (prj_version p) p" "project_edit s p p' s'"
    by blast
  have same: "prj_id p' = prj_id p" "prj_id p = i"
    using p(3) project_lockProject_Inr [OF p(1)] by auto
  have "prj_version p' = prj_version p + 1"
    using p(3) by (intro project_edit_version [OF p(4) same(1) ok]) simp
  moreover have "upr_version n = upr_version (snd call)"
    using project_normalizeUpdateRequest_Inr [OF n] by blast
  ultimately show "schema_ok s' \<and> project_version i s = Some (upr_version (snd call))
      \<and> project_version i s' = Some (upr_version (snd call) + 1)"
    using project_edit_versions [OF ok p(4) same(1)] project_edit_schema_ok [OF ok p(4) same(1)]
      same p(2) by auto
next
  fix s s' call err
  assume "schema_ok s" "project_update_call u i call s = (Inl err, s')"
  then show "s' = s" using project_Update_change by blast
qed

text \<open>
  C21: No lost update on projects. Take any sequence of Update requests for a project, from
  any clients, with any faults in between. The versions sent by the accepted ones are the
  stored version, its successor, and so on, without gap or repetition, so two clients that
  edited the same version are never both accepted; and the stored version ends where it
  began plus the number of accepted updates.
\<close>

theorem project_Update_no_lost_update:
  assumes "schema_ok s" "project_version i s = Some v"
    and "run_updates (project_update_call u i) calls s = (acc, s')"
  shows "map (\<lambda>call. upr_version (snd call)) acc = versions_from v (length acc)
    \<and> distinct (map (\<lambda>call. upr_version (snd call)) acc)
    \<and> project_version i s' = Some (v + int (length acc))"
  using pv.run_versions [OF assms] pv.run_distinct [OF assms] by blast

definition sample_update :: update_project_request where
  "sample_update = \<lparr>upr_version = 1, upr_name = '' q '', upr_description = None, upr_deadline = None\<rparr>"

theorem project_Update_no_lost_update_witness:
  "distinct (map (\<lambda>call. upr_version (snd call))
     (fst (run_updates (project_update_call 1 1)
       [(sample_env, sample_update), (sample_env, sample_update)] sample_db)))"
proof -
  have "project_version 1 sample_db = Some 1"
    by (simp add: project_version_def sample_db_def sample_project_def)
  then show ?thesis
    by (rule project_Update_no_lost_update [OF schema_ok_sample _ prod.collapse [symmetric],
        THEN conjunct2, THEN conjunct1])
qed

end
