(* ===== verification/ProjectCreation.thy ===== *)
theory ProjectCreation
  imports ProjectService
begin

text \<open>
  The theorems on \<open>project_Create\<close> and on the list operations of \<open>ProjectService\<close>: what a
  creation writes, that it is idempotent, and that it copies the confirmed parse result.
\<close>

section \<open>Creation\<close>

lemma project_normalizeTask_Inr:
  "project_normalizeTask g = Inr g' \<Longrightarrow>
   gt_title g' = trim_space (gt_title g) \<and> gt_title g' \<noteq> [] \<and> rune_count (gt_title g') \<le> 255
     \<and> gt_description g' = map_option trim_space (gt_description g)
     \<and> gt_deadline g' = gt_deadline g
     \<and> gt_priority g' = (if gt_priority g = [] then ''medium'' else gt_priority g)
     \<and> (gt_priority g' = ''low'' \<or> gt_priority g' = ''medium'' \<or> gt_priority g' = ''high'')"
  by (auto simp: project_normalizeTask_def Let_def split: if_splits option.splits sum.splits)

lemma decodeGeneratedTasks_Inr:
  assumes "decodeGeneratedTasks c raw = Inr gs"
  shows "length gs \<le> maxGeneratedTasks
    \<and> list_all (\<lambda>g. rune_count (gt_title g) \<le> 255
         \<and> (gt_priority g = ''low'' \<or> gt_priority g = ''medium'' \<or> gt_priority g = ''high'')) gs"
proof -
  obtain ts where "length ts \<le> maxGeneratedTasks" "traverse project_normalizeTask ts = Inr gs"
    using assms by (auto simp: decodeGeneratedTasks_def not_less split: option.splits if_splits)
  then show ?thesis
    by (auto simp: traverse_Inr list_all2_conv_all_nth list_all_length
        dest: project_normalizeTask_Inr)
qed

definition new_project_tasks :: "env \<Rightarrow> int \<Rightarrow> int \<Rightarrow> int \<Rightarrow> generated_task list \<Rightarrow> task list" where
  "new_project_tasks e u pid rid gs = map (new_project_task e u pid rid) (enumerate 0 gs)"

lemma length_new_project_tasks [simp]: "length (new_project_tasks e u pid rid gs) = length gs"
  by (simp add: new_project_tasks_def)

lemma nth_new_project_tasks [simp]:
  "k < length gs \<Longrightarrow>
   new_project_tasks e u pid rid gs ! k = new_project_task e u pid rid (k, gs ! k)"
  by (simp add: new_project_tasks_def nth_enumerate_eq)

lemma in_new_project_tasks:
  "t \<in> set (new_project_tasks e u pid rid gs) \<longleftrightarrow>
   (\<exists>k<length gs. t = new_project_task e u pid rid (k, gs ! k))"
  by (auto simp: in_set_conv_nth)

lemma new_project_task_sel [simp]:
  "tsk_id (new_project_task e u pid rid kg) = new_id e (Suc (fst kg))"
  "tsk_project_id (new_project_task e u pid rid kg) = pid"
  "tsk_user_id (new_project_task e u pid rid kg) = u"
  "tsk_source_parse_result_id (new_project_task e u pid rid kg) = Some rid"
  "tsk_sort_order (new_project_task e u pid rid kg) = int32_wrap (int (fst kg))"
  "tsk_version (new_project_task e u pid rid kg) = 1"
  "tsk_title (new_project_task e u pid rid kg) = gt_title (snd kg)"
  "tsk_status (new_project_task e u pid rid kg) = ''todo''"
  "tsk_priority (new_project_task e u pid rid kg) = gt_priority (snd kg)"
  "tsk_source_type (new_project_task e u pid rid kg) = ''ai''"
  by (simp_all add: new_project_task_def)

lemma new_project_sel [simp]:
  "prj_id (new_project e u name r) = new_id e 0" "prj_user_id (new_project e u name r) = u"
  "prj_source_document_id (new_project e u name r) = res_document_id r"
  "prj_parse_result_id (new_project e u name r) = res_id r"
  "prj_status (new_project e u name r) = projectStatusActive"
  "prj_version (new_project e u name r) = 1" "prj_name (new_project e u name r) = name"
  by (simp_all add: new_project_def)

text \<open>The effect of a creation, and what a successful transaction body did.\<close>

definition project_created ::
  "time_codec \<Rightarrow> env \<Rightarrow> int \<Rightarrow> string \<Rightarrow> parse_result \<Rightarrow> db \<Rightarrow> project \<Rightarrow> task list \<Rightarrow> db \<Rightarrow> bool" where
  "project_created c e u name r s p ts s' \<longleftrightarrow>
     res_is_confirmed r
     \<and> (\<exists>gs. decodeGeneratedTasks c (res_generated_tasks r) = Inr gs
            \<and> ts = new_project_tasks e u (prj_id p) (res_id r) gs)
     \<and> p = new_project e u name r
     \<and> s' = s\<lparr>projects := projects s @ [p], tasks := tasks s @ ts\<rparr>
     \<and> projects_violation s (projects s @ [p]) = None
     \<and> tasks_violation (s\<lparr>projects := projects s @ [p]\<rparr>) (tasks s @ ts) = None"

lemma findProjectWithTasks_Inr:
  "findProjectWithTasks e u rid s = Inr (p, ts) \<Longrightarrow>
   p \<in> set (projects s) \<and> prj_parse_result_id p = rid \<and> prj_user_id p = u
     \<and> ts = sql_find task_order (\<lambda>t. tsk_project_id t = prj_id p \<and> tsk_user_id t = u) (tasks s)"
  by (auto simp: findProjectWithTasks_def dest: sql_first_Inr split: sum.splits)

lemma project_Create_tx_Inr:
  assumes "project_Create_tx c e u rid name s = Inr ((p, ts, created), s')" and ok: "schema_ok s"
  shows "\<exists>r\<in>set (parse_results s). res_id r = rid \<and> res_user_id r = u
    \<and> (if created then project_created c e u name r s p ts s'
       else s' = s \<and> findProjectWithTasks e u rid s = Inr (p, ts)
          \<and> prj_status p \<noteq> projectStatusDeleted)"
proof -
  obtain r where lock: "sql_first res_id (\<lambda>r. res_id r = rid \<and> res_user_id r = u) (parse_results s) = Inr r"
    and nf: "\<not> fault e ''lock parse result'' 0"
    using assms(1) unfolding project_Create_tx_def
    by (auto split: sum.splits db_error.splits)
  have r: "r \<in> set (parse_results s)" "res_id r = rid" "res_user_id r = u"
    using sql_first_Inr [OF lock] by auto
  note tx = assms(1) [unfolded project_Create_tx_def sql_def lock, simplified nf r(2), simplified]
  show ?thesis
  proof (intro bexI [OF _ r(1)] conjI r(2,3), cases "findProjectWithTasks e u rid s")
    case (Inr q)
    then show "if created then project_created c e u name r s p ts s'
       else s' = s \<and> findProjectWithTasks e u rid s = Inr (p, ts)
          \<and> prj_status p \<noteq> projectStatusDeleted"
      using tx r(2) by (cases q) (simp split: if_splits)
  next
    case find: (Inl x)
    have "tasks_violation (s\<lparr>projects := projects s @ [q]\<rparr>) (tasks s) = None"
      if "projects_violation s (projects s @ [q]) = None" for q
      using schema_ok_projects [OF ok that] by (auto simp: schema_ok_def)
    then show "if created then project_created c e u name r s p ts s'
       else s' = s \<and> findProjectWithTasks e u rid s = Inr (p, ts)
          \<and> prj_status p \<noteq> projectStatusDeleted"
      using tx find r
      by (cases "decodeGeneratedTasks c (res_generated_tasks r)")
        (auto simp: Let_def project_created_def sql_insert_Inr new_project_tasks_def
          split: if_splits sum.splits)
  qed
qed

text \<open>
  A creation that took effect: the rows it appended, for whatever faults. On the path after
  a lost race, and when the project was there before, nothing is written.
\<close>

lemma project_Create_tx_duplicate:
  assumes "project_Create_tx c e u rid name s = Inl err" "errors_Is err (GormErr ErrDuplicatedKey)"
  shows "\<exists>r\<in>set (parse_results s). res_id r = rid \<and> res_user_id r = u"
proof (rule ccontr)
  assume "\<not> ?thesis"
  then have "sql_first res_id (\<lambda>r. res_id r = rid \<and> res_user_id r = u) (parse_results s) =
      Inl ErrRecordNotFound"
    by simp
  with assms show False by (auto simp: project_Create_tx_def sql_def split: if_splits)
qed

lemma project_Create_Inr:
  assumes "project_Create c e u (Some rq) s = (Inr (resp, created), s')" and ok: "schema_ok s"
  shows "\<exists>name p ts. \<exists>r\<in>set (parse_results s).
    res_id r = cpr_parse_result_id rq \<and> res_user_id r = u
    \<and> project_normalizeRequest u (Some rq) = Inr name \<and> resp = createProjectResponse p ts
    \<and> (if created then project_created c e u name r s p ts s'
       else s' = s \<and> findProjectWithTasks e u (cpr_parse_result_id rq) s = Inr (p, ts)
          \<and> prj_status p \<noteq> projectStatusDeleted)"
proof -
  obtain name where name: "project_normalizeRequest u (Some rq) = Inr name"
    using assms(1) by (auto simp: project_Create_def split: sum.splits)
  have up: "db_up e" using assms(1) name by (auto simp: project_Create_def split: if_splits)
  let ?rid = "cpr_parse_result_id rq"
  obtain x s1 where tx: "transaction e (project_Create_tx c e u ?rid name) s = (x, s1)" by fastforce
  note run = assms(1) [unfolded project_Create_def Let_def name option.sel sum.case
      eqTrueI [OF up] not_True_eq_False if_False tx prod.case]
  show ?thesis
  proof (cases x)
    case (Inl err)
    have s1: "s1 = s" by (rule transaction_Inl [OF tx [unfolded Inl]])
    note run = run [unfolded Inl s1 sum.case]
    have dup: "errors_Is err (GormErr ErrDuplicatedKey)" using run by (rule contrapos_pp) simp
    then have "project_Create_tx c e u ?rid name s = Inl err"
      using transaction_Inl_cases [OF tx [unfolded Inl]] by fastforce
    from project_Create_tx_duplicate [OF this dup] obtain r
      where r: "r \<in> set (parse_results s)" "res_id r = ?rid" "res_user_id r = u" by blast
    obtain p ts where "findProjectWithTasks e u ?rid s = Inr (p, ts)"
      using run dup by (cases "findProjectWithTasks e u ?rid s") auto
    then show ?thesis using run dup r name by (auto split: if_splits)
  next
    case (Inr y)
    obtain p ts cr where y: "y = (p, ts, cr)" by (metis prod_cases3)
    have "project_Create_tx c e u ?rid name s = Inr ((p, ts, cr), s1)"
      using tx Inr y by (simp add: transaction_Inr)
    note tx_Inr = project_Create_tx_Inr [OF this ok]
    have "resp = createProjectResponse p ts" "created = cr" "s' = s1"
      using run Inr y by simp_all
    then show ?thesis using tx_Inr name by blast
  qed
qed

lemma project_Create_Inl:
  "project_Create c e u req s = (Inl err, s') \<Longrightarrow> s' = s"
  by (auto simp: project_Create_def Let_def dest: transaction_Inl
      split: if_splits sum.splits prod.splits)

lemma project_created_schema_ok:
  assumes "schema_ok s" "project_created c e u name r s p ts s'"
  shows "schema_ok s'"
proof -
  let ?s1 = "s\<lparr>projects := projects s @ [p]\<rparr>"
  have "schema_ok ?s1" using assms by (intro schema_ok_projects) (auto simp: project_created_def)
  then have "schema_ok (?s1\<lparr>tasks := tasks s @ ts\<rparr>)"
    using assms(2) by (intro schema_ok_tasks) (auto simp: project_created_def)
  then show ?thesis using assms(2) by (simp add: project_created_def)
qed

lemma project_created_status:
  "project_created c e u name r s p ts s' \<Longrightarrow> prj_status p \<noteq> projectStatusDeleted"
  by (simp add: project_created_def)

text \<open>The new rows are what the lookup of the project returns afterwards.\<close>

lemma sorted_new_project_tasks:
  "length gs \<le> 100 \<Longrightarrow> sorted (map task_order (new_project_tasks e u pid rid gs))"
  by (simp add: sorted_iff_nth_mono_less task_order_def)

lemma find_created:
  assumes ok: "schema_ok s" and nf: "no_faults e'" and pc: "project_created c e u name r s p ts s'"
  shows "findProjectWithTasks e' u (res_id r) s' = Inr (p, ts)"
proof -
  obtain gs where gs: "decodeGeneratedTasks c (res_generated_tasks r) = Inr gs"
    and ts: "ts = new_project_tasks e u (prj_id p) (res_id r) gs"
    using pc by (auto simp: project_created_def)
  have p: "p = new_project e u name r" using pc by (simp add: project_created_def)
  have dist: "distinct (map prj_parse_result_id (projects s @ [p]))"
    and new: "prj_id p \<notin> prj_id ` set (projects s)"
    using pc by (auto simp: project_created_def projects_violation_def)
  have "filter (\<lambda>q. prj_parse_result_id q = res_id r \<and> prj_user_id q = u) (projects s) = []"
    using dist p by (auto simp: filter_empty_conv image_iff)
  then have first: "sql_first prj_id (\<lambda>q. prj_parse_result_id q = res_id r \<and> prj_user_id q = u)
      (projects s @ [p]) = Inr p"
    by (intro sql_first_one) (simp add: p)
  have "tsk_project_id t \<noteq> prj_id p" if "t \<in> set (tasks s)" for t
    using ok new that
    by (simp add: schema_ok_def tasks_violation_def list_all_iff task_refs_def) metis
  then have "filter (\<lambda>t. tsk_project_id t = prj_id p \<and> tsk_user_id t = u) (tasks s) = []"
    by (auto simp: filter_empty_conv)
  moreover have "filter (\<lambda>t. tsk_project_id t = prj_id p \<and> tsk_user_id t = u) ts = ts"
    by (auto simp: ts filter_id_conv in_new_project_tasks)
  moreover have "sort_key task_order ts = ts"
    using decodeGeneratedTasks_Inr [OF gs]
    by (intro sort_key_id_if_sorted) (simp add: ts sorted_new_project_tasks maxGeneratedTasks_def)
  ultimately have "sql_find task_order (\<lambda>t. tsk_project_id t = prj_id p \<and> tsk_user_id t = u)
      (tasks s @ ts) = ts"
    by (simp add: sql_find_def)
  then show ?thesis using nf first pc
    by (simp add: findProjectWithTasks_def project_created_def)
qed

lemma findProjectWithTasks_no_faults:
  assumes "findProjectWithTasks e u rid s = Inr q" "no_faults e'"
  shows "findProjectWithTasks e' u rid s = Inr q"
  using assms by (auto simp: findProjectWithTasks_def split: sum.splits)

lemma project_Create_existing:
  assumes ok: "schema_ok s" and nf: "no_faults e" and name: "project_normalizeRequest u (Some rq) = Inr name"
    and r: "r \<in> set (parse_results s)" "res_id r = cpr_parse_result_id rq" "res_user_id r = u"
    and find: "findProjectWithTasks e u (cpr_parse_result_id rq) s = Inr (p, ts)"
    and st: "prj_status p \<noteq> projectStatusDeleted"
  shows "project_Create c e u (Some rq) s = (Inr (createProjectResponse p ts, False), s)"
proof -
  have "sql_first res_id (\<lambda>q. res_id q = cpr_parse_result_id rq \<and> res_user_id q = u) (parse_results s) = Inr r"
    using schema_ok_distinct(3) [OF ok] r by (intro rt.first_keyed) auto
  then have "project_Create_tx c e u (cpr_parse_result_id rq) name s = Inr ((p, ts, False), s)"
    using nf find st r by (simp add: project_Create_tx_def)
  then show ?thesis using nf name by (simp add: project_Create_def no_faults_def)
qed


text \<open>The identifiers a creation draws are new: what the sequences of PostgreSQL give.\<close>

definition fresh_project_ids :: "env \<Rightarrow> nat \<Rightarrow> db \<Rightarrow> bool" where
  "fresh_project_ids e n s \<longleftrightarrow>
     new_id e 0 \<notin> prj_id ` set (projects s)
     \<and> distinct (map tsk_id (tasks s) @ map (\<lambda>k. new_id e (Suc k)) [0..<n])"

lemma map_tsk_id_new [simp]:
  "map tsk_id (new_project_tasks e u pid rid gs) = map (\<lambda>k. new_id e (Suc k)) [0..<length gs]"
  by (rule nth_equalityI) simp_all

lemma project_Create_fresh:
  assumes ok: "schema_ok s" and nf: "no_faults e" and name: "project_normalizeRequest u (Some rq) = Inr name"
    and r: "r \<in> set (parse_results s)" "res_id r = cpr_parse_result_id rq" "res_user_id r = u"
    and conf: "res_is_confirmed r" and gs: "decodeGeneratedTasks c (res_generated_tasks r) = Inr gs"
    and new: "res_id r \<notin> prj_parse_result_id ` set (projects s)"
    and ids: "fresh_project_ids e (length gs) s"
  defines "p \<equiv> new_project e u name r"
  defines "ts \<equiv> new_project_tasks e u (new_id e 0) (res_id r) gs"
  shows "project_Create c e u (Some rq) s = (Inr (createProjectResponse p ts, True),
    s\<lparr>projects := projects s @ [p], tasks := tasks s @ ts\<rparr>)"
proof -
  let ?s1 = "s\<lparr>projects := projects s @ [p]\<rparr>"
  have v: "projects_violation s (projects s) = None" "tasks_violation s (tasks s) = None"
    and rv: "parse_results_violation s (parse_results s) = None"
    using ok by (simp_all add: schema_ok_def)
  have len: "rune_count name \<le> 255"
    using name by (auto simp: project_normalizeRequest_def Let_def split: if_splits)
  have refs: "parse_result_refs s r"
    using rv r(1) by (simp add: parse_results_violation_def list_all_iff)
  have rid: "cpr_parse_result_id rq \<in> res_id ` set (parse_results s)" using r(1,2) by force
  have "project_check p" using len by (simp add: p_def project_check_def int4_def varchar_def)
  moreover have "project_refs s p"
    using refs r rid by (simp add: p_def project_refs_def parse_result_refs_def)
  ultimately have vp: "projects_violation s (projects s @ [p]) = None"
    using v(1) new ids by (auto simp: projects_violation_def p_def fresh_project_ids_def)
  have "schema_ok ?s1" by (rule schema_ok_projects [OF ok vp]) auto
  then have v1: "tasks_violation ?s1 (tasks s) = None" by (simp add: schema_ok_def)
  have "task_check t \<and> task_refs ?s1 t" if t: "t \<in> set ts" for t
  proof -
    obtain k where k: "k < length gs" "t = new_project_task e u (new_id e 0) (res_id r) (k, gs ! k)"
      using t by (auto simp: ts_def in_new_project_tasks)
    have "rune_count (gt_title (gs ! k)) \<le> 255" "k < 100"
      "gt_priority (gs ! k) = ''low'' \<or> gt_priority (gs ! k) = ''medium'' \<or> gt_priority (gs ! k) = ''high''"
      using decodeGeneratedTasks_Inr [OF gs] k(1) by (auto simp: list_all_length maxGeneratedTasks_def)
    then show ?thesis using refs r rid
      by (simp add: k(2) task_check_def int4_def varchar_def task_refs_def p_def parse_result_refs_def)
  qed
  then have vt: "tasks_violation ?s1 (tasks s @ ts) = None"
    using v1 ids by (auto simp: tasks_violation_def list_all_iff ts_def fresh_project_ids_def)
  have "sql_first res_id (\<lambda>q. res_id q = cpr_parse_result_id rq \<and> res_user_id q = u) (parse_results s) = Inr r"
    using schema_ok_distinct(3) [OF ok] r by (intro rt.first_keyed) auto
  moreover have none: "sql_first prj_id (\<lambda>p. prj_parse_result_id p = res_id r \<and> prj_user_id p = u)
      (projects s) = Inl ErrRecordNotFound"
    using new by (simp add: image_iff) metis
  then have "findProjectWithTasks e u (res_id r) s = Inl (GormErr ErrRecordNotFound)"
    using nf by (simp add: findProjectWithTasks_def none del: sql_first_none)
  moreover have "map (new_project_task e u (prj_id p) (res_id r)) (enumerate 0 gs) = ts"
    by (simp add: ts_def new_project_tasks_def p_def)
  ultimately have "project_Create_tx c e u (cpr_parse_result_id rq) name s = Inr ((p, ts, True),
      s\<lparr>projects := projects s @ [p], tasks := tasks s @ ts\<rparr>)"
    using nf conf gs vp vt
    by (simp add: project_Create_tx_def Let_def sql_insert_def p_def [symmetric])
  then show ?thesis using nf name by (simp add: project_Create_def no_faults_def)
qed

text \<open>
  C2: A project is created from the confirmed parse result it names, completely and in one
  piece. If the caller owns the result, it is confirmed, has no project yet and its tasks
  decode, then Create appends one active project at version 1 with the result's document,
  summary and deadline, and one task per generated task, in their order, with sort orders
  0, 1, 2 and so on, and answers with exactly these rows.
\<close>

theorem project_Create_copies_result:
  assumes "schema_ok s" "no_faults e" "project_normalizeRequest u (Some rq) = Inr name"
    and "r \<in> set (parse_results s)" "res_id r = cpr_parse_result_id rq" "res_user_id r = u"
    and "res_is_confirmed r" "decodeGeneratedTasks c (res_generated_tasks r) = Inr gs"
    and "res_id r \<notin> prj_parse_result_id ` set (projects s)" "fresh_project_ids e (length gs) s"
  shows "\<exists>p ts. project_Create c e u (Some rq) s = (Inr (createProjectResponse p ts, True),
      s\<lparr>projects := projects s @ [p], tasks := tasks s @ ts\<rparr>)
    \<and> prj_name p = name \<and> prj_user_id p = u \<and> prj_parse_result_id p = res_id r
    \<and> prj_source_document_id p = res_document_id r \<and> prj_description p = Some (res_summary r)
    \<and> prj_deadline p = res_deadline r \<and> prj_status p = ''active'' \<and> prj_version p = 1
    \<and> map tsk_title ts = map gt_title gs \<and> map tsk_description ts = map gt_description gs
    \<and> map tsk_priority ts = map gt_priority gs \<and> map tsk_deadline ts = map gt_deadline gs
    \<and> map tsk_sort_order ts = map int [0..<length gs]
    \<and> map tsk_project_id ts = replicate (length gs) (prj_id p)"
proof (intro exI conjI)
  let ?p = "new_project e u name r" and ?ts = "new_project_tasks e u (new_id e 0) (res_id r) gs"
  show "project_Create c e u (Some rq) s = (Inr (createProjectResponse ?p ?ts, True),
      s\<lparr>projects := projects s @ [?p], tasks := tasks s @ ?ts\<rparr>)"
    by (rule project_Create_fresh) (fact assms)+
  show "map tsk_sort_order ?ts = map int [0..<length gs]"
    using decodeGeneratedTasks_Inr [OF assms(8)]
    by (intro nth_equalityI) (auto simp: maxGeneratedTasks_def)
qed (auto simp: new_project_def new_project_task_def intro!: nth_equalityI)

section \<open>Witnesses\<close>

lemma decode_sample [simp]:
  "decodeGeneratedTasks c (JArr [sample_task_json]) = Inr
     [\<lparr>gt_title = ''write'', gt_description = None, gt_priority = ''high'', gt_deadline = None\<rparr>]"
  by (simp add: decodeGeneratedTasks_def sample_task_json_def unmarshal_tasks_def
      unmarshal_slice_def unmarshal_task_def zero_task_def unmarshal_text_def
      unmarshal_text_ptr_def unmarshal_time_ptr_def project_normalizeTask_def maxGeneratedTasks_def
      trim_space_def strip_def is_space_def segments_ascii_Cons rune_count_ascii)

definition sample_create :: create_project_request where
  "sample_create = \<lparr>cpr_parse_result_id = 3, cpr_name = ''n''\<rparr>"

lemma normalize_sample_create: "project_normalizeRequest 1 (Some sample_create) = Inr ''n''"
  by (simp add: project_normalizeRequest_def sample_create_def trim_space_def strip_def
      is_space_def segments_ascii_Cons rune_count_ascii Let_def)

lemma fresh_sample: "fresh_project_ids sample_env (Suc 0) sample_db"
  by (simp add: fresh_project_ids_def sample_defs)

lemma sample_result_3:
  "sample_result 3 1 3 True \<in> set (parse_results sample_db)"
  "3 \<notin> prj_parse_result_id ` set (projects sample_db)"
  by (simp_all add: sample_db_def sample_project_def)

theorem project_Create_copies_result_witness:
  "\<exists>p ts s'. project_Create sample_codec sample_env 1 (Some sample_create) sample_db =
      (Inr (createProjectResponse p ts, True), s') \<and> map tsk_title ts = [''write'']"
proof -
  have "res_id (sample_result 3 1 3 True) = cpr_parse_result_id sample_create"
    "res_user_id (sample_result 3 1 3 True) = 1" "res_is_confirmed (sample_result 3 1 3 True)"
    "res_id (sample_result 3 1 3 True) \<notin> prj_parse_result_id ` set (projects sample_db)"
    using sample_result_3(2) by (simp_all add: sample_result_def sample_create_def)
  moreover have "decodeGeneratedTasks sample_codec (res_generated_tasks (sample_result 3 1 3 True)) =
      Inr [\<lparr>gt_title = ''write'', gt_description = None, gt_priority = ''high'', gt_deadline = None\<rparr>]"
    by (simp add: sample_result_def)
  moreover have "fresh_project_ids sample_env (length
      [\<lparr>gt_title = ''write'', gt_description = None, gt_priority = ''high'', gt_deadline = None\<rparr>]) sample_db"
    using fresh_sample by simp
  ultimately have "\<exists>p ts. project_Create sample_codec sample_env 1 (Some sample_create) sample_db =
      (Inr (createProjectResponse p ts, True),
       sample_db\<lparr>projects := projects sample_db @ [p], tasks := tasks sample_db @ ts\<rparr>)
    \<and> map tsk_title ts = map gt_title
      [\<lparr>gt_title = ''write'', gt_description = None, gt_priority = ''high'', gt_deadline = None\<rparr>]"
    using project_Create_copies_result [OF schema_ok_sample no_faults_sample_env
        normalize_sample_create sample_result_3(1)] by blast
  then show ?thesis unfolding list.map generated_task.select_convs by (elim exE conjE) (intro exI conjI)
qed


section \<open>Lists\<close>

text \<open>The filter of \<open>project_list\<close>.\<close>

definition listed_project :: "int \<Rightarrow> string \<Rightarrow> bool \<Rightarrow> project \<Rightarrow> bool" where
  "listed_project u status del p \<longleftrightarrow> prj_user_id p = u
     \<and> (if status \<noteq> [] then prj_status p = status else del \<or> prj_status p \<noteq> projectStatusDeleted)"

lemma project_list_no_faults:
  assumes "no_faults e" "1 \<le> page" "page \<le> 1000000" "1 \<le> sz" "sz \<le> 100"
  shows "project_list e u page sz status del s = Inr
    \<lparr>pl_items = map projectResponse (sql_page ((page - 1) * sz) sz
       (sql_find project_order (listed_project u status del) (projects s))),
     pl_page = page, pl_page_size = sz,
     pl_total = sql_count (listed_project u status del) (projects s)\<rparr>"
proof -
  have "0 \<le> (page - 1) * sz" using assms by simp
  moreover have "(page - 1) * sz \<le> 1000000 * 100" using assms by (intro mult_mono) auto
  ultimately have "int64_wrap ((page - 1) * sz) = (page - 1) * sz" by simp
  moreover have "(\<lambda>p. prj_user_id p = u \<and> (if status \<noteq> [] then prj_status p = status
      else if \<not> del then prj_status p \<noteq> projectStatusDeleted else True)) = listed_project u status del"
    by (auto simp: listed_project_def fun_eq_iff)
  ultimately show ?thesis using assms(1) by (simp add: project_list_def Let_def)
qed

lemma project_HistoryList_no_faults:
  assumes "no_faults e" "0 < u" "validPagination (plr_page r) (plr_page_size r)"
    "plr_status r \<in> {[], ''active'', ''archived'', ''deleted''}"
  defines "page \<equiv> fst (pagination (plr_page r) (plr_page_size r))"
  defines "sz \<equiv> snd (pagination (plr_page r) (plr_page_size r))"
  shows "project_HistoryList e u (Some r) s = Inr
    \<lparr>pl_items = map projectResponse (sql_page ((page - 1) * sz) sz
       (sql_find project_order (listed_project u (plr_status r) True) (projects s))),
     pl_page = page, pl_page_size = sz,
     pl_total = sql_count (listed_project u (plr_status r) True) (projects s)\<rparr>"
proof -
  have "1 \<le> page" "page \<le> 1000000" "1 \<le> sz" "sz \<le> 100"
    using assms(3) by (auto simp: page_def sz_def pagination_def validPagination_def)
  from project_list_no_faults [OF assms(1) this] show ?thesis
    using assms by (auto simp: project_HistoryList_def no_faults_def split: prod.splits)
qed

text \<open>
  Pages partition a list: the pages \<open>1..n\<close> laid end to end are the first \<open>n * sz\<close> rows.
\<close>

lemma pages_concat:
  "0 < sz \<Longrightarrow>
   concat (map (\<lambda>k. sql_page (int k * int sz) (int sz) xs) [0..<n]) = take (n * sz) xs"
proof (induction n)
  case (Suc n)
  have "nat (int n * int sz) = n * sz" by (metis nat_int of_nat_mult)
  then have "sql_page (int n * int sz) (int sz) xs = take sz (drop (n * sz) xs)"
    by (simp add: sql_page_def Let_def)
  with Suc show ?case by (simp add: take_add [of "n * sz" sz, symmetric] add.commute take_add)
qed simp

definition project_page :: "int \<Rightarrow> int \<Rightarrow> string \<Rightarrow> project_list_request" where
  "project_page page sz status = \<lparr>plr_page = page, plr_page_size = sz, plr_status = status\<rparr>"

definition page_items :: "error + project_list_response \<Rightarrow> project_response list" where
  "page_items r = (case r of Inl _ \<Rightarrow> [] | Inr l \<Rightarrow> pl_items l)"

text \<open>
  Paging through the project history loses and repeats nothing. With any page size from
  1 to 100, the pages from the first to the last, laid end to end, are all projects of the
  caller, deleted ones included, each exactly once, the most recently updated first.
\<close>

theorem project_HistoryList_pages:
  assumes "no_faults e" "schema_ok s" "0 < u" "0 < sz" "sz \<le> 100" "n \<le> 1000000"
    and "length (filter (\<lambda>p. prj_user_id p = u) (projects s)) \<le> n * sz"
  defines "all \<equiv> concat (map (\<lambda>k. page_items
      (project_HistoryList e u (Some (project_page (int k + 1) (int sz) [])) s)) [0..<n])"
  shows "set all = projectResponse ` {p \<in> set (projects s). prj_user_id p = u}
    \<and> distinct (map pr_id all) \<and> sorted (map (\<lambda>p. desc_key (pr_updated_at p) (pr_id p)) all)
    \<and> length all = length (filter (\<lambda>p. prj_user_id p = u) (projects s))"
proof -
  let ?rows = "sql_find project_order (listed_project u [] True) (projects s)"
  have P: "listed_project u [] True = (\<lambda>p. prj_user_id p = u)"
    by (auto simp: listed_project_def fun_eq_iff)
  have "page_items (project_HistoryList e u (Some (project_page (int k + 1) (int sz) [])) s) =
      map projectResponse (sql_page (int k * int sz) (int sz) ?rows)" if "k < n" for k
    using assms that project_HistoryList_no_faults [of e u "project_page (int k + 1) (int sz) []" s]
    by (simp add: project_page_def validPagination_def pagination_def page_items_def)
  then have "all = concat (map (\<lambda>k. map projectResponse (sql_page (int k * int sz) (int sz) ?rows)) [0..<n])"
    unfolding all_def by (intro arg_cong [where f = concat] map_cong) auto
  also have "\<dots> = map projectResponse (take (n * sz) ?rows)"
    using arg_cong [OF pages_concat [OF assms(4), of ?rows n], of "map projectResponse"]
    by (simp add: map_concat comp_def)
  also have "take (n * sz) ?rows = ?rows" using assms(7) by (simp add: P)
  finally have all: "all = map projectResponse ?rows" .
  have keys: "map (\<lambda>p. desc_key (pr_updated_at p) (pr_id p)) all = map project_order ?rows"
    "map pr_id all = map prj_id ?rows"
    by (simp_all add: all projectResponse_def project_order_def)
  show ?thesis unfolding keys
    using sorted_sql_find distinct_sql_find [OF schema_ok_distinct(4) [OF assms(2)]]
    by (simp add: all P)
qed

theorem project_HistoryList_pages_witness:
  "distinct (map pr_id (concat (map (\<lambda>k. page_items
     (project_HistoryList sample_env 1 (Some (project_page (int k + 1) 1 [])) sample_db)) [0..<2])))"
proof -
  have "length (filter (\<lambda>p. prj_user_id p = 1) (projects sample_db)) \<le> 2 * 1"
    by (simp add: sample_db_def sample_project_def)
  from project_HistoryList_pages [OF no_faults_sample_env schema_ok_sample _ _ _ _ this]
  show ?thesis by simp
qed

end
