(* ===== verification/TaskService.thy ===== *)
theory TaskService
  imports ProjectService "HOL-Library.Multiset"
begin

text \<open>
  \<open>internal/logic/task/service.go\<close>: the tasks of a project. A task is only written while
  its project is active and locked; \<open>lockWritableTask\<close> finds the task, locks the project,
  then locks the task and checks that it is still in that project.
\<close>

section \<open>Requests and responses\<close>

record task_list_request =
  tlr_status :: string

record create_task_request =
  ctr_title :: string
  ctr_description :: "string option"
  ctr_priority :: string
  ctr_deadline :: "int option"

record update_task_request =
  utr_version :: int
  utr_title :: string
  utr_description :: "string option"
  utr_priority :: string
  utr_deadline :: "int option"

record update_task_status_request =
  uts_status :: string

text \<open>\<open>task_ids\<close> is a Go slice: \<open>None\<close> when the client did not send it.\<close>

record reorder_tasks_request =
  rtr_project_id :: int
  rtr_task_ids :: "int list option"

record task_list_response =
  tl_items :: "task_response list"

definition taskListResponse :: "task list \<Rightarrow> task_list_response" where
  "taskListResponse ts = \<lparr>tl_items = map taskResponse ts\<rparr>"

section \<open>Validation\<close>

definition validTaskStatus :: "string \<Rightarrow> bool" where
  "validTaskStatus st \<longleftrightarrow> st = ''todo'' \<or> st = ''doing'' \<or> st = ''done''"

definition validTaskPriority :: "string \<Rightarrow> bool" where
  "validTaskPriority p \<longleftrightarrow> p = ''low'' \<or> p = ''medium'' \<or> p = ''high''"

text \<open>The normalized title and description, or the error.\<close>

definition normalizeTaskFields ::
  "string \<Rightarrow> string option \<Rightarrow> string \<Rightarrow> error + string \<times> string option" where
  "normalizeTaskFields title description priority =
     (let title' = trim_space title in
      if title' = [] \<or> rune_count title' > 255 \<or> \<not> validTaskPriority priority
        then Inl ErrInvalidInput
      else case description of
          None \<Rightarrow> Inr (title', None)
        | Some d \<Rightarrow>
            let normalized = trim_space d in
            if normalized = [] \<or> rune_count normalized > 2000 then Inl ErrInvalidInput
            else Inr (title', Some normalized))"

definition task_normalizeCreateRequest ::
  "int \<Rightarrow> int \<Rightarrow> create_task_request option \<Rightarrow> error + create_task_request" where
  "task_normalizeCreateRequest userID projectID req =
     (case req of
        None \<Rightarrow> Inl ErrInvalidInput
      | Some r \<Rightarrow>
          if userID \<le> 0 \<or> projectID \<le> 0 then Inl ErrInvalidInput
          else (case normalizeTaskFields (ctr_title r) (ctr_description r) (ctr_priority r) of
                  Inl err \<Rightarrow> Inl err
                | Inr (t, d) \<Rightarrow> Inr (r\<lparr>ctr_title := t, ctr_description := d\<rparr>)))"

definition task_normalizeUpdateRequest ::
  "int \<Rightarrow> int \<Rightarrow> update_task_request option \<Rightarrow> error + update_task_request" where
  "task_normalizeUpdateRequest userID taskID req =
     (case req of
        None \<Rightarrow> Inl ErrInvalidInput
      | Some r \<Rightarrow>
          if userID \<le> 0 \<or> taskID \<le> 0 \<or> utr_version r < 1 then Inl ErrInvalidInput
          else (case normalizeTaskFields (utr_title r) (utr_description r) (utr_priority r) of
                  Inl err \<Rightarrow> Inl err
                | Inr (t, d) \<Rightarrow> Inr (r\<lparr>utr_title := t, utr_description := d\<rparr>)))"

text \<open>The loop of \<open>validateReorderRequest\<close>, with the ids seen so far.\<close>

fun reorder_ids_ok :: "int set \<Rightarrow> int list \<Rightarrow> bool" where
  "reorder_ids_ok seen [] \<longleftrightarrow> True"
| "reorder_ids_ok seen (i # is) \<longleftrightarrow> 0 < i \<and> i \<notin> seen \<and> reorder_ids_ok (insert i seen) is"

definition validateReorderRequest ::
  "int \<Rightarrow> reorder_tasks_request option \<Rightarrow> error + int \<times> int list" where
  "validateReorderRequest userID req =
     (case req of
        None \<Rightarrow> Inl ErrInvalidInput
      | Some r \<Rightarrow>
          (case rtr_task_ids r of
             None \<Rightarrow> Inl ErrInvalidInput
           | Some is \<Rightarrow>
               if userID \<le> 0 \<or> rtr_project_id r \<le> 0 \<or> \<not> reorder_ids_ok {} is
                 then Inl ErrInvalidInput
               else Inr (rtr_project_id r, is)))"

section \<open>Lookups and locks\<close>

definition task_findProject :: "env \<Rightarrow> int \<Rightarrow> int \<Rightarrow> bool \<Rightarrow> db \<Rightarrow> error + project" where
  "task_findProject e userID projectID includeDeleted s =
     (case sql e ''get task project'' 0
             (sql_first prj_id
               (\<lambda>p. prj_id p = projectID \<and> prj_user_id p = userID
                  \<and> (includeDeleted \<or> prj_status p \<noteq> projectStatusDeleted)) (projects s)) of
        Inl ErrRecordNotFound \<Rightarrow> Inl ErrNotFound
      | Inl x \<Rightarrow> Inl (Wrapf ''get task project'' (GormErr x))
      | Inr p \<Rightarrow> Inr p)"

definition task_lockProject :: "env \<Rightarrow> int \<Rightarrow> int \<Rightarrow> bool \<Rightarrow> db \<Rightarrow> error + project" where
  "task_lockProject e userID projectID includeDeleted s =
     (case sql e ''lock task project'' 0
             (sql_first prj_id
               (\<lambda>p. prj_id p = projectID \<and> prj_user_id p = userID
                  \<and> (includeDeleted \<or> prj_status p \<noteq> projectStatusDeleted)) (projects s)) of
        Inl ErrRecordNotFound \<Rightarrow> Inl ErrNotFound
      | Inl x \<Rightarrow> Inl (Wrapf ''lock task project'' (GormErr x))
      | Inr p \<Rightarrow> Inr p)"

definition lockTask :: "env \<Rightarrow> int \<Rightarrow> int \<Rightarrow> db \<Rightarrow> error + task" where
  "lockTask e userID taskID s =
     (case sql e ''lock task'' 0
             (sql_first tsk_id (\<lambda>t. tsk_id t = taskID \<and> tsk_user_id t = userID) (tasks s)) of
        Inl ErrRecordNotFound \<Rightarrow> Inl ErrNotFound
      | Inl x \<Rightarrow> Inl (Wrapf ''lock task'' (GormErr x))
      | Inr t \<Rightarrow> Inr t)"

definition findTask :: "env \<Rightarrow> int \<Rightarrow> int \<Rightarrow> db \<Rightarrow> error + task" where
  "findTask e userID taskID s =
     (case sql e ''get task'' 0
             (sql_first tsk_id (\<lambda>t. tsk_id t = taskID \<and> tsk_user_id t = userID) (tasks s)) of
        Inl ErrRecordNotFound \<Rightarrow> Inl ErrNotFound
      | Inl x \<Rightarrow> Inl (Wrapf ''get task'' (GormErr x))
      | Inr t \<Rightarrow> Inr t)"

definition lockWritableTask :: "env \<Rightarrow> int \<Rightarrow> int \<Rightarrow> db \<Rightarrow> error + task" where
  "lockWritableTask e userID taskID s =
     (case findTask e userID taskID s of
        Inl err \<Rightarrow> Inl err
      | Inr initial \<Rightarrow>
          (case task_lockProject e userID (tsk_project_id initial) False s of
             Inl err \<Rightarrow> Inl err
           | Inr p \<Rightarrow>
               if prj_status p \<noteq> projectStatusActive then Inl ErrConflict
               else
                 (case lockTask e userID taskID s of
                    Inl err \<Rightarrow> Inl err
                  | Inr locked \<Rightarrow>
                      if tsk_project_id locked \<noteq> prj_id p then Inl ErrConflict
                      else Inr locked)))"

section \<open>Lists\<close>

definition task_list ::
  "env \<Rightarrow> int \<Rightarrow> int \<Rightarrow> task_list_request option \<Rightarrow> bool \<Rightarrow> db \<Rightarrow> error + task_list_response" where
  "task_list e userID projectID req includeDeleted s =
     (if \<not> db_up e then Inl ErrDatabaseUnavailable
      else case req of
        None \<Rightarrow> Inl ErrInvalidInput
      | Some r \<Rightarrow>
          if userID \<le> 0 \<or> projectID \<le> 0 \<or> (tlr_status r \<noteq> [] \<and> \<not> validTaskStatus (tlr_status r))
            then Inl ErrInvalidInput
          else
            (case task_findProject e userID projectID includeDeleted s of
               Inl err \<Rightarrow> Inl err
             | Inr p \<Rightarrow>
                 if \<not> includeDeleted \<and> prj_status p = projectStatusDeleted then Inl ErrNotFound
                 else
                   (case sql e ''list project tasks'' 0
                           (Inr (sql_find task_order
                             (\<lambda>t. tsk_project_id t = projectID \<and> tsk_user_id t = userID
                                \<and> (tlr_status r = [] \<or> tsk_status t = tlr_status r)) (tasks s))) of
                      Inl x \<Rightarrow> Inl (Wrapf ''list project tasks'' (GormErr x))
                    | Inr ts \<Rightarrow> Inr (taskListResponse ts))))"

definition task_List ::
  "env \<Rightarrow> int \<Rightarrow> int \<Rightarrow> task_list_request option \<Rightarrow> db \<Rightarrow> error + task_list_response" where
  "task_List e userID projectID req s = task_list e userID projectID req False s"

definition task_HistoryList ::
  "env \<Rightarrow> int \<Rightarrow> int \<Rightarrow> task_list_request option \<Rightarrow> db \<Rightarrow> error + task_list_response" where
  "task_HistoryList e userID projectID req s = task_list e userID projectID req True s"

section \<open>Creating\<close>

text \<open>\<open>COALESCE(MAX(sort_order), -1)\<close> over the tasks of the project.\<close>

definition max_sort_order :: "int \<Rightarrow> int \<Rightarrow> task list \<Rightarrow> int" where
  "max_sort_order userID projectID ts =
     foldr max (map tsk_sort_order
       (filter (\<lambda>t. tsk_project_id t = projectID \<and> tsk_user_id t = userID) ts)) (- 1)"

definition new_task :: "env \<Rightarrow> int \<Rightarrow> int \<Rightarrow> create_task_request \<Rightarrow> int \<Rightarrow> task" where
  "new_task e userID projectID r maxOrder =
     \<lparr>tsk_id = new_id e 0, tsk_project_id = projectID, tsk_user_id = userID,
      tsk_source_parse_result_id = None, tsk_title = ctr_title r,
      tsk_description = ctr_description r, tsk_status = ''todo'', tsk_priority = ctr_priority r,
      tsk_deadline = ctr_deadline r, tsk_sort_order = int32_wrap (maxOrder + 1),
      tsk_source_type = ''manual'', tsk_version = 1,
      tsk_created_at = now e, tsk_updated_at = now e\<rparr>"

definition task_Create_tx ::
  "env \<Rightarrow> int \<Rightarrow> int \<Rightarrow> create_task_request \<Rightarrow> db \<Rightarrow> error + task \<times> db" where
  "task_Create_tx e userID projectID normalized s =
     (case task_lockProject e userID projectID False s of
        Inl err \<Rightarrow> Inl err
      | Inr p \<Rightarrow>
          if prj_status p \<noteq> projectStatusActive then Inl ErrConflict
          else
            (case sql e ''find maximum task sort order'' 0
                    (Inr (max_sort_order userID projectID (tasks s))) of
               Inl x \<Rightarrow> Inl (Wrapf ''find maximum task sort order'' (GormErr x))
             | Inr maxOrder \<Rightarrow>
                 let created = new_task e userID projectID normalized maxOrder in
                 (case sql e ''create task'' 0
                         (sql_insert (tasks_violation s) [created] (tasks s)) of
                    Inl x \<Rightarrow> Inl (Wrapf ''create task'' (GormErr x))
                  | Inr ts \<Rightarrow> Inr (created, s\<lparr>tasks := ts\<rparr>))))"

definition task_Create ::
  "env \<Rightarrow> int \<Rightarrow> int \<Rightarrow> create_task_request option \<Rightarrow> db \<Rightarrow> (error + task_response) \<times> db" where
  "task_Create e userID projectID req s =
     (if \<not> db_up e then (Inl ErrDatabaseUnavailable, s)
      else case task_normalizeCreateRequest userID projectID req of
        Inl err \<Rightarrow> (Inl err, s)
      | Inr normalized \<Rightarrow>
          (case transaction e (task_Create_tx e userID projectID normalized) s of
             (Inl err, s') \<Rightarrow> (Inl err, s')
           | (Inr t, s') \<Rightarrow> (Inr (taskResponse t), s')))"

section \<open>Editing\<close>

definition task_Update_set :: "env \<Rightarrow> update_task_request \<Rightarrow> int \<Rightarrow> task \<Rightarrow> task" where
  "task_Update_set e r version t =
     t\<lparr>tsk_title := utr_title r, tsk_description := utr_description r,
       tsk_priority := utr_priority r, tsk_deadline := utr_deadline r,
       tsk_version := int32_wrap (version + 1), tsk_updated_at := now e\<rparr>"

definition task_Update_tx ::
  "env \<Rightarrow> int \<Rightarrow> int \<Rightarrow> update_task_request \<Rightarrow> db \<Rightarrow> error + task \<times> db" where
  "task_Update_tx e userID taskID r s =
     (case lockWritableTask e userID taskID s of
        Inl err \<Rightarrow> Inl err
      | Inr current \<Rightarrow>
          if tsk_version current \<noteq> utr_version r then Inl ErrConflict
          else
            (case sql e ''update task'' 0
                    (sql_update (tasks_violation s)
                      (\<lambda>t. tsk_id t = taskID \<and> tsk_user_id t = userID
                         \<and> tsk_version t = tsk_version current)
                      (task_Update_set e r (tsk_version current)) (tasks s)) of
               Inl x \<Rightarrow> Inl (Wrapf ''update task'' (GormErr x))
             | Inr (ts, rowsAffected) \<Rightarrow>
                 if rowsAffected \<noteq> 1 then Inl ErrConflict
                 else
                   (case sql e ''reload updated task'' 0
                           (sql_first tsk_id
                             (\<lambda>t. tsk_id t = taskID \<and> tsk_user_id t = userID) ts) of
                      Inl x \<Rightarrow> Inl (Wrapf ''reload updated task'' (GormErr x))
                    | Inr updated \<Rightarrow> Inr (updated, s\<lparr>tasks := ts\<rparr>))))"

definition task_Update ::
  "env \<Rightarrow> int \<Rightarrow> int \<Rightarrow> update_task_request option \<Rightarrow> db \<Rightarrow> (error + task_response) \<times> db" where
  "task_Update e userID taskID req s =
     (if \<not> db_up e then (Inl ErrDatabaseUnavailable, s)
      else case task_normalizeUpdateRequest userID taskID req of
        Inl err \<Rightarrow> (Inl err, s)
      | Inr normalized \<Rightarrow>
          (case transaction e (task_Update_tx e userID taskID normalized) s of
             (Inl err, s') \<Rightarrow> (Inl err, s')
           | (Inr t, s') \<Rightarrow> (Inr (taskResponse t), s')))"

definition task_status_set :: "env \<Rightarrow> string \<Rightarrow> int \<Rightarrow> task \<Rightarrow> task" where
  "task_status_set e st version t =
     t\<lparr>tsk_status := st, tsk_version := int32_wrap (version + 1), tsk_updated_at := now e\<rparr>"

definition task_UpdateStatus_tx ::
  "env \<Rightarrow> int \<Rightarrow> int \<Rightarrow> string \<Rightarrow> db \<Rightarrow> error + task \<times> db" where
  "task_UpdateStatus_tx e userID taskID status s =
     (case lockWritableTask e userID taskID s of
        Inl err \<Rightarrow> Inl err
      | Inr current \<Rightarrow>
          if tsk_status current = status then Inr (current, s)
          else
            (case sql e ''update task status'' 0
                    (sql_update (tasks_violation s)
                      (\<lambda>t. tsk_id t = taskID \<and> tsk_user_id t = userID
                         \<and> tsk_status t = tsk_status current)
                      (task_status_set e status (tsk_version current)) (tasks s)) of
               Inl x \<Rightarrow> Inl (Wrapf ''update task status'' (GormErr x))
             | Inr (ts, rowsAffected) \<Rightarrow>
                 if rowsAffected \<noteq> 1 then Inl ErrConflict
                 else
                   (case sql e ''reload task after status update'' 0
                           (sql_first tsk_id
                             (\<lambda>t. tsk_id t = taskID \<and> tsk_user_id t = userID) ts) of
                      Inl x \<Rightarrow> Inl (Wrapf ''reload task after status update'' (GormErr x))
                    | Inr updated \<Rightarrow> Inr (updated, s\<lparr>tasks := ts\<rparr>))))"

definition task_UpdateStatus ::
  "env \<Rightarrow> int \<Rightarrow> int \<Rightarrow> update_task_status_request option \<Rightarrow> db \<Rightarrow> (error + task_response) \<times> db" where
  "task_UpdateStatus e userID taskID req s =
     (if \<not> db_up e then (Inl ErrDatabaseUnavailable, s)
      else case req of
        None \<Rightarrow> (Inl ErrInvalidInput, s)
      | Some r \<Rightarrow>
          if userID \<le> 0 \<or> taskID \<le> 0 \<or> \<not> validTaskStatus (uts_status r)
            then (Inl ErrInvalidInput, s)
          else
            (case transaction e (task_UpdateStatus_tx e userID taskID (uts_status r)) s of
               (Inl err, s') \<Rightarrow> (Inl err, s')
             | (Inr t, s') \<Rightarrow> (Inr (taskResponse t), s')))"

section \<open>Deleting\<close>

definition task_Delete_tx :: "env \<Rightarrow> int \<Rightarrow> int \<Rightarrow> db \<Rightarrow> error + unit \<times> db" where
  "task_Delete_tx e userID taskID s =
     (case lockWritableTask e userID taskID s of
        Inl err \<Rightarrow> Inl err
      | Inr _ \<Rightarrow>
          (case sql e ''delete task'' 0
                  (Inr (sql_delete (\<lambda>t. tsk_id t = taskID \<and> tsk_user_id t = userID) (tasks s))) of
             Inl x \<Rightarrow> Inl (Wrapf ''delete task'' (GormErr x))
           | Inr (ts, rowsAffected) \<Rightarrow>
               if rowsAffected \<noteq> 1 then Inl ErrNotFound else Inr ((), s\<lparr>tasks := ts\<rparr>)))"

definition task_Delete :: "env \<Rightarrow> int \<Rightarrow> int \<Rightarrow> db \<Rightarrow> (error + unit) \<times> db" where
  "task_Delete e userID taskID s =
     (if \<not> db_up e then (Inl ErrDatabaseUnavailable, s)
      else if userID \<le> 0 \<or> taskID \<le> 0 then (Inl ErrInvalidInput, s)
      else transaction e (task_Delete_tx e userID taskID) s)"

section \<open>Reordering\<close>

text \<open>The loop that writes the sort orders, from position \<open>index\<close> on.\<close>

fun reorder_loop :: "env \<Rightarrow> int \<Rightarrow> int \<Rightarrow> db \<Rightarrow> nat \<Rightarrow> int list \<Rightarrow> task list \<Rightarrow> error + task list" where
  "reorder_loop e userID projectID s index [] ts = Inr ts"
| "reorder_loop e userID projectID s index (taskID # is) ts =
     (case sql e ''update task sort order'' index
             (sql_update (tasks_violation s)
               (\<lambda>t. tsk_id t = taskID \<and> tsk_project_id t = projectID \<and> tsk_user_id t = userID)
               (\<lambda>t. t\<lparr>tsk_sort_order := int32_wrap (int index), tsk_updated_at := now e\<rparr>) ts) of
        Inl x \<Rightarrow> Inl (Wrapf ''update task sort order'' (GormErr x))
      | Inr (ts', rowsAffected) \<Rightarrow>
          if rowsAffected \<noteq> 1 then Inl ErrConflict
          else reorder_loop e userID projectID s (Suc index) is ts')"

definition task_Reorder_tx ::
  "env \<Rightarrow> int \<Rightarrow> int \<Rightarrow> int list \<Rightarrow> db \<Rightarrow> error + task list \<times> db" where
  "task_Reorder_tx e userID projectID taskIDs s =
     (case task_lockProject e userID projectID False s of
        Inl err \<Rightarrow> Inl err
      | Inr p \<Rightarrow>
          if prj_status p \<noteq> projectStatusActive then Inl ErrConflict
          else
            (case sql e ''list tasks before reorder'' 0
                    (Inr (sql_find task_order
                      (\<lambda>t. tsk_project_id t = projectID \<and> tsk_user_id t = userID) (tasks s))) of
               Inl x \<Rightarrow> Inl (Wrapf ''list tasks before reorder'' (GormErr x))
             | Inr current \<Rightarrow>
                 if length current \<noteq> length taskIDs then Inl ErrConflict
                 else if \<not> list_all (\<lambda>i. i \<in> set (map tsk_id current)) taskIDs
                   then Inl ErrConflict
                 else
                   (case reorder_loop e userID projectID s 0 taskIDs (tasks s) of
                      Inl err \<Rightarrow> Inl err
                    | Inr ts \<Rightarrow>
                        (case sql e ''reload reordered tasks'' 0
                                (Inr (sql_find task_order
                                  (\<lambda>t. tsk_project_id t = projectID \<and> tsk_user_id t = userID) ts)) of
                           Inl x \<Rightarrow> Inl (Wrapf ''reload reordered tasks'' (GormErr x))
                         | Inr reordered \<Rightarrow> Inr (reordered, s\<lparr>tasks := ts\<rparr>)))))"

definition task_Reorder ::
  "env \<Rightarrow> int \<Rightarrow> reorder_tasks_request option \<Rightarrow> db \<Rightarrow> (error + task_list_response) \<times> db" where
  "task_Reorder e userID req s =
     (if \<not> db_up e then (Inl ErrDatabaseUnavailable, s)
      else case validateReorderRequest userID req of
        Inl err \<Rightarrow> (Inl err, s)
      | Inr (projectID, taskIDs) \<Rightarrow>
          (case transaction e (task_Reorder_tx e userID projectID taskIDs) s of
             (Inl err, s') \<Rightarrow> (Inl err, s')
           | (Inr ts, s') \<Rightarrow> (Inr (taskListResponse ts), s')))"

section \<open>What an accepted operation did\<close>

definition task_edit :: "db \<Rightarrow> task \<Rightarrow> task \<Rightarrow> db \<Rightarrow> bool" where
  "task_edit s t t' s' \<longleftrightarrow>
     t \<in> set (tasks s) \<and> s' = s\<lparr>tasks := replace_row tsk_id t' (tasks s)\<rparr>
     \<and> tasks_violation s (replace_row tsk_id t' (tasks s)) = None"

text \<open>The task is the caller's, and its project is the caller's and active.\<close>

definition writable_task :: "int \<Rightarrow> int \<Rightarrow> task \<Rightarrow> db \<Rightarrow> bool" where
  "writable_task u i t s \<longleftrightarrow>
     t \<in> set (tasks s) \<and> tsk_id t = i \<and> tsk_user_id t = u
     \<and> (\<exists>p\<in>set (projects s). prj_id p = tsk_project_id t \<and> prj_user_id p = u
            \<and> prj_status p = projectStatusActive)"

lemma task_lockProject_Inr:
  "task_lockProject e u i del s = Inr p \<Longrightarrow>
   p \<in> set (projects s) \<and> prj_id p = i \<and> prj_user_id p = u
     \<and> (del \<or> prj_status p \<noteq> projectStatusDeleted)"
  by (auto simp: task_lockProject_def dest: sql_first_Inr split: sum.splits db_error.splits)

lemma lockTask_Inr:
  "lockTask e u i s = Inr t \<Longrightarrow> t \<in> set (tasks s) \<and> tsk_id t = i \<and> tsk_user_id t = u"
  by (auto simp: lockTask_def dest: sql_first_Inr split: sum.splits db_error.splits)

lemma lockWritableTask_Inr:
  assumes "lockWritableTask e u i s = Inr t"
  shows "writable_task u i t s"
proof -
  obtain p j where "task_lockProject e u j False s = Inr p" "prj_status p = projectStatusActive"
    "lockTask e u i s = Inr t" "tsk_project_id t = prj_id p"
    using assms by (auto simp: lockWritableTask_def split: sum.splits if_splits)
  then show ?thesis
    using task_lockProject_Inr lockTask_Inr by (fastforce simp: writable_task_def)
qed

lemma task_Update_set_sel [simp]:
  "tsk_id (task_Update_set e r v t) = tsk_id t"
  "tsk_project_id (task_Update_set e r v t) = tsk_project_id t"
  "tsk_user_id (task_Update_set e r v t) = tsk_user_id t"
  "tsk_source_parse_result_id (task_Update_set e r v t) = tsk_source_parse_result_id t"
  "tsk_status (task_Update_set e r v t) = tsk_status t"
  "tsk_source_type (task_Update_set e r v t) = tsk_source_type t"
  "tsk_sort_order (task_Update_set e r v t) = tsk_sort_order t"
  "tsk_version (task_Update_set e r v t) = int32_wrap (v + 1)"
  "tsk_title (task_Update_set e r v t) = utr_title r"
  "tsk_priority (task_Update_set e r v t) = utr_priority r"
  by (simp_all add: task_Update_set_def)

lemma task_status_set_sel [simp]:
  "tsk_id (task_status_set e st v t) = tsk_id t"
  "tsk_project_id (task_status_set e st v t) = tsk_project_id t"
  "tsk_user_id (task_status_set e st v t) = tsk_user_id t"
  "tsk_source_parse_result_id (task_status_set e st v t) = tsk_source_parse_result_id t"
  "tsk_status (task_status_set e st v t) = st"
  "tsk_source_type (task_status_set e st v t) = tsk_source_type t"
  "tsk_sort_order (task_status_set e st v t) = tsk_sort_order t"
  "tsk_version (task_status_set e st v t) = int32_wrap (v + 1)"
  "tsk_title (task_status_set e st v t) = tsk_title t"
  "tsk_priority (task_status_set e st v t) = tsk_priority t"
  by (simp_all add: task_status_set_def)

lemma task_Update_tx_Inr:
  assumes "task_Update_tx e u i r s = Inr (t', s')" and ok: "schema_ok s"
  shows "\<exists>t. writable_task u i t s \<and> tsk_version t = utr_version r
     \<and> t' = task_Update_set e r (tsk_version t) t \<and> task_edit s t t' s'"
proof -
  obtain t ts n where lock: "lockWritableTask e u i s = Inr t"
    and v: "tsk_version t = utr_version r"
    and upd: "sql_update (tasks_violation s)
       (\<lambda>q. tsk_id q = i \<and> tsk_user_id q = u \<and> tsk_version q = tsk_version t)
       (task_Update_set e r (tsk_version t)) (tasks s) = Inr (ts, n)"
    and re: "sql_first tsk_id (\<lambda>q. tsk_id q = i \<and> tsk_user_id q = u) ts = Inr t'"
    and s': "s' = s\<lparr>tasks := ts\<rparr>"
    using assms(1) unfolding task_Update_tx_def by (auto split: sum.splits prod.splits if_splits)
  note w = lockWritableTask_Inr [OF lock]
  then have t: "t \<in> set (tasks s)" "tsk_id t = i" "tsk_user_id t = u"
    by (simp_all add: writable_task_def)
  note ur = tt.update_reload [OF upd schema_ok_distinct(5) [OF ok], of t]
  have "ts = replace_row tsk_id (task_Update_set e r (tsk_version t) t) (tasks s)"
    and "tasks_violation s ts = None" and "t' = task_Update_set e r (tsk_version t) t"
    using t v sql_first_Inr [OF re] ur ur(4) [OF _ _ _ _ re] by auto
  then show ?thesis using w v s' t by (auto simp: task_edit_def)
qed

lemma task_UpdateStatus_tx_Inr:
  assumes "task_UpdateStatus_tx e u i st s = Inr (t', s')" and ok: "schema_ok s"
  shows "\<exists>t. writable_task u i t s
     \<and> (if tsk_status t = st then t' = t \<and> s' = s
        else t' = task_status_set e st (tsk_version t) t \<and> task_edit s t t' s')"
proof (cases "lockWritableTask e u i s")
  case (Inl x)
  with assms(1) show ?thesis by (simp add: task_UpdateStatus_tx_def)
next
  case lock: (Inr t)
  note w = lockWritableTask_Inr [OF lock]
  then have t: "t \<in> set (tasks s)" "tsk_id t = i" "tsk_user_id t = u"
    by (simp_all add: writable_task_def)
  show ?thesis
  proof (cases "tsk_status t = st")
    case True
    with assms(1) lock w show ?thesis by (auto simp: task_UpdateStatus_tx_def)
  next
    case False
    with assms(1) lock obtain ts n
      where upd: "sql_update (tasks_violation s)
         (\<lambda>q. tsk_id q = i \<and> tsk_user_id q = u \<and> tsk_status q = tsk_status t)
         (task_status_set e st (tsk_version t)) (tasks s) = Inr (ts, n)"
      and re: "sql_first tsk_id (\<lambda>q. tsk_id q = i \<and> tsk_user_id q = u) ts = Inr t'"
      and s': "s' = s\<lparr>tasks := ts\<rparr>"
      unfolding task_UpdateStatus_tx_def by (auto split: sum.splits prod.splits if_splits)
    note ur = tt.update_reload [OF upd schema_ok_distinct(5) [OF ok], of t]
    have "ts = replace_row tsk_id (task_status_set e st (tsk_version t) t) (tasks s)"
      and "tasks_violation s ts = None" and "t' = task_status_set e st (tsk_version t) t"
      using t sql_first_Inr [OF re] ur ur(4) [OF _ _ _ _ re] by auto
    then show ?thesis using w t s' False by (auto simp: task_edit_def)
  qed
qed

lemma task_Delete_tx_Inr:
  assumes "task_Delete_tx e u i s = Inr (x, s')" and ok: "schema_ok s"
  shows "\<exists>t. writable_task u i t s \<and> s' = s\<lparr>tasks := filter (\<lambda>q. tsk_id q \<noteq> i) (tasks s)\<rparr>"
proof -
  obtain t where lock: "lockWritableTask e u i s = Inr t"
    and s': "s' = s\<lparr>tasks := fst (sql_delete (\<lambda>t. tsk_id t = i \<and> tsk_user_id t = u) (tasks s))\<rparr>"
    using assms(1) unfolding task_Delete_tx_def by (auto split: sum.splits prod.splits if_splits)
  note w = lockWritableTask_Inr [OF lock]
  then have t: "t \<in> set (tasks s)" "tsk_id t = i" "tsk_user_id t = u"
    by (simp_all add: writable_task_def)
  have "sql_delete (\<lambda>t. tsk_id t = i \<and> tsk_user_id t = u) (tasks s) =
      (filter (\<lambda>q. tsk_id q \<noteq> tsk_id t) (tasks s), 1)"
    using t by (intro tt.delete_keyed [OF schema_ok_distinct(5) [OF ok]]) auto
  then show ?thesis using w s' t by auto
qed

lemma task_Create_tx_Inr:
  assumes "task_Create_tx e u i r s = Inr (t, s')"
  shows "\<exists>p\<in>set (projects s). prj_id p = i \<and> prj_user_id p = u \<and> prj_status p = projectStatusActive
     \<and> t = new_task e u i r (max_sort_order u i (tasks s))
     \<and> s' = s\<lparr>tasks := tasks s @ [t]\<rparr> \<and> tasks_violation s (tasks s @ [t]) = None"
  using assms
  by (auto simp: task_Create_tx_def sql_insert_Inr Let_def split: sum.splits if_splits
      dest!: task_lockProject_Inr)

section \<open>Reordering\<close>

text \<open>What the loop does to one row, and so to the table.\<close>

primrec apply_order :: "int \<Rightarrow> int \<Rightarrow> int \<Rightarrow> nat \<Rightarrow> int list \<Rightarrow> task \<Rightarrow> task" where
  "apply_order now' u p k [] t = t"
| "apply_order now' u p k (i # is) t =
     apply_order now' u p (Suc k) is
       (if tsk_id t = i \<and> tsk_project_id t = p \<and> tsk_user_id t = u
        then t\<lparr>tsk_sort_order := int32_wrap (int k), tsk_updated_at := now'\<rparr> else t)"

lemma reorder_loop_Inr:
  assumes "reorder_loop e u p s k is ts = Inr ts'" "tasks_violation s ts = None"
  shows "ts' = map (apply_order (now e) u p k is) ts \<and> tasks_violation s ts' = None
    \<and> (\<forall>j<length is. 0 \<le> int32_wrap (int (k + j)))"
  using assms
proof (induction "is" arbitrary: k ts)
  case (Cons i "is")
  let ?P = "\<lambda>t. tsk_id t = i \<and> tsk_project_id t = p \<and> tsk_user_id t = u"
  let ?f = "\<lambda>t. t\<lparr>tsk_sort_order := int32_wrap (int k), tsk_updated_at := now e\<rparr>"
  obtain ts1 n where upd: "sql_update (tasks_violation s) ?P ?f ts = Inr (ts1, n)" and n: "n = 1"
    and loop: "reorder_loop e u p s (Suc k) is ts1 = Inr ts'"
    using Cons.prems(1) by (auto split: sum.splits prod.splits if_splits)
  have ts1: "ts1 = map (\<lambda>t. if ?P t then ?f t else t) ts" and v: "tasks_violation s ts1 = None"
    and "sql_count ?P ts = 1" using upd n by (auto simp: sql_update_Inr)
  then have "\<not> (\<forall>t\<in>set ts. \<not> ?P t)" using sql_count_0 [of ?P ts] by linarith
  then obtain t where "t \<in> set ts" "?P t" by blast
  then have "?f t \<in> set ts1" using ts1 by force
  then have "task_check (?f t)" using v by (auto simp: tasks_violation_def list_all_iff)
  then have 0: "0 \<le> int32_wrap (int k)" by (simp add: task_check_def)
  from Cons.IH [OF loop v] have
    "ts' = map (apply_order (now e) u p (Suc k) is) ts1" "tasks_violation s ts' = None"
    and nonneg: "\<forall>j<length is. 0 \<le> int32_wrap (int (Suc k + j))" by auto
  moreover have "0 \<le> int32_wrap (int (k + j))" if "j < length (i # is)" for j
    using that 0 nonneg by (cases j) auto
  ultimately show ?case by (simp add: ts1 comp_def)
qed (auto intro!: map_idI [symmetric])

lemma apply_order_other [simp]:
  "tsk_id t \<notin> set is \<or> tsk_project_id t \<noteq> p \<or> tsk_user_id t \<noteq> u \<Longrightarrow> apply_order n u p k is t = t"
  by (induction "is" arbitrary: k) auto

lemma apply_order_sel [simp]:
  "tsk_id (apply_order n u p k is t) = tsk_id t"
  "tsk_project_id (apply_order n u p k is t) = tsk_project_id t"
  "tsk_user_id (apply_order n u p k is t) = tsk_user_id t"
  by (induction "is" arbitrary: k t) auto

lemma apply_order_frame:
  "(apply_order n u p k is t)\<lparr>tsk_sort_order := a, tsk_updated_at := b\<rparr> =
   t\<lparr>tsk_sort_order := a, tsk_updated_at := b\<rparr>"
  by (induction "is" arbitrary: k t) auto

lemma apply_order_nth:
  "distinct is \<Longrightarrow> j < length is \<Longrightarrow> tsk_id t = is ! j \<Longrightarrow> tsk_project_id t = p \<Longrightarrow>
   tsk_user_id t = u \<Longrightarrow> tsk_sort_order (apply_order n u p k is t) = int32_wrap (int (k + j))"
proof (induction "is" arbitrary: k j t)
  case (Cons i "is")
  show ?case
  proof (cases j)
    case 0
    then show ?thesis using Cons.prems by auto
  next
    case (Suc j')
    then have "is ! j' \<noteq> i" using Cons.prems by (auto simp: in_set_conv_nth)
    then show ?thesis using Suc Cons.prems Cons.IH [of j' t "Suc k"] by simp
  qed
qed simp

lemma reorder_ids_ok_iff: "reorder_ids_ok seen is \<longleftrightarrow> (\<forall>i\<in>set is. 0 < i \<and> i \<notin> seen) \<and> distinct is"
  by (induction "is" arbitrary: seen) auto

text \<open>An int32 that did not wrap: positions of an accepted order are below \<open>2^31\<close>.\<close>

lemma nonneg_positions:
  assumes "\<forall>j<n. 0 \<le> int32_wrap (int j)" and "j < n"
  shows "int32_wrap (int j) = int j"
proof -
  have "n \<le> 2147483648"
  proof (rule ccontr)
    assume "\<not> n \<le> 2147483648"
    then have "0 \<le> int32_wrap (int 2147483648)" using assms(1) [rule_format, of 2147483648] by linarith
    then show False by (simp add: int32_wrap_def)
  qed
  then show ?thesis using assms(2) by simp
qed

text \<open>The rows of the project after the loop, sorted: exactly the order asked for.\<close>

lemma reordered_rows:
  fixes n u p :: int
  assumes dist: "distinct (map tsk_id ts)" and d: "distinct is"
    and len: "length (filter (\<lambda>t. tsk_project_id t = p \<and> tsk_user_id t = u) ts) = length is"
    and sub: "set is \<subseteq> tsk_id ` {t \<in> set ts. tsk_project_id t = p \<and> tsk_user_id t = u}"
    and nn: "\<forall>j<length is. 0 \<le> int32_wrap (int j)"
  defines "rows \<equiv> sql_find task_order (\<lambda>t. tsk_project_id t = p \<and> tsk_user_id t = u)
      (map (apply_order n u p 0 is) ts)"
  shows "map tsk_id rows = is \<and> map tsk_sort_order rows = map int [0..<length is]"
proof -
  let ?Q = "\<lambda>t. tsk_project_id t = p \<and> tsk_user_id t = u"
  let ?C = "filter ?Q (map (apply_order n u p 0 is) ts)"
  let ?row = "\<lambda>i. apply_order n u p 0 is (the (table_map tsk_id ts i))"
  let ?R = "map ?row is"
  have pick: "\<exists>t. table_map tsk_id ts i = Some t \<and> t \<in> set ts \<and> tsk_id t = i \<and> ?Q t"
    if "i \<in> set is" for i
    using that sub table_map_in [OF dist] by fastforce
  have "tsk_id (?row i) = i" if "i \<in> set is" for i using pick [OF that] by auto
  then have ids: "map tsk_id ?R = is" unfolding map_map comp_def by (intro map_idI)
  have so: "tsk_sort_order (?R ! j) = int j" if "j < length is" for j
    using pick [of "is ! j"] that nonneg_positions [OF nn that] apply_order_nth [OF d that, of _ p u n 0]
    by auto
  have RC: "set ?R \<subseteq> set ?C" using pick by fastforce
  have dR: "distinct ?R" using ids d by (metis distinct_map)
  have "map tsk_id ?C = map tsk_id (filter ?Q ts)" by (simp add: filter_map comp_def)
  then have dC: "distinct (map tsk_id ?C)" and lC: "length ?C = length is"
    using dist len by (auto simp: distinct_map_filter filter_map comp_def)
  have "card (set ?R) = card (set ?C)"
    using dR distinct_card [OF dR] distinct_card [of ?C] dC lC by (simp add: distinct_map)
  then have "set ?R = set ?C" using RC by (intro card_subset_eq) auto
  moreover have "distinct ?C" using dC by (simp only: distinct_map)
  ultimately have "mset ?C = mset ?R" using dR set_eq_iff_mset_eq_distinct [of ?C ?R] by simp
  moreover have "inj_on task_order (set ?C)"
    using dC by (auto simp: distinct_map inj_on_def task_order_def asc_key_def)
  moreover have "sorted (map task_order ?R)"
    using so by (auto simp: sorted_iff_nth_mono_less task_order_def)
  ultimately have "rows = ?R"
    unfolding rows_def sql_find_def by (rule sort_key_inj_key_eq)
  then show ?thesis using ids so by (auto intro!: nth_equalityI)
qed

definition project_tasks :: "int \<Rightarrow> int \<Rightarrow> db \<Rightarrow> task list" where
  "project_tasks u p s = sql_find task_order (\<lambda>t. tsk_project_id t = p \<and> tsk_user_id t = u) (tasks s)"

lemma task_Reorder_tx_Inr:
  assumes "task_Reorder_tx e u p is s = Inr (rows, s')" and ok: "schema_ok s" and d: "distinct is"
  shows "(\<exists>q\<in>set (projects s). prj_id q = p \<and> prj_user_id q = u \<and> prj_status q = projectStatusActive)
    \<and> set is = tsk_id ` set (project_tasks u p s)
    \<and> s' = s\<lparr>tasks := map (apply_order (now e) u p 0 is) (tasks s)\<rparr>
    \<and> tasks_violation s (tasks s') = None \<and> rows = project_tasks u p s'
    \<and> map tsk_id rows = is \<and> map tsk_sort_order rows = map int [0..<length is]"
proof -
  obtain q ts where q: "task_lockProject e u p False s = Inr q" "prj_status q = projectStatusActive"
    and len: "length (project_tasks u p s) = length is"
    and sub: "list_all (\<lambda>i. i \<in> set (map tsk_id (project_tasks u p s))) is"
    and loop: "reorder_loop e u p s 0 is (tasks s) = Inr ts"
    and rows: "rows = project_tasks u p s'" and s': "s' = s\<lparr>tasks := ts\<rparr>"
    using assms(1) unfolding task_Reorder_tx_def
    by (auto simp: project_tasks_def split: sum.splits if_splits)
  have "tasks_violation s (tasks s) = None" using ok by (simp add: schema_ok_def)
  note lp = reorder_loop_Inr [OF loop this]
  have sub': "set is \<subseteq> tsk_id ` set (project_tasks u p s)"
    using sub by (auto simp: list_all_iff)
  have "card (set is) = length is" by (rule distinct_card [OF d])
  moreover have "card (tsk_id ` set (project_tasks u p s)) \<le> length is"
    using len by (metis card_length length_map list.set_map)
  ultimately have "set is = tsk_id ` set (project_tasks u p s)"
    using sub' by (intro card_seteq) simp_all
  moreover have "map tsk_id rows = is \<and> map tsk_sort_order rows = map int [0..<length is]"
    unfolding rows s' project_tasks_def
    using reordered_rows [OF schema_ok_distinct(5) [OF ok] d] len sub' lp
    by (simp add: project_tasks_def)
  ultimately show ?thesis using q s' rows lp by (auto dest!: task_lockProject_Inr)
qed

lemma task_Reorder_Inr:
  assumes "task_Reorder e u req s = (Inr resp, s')"
  shows "\<exists>p is rows. validateReorderRequest u req = Inr (p, is) \<and> distinct is
    \<and> task_Reorder_tx e u p is s = Inr (rows, s') \<and> resp = taskListResponse rows"
proof -
  obtain p "is" where v: "validateReorderRequest u req = Inr (p, is)"
    using assms by (cases "validateReorderRequest u req") (auto simp: task_Reorder_def split: if_splits)
  moreover have "distinct is"
    using v by (auto simp: validateReorderRequest_def reorder_ids_ok_iff split: option.splits if_splits)
  moreover obtain rows where "transaction e (task_Reorder_tx e u p is) s = (Inr rows, s')"
    "resp = taskListResponse rows"
    using assms v by (auto simp: task_Reorder_def split: if_splits prod.splits sum.splits)
  ultimately show ?thesis by (auto simp: transaction_Inr)
qed

text \<open>
  C8: An accepted Reorder puts the tasks of the project exactly in the requested order.
  Whatever faults occur, if the answer is a list then the requested ids are precisely the
  ids of the project's tasks, the list and every later listing of the project show the tasks
  in that order with sort orders 0, 1, 2 and so on, and nothing but sort orders and update
  times of these tasks has changed. A refused Reorder changes nothing.
\<close>

theorem task_Reorder_exact:
  assumes "schema_ok s" "task_Reorder e u (Some \<lparr>rtr_project_id = p, rtr_task_ids = Some ids\<rparr>) s = (r, s')"
  shows "case r of
      Inl err \<Rightarrow> s' = s
    | Inr resp \<Rightarrow>
        set ids = tsk_id ` set (project_tasks u p s) \<and> distinct ids
        \<and> map tr_id (tl_items resp) = ids
        \<and> tl_items resp = map taskResponse (project_tasks u p s')
        \<and> map tr_sort_order (tl_items resp) = map int [0..<length ids]
        \<and> map (\<lambda>t. t\<lparr>tsk_sort_order := 0, tsk_updated_at := 0\<rparr>) (tasks s') =
            map (\<lambda>t. t\<lparr>tsk_sort_order := 0, tsk_updated_at := 0\<rparr>) (tasks s)
        \<and> filter (\<lambda>t. tsk_project_id t \<noteq> p) (tasks s') = filter (\<lambda>t. tsk_project_id t \<noteq> p) (tasks s)
        \<and> s' = s\<lparr>tasks := tasks s'\<rparr>"
proof (cases r)
  case (Inl err)
  then show ?thesis using assms(2)
    by (auto simp: task_Reorder_def dest: transaction_Inl split: if_splits sum.splits prod.splits)
next
  case (Inr resp)
  from task_Reorder_Inr [OF assms(2) [unfolded Inr]] obtain rows where d: "distinct ids"
    and tx: "task_Reorder_tx e u p ids s = Inr (rows, s')" and resp: "resp = taskListResponse rows"
    by (auto simp: validateReorderRequest_def split: if_splits)
  note t = task_Reorder_tx_Inr [OF tx assms(1) d]
  then have ts: "tasks s' = map (apply_order (now e) u p 0 ids) (tasks s)"
    and s': "s' = s\<lparr>tasks := tasks s'\<rparr>" by simp_all
  have "filter (\<lambda>t. tsk_project_id t \<noteq> p) (tasks s') = filter (\<lambda>t. tsk_project_id t \<noteq> p) (tasks s)"
    unfolding ts filter_map comp_def by (auto intro!: map_idI)
  moreover have "map (\<lambda>t. t\<lparr>tsk_sort_order := 0, tsk_updated_at := 0\<rparr>) (tasks s') =
      map (\<lambda>t. t\<lparr>tsk_sort_order := 0, tsk_updated_at := 0\<rparr>) (tasks s)"
    by (simp add: ts comp_def apply_order_frame)
  moreover have "tl_items resp = map taskResponse rows" by (simp add: resp taskListResponse_def)
  moreover have "map tr_id (map taskResponse rows) = map tsk_id rows"
    "map tr_sort_order (map taskResponse rows) = map tsk_sort_order rows"
    by (simp_all add: taskResponse_def)
  ultimately show ?thesis using t d s' by (simp only: Inr sum.case) blast
qed

lemma task_check_order:
  "task_check t \<Longrightarrow> 0 \<le> k \<Longrightarrow> k \<le> 2147483647 \<Longrightarrow>
   task_check (t\<lparr>tsk_sort_order := k, tsk_updated_at := n\<rparr>)"
  by (simp add: task_check_def int4_def)

lemma task_refs_order [simp]:
  "task_refs s (t\<lparr>tsk_sort_order := k, tsk_updated_at := n\<rparr>) = task_refs s t"
  by (simp add: task_refs_def)

lemma tasks_violation_map:
  assumes "tasks_violation s ts = None"
    and "\<And>t. t \<in> set ts \<Longrightarrow> task_check (f t) \<and> task_refs s (f t) \<and> tsk_id (f t) = tsk_id t"
  shows "tasks_violation s (map f ts) = None"
proof -
  have "map tsk_id (map f ts) = map tsk_id ts" using assms(2) by simp
  moreover have "distinct (map tsk_id ts)" using assms(1) by (simp add: tasks_violation_def)
  ultimately have "distinct (map tsk_id (map f ts))" by (simp only:)
  then show ?thesis using assms(2) by (simp add: tasks_violation_def list_all_iff)
qed

lemma reorder_loop_ok:
  assumes "no_faults e" "tasks_violation s ts = None" "k + length is \<le> 2147483648"
    and "\<forall>i\<in>set is. \<exists>t\<in>set ts. tsk_id t = i \<and> tsk_project_id t = p \<and> tsk_user_id t = u"
  shows "\<exists>ts'. reorder_loop e u p s k is ts = Inr ts'"
  using assms
proof (induction "is" arbitrary: k ts)
  case (Cons i "is")
  let ?P = "\<lambda>t. tsk_id t = i \<and> tsk_project_id t = p \<and> tsk_user_id t = u"
  let ?f = "\<lambda>t. t\<lparr>tsk_sort_order := int32_wrap (int k), tsk_updated_at := now e\<rparr>"
  let ?ts1 = "map (\<lambda>t. if ?P t then ?f t else t) ts"
  have dist: "distinct (map tsk_id ts)" using Cons.prems(2) by (simp add: tasks_violation_def)
  obtain t where t: "t \<in> set ts" "?P t" using Cons.prems(4) by auto
  have "sql_count ?P ts = 1" using t by (intro tt.count_keyed [OF dist t(1)]) auto
  have "task_check x \<and> task_refs s x" if "x \<in> set ts" for x
    using that Cons.prems(2) by (auto simp: tasks_violation_def list_all_iff)
  then have v: "tasks_violation s ?ts1 = None"
    using Cons.prems(3) by (intro tasks_violation_map [OF Cons.prems(2)]) (simp add: task_check_order)
  with \<open>sql_count ?P ts = 1\<close> have upd: "sql_update (tasks_violation s) ?P ?f ts = Inr (?ts1, 1)"
    by (simp add: sql_update_def Let_def)
  have "\<forall>j\<in>set is. \<exists>t\<in>set ?ts1. tsk_id t = j \<and> tsk_project_id t = p \<and> tsk_user_id t = u"
  proof
    fix j assume "j \<in> set is"
    then obtain x where x: "x \<in> set ts" "tsk_id x = j \<and> tsk_project_id x = p \<and> tsk_user_id x = u"
      using Cons.prems(4) by auto
    show "\<exists>t\<in>set ?ts1. tsk_id t = j \<and> tsk_project_id t = p \<and> tsk_user_id t = u"
      unfolding set_map bex_simps by (rule bexI [OF _ x(1)]) (use x(2) in simp)
  qed
  from Cons.IH [OF Cons.prems(1) v _ this, of "Suc k"] Cons.prems(1,3) upd show ?case by simp
qed simp

lemma task_lockProject_own:
  assumes "no_faults e" "schema_ok s" "table_map prj_id (projects s) p = Some q"
    and "prj_user_id q = u" "prj_status q \<noteq> projectStatusDeleted"
  shows "task_lockProject e u p False s = Inr q"
proof -
  have "sql_first prj_id (\<lambda>q. prj_id q = p \<and> prj_user_id q = u
      \<and> (False \<or> prj_status q \<noteq> projectStatusDeleted)) (projects s) = Inr q"
    using table_map_Some [OF assms(3)] assms(4,5)
    by (intro pt.first_keyed [OF schema_ok_distinct(4) [OF assms(2)]]) auto
  then show ?thesis using assms(1) by (simp add: task_lockProject_def)
qed

lemma task_Reorder_call:
  assumes "no_faults e" "0 < u" "0 < p" "reorder_ids_ok {} ids"
  shows "task_Reorder e u (Some \<lparr>rtr_project_id = p, rtr_task_ids = Some ids\<rparr>) s =
    (case task_Reorder_tx e u p ids s of
       Inl err \<Rightarrow> (Inl err, s) | Inr (ts, s') \<Rightarrow> (Inr (taskListResponse ts), s'))"
  using assms
  by (auto simp: task_Reorder_def validateReorderRequest_def no_faults_def split: sum.splits)

lemma task_Reorder_accepted:
  assumes "schema_ok s" "no_faults e" "0 < u" "0 < p"
    and lock: "task_lockProject e u p False s = Inr q" "prj_status q = ''active''"
    and ids: "reorder_ids_ok {} ids" "length ids \<le> 2147483648"
      "set ids = tsk_id ` set (project_tasks u p s)"
  shows "\<exists>resp s'. task_Reorder e u (Some \<lparr>rtr_project_id = p, rtr_task_ids = Some ids\<rparr>) s = (Inr resp, s')"
proof -
  have d: "distinct ids" using ids(1) by (simp add: reorder_ids_ok_iff)
  have dp: "distinct (map tsk_id (project_tasks u p s))"
    unfolding project_tasks_def by (rule distinct_sql_find [OF schema_ok_distinct(5) [OF assms(1)]])
  have len: "length (project_tasks u p s) = length ids"
    using distinct_card [OF d] distinct_card [OF dp] ids(3) by simp
  have v: "tasks_violation s (tasks s) = None" using assms(1) by (simp add: schema_ok_def)
  have "\<forall>i\<in>set ids. \<exists>t\<in>set (tasks s). tsk_id t = i \<and> tsk_project_id t = p \<and> tsk_user_id t = u"
    using ids(3) by (auto simp: project_tasks_def)
  from reorder_loop_ok [OF assms(2) v _ this, of 0] obtain ts
    where "reorder_loop e u p s 0 ids (tasks s) = Inr ts" using ids(2) by auto
  then show ?thesis using ids(3) lock len assms(2)
    by (simp add: task_Reorder_call [OF assms(2-4) ids(1)] task_Reorder_tx_def project_tasks_def
        list_all_iff)
qed

text \<open>
  Reorder accepts every rearrangement. If the database answers and the project is the
  caller's and active, any list of the project's task ids, each once, is accepted; any
  other list of distinct positive ids is answered with a conflict and changes nothing.
\<close>

theorem task_Reorder_accepts:
  assumes "schema_ok s" "no_faults e" "0 < u" "0 < p" "table_map prj_id (projects s) p = Some q"
    and "prj_user_id q = u" "prj_status q = ''active''" "reorder_ids_ok {} ids"
    and "length ids \<le> 2147483648"
  defines "call \<equiv> task_Reorder e u (Some \<lparr>rtr_project_id = p, rtr_task_ids = Some ids\<rparr>)"
  shows "if set ids = tsk_id ` set (project_tasks u p s)
    then \<exists>resp s'. call s = (Inr resp, s') else call s = (Inl ErrConflict, s)"
proof (cases "set ids = tsk_id ` set (project_tasks u p s)")
  case True
  have lock: "task_lockProject e u p False s = Inr q"
    using assms by (intro task_lockProject_own) auto
  then show ?thesis using True task_Reorder_accepted [OF assms(1-4) lock assms(7-9) True]
    by (simp add: call_def)
next
  case False
  have lock: "task_lockProject e u p False s = Inr q"
    using assms by (intro task_lockProject_own) auto
  have d: "distinct ids" using assms(8) by (simp add: reorder_ids_ok_iff)
  have dp: "distinct (map tsk_id (project_tasks u p s))"
    unfolding project_tasks_def by (rule distinct_sql_find [OF schema_ok_distinct(5) [OF assms(1)]])
  have "length (project_tasks u p s) \<noteq> length ids \<or> \<not> set ids \<subseteq> tsk_id ` set (project_tasks u p s)"
  proof (rule ccontr)
    assume "\<not> ?thesis"
    then have "set ids = tsk_id ` set (project_tasks u p s)"
      using distinct_card [OF d] distinct_card [OF dp] by (intro card_seteq) auto
    with False show False by simp
  qed
  then show ?thesis using False lock assms(2,7)
    by (auto simp: call_def task_Reorder_call [OF assms(2-4,8)] task_Reorder_tx_def
        project_tasks_def list_all_iff)
qed

lemma sample_project_tasks: "tsk_id ` set (project_tasks 1 1 sample_db) = {1, 2}"
  by (simp add: project_tasks_def sql_find_def sample_db_def sample_task_def insert_commute)

lemma sample_lock: "table_map prj_id (projects sample_db) 1 = Some (sample_project 1 1 ''active'')"
  by (simp add: sample_db_def sample_project_def)

theorem task_Reorder_accepts_witness:
  "\<exists>resp s'. task_Reorder sample_env 1 (Some \<lparr>rtr_project_id = 1, rtr_task_ids = Some [2, 1]\<rparr>) sample_db
     = (Inr resp, s')"
proof -
  have "set [2, 1] = tsk_id ` set (project_tasks 1 1 sample_db)"
    by (simp only: sample_project_tasks) auto
  then show ?thesis
    using task_Reorder_accepts [OF schema_ok_sample no_faults_sample_env _ _ sample_lock, of 1 "[2, 1]"]
    by (simp add: sample_project_def)
qed

theorem task_Reorder_exact_witness:
  "\<exists>resp s'. task_Reorder sample_env 1 (Some \<lparr>rtr_project_id = 1, rtr_task_ids = Some [2, 1]\<rparr>) sample_db
     = (Inr resp, s') \<and> map tr_id (tl_items resp) = [2, 1]"
proof -
  have "set [2, 1] = tsk_id ` set (project_tasks 1 1 sample_db)"
    by (simp only: sample_project_tasks) auto
  moreover have "task_lockProject sample_env 1 1 False sample_db = Inr (sample_project 1 1 ''active'')"
    by (rule task_lockProject_own [OF no_faults_sample_env schema_ok_sample sample_lock])
      (simp_all add: sample_project_def)
  ultimately obtain resp s' where run: "task_Reorder sample_env 1
      (Some \<lparr>rtr_project_id = 1, rtr_task_ids = Some [2, 1]\<rparr>) sample_db = (Inr resp, s')"
    using task_Reorder_accepted [OF schema_ok_sample no_faults_sample_env, of 1 1 _ "[2, 1]"]
    by (auto simp: sample_project_def)
  then show ?thesis using task_Reorder_exact [OF schema_ok_sample run] by auto
qed

section \<open>Creating appends\<close>

lemma max_sort_order_ge:
  "t \<in> set ts \<Longrightarrow> tsk_project_id t = p \<Longrightarrow> tsk_user_id t = u \<Longrightarrow>
   tsk_sort_order t \<le> max_sort_order u p ts"
  by (induction ts) (auto simp: max_sort_order_def)

lemma max_sort_order_lower: "- 1 \<le> max_sort_order u p ts"
  by (induction ts) (auto simp: max_sort_order_def)

lemma max_sort_order_upper:
  "\<forall>t\<in>set ts. tsk_sort_order t \<le> b \<Longrightarrow> - 1 \<le> b \<Longrightarrow> max_sort_order u p ts \<le> b"
  by (induction ts) (auto simp: max_sort_order_def)

lemma new_task_sel [simp]:
  "tsk_id (new_task e u p r m) = new_id e 0" "tsk_project_id (new_task e u p r m) = p"
  "tsk_user_id (new_task e u p r m) = u" "tsk_status (new_task e u p r m) = ''todo''"
  "tsk_sort_order (new_task e u p r m) = int32_wrap (m + 1)" "tsk_version (new_task e u p r m) = 1"
  "tsk_title (new_task e u p r m) = ctr_title r" "tsk_description (new_task e u p r m) = ctr_description r"
  "tsk_priority (new_task e u p r m) = ctr_priority r" "tsk_source_type (new_task e u p r m) = ''manual''"
  "tsk_source_parse_result_id (new_task e u p r m) = None"
  by (simp_all add: new_task_def)

lemma project_tasks_append:
  assumes v: "tasks_violation s (tasks s @ [t]) = None"
    and t: "tsk_project_id t = p" "tsk_user_id t = u"
      "tsk_sort_order t = int32_wrap (max_sort_order u p (tasks s) + 1)"
  shows "project_tasks u p (s\<lparr>tasks := tasks s @ [t]\<rparr>) = project_tasks u p s @ [t]"
    and "tsk_sort_order t = max_sort_order u p (tasks s) + 1"
proof -
  let ?Q = "\<lambda>t. tsk_project_id t = p \<and> tsk_user_id t = u" and ?m = "max_sort_order u p (tasks s)"
  have check: "\<forall>x\<in>set (tasks s). task_check x" "task_check t" and d: "distinct (map tsk_id (tasks s @ [t]))"
    using v by (auto simp: tasks_violation_def list_all_iff)
  have "?m \<le> 2147483647"
    using check(1) by (intro max_sort_order_upper) (auto simp: task_check_def int4_def)
  moreover have "0 \<le> int32_wrap (?m + 1)" using check(2) t(3) by (simp add: task_check_def)
  ultimately show so: "tsk_sort_order t = ?m + 1"
    using max_sort_order_lower [of u p "tasks s"] t(3)
    by (cases "?m = 2147483647") (auto simp: int32_wrap_def)
  let ?C = "filter ?Q (tasks s)"
  have "sort_key task_order (?C @ [t]) = sort_key task_order ?C @ [t]"
  proof (rule sort_key_inj_key_eq)
    show "mset (?C @ [t]) = mset (sort_key task_order ?C @ [t])" by simp
    have "distinct (map tsk_id (?C @ [t]))" using d by (auto simp: distinct_map_filter)
    then show "inj_on task_order (set (?C @ [t]))"
      unfolding distinct_map inj_on_def task_order_def asc_key_def by blast
    have "\<forall>x\<in>set ?C. task_order x \<le> task_order t"
      using so max_sort_order_ge [of _ "tasks s" p u] by (force simp: task_order_def)
    then show "sorted (map task_order (sort_key task_order ?C @ [t]))"
      by (auto simp: sorted_append)
  qed
  then show "project_tasks u p (s\<lparr>tasks := tasks s @ [t]\<rparr>) = project_tasks u p s @ [t]"
    using t by (simp add: project_tasks_def sql_find_def)
qed

lemma task_Create_Inr:
  assumes "task_Create e u p (Some r) s = (Inr resp, s')"
  shows "\<exists>n t. task_normalizeCreateRequest u p (Some r) = Inr n \<and> resp = taskResponse t
    \<and> task_Create_tx e u p n s = Inr (t, s')"
  using assms
  by (auto simp: task_Create_def transaction_Inr split: if_splits sum.splits prod.splits)

text \<open>
  A new task goes to the end of its project. Whatever faults occur, if Create answers
  with a task then the project was the caller's and active, the project's tasks afterwards
  are the old ones in their order followed by the new one, its sort order is one more than
  the largest there was (0 in an empty project) without wrap-around, it is a manual task
  in state todo at version 1 with the trimmed title, and every other row is as before.
\<close>

theorem task_Create_appends:
  assumes "schema_ok s" "task_Create e u p (Some r) s = (Inr resp, s')"
  shows "\<exists>t. resp = taskResponse t \<and> s' = s\<lparr>tasks := tasks s @ [t]\<rparr>
    \<and> project_tasks u p s' = project_tasks u p s @ [t]
    \<and> tsk_sort_order t = max_sort_order u p (tasks s) + 1
    \<and> tsk_title t = trim_space (ctr_title r) \<and> tsk_status t = ''todo''
    \<and> tsk_source_type t = ''manual'' \<and> tsk_version t = 1
    \<and> (\<exists>q\<in>set (projects s). prj_id q = p \<and> prj_user_id q = u \<and> prj_status q = ''active'')"
proof -
  from task_Create_Inr [OF assms(2)] obtain n t
    where n: "task_normalizeCreateRequest u p (Some r) = Inr n" and resp: "resp = taskResponse t"
    and tx: "task_Create_tx e u p n s = Inr (t, s')" by blast
  from task_Create_tx_Inr [OF tx] obtain q where q: "q \<in> set (projects s)" "prj_id q = p"
    "prj_user_id q = u" "prj_status q = projectStatusActive"
    and t: "t = new_task e u p n (max_sort_order u p (tasks s))"
    and s': "s' = s\<lparr>tasks := tasks s @ [t]\<rparr>" and v: "tasks_violation s (tasks s @ [t]) = None"
    by blast
  have "ctr_title n = trim_space (ctr_title r)"
    using n by (auto simp: task_normalizeCreateRequest_def normalizeTaskFields_def Let_def
        split: if_splits sum.splits prod.splits option.splits)
  then show ?thesis using project_tasks_append [OF v] t s' resp q by auto
qed

definition sample_new_task :: create_task_request where
  "sample_new_task = \<lparr>ctr_title = '' z '', ctr_description = None, ctr_priority = ''low'',
     ctr_deadline = None\<rparr>"

lemma sample_Create_runs:
  "\<exists>resp s'. task_Create sample_env 1 1 (Some sample_new_task) sample_db = (Inr resp, s')"
proof -
  have lock: "task_lockProject sample_env 1 1 False sample_db = Inr (sample_project 1 1 ''active'')"
    by (rule task_lockProject_own [OF no_faults_sample_env schema_ok_sample sample_lock])
      (simp_all add: sample_project_def)
  have n: "task_normalizeCreateRequest 1 1 (Some sample_new_task) = Inr (sample_new_task\<lparr>ctr_title := ''z''\<rparr>)"
    by (simp add: task_normalizeCreateRequest_def normalizeTaskFields_def sample_new_task_def
        trim_space_def strip_def is_space_def segments_ascii_Cons rune_count_ascii Let_def
        validTaskPriority_def)
  have "max_sort_order 1 1 (tasks sample_db) = 1"
    by (simp add: max_sort_order_def sample_db_def sample_task_def)
  moreover have "tasks_violation sample_db (tasks sample_db @
      [new_task sample_env 1 1 (sample_new_task\<lparr>ctr_title := ''z''\<rparr>) 1]) = None"
    using schema_ok_sample
    by (simp add: schema_ok_def tasks_violation_def task_check_def int4_def varchar_def
        rune_count_ascii task_refs_def sample_new_task_def)
      (simp add: sample_defs)
  ultimately show ?thesis
    using lock n
    by (simp add: task_Create_def task_Create_tx_def sql_insert_def sample_project_def Let_def)
qed

theorem task_Create_appends_witness:
  "\<exists>resp s'. task_Create sample_env 1 1 (Some sample_new_task) sample_db = (Inr resp, s')
     \<and> map tsk_id (project_tasks 1 1 s') = map tsk_id (project_tasks 1 1 sample_db) @ [tr_id resp]"
proof -
  obtain resp s' where run: "task_Create sample_env 1 1 (Some sample_new_task) sample_db = (Inr resp, s')"
    using sample_Create_runs by blast
  show ?thesis using task_Create_appends [OF schema_ok_sample run] run by (auto simp: taskResponse_def)
qed

section \<open>Optimistic locking\<close>

lemma schema_ok_task_check: "schema_ok s \<Longrightarrow> t \<in> set (tasks s) \<Longrightarrow> task_check t"
  by (auto simp: schema_ok_def tasks_violation_def list_all_iff)

lemma task_edit_check: "task_edit s t t' s' \<Longrightarrow> tsk_id t' = tsk_id t \<Longrightarrow> task_check t'"
  using set_replace_row [of t "tasks s" tsk_id t']
  by (auto simp: task_edit_def tasks_violation_def list_all_iff)

lemma task_edit_version:
  assumes "task_edit s t t' s'" "tsk_id t' = tsk_id t" "schema_ok s"
    "tsk_version t' = int32_wrap (tsk_version t + 1)"
  shows "tsk_version t' = tsk_version t + 1"
proof -
  have "task_check t" using assms(1,3) schema_ok_task_check by (auto simp: task_edit_def)
  with task_edit_check [OF assms(1,2)] assms(4) show ?thesis
    using int32_succ_pos by (auto simp: task_check_def int4_def)
qed

lemma task_edit_schema_ok: "schema_ok s \<Longrightarrow> task_edit s t t' s' \<Longrightarrow> schema_ok s'"
  by (auto simp: task_edit_def intro: schema_ok_tasks)

definition task_version :: "int \<Rightarrow> db \<Rightarrow> int option" where
  "task_version i s = map_option tsk_version (table_map tsk_id (tasks s) i)"

lemma task_edit_versions:
  assumes "schema_ok s" "task_edit s t t' s'" "tsk_id t' = tsk_id t"
  shows "task_version (tsk_id t) s = Some (tsk_version t)"
    "task_version (tsk_id t) s' = Some (tsk_version t')"
proof -
  have t: "t \<in> set (tasks s)" and s': "tasks s' = replace_row tsk_id t' (tasks s)"
    using assms(2) by (simp_all add: task_edit_def)
  show "task_version (tsk_id t) s = Some (tsk_version t)"
    using table_map_in [OF schema_ok_distinct(5) [OF assms(1)] t] by (simp add: task_version_def)
  have "table_map tsk_id (tasks s') = (table_map tsk_id (tasks s))(tsk_id t' \<mapsto> t')"
    unfolding s' using t assms(3) by (intro table_map_replace_row) auto
  then show "task_version (tsk_id t) s' = Some (tsk_version t')"
    using assms(3) by (simp add: task_version_def)
qed

lemma task_normalizeUpdateRequest_Inr:
  "task_normalizeUpdateRequest u i (Some r) = Inr n \<Longrightarrow>
   utr_version n = utr_version r \<and> utr_title n = trim_space (utr_title r)
     \<and> utr_title n \<noteq> [] \<and> rune_count (utr_title n) \<le> 255 \<and> validTaskPriority (utr_priority n)
     \<and> utr_description n = map_option trim_space (utr_description r)"
  by (auto simp: task_normalizeUpdateRequest_def normalizeTaskFields_def Let_def
      split: if_splits sum.splits prod.splits option.splits)

abbreviation task_update_call ::
  "int \<Rightarrow> int \<Rightarrow> env \<times> update_task_request \<Rightarrow> db \<Rightarrow> (error + task_response) \<times> db" where
  "task_update_call u i call \<equiv> task_Update (fst call) u i (Some (snd call))"

lemma task_Update_Inl: "task_Update e u i r s = (Inl err, s') \<Longrightarrow> s' = s"
  by (auto simp: task_Update_def dest: transaction_Inl split: if_splits sum.splits prod.splits)

lemma task_Update_Inr:
  assumes "task_Update e u i (Some r) s = (Inr resp, s')" "schema_ok s"
  shows "\<exists>n t t'. task_normalizeUpdateRequest u i (Some r) = Inr n \<and> resp = taskResponse t'
    \<and> writable_task u i t s \<and> tsk_version t = utr_version r
    \<and> t' = task_Update_set e n (tsk_version t) t \<and> task_edit s t t' s'"
proof -
  obtain n t' where n: "task_normalizeUpdateRequest u i (Some r) = Inr n" and "resp = taskResponse t'"
    and "task_Update_tx e u i n s = Inr (t', s')"
    using assms(1)
    by (auto simp: task_Update_def transaction_Inr split: if_splits sum.splits prod.splits)
  then show ?thesis
    using task_Update_tx_Inr [OF _ assms(2)] task_normalizeUpdateRequest_Inr [OF n] by fastforce
qed

interpretation tv: versioned "task_update_call u i" "\<lambda>call. utr_version (snd call)"
  "task_version i" schema_ok for u i
proof
  fix s s' call x
  assume ok: "schema_ok s" and upd: "task_update_call u i call s = (Inr x, s')"
  from task_Update_Inr [OF upd ok] obtain n t t' where w: "writable_task u i t s"
    and v: "tsk_version t = utr_version (snd call)"
    and t': "t' = task_Update_set (fst call) n (tsk_version t) t" and ed: "task_edit s t t' s'"
    by blast
  have same: "tsk_id t' = tsk_id t" "tsk_id t = i" using w t' by (simp_all add: writable_task_def)
  have "tsk_version t' = tsk_version t + 1"
    using t' by (intro task_edit_version [OF ed same(1) ok]) simp
  then show "schema_ok s' \<and> task_version i s = Some (utr_version (snd call))
      \<and> task_version i s' = Some (utr_version (snd call) + 1)"
    using task_edit_versions [OF ok ed same(1)] task_edit_schema_ok [OF ok ed] same v by auto
next
  fix s s' call err
  assume "task_update_call u i call s = (Inl err, s')"
  then show "s' = s" by (rule task_Update_Inl)
qed

text \<open>
  No lost update on tasks. Take any sequence of Update requests for a task, with any
  faults. The versions sent by the accepted ones are the stored version, its successor, and
  so on, without gap or repetition, and the stored version ends where it began plus their
  number.
\<close>

theorem task_Update_no_lost_update:
  assumes "schema_ok s" "task_version i s = Some v"
    and "run_updates (task_update_call u i) calls s = (acc, s')"
  shows "map (\<lambda>call. utr_version (snd call)) acc = versions_from v (length acc)
    \<and> distinct (map (\<lambda>call. utr_version (snd call)) acc)
    \<and> task_version i s' = Some (v + int (length acc))"
  using tv.run_versions [OF assms] tv.run_distinct [OF assms] by blast

definition sample_task_update :: update_task_request where
  "sample_task_update = \<lparr>utr_version = 1, utr_title = ''q'', utr_description = None,
     utr_priority = ''low'', utr_deadline = None\<rparr>"

theorem task_Update_no_lost_update_witness:
  "distinct (map (\<lambda>call. utr_version (snd call))
     (fst (run_updates (task_update_call 1 1)
       [(sample_env, sample_task_update), (sample_env, sample_task_update)] sample_db)))"
proof -
  have "task_version 1 sample_db = Some 1"
    by (simp add: task_version_def sample_db_def sample_task_def)
  then show ?thesis
    by (rule task_Update_no_lost_update [OF schema_ok_sample _ prod.collapse [symmetric],
        THEN conjunct2, THEN conjunct1])
qed

section \<open>Only active projects change\<close>

text \<open>The operations that write tasks.\<close>

datatype task_action =
    CreateTask int create_task_request
  | UpdateTask int update_task_request
  | SetTaskStatus int update_task_status_request
  | DeleteTask int
  | ReorderTasks reorder_tasks_request

text \<open>Whether the action was accepted, and the database after it.\<close>

definition accepted_call :: "error + 'a \<Rightarrow> bool" where
  "accepted_call r = (case r of Inl _ \<Rightarrow> False | Inr _ \<Rightarrow> True)"

fun task_act :: "env \<Rightarrow> int \<Rightarrow> task_action \<Rightarrow> db \<Rightarrow> bool \<times> db" where
  "task_act e u (CreateTask p r) s = map_prod accepted_call id (task_Create e u p (Some r) s)"
| "task_act e u (UpdateTask i r) s = map_prod accepted_call id (task_Update e u i (Some r) s)"
| "task_act e u (SetTaskStatus i r) s = map_prod accepted_call id (task_UpdateStatus e u i (Some r) s)"
| "task_act e u (DeleteTask i) s = map_prod accepted_call id (task_Delete e u i s)"
| "task_act e u (ReorderTasks r) s = map_prod accepted_call id (task_Reorder e u (Some r) s)"

lemma task_UpdateStatus_Inr:
  assumes "task_UpdateStatus e u i (Some r) s = (Inr resp, s')" "schema_ok s"
  shows "validTaskStatus (uts_status r) \<and> (\<exists>t t'. resp = taskResponse t' \<and> writable_task u i t s
    \<and> (if tsk_status t = uts_status r then t' = t \<and> s' = s
       else t' = task_status_set e (uts_status r) (tsk_version t) t \<and> task_edit s t t' s'))"
proof -
  obtain t' where "validTaskStatus (uts_status r)" "resp = taskResponse t'"
    "task_UpdateStatus_tx e u i (uts_status r) s = Inr (t', s')"
    using assms(1)
    by (auto simp: task_UpdateStatus_def transaction_Inr split: if_splits sum.splits prod.splits)
  then show ?thesis using task_UpdateStatus_tx_Inr [OF _ assms(2)] by blast
qed

lemma task_Delete_Inr:
  assumes "task_Delete e u i s = (Inr x, s')" "schema_ok s"
  shows "\<exists>t. writable_task u i t s \<and> s' = s\<lparr>tasks := filter (\<lambda>q. tsk_id q \<noteq> i) (tasks s)\<rparr>"
  using assms task_Delete_tx_Inr [of e u i s]
  by (auto simp: task_Delete_def transaction_Inr split: if_splits)

text \<open>What an accepted operation may change: tasks of one active project of the caller.\<close>

definition task_delta :: "int \<Rightarrow> db \<Rightarrow> db \<Rightarrow> bool" where
  "task_delta u s s' \<longleftrightarrow>
     s' = s\<lparr>tasks := tasks s'\<rparr> \<and> tasks_violation s (tasks s') = None
     \<and> (\<exists>p\<in>set (projects s). prj_user_id p = u \<and> prj_status p = projectStatusActive
          \<and> filter (\<lambda>t. tsk_project_id t \<noteq> prj_id p) (tasks s') =
              filter (\<lambda>t. tsk_project_id t \<noteq> prj_id p) (tasks s)
          \<and> filter (\<lambda>t. tsk_user_id t \<noteq> u) (tasks s') = filter (\<lambda>t. tsk_user_id t \<noteq> u) (tasks s)
          \<and> (\<forall>t\<in>set (tasks s'). t \<in> set (tasks s)
               \<or> tsk_project_id t = prj_id p \<and> tsk_user_id t = u))"

lemma task_edit_delta:
  assumes "schema_ok s" "writable_task u i t s" "task_edit s t t' s'" "tsk_id t' = tsk_id t"
    "tsk_project_id t' = tsk_project_id t" "tsk_user_id t' = tsk_user_id t"
  shows "task_delta u s s'"
proof -
  obtain p where p: "p \<in> set (projects s)" "prj_id p = tsk_project_id t" "prj_user_id p = u"
    "prj_status p = projectStatusActive" and t: "t \<in> set (tasks s)" "tsk_user_id t = u"
    using assms(2) by (auto simp: writable_task_def)
  have one: "x = t" if "x \<in> set (tasks s)" "tsk_id x = tsk_id t'" for x
    using that t assms(4) distinct_map_unique [OF schema_ok_distinct(5) [OF assms(1)]] by simp
  have s': "tasks s' = replace_row tsk_id t' (tasks s)" "s' = s\<lparr>tasks := tasks s'\<rparr>"
    "tasks_violation s (tasks s') = None"
    using assms(3) by (auto simp: task_edit_def)
  have "filter (\<lambda>t. tsk_project_id t \<noteq> prj_id p) (tasks s') =
      filter (\<lambda>t. tsk_project_id t \<noteq> prj_id p) (tasks s)"
    unfolding s'(1) by (rule filter_replace_row) (use one p assms(5) in auto)
  moreover have "filter (\<lambda>t. tsk_user_id t \<noteq> u) (tasks s') = filter (\<lambda>t. tsk_user_id t \<noteq> u) (tasks s)"
    unfolding s'(1) by (rule filter_replace_row) (use one t assms(6) in auto)
  moreover have "x \<in> set (tasks s) \<or> tsk_project_id x = prj_id p \<and> tsk_user_id x = u"
    if "x \<in> set (tasks s')" for x
    using that s'(1) in_replace_row [of x tsk_id t' "tasks s"] p t assms(5,6) by auto
  ultimately show ?thesis unfolding task_delta_def using s'(2,3) p by blast
qed

lemma task_append_delta:
  assumes "p \<in> set (projects s)" "prj_user_id p = u" "prj_status p = projectStatusActive"
    "tsk_project_id t = prj_id p" "tsk_user_id t = u" "tasks_violation s (tasks s @ [t]) = None"
  shows "task_delta u s (s\<lparr>tasks := tasks s @ [t]\<rparr>)"
  unfolding task_delta_def using assms by (auto intro!: bexI [OF _ assms(1)])

lemma task_remove_delta:
  assumes "schema_ok s" "writable_task u i t s"
  shows "task_delta u s (s\<lparr>tasks := filter (\<lambda>q. tsk_id q \<noteq> i) (tasks s)\<rparr>)"
proof -
  obtain p where p: "p \<in> set (projects s)" "prj_id p = tsk_project_id t" "prj_user_id p = u"
    "prj_status p = projectStatusActive" and t: "t \<in> set (tasks s)" "tsk_user_id t = u" "tsk_id t = i"
    using assms(2) by (auto simp: writable_task_def)
  have one: "x = t" if "x \<in> set (tasks s)" "tsk_id x = i" for x
    using that t distinct_map_unique [OF schema_ok_distinct(5) [OF assms(1)]] by simp
  have "filter P (filter (\<lambda>q. tsk_id q \<noteq> i) (tasks s)) = filter P (tasks s)" if "\<not> P t" for P
    unfolding filter_filter using that one by (intro filter_cong) auto
  moreover have "tasks_violation s (filter (\<lambda>q. tsk_id q \<noteq> i) (tasks s)) = None"
    using assms(1) tasks_violation_filter by (simp add: schema_ok_def)
  ultimately show ?thesis
    unfolding task_delta_def using p t by (auto intro!: bexI [OF _ p(1)])
qed

lemma task_reorder_delta:
  assumes "task_Reorder_tx e u p is s = Inr (rows, s')" "schema_ok s" "distinct is"
  shows "task_delta u s s'"
proof -
  note t = task_Reorder_tx_Inr [OF assms]
  then obtain q where q: "q \<in> set (projects s)" "prj_id q = p" "prj_user_id q = u"
    "prj_status q = projectStatusActive" by blast
  have ts: "tasks s' = map (apply_order (now e) u p 0 is) (tasks s)"
    and s': "s' = s\<lparr>tasks := tasks s'\<rparr>" and v: "tasks_violation s (tasks s') = None"
    using t by auto
  have "filter (\<lambda>t. tsk_project_id t \<noteq> prj_id q) (tasks s') =
      filter (\<lambda>t. tsk_project_id t \<noteq> prj_id q) (tasks s)"
    unfolding ts filter_map comp_def using q(2) by (auto intro!: map_idI)
  moreover have "filter (\<lambda>t. tsk_user_id t \<noteq> u) (tasks s') = filter (\<lambda>t. tsk_user_id t \<noteq> u) (tasks s)"
    unfolding ts filter_map comp_def by (auto intro!: map_idI)
  moreover have "x \<in> set (tasks s) \<or> tsk_project_id x = prj_id q \<and> tsk_user_id x = u"
    if x: "x \<in> set (tasks s')" for x
  proof -
    obtain y where y: "y \<in> set (tasks s)" "x = apply_order (now e) u p 0 is y"
      using x ts by auto
    show ?thesis
    proof (cases "tsk_project_id y = p \<and> tsk_user_id y = u")
      case False
      then have "x = y" using y(2) by (auto intro: apply_order_other)
      with y(1) show ?thesis by simp
    qed (use y(2) q(2) in simp)
  qed
  ultimately show ?thesis unfolding task_delta_def using s' v q by blast
qed

lemma task_ops_Inl:
  "task_Create e u p cr s = (Inl err, s') \<Longrightarrow> s' = s"
  "task_UpdateStatus e u i sr s = (Inl err, s') \<Longrightarrow> s' = s"
  "task_Delete e u i s = (Inl err, s') \<Longrightarrow> s' = s"
  "task_Reorder e u rr s = (Inl err, s') \<Longrightarrow> s' = s"
  by (auto simp: task_Create_def task_UpdateStatus_def task_Delete_def task_Reorder_def
      dest: transaction_Inl split: if_splits sum.splits prod.splits option.splits)

lemma task_act_delta:
  assumes "task_act e u a s = (b, s')" "schema_ok s"
  shows "s' = s \<or> b \<and> task_delta u s s'"
proof (cases a)
  case (CreateTask p r)
  show ?thesis
  proof (cases "task_Create e u p (Some r) s")
    case (Pair x s1)
    show ?thesis
    proof (cases x)
      case (Inr resp)
      from task_Create_Inr [OF Pair [unfolded Inr]] obtain n t
        where "task_Create_tx e u p n s = Inr (t, s1)" by blast
      from task_Create_tx_Inr [OF this] have "task_delta u s s1"
        by (auto intro!: task_append_delta)
      then show ?thesis using assms(1) CreateTask Pair Inr by (simp add: accepted_call_def)
    qed (use assms(1) CreateTask Pair task_ops_Inl(1) in auto)
  qed
next
  case (UpdateTask i r)
  show ?thesis
  proof (cases "task_Update e u i (Some r) s")
    case (Pair x s1)
    show ?thesis
    proof (cases x)
      case (Inr resp)
      from task_Update_Inr [OF Pair [unfolded Inr] assms(2)] have "task_delta u s s1"
        using task_edit_delta [OF assms(2)] by auto
      then show ?thesis using assms(1) UpdateTask Pair Inr by (simp add: accepted_call_def)
    qed (use assms(1) UpdateTask Pair task_Update_Inl in auto)
  qed
next
  case (SetTaskStatus i r)
  show ?thesis
  proof (cases "task_UpdateStatus e u i (Some r) s")
    case (Pair x s1)
    show ?thesis
    proof (cases x)
      case (Inr resp)
      from task_UpdateStatus_Inr [OF Pair [unfolded Inr] assms(2)] have "s1 = s \<or> task_delta u s s1"
        using task_edit_delta [OF assms(2)] by (auto split: if_splits)
      then show ?thesis using assms(1) SetTaskStatus Pair Inr by (auto simp: accepted_call_def)
    qed (use assms(1) SetTaskStatus Pair task_ops_Inl(2) in auto)
  qed
next
  case (DeleteTask i)
  show ?thesis
  proof (cases "task_Delete e u i s")
    case (Pair x s1)
    show ?thesis
    proof (cases x)
      case (Inr resp)
      from task_Delete_Inr [OF Pair [unfolded Inr] assms(2)] have "task_delta u s s1"
        using task_remove_delta [OF assms(2)] by auto
      then show ?thesis using assms(1) DeleteTask Pair Inr by (simp add: accepted_call_def)
    qed (use assms(1) DeleteTask Pair task_ops_Inl(3) in auto)
  qed
next
  case (ReorderTasks r)
  show ?thesis
  proof (cases "task_Reorder e u (Some r) s")
    case (Pair x s1)
    show ?thesis
    proof (cases x)
      case (Inr resp)
      from task_Reorder_Inr [OF Pair [unfolded Inr]] have "task_delta u s s1"
        using task_reorder_delta assms(2) by blast
      then show ?thesis using assms(1) ReorderTasks Pair Inr by (simp add: accepted_call_def)
    qed (use assms(1) ReorderTasks Pair task_ops_Inl(4) in auto)
  qed
qed

text \<open>
  The tasks of an archived or deleted project are frozen, and nobody writes another
  user's tasks. Whatever task operation a user calls, with whatever faults, the tasks of
  every project that is not active and all tasks of other users are afterwards exactly what
  they were, no other table has changed, and a refused call has changed nothing.
\<close>

theorem task_operations_confined:
  assumes "schema_ok s" "task_act e u a s = (accepted, s')"
  shows "(\<forall>q\<in>set (projects s). prj_status q \<noteq> ''active'' \<longrightarrow>
        filter (\<lambda>t. tsk_project_id t = prj_id q) (tasks s') =
        filter (\<lambda>t. tsk_project_id t = prj_id q) (tasks s))
    \<and> filter (\<lambda>t. tsk_user_id t \<noteq> u) (tasks s') = filter (\<lambda>t. tsk_user_id t \<noteq> u) (tasks s)
    \<and> s' = s\<lparr>tasks := tasks s'\<rparr> \<and> (\<not> accepted \<longrightarrow> s' = s)"
proof -
  consider "s' = s" | "accepted" "task_delta u s s'" using task_act_delta [OF assms(2,1)] by blast
  then show ?thesis
  proof cases
    case 2
    then obtain p where p: "p \<in> set (projects s)" "prj_status p = ''active''"
      and other: "filter (\<lambda>t. tsk_project_id t \<noteq> prj_id p) (tasks s') =
        filter (\<lambda>t. tsk_project_id t \<noteq> prj_id p) (tasks s)"
      by (auto simp: task_delta_def)
    have "filter (\<lambda>t. tsk_project_id t = prj_id q) (tasks s') =
        filter (\<lambda>t. tsk_project_id t = prj_id q) (tasks s)"
      if "q \<in> set (projects s)" "prj_status q \<noteq> ''active''" for q
    proof -
      have "prj_id q \<noteq> prj_id p"
        using that p distinct_map_unique [OF schema_ok_distinct(4) [OF assms(1)]] by metis
      then have "filter (\<lambda>t. tsk_project_id t = prj_id q) ts =
          filter (\<lambda>t. tsk_project_id t = prj_id q) (filter (\<lambda>t. tsk_project_id t \<noteq> prj_id p) ts)" for ts
        unfolding filter_filter by (intro filter_cong) auto
      then show ?thesis using other by metis
    qed
    then show ?thesis using 2 by (auto simp: task_delta_def)
  qed simp
qed

theorem task_operations_confined_witness:
  "filter (\<lambda>t. tsk_user_id t \<noteq> 2) (tasks (snd (task_act sample_env 2 (DeleteTask 1) sample_db))) =
   filter (\<lambda>t. tsk_user_id t \<noteq> 2) (tasks sample_db)"
  using task_operations_confined [OF schema_ok_sample prod.collapse [symmetric]] by blast

end
