(* ===== verification/ParseResultService.thy ===== *)
theory ParseResultService
  imports Sample OptimisticLock
begin

text \<open>
  \<open>internal/logic/parseresult/service.go\<close>: reading, reviewing and confirming what the AI
  extracted from a document. A result is edited under optimistic locking until it is
  confirmed; confirmation is final.
\<close>

section \<open>Requests and responses\<close>

record update_parse_result_request =
  urr_version :: int
  urr_title :: string
  urr_summary :: string
  urr_deadline :: "int option"
  urr_deliverables :: "string list option"
  urr_key_requirements :: "string list option"
  urr_risk_warnings :: "string list option"
  urr_generated_tasks :: "generated_task list option"

record parse_result_response =
  rr_id :: int
  rr_document_id :: int
  rr_parse_job_id :: int
  rr_title :: string
  rr_summary :: string
  rr_deadline :: "int option"
  rr_deliverables :: "string list"
  rr_key_requirements :: "string list"
  rr_risk_warnings :: "string list"
  rr_generated_tasks :: "generated_task list"
  rr_ai_model :: "string option"
  rr_version :: int
  rr_is_confirmed :: bool
  rr_created_at :: int
  rr_updated_at :: int

record parse_result_history_list_request =
  rlr_page :: int
  rlr_page_size :: int

record parse_result_history_list_response =
  rl_items :: "parse_result_response list"
  rl_page :: int
  rl_page_size :: int
  rl_total :: int

text \<open>
  \<open>parseResultResponse\<close>: the four JSON columns are decoded; an absent list becomes an
  empty one.
\<close>

definition or_empty :: "'a list option \<Rightarrow> 'a list" where
  "or_empty xs = (case xs of None \<Rightarrow> [] | Some ys \<Rightarrow> ys)"

definition parseResultResponse :: "time_codec \<Rightarrow> parse_result \<Rightarrow> error + parse_result_response" where
  "parseResultResponse c r =
     (case unmarshal_strings (res_deliverables r) of
        None \<Rightarrow> Inl (Wrapf ''decode parse result deliverables'' (ErrNew ''json''))
      | Some deliverables \<Rightarrow>
     (case unmarshal_strings (res_key_requirements r) of
        None \<Rightarrow> Inl (Wrapf ''decode parse result requirements'' (ErrNew ''json''))
      | Some keyRequirements \<Rightarrow>
     (case unmarshal_strings (res_risk_warnings r) of
        None \<Rightarrow> Inl (Wrapf ''decode parse result risks'' (ErrNew ''json''))
      | Some riskWarnings \<Rightarrow>
     (case unmarshal_tasks c False (res_generated_tasks r) of
        None \<Rightarrow> Inl (Wrapf ''decode parse result tasks'' (ErrNew ''json''))
      | Some generatedTasks \<Rightarrow>
          Inr \<lparr>rr_id = res_id r, rr_document_id = res_document_id r,
               rr_parse_job_id = res_parse_job_id r, rr_title = res_title r,
               rr_summary = res_summary r, rr_deadline = res_deadline r,
               rr_deliverables = or_empty deliverables,
               rr_key_requirements = or_empty keyRequirements,
               rr_risk_warnings = or_empty riskWarnings,
               rr_generated_tasks = or_empty generatedTasks, rr_ai_model = res_ai_model r,
               rr_version = res_version r, rr_is_confirmed = res_is_confirmed r,
               rr_created_at = res_created_at r, rr_updated_at = res_updated_at r\<rparr>))))"

section \<open>Validation\<close>

text \<open>The loop of \<open>normalizeStrings\<close>, with the values seen so far.\<close>

fun normalize_strings_loop :: "nat \<Rightarrow> string set \<Rightarrow> string list \<Rightarrow> error + string list" where
  "normalize_strings_loop maxRunes seen [] = Inr []"
| "normalize_strings_loop maxRunes seen (original # values) =
     (let value = trim_space original in
      if value = [] \<or> rune_count value > maxRunes then Inl ErrInvalidInput
      else if value \<in> seen then normalize_strings_loop maxRunes seen values
      else case normalize_strings_loop maxRunes (insert value seen) values of
          Inl err \<Rightarrow> Inl err
        | Inr normalized \<Rightarrow> Inr (value # normalized))"

definition normalizeStrings :: "string list option \<Rightarrow> nat \<Rightarrow> nat \<Rightarrow> error + string list" where
  "normalizeStrings values maxItems maxRunes =
     (case values of
        None \<Rightarrow> Inl ErrInvalidInput
      | Some vs \<Rightarrow>
          if length vs > maxItems then Inl ErrInvalidInput
          else normalize_strings_loop maxRunes {} vs)"

text \<open>The body of the loop over the generated tasks in \<open>normalizeUpdate\<close>.\<close>

definition result_normalizeTask :: "generated_task \<Rightarrow> error + generated_task" where
  "result_normalizeTask original =
     (let title = trim_space (gt_title original); task1 = original\<lparr>gt_title := title\<rparr> in
      if title = [] \<or> rune_count title > 255 then Inl ErrInvalidInput
      else
        (case (case gt_description task1 of
                 None \<Rightarrow> Inr task1
               | Some d \<Rightarrow>
                   let description = trim_space d in
                   if description = [] \<or> rune_count description > 2000 then Inl ErrInvalidInput
                   else Inr (task1\<lparr>gt_description := Some description\<rparr>)) of
           Inl err \<Rightarrow> Inl err
         | Inr task2 \<Rightarrow>
             let task3 = (if gt_priority task2 = [] then task2\<lparr>gt_priority := ''medium''\<rparr> else task2) in
             if gt_priority task3 \<noteq> ''low'' \<and> gt_priority task3 \<noteq> ''medium''
                \<and> gt_priority task3 \<noteq> ''high''
               then Inl ErrInvalidInput
             else Inr task3))"

definition normalizeUpdate ::
  "update_parse_result_request option \<Rightarrow> error + update_parse_result_request" where
  "normalizeUpdate req =
     (case req of
        None \<Rightarrow> Inl ErrInvalidInput
      | Some r \<Rightarrow>
          if urr_version r < 1 then Inl ErrInvalidInput
          else
            let title = trim_space (urr_title r); summary = trim_space (urr_summary r) in
            if title = [] \<or> rune_count title > 255 \<or> summary = [] \<or> rune_count summary > 5000
              then Inl ErrInvalidInput
            else
              (case normalizeStrings (urr_deliverables r) 50 1000 of
                 Inl _ \<Rightarrow> Inl ErrInvalidInput
               | Inr deliverables \<Rightarrow>
              (case normalizeStrings (urr_key_requirements r) 100 1000 of
                 Inl _ \<Rightarrow> Inl ErrInvalidInput
               | Inr keyRequirements \<Rightarrow>
              (case normalizeStrings (urr_risk_warnings r) 50 1000 of
                 Inl _ \<Rightarrow> Inl ErrInvalidInput
               | Inr riskWarnings \<Rightarrow>
              (case urr_generated_tasks r of
                 None \<Rightarrow> Inl ErrInvalidInput
               | Some gts \<Rightarrow>
                   if length gts > 100 then Inl ErrInvalidInput
                   else case traverse result_normalizeTask gts of
                       Inl err \<Rightarrow> Inl err
                     | Inr tasks' \<Rightarrow>
                         Inr (r\<lparr>urr_title := title, urr_summary := summary,
                                urr_deliverables := Some deliverables,
                                urr_key_requirements := Some keyRequirements,
                                urr_risk_warnings := Some riskWarnings,
                                urr_generated_tasks := Some tasks'\<rparr>))))))"

section \<open>Reading\<close>

definition result_find :: "env \<Rightarrow> int \<Rightarrow> int \<Rightarrow> db \<Rightarrow> error + parse_result" where
  "result_find e userID resultID s =
     (case sql e ''get parse result'' 0
             (sql_first res_id (\<lambda>r. res_id r = resultID \<and> res_user_id r = userID) (parse_results s)) of
        Inl ErrRecordNotFound \<Rightarrow> Inl ErrNotFound
      | Inl x \<Rightarrow> Inl (Wrapf ''get parse result'' (GormErr x))
      | Inr r \<Rightarrow> Inr r)"

definition result_GetByJob ::
  "time_codec \<Rightarrow> env \<Rightarrow> int \<Rightarrow> int \<Rightarrow> db \<Rightarrow> error + parse_result_response" where
  "result_GetByJob c e userID jobID s =
     (if \<not> db_up e then Inl ErrDatabaseUnavailable
      else case sql e ''get parse result by job'' 0
             (sql_first res_id (\<lambda>r. res_parse_job_id r = jobID \<and> res_user_id r = userID)
               (parse_results s)) of
        Inl ErrRecordNotFound \<Rightarrow> Inl ErrNotFound
      | Inl x \<Rightarrow> Inl (Wrapf ''get parse result by job'' (GormErr x))
      | Inr r \<Rightarrow> parseResultResponse c r)"

definition result_Get ::
  "time_codec \<Rightarrow> env \<Rightarrow> int \<Rightarrow> int \<Rightarrow> db \<Rightarrow> error + parse_result_response" where
  "result_Get c e userID resultID s =
     (if \<not> db_up e then Inl ErrDatabaseUnavailable
      else case result_find e userID resultID s of
        Inl err \<Rightarrow> Inl err
      | Inr r \<Rightarrow> parseResultResponse c r)"

definition result_order :: "parse_result \<Rightarrow> order_key" where
  "result_order r = desc_key (res_updated_at r) (res_id r)"

definition result_HistoryList ::
  "time_codec \<Rightarrow> env \<Rightarrow> int \<Rightarrow> parse_result_history_list_request option \<Rightarrow> db
     \<Rightarrow> error + parse_result_history_list_response" where
  "result_HistoryList c e userID req s =
     (if \<not> db_up e then Inl ErrDatabaseUnavailable
      else case req of
        None \<Rightarrow> Inl ErrInvalidInput
      | Some r \<Rightarrow>
          if userID \<le> 0 \<or> rlr_page r < 0 \<or> rlr_page r > 1000000 \<or> rlr_page_size r < 0
             \<or> rlr_page_size r > 100
            then Inl ErrInvalidInput
          else
            let page = (if rlr_page r = 0 then 1 else rlr_page r);
                pageSize = (if rlr_page_size r = 0 then 10 else rlr_page_size r) in
            (case sql e ''count parse result history'' 0
                    (Inr (sql_count (\<lambda>r. res_user_id r = userID) (parse_results s))) of
               Inl x \<Rightarrow> Inl (Wrapf ''count parse result history'' (GormErr x))
             | Inr cnt \<Rightarrow>
                 (case sql e ''list parse result history'' 0
                         (Inr (sql_page (int64_wrap ((page - 1) * pageSize)) pageSize
                           (sql_find result_order (\<lambda>r. res_user_id r = userID) (parse_results s)))) of
                    Inl x \<Rightarrow> Inl (Wrapf ''list parse result history'' (GormErr x))
                  | Inr results \<Rightarrow>
                      (case traverse (parseResultResponse c) results of
                         Inl err \<Rightarrow> Inl (Wrapf ''build parse result history response'' err)
                       | Inr items \<Rightarrow>
                           Inr \<lparr>rl_items = items, rl_page = page, rl_page_size = pageSize,
                                rl_total = cnt\<rparr>))))"

section \<open>Reviewing and confirming\<close>

definition result_Update_set ::
  "time_codec \<Rightarrow> env \<Rightarrow> update_parse_result_request \<Rightarrow> int \<Rightarrow> parse_result \<Rightarrow> parse_result" where
  "result_Update_set c e r version p =
     p\<lparr>res_title := urr_title r, res_summary := urr_summary r, res_deadline := urr_deadline r,
       res_deliverables := marshal_strings (urr_deliverables r),
       res_key_requirements := marshal_strings (urr_key_requirements r),
       res_risk_warnings := marshal_strings (urr_risk_warnings r),
       res_generated_tasks := marshal_tasks c (urr_generated_tasks r),
       res_version := int32_wrap (version + 1), res_updated_at := now e\<rparr>"

definition result_Update_tx ::
  "time_codec \<Rightarrow> env \<Rightarrow> int \<Rightarrow> int \<Rightarrow> update_parse_result_request \<Rightarrow> db
     \<Rightarrow> error + parse_result \<times> db" where
  "result_Update_tx c e userID resultID r s =
     (case sql e ''lock parse result for update'' 0
             (sql_first res_id (\<lambda>p. res_id p = resultID \<and> res_user_id p = userID) (parse_results s)) of
        Inl ErrRecordNotFound \<Rightarrow> Inl ErrNotFound
      | Inl x \<Rightarrow> Inl (Wrapf ''lock parse result for update'' (GormErr x))
      | Inr current \<Rightarrow>
          if res_is_confirmed current then Inl ErrInvalidState
          else if res_version current \<noteq> urr_version r then Inl ErrConflict
          else
            (case sql e ''update parse result'' 0
                    (sql_update (parse_results_violation s)
                      (\<lambda>p. res_id p = resultID \<and> res_user_id p = userID
                         \<and> res_version p = res_version current \<and> \<not> res_is_confirmed p)
                      (result_Update_set c e r (res_version current)) (parse_results s)) of
               Inl x \<Rightarrow> Inl (Wrapf ''update parse result'' (GormErr x))
             | Inr (rs, rowsAffected) \<Rightarrow>
                 if rowsAffected \<noteq> 1 then Inl ErrConflict
                 else
                   (case sql e ''reload updated parse result'' 0
                           (sql_first res_id
                             (\<lambda>p. res_id p = resultID \<and> res_user_id p = userID) rs) of
                      Inl x \<Rightarrow> Inl (Wrapf ''reload updated parse result'' (GormErr x))
                    | Inr updated \<Rightarrow> Inr (updated, s\<lparr>parse_results := rs\<rparr>))))"

definition result_Update ::
  "time_codec \<Rightarrow> env \<Rightarrow> int \<Rightarrow> int \<Rightarrow> update_parse_result_request option \<Rightarrow> db
     \<Rightarrow> (error + parse_result_response) \<times> db" where
  "result_Update c e userID resultID req s =
     (if \<not> db_up e then (Inl ErrDatabaseUnavailable, s)
      else case normalizeUpdate req of
        Inl err \<Rightarrow> (Inl err, s)
      | Inr normalized \<Rightarrow>
          (case transaction e (result_Update_tx c e userID resultID normalized) s of
             (Inl err, s') \<Rightarrow> (Inl err, s')
           | (Inr updated, s') \<Rightarrow> (parseResultResponse c updated, s')))"

definition result_Confirm_set :: "env \<Rightarrow> parse_result \<Rightarrow> parse_result" where
  "result_Confirm_set e p = p\<lparr>res_is_confirmed := True, res_updated_at := now e\<rparr>"

definition result_Confirm_tx :: "env \<Rightarrow> int \<Rightarrow> int \<Rightarrow> db \<Rightarrow> error + parse_result \<times> db" where
  "result_Confirm_tx e userID resultID s =
     (case sql e ''lock parse result for confirmation'' 0
             (sql_first res_id (\<lambda>p. res_id p = resultID \<and> res_user_id p = userID) (parse_results s)) of
        Inl ErrRecordNotFound \<Rightarrow> Inl ErrNotFound
      | Inl x \<Rightarrow> Inl (Wrapf ''lock parse result for confirmation'' (GormErr x))
      | Inr current \<Rightarrow>
          if res_is_confirmed current then Inr (current, s)
          else
            (case sql e ''confirm parse result'' 0
                    (sql_update (parse_results_violation s)
                      (\<lambda>p. res_id p = resultID \<and> res_user_id p = userID \<and> \<not> res_is_confirmed p)
                      (result_Confirm_set e) (parse_results s)) of
               Inl x \<Rightarrow> Inl (Wrapf ''confirm parse result'' (GormErr x))
             | Inr (rs, rowsAffected) \<Rightarrow>
                 if rowsAffected \<noteq> 1 then Inl ErrConflict
                 else
                   (case sql e ''reload confirmed parse result'' 0
                           (sql_first res_id
                             (\<lambda>p. res_id p = resultID \<and> res_user_id p = userID) rs) of
                      Inl x \<Rightarrow> Inl (Wrapf ''reload confirmed parse result'' (GormErr x))
                    | Inr confirmed \<Rightarrow> Inr (confirmed, s\<lparr>parse_results := rs\<rparr>))))"

definition result_Confirm ::
  "time_codec \<Rightarrow> env \<Rightarrow> int \<Rightarrow> int \<Rightarrow> db \<Rightarrow> (error + parse_result_response) \<times> db" where
  "result_Confirm c e userID resultID s =
     (if \<not> db_up e then (Inl ErrDatabaseUnavailable, s)
      else
        (case transaction e (result_Confirm_tx e userID resultID) s of
           (Inl err, s') \<Rightarrow> (Inl err, s')
         | (Inr confirmed, s') \<Rightarrow> (parseResultResponse c confirmed, s')))"

section \<open>What validation keeps\<close>

lemma normalize_strings_loop_eq:
  "normalize_strings_loop k seen vs =
    (if \<forall>v\<in>set vs. trim_space v \<noteq> [] \<and> rune_count (trim_space v) \<le> k
     then Inr (filter (\<lambda>v. v \<notin> seen) (first_occurrences (map trim_space vs)))
     else Inl ErrInvalidInput)"
proof (induction vs arbitrary: seen)
  case (Cons v vs)
  let ?x = "trim_space v" and ?rest = "first_occurrences (map trim_space vs)"
  have "filter (\<lambda>v. v \<notin> seen) (filter (\<lambda>y. y \<noteq> ?x) ?rest) = filter (\<lambda>v. v \<notin> seen) ?rest"
    if "?x \<in> seen" unfolding filter_filter using that by (intro filter_cong) auto
  moreover have "filter (\<lambda>v. v \<notin> seen) (filter (\<lambda>y. y \<noteq> ?x) ?rest) = filter (\<lambda>v. v \<notin> insert ?x seen) ?rest"
    unfolding filter_filter by (intro filter_cong) auto
  ultimately show ?case using Cons.IH by (auto simp: Let_def)
qed simp

lemma normalizeStrings_eq:
  "normalizeStrings (Some vs) maxItems maxRunes =
     (if length vs \<le> maxItems \<and> (\<forall>v\<in>set vs. trim_space v \<noteq> [] \<and> rune_count (trim_space v) \<le> maxRunes)
      then Inr (first_occurrences (map trim_space vs)) else Inl ErrInvalidInput)"
  by (auto simp: normalizeStrings_def normalize_strings_loop_eq)

lemma normalizeStrings_idem:
  assumes "normalizeStrings vs maxItems maxRunes = Inr out"
  shows "normalizeStrings (Some out) maxItems maxRunes = Inr out"
proof -
  obtain xs where vs: "vs = Some xs" using assms by (cases vs) (auto simp: normalizeStrings_def)
  have xs: "length xs \<le> maxItems" "out = first_occurrences (map trim_space xs)"
    "\<forall>v\<in>set xs. trim_space v \<noteq> [] \<and> rune_count (trim_space v) \<le> maxRunes"
    using assms by (auto simp: vs normalizeStrings_eq split: if_splits)
  have "map trim_space out = out" unfolding xs(2) by (intro map_idI) auto
  moreover have "length out \<le> maxItems"
    using length_first_occurrences [of "map trim_space xs"] xs by simp
  ultimately show ?thesis using xs(2,3) by (simp add: normalizeStrings_eq)
qed

text \<open>
  \<open>normalizeStrings\<close> is its specification: it accepts a present list of at most
  \<open>maxItems\<close> items none of which is blank or longer than \<open>maxRunes\<close> runes when trimmed,
  and returns the trimmed items without duplicates in the order of their first occurrence.
  Applied to its own result it returns it unchanged.
\<close>

theorem normalizeStrings_spec:
  "normalizeStrings (Some vs) maxItems maxRunes =
     (if length vs \<le> maxItems \<and> (\<forall>v\<in>set vs. trim_space v \<noteq> [] \<and> rune_count (trim_space v) \<le> maxRunes)
      then Inr (first_occurrences (map trim_space vs)) else Inl ErrInvalidInput)
   \<and> (case normalizeStrings (Some vs) maxItems maxRunes of
        Inl err \<Rightarrow> err = ErrInvalidInput
      | Inr out \<Rightarrow> normalizeStrings (Some out) maxItems maxRunes = Inr out)"
  using normalizeStrings_eq [of vs maxItems maxRunes] normalizeStrings_idem [of "Some vs"]
  by (auto split: sum.splits if_splits)

theorem normalizeStrings_spec_witness:
  "normalizeStrings (Some ['' a'', ''b'', ''a '']) 3 1 = Inr [''a'', ''b'']"
  using normalizeStrings_spec [THEN conjunct1, of "['' a'', ''b'', ''a '']" 3 1]
  by (simp add: trim_space_def strip_def is_space_def segments_ascii_Cons rune_count_ascii)

lemma result_normalizeTask_Inr:
  "result_normalizeTask g = Inr g' \<Longrightarrow>
   gt_title g' = trim_space (gt_title g) \<and> gt_title g' \<noteq> [] \<and> rune_count (gt_title g') \<le> 255
     \<and> gt_description g' = map_option trim_space (gt_description g)
     \<and> (case gt_description g' of None \<Rightarrow> True | Some d \<Rightarrow> d \<noteq> [] \<and> rune_count d \<le> 2000)
     \<and> gt_deadline g' = gt_deadline g
     \<and> gt_priority g' = (if gt_priority g = [] then ''medium'' else gt_priority g)
     \<and> (gt_priority g' = ''low'' \<or> gt_priority g' = ''medium'' \<or> gt_priority g' = ''high'')"
  by (auto simp: result_normalizeTask_def Let_def split: if_splits option.splits sum.splits)

lemma result_normalizeTask_normal: "result_normalizeTask g = Inr g' \<Longrightarrow> normal_task g'"
  using result_normalizeTask_Inr [of g g']
  by (cases "gt_description g") (auto simp: normal_task_def)

lemma normal_task_fixed: "normal_task g \<Longrightarrow> result_normalizeTask g = Inr g"
  by (cases "gt_description g")
    (auto simp: normal_task_def result_normalizeTask_def Let_def)

lemma result_normalize_all:
  "traverse result_normalizeTask gs = Inr gs' \<Longrightarrow> list_all normal_task gs'"
  by (auto simp: traverse_Inr list_all2_conv_all_nth list_all_length intro: result_normalizeTask_normal)

lemma normal_tasks_fixed: "list_all normal_task gs \<Longrightarrow> traverse result_normalizeTask gs = Inr gs"
  using traverse_Inr_map [of gs result_normalizeTask "\<lambda>g. g"]
  by (simp add: list_all_iff normal_task_fixed)

lemma normalizeUpdate_Inr:
  assumes "normalizeUpdate (Some r) = Inr n"
  shows "urr_version n = urr_version r \<and> 1 \<le> urr_version r
    \<and> urr_title n = trim_space (urr_title r) \<and> urr_title n \<noteq> [] \<and> rune_count (urr_title n) \<le> 255
    \<and> urr_summary n = trim_space (urr_summary r) \<and> urr_summary n \<noteq> []
    \<and> rune_count (urr_summary n) \<le> 5000 \<and> urr_deadline n = urr_deadline r
    \<and> (\<exists>ds ks ws gs. urr_deliverables n = Some ds \<and> urr_key_requirements n = Some ks
        \<and> urr_risk_warnings n = Some ws \<and> urr_generated_tasks n = Some gs
        \<and> normalizeStrings (urr_deliverables r) 50 1000 = Inr ds
        \<and> normalizeStrings (urr_key_requirements r) 100 1000 = Inr ks
        \<and> normalizeStrings (urr_risk_warnings r) 50 1000 = Inr ws
        \<and> list_all normal_task gs \<and> length gs \<le> 100)"
proof -
  obtain ds ks ws ts gs where
    "normalizeStrings (urr_deliverables r) 50 1000 = Inr ds"
    "normalizeStrings (urr_key_requirements r) 100 1000 = Inr ks"
    "normalizeStrings (urr_risk_warnings r) 50 1000 = Inr ws"
    "traverse result_normalizeTask ts = Inr gs" "length ts \<le> 100"
    and n: "n = r\<lparr>urr_title := trim_space (urr_title r), urr_summary := trim_space (urr_summary r),
      urr_deliverables := Some ds, urr_key_requirements := Some ks, urr_risk_warnings := Some ws,
      urr_generated_tasks := Some gs\<rparr>"
    "1 \<le> urr_version r" "trim_space (urr_title r) \<noteq> []" "rune_count (trim_space (urr_title r)) \<le> 255"
    "trim_space (urr_summary r) \<noteq> []" "rune_count (trim_space (urr_summary r)) \<le> 5000"
    using assms
    by (auto simp: normalizeUpdate_def Let_def not_less split: if_splits sum.splits option.splits)
  moreover from this have "list_all normal_task gs" "length gs \<le> 100"
    using result_normalize_all list_all2_lengthD [OF traverse_Inr_all2] by fastforce+
  ultimately show ?thesis by simp
qed

section \<open>What an accepted operation did\<close>

definition result_edit :: "db \<Rightarrow> parse_result \<Rightarrow> parse_result \<Rightarrow> db \<Rightarrow> bool" where
  "result_edit s p p' s' \<longleftrightarrow>
     p \<in> set (parse_results s) \<and> s' = s\<lparr>parse_results := replace_row res_id p' (parse_results s)\<rparr>
     \<and> parse_results_violation s (replace_row res_id p' (parse_results s)) = None"

definition own_result :: "int \<Rightarrow> int \<Rightarrow> parse_result \<Rightarrow> db \<Rightarrow> bool" where
  "own_result u i p s \<longleftrightarrow> p \<in> set (parse_results s) \<and> res_id p = i \<and> res_user_id p = u"

lemma result_Update_set_sel [simp]:
  "res_id (result_Update_set c e r v p) = res_id p"
  "res_user_id (result_Update_set c e r v p) = res_user_id p"
  "res_document_id (result_Update_set c e r v p) = res_document_id p"
  "res_parse_job_id (result_Update_set c e r v p) = res_parse_job_id p"
  "res_is_confirmed (result_Update_set c e r v p) = res_is_confirmed p"
  "res_version (result_Update_set c e r v p) = int32_wrap (v + 1)"
  "res_generated_tasks (result_Update_set c e r v p) = marshal_tasks c (urr_generated_tasks r)"
  by (simp_all add: result_Update_set_def)

lemma result_Confirm_set_sel [simp]:
  "res_id (result_Confirm_set e p) = res_id p"
  "res_user_id (result_Confirm_set e p) = res_user_id p"
  "res_document_id (result_Confirm_set e p) = res_document_id p"
  "res_parse_job_id (result_Confirm_set e p) = res_parse_job_id p"
  "res_is_confirmed (result_Confirm_set e p)"
  "res_version (result_Confirm_set e p) = res_version p"
  "res_generated_tasks (result_Confirm_set e p) = res_generated_tasks p"
  by (simp_all add: result_Confirm_set_def)

lemma result_Update_tx_Inr:
  assumes "result_Update_tx c e u i r s = Inr (p', s')" and ok: "schema_ok s"
  shows "\<exists>p. own_result u i p s \<and> \<not> res_is_confirmed p \<and> res_version p = urr_version r
    \<and> p' = result_Update_set c e r (res_version p) p \<and> result_edit s p p' s'"
proof -
  obtain p rs n where lock: "sql_first res_id (\<lambda>p. res_id p = i \<and> res_user_id p = u) (parse_results s) = Inr p"
    and st: "\<not> res_is_confirmed p" "res_version p = urr_version r"
    and upd: "sql_update (parse_results_violation s)
       (\<lambda>q. res_id q = i \<and> res_user_id q = u \<and> res_version q = res_version p \<and> \<not> res_is_confirmed q)
       (result_Update_set c e r (res_version p)) (parse_results s) = Inr (rs, n)"
    and re: "sql_first res_id (\<lambda>q. res_id q = i \<and> res_user_id q = u) rs = Inr p'"
    and s': "s' = s\<lparr>parse_results := rs\<rparr>"
    using assms(1) unfolding result_Update_tx_def
    by (auto split: sum.splits db_error.splits prod.splits if_splits)
  note p = sql_first_Inr [OF lock]
  note ur = rt.update_reload [OF upd schema_ok_distinct(3) [OF ok], of p]
  have "rs = replace_row res_id (result_Update_set c e r (res_version p) p) (parse_results s)"
    and "parse_results_violation s rs = None" and "p' = result_Update_set c e r (res_version p) p"
    using p st sql_first_Inr [OF re] ur ur(4) [OF _ _ _ _ re] by auto
  then show ?thesis using st p s' by (auto simp: result_edit_def own_result_def)
qed

lemma result_Confirm_tx_Inr:
  assumes "result_Confirm_tx e u i s = Inr (p', s')" and ok: "schema_ok s"
  shows "\<exists>p. own_result u i p s
    \<and> (if res_is_confirmed p then p' = p \<and> s' = s
       else p' = result_Confirm_set e p \<and> result_edit s p p' s')"
proof -
  obtain p where lock: "sql_first res_id (\<lambda>p. res_id p = i \<and> res_user_id p = u) (parse_results s) = Inr p"
    and nf: "\<not> fault e ''lock parse result for confirmation'' 0"
    using assms(1) unfolding result_Confirm_tx_def by (auto split: sum.splits db_error.splits)
  note p = sql_first_Inr [OF lock]
  show ?thesis
  proof (cases "res_is_confirmed p")
    case True
    with assms(1) lock nf p show ?thesis
      by (auto simp: result_Confirm_tx_def sql_def own_result_def)
  next
    case False
    with assms(1) lock nf obtain rs n
      where upd: "sql_update (parse_results_violation s)
         (\<lambda>q. res_id q = i \<and> res_user_id q = u \<and> \<not> res_is_confirmed q)
         (result_Confirm_set e) (parse_results s) = Inr (rs, n)"
      and re: "sql_first res_id (\<lambda>q. res_id q = i \<and> res_user_id q = u) rs = Inr p'"
      and s': "s' = s\<lparr>parse_results := rs\<rparr>"
      unfolding result_Confirm_tx_def by (auto split: sum.splits db_error.splits prod.splits if_splits)
    note ur = rt.update_reload [OF upd schema_ok_distinct(3) [OF ok], of p]
    have "rs = replace_row res_id (result_Confirm_set e p) (parse_results s)"
      and "parse_results_violation s rs = None" and "p' = result_Confirm_set e p"
      using p False sql_first_Inr [OF re] ur ur(4) [OF _ _ _ _ re] by auto
    then show ?thesis using p s' False by (auto simp: result_edit_def own_result_def)
  qed
qed

lemma schema_ok_result_check: "schema_ok s \<Longrightarrow> p \<in> set (parse_results s) \<Longrightarrow> parse_result_check p"
  by (auto simp: schema_ok_def parse_results_violation_def list_all_iff)

lemma result_edit_check: "result_edit s p p' s' \<Longrightarrow> res_id p' = res_id p \<Longrightarrow> parse_result_check p'"
  using set_replace_row [of p "parse_results s" res_id p']
  by (auto simp: result_edit_def parse_results_violation_def list_all_iff)

lemma result_edit_version:
  assumes "result_edit s p p' s'" "res_id p' = res_id p" "schema_ok s"
    "res_version p' = int32_wrap (res_version p + 1)"
  shows "res_version p' = res_version p + 1"
proof -
  have "parse_result_check p" using assms(1,3) schema_ok_result_check by (auto simp: result_edit_def)
  with result_edit_check [OF assms(1,2)] assms(4) show ?thesis
    using int32_succ_pos by (auto simp: parse_result_check_def int4_def)
qed

lemma result_edit_schema_ok:
  "schema_ok s \<Longrightarrow> result_edit s p p' s' \<Longrightarrow> res_id p' = res_id p \<Longrightarrow> schema_ok s'"
  by (auto simp: result_edit_def intro!: schema_ok_parse_results)

definition result_version :: "int \<Rightarrow> db \<Rightarrow> int option" where
  "result_version i s = map_option res_version (table_map res_id (parse_results s) i)"

lemma result_edit_map:
  assumes "schema_ok s" "result_edit s p p' s'" "res_id p' = res_id p"
  shows "table_map res_id (parse_results s) (res_id p) = Some p"
    "table_map res_id (parse_results s') = (table_map res_id (parse_results s))(res_id p \<mapsto> p')"
proof -
  have p: "p \<in> set (parse_results s)" and s': "parse_results s' = replace_row res_id p' (parse_results s)"
    using assms(2) by (simp_all add: result_edit_def)
  show "table_map res_id (parse_results s) (res_id p) = Some p"
    by (rule table_map_in [OF schema_ok_distinct(3) [OF assms(1)] p])
  show "table_map res_id (parse_results s') = (table_map res_id (parse_results s))(res_id p \<mapsto> p')"
    unfolding s' using p assms(3) by (subst table_map_replace_row) auto
qed

text \<open>A row just written by Update decodes.\<close>

lemma parseResultResponse_updated:
  assumes "codec_ok c" "normalizeUpdate (Some r) = Inr n"
  shows "\<exists>resp. parseResultResponse c (result_Update_set c e n v p) = Inr resp"
  using normalizeUpdate_Inr [OF assms(2)] assms(1)
  by (auto simp: parseResultResponse_def result_Update_set_def unmarshal_marshal_strings
      unmarshal_marshal_tasks)

lemma result_Update_cases:
  assumes "result_Update c e u i (Some r) s = (x, s')" and ok: "schema_ok s"
  shows "s' = s \<and> (\<exists>err. x = Inl err)
    \<or> (\<exists>n p p'. normalizeUpdate (Some r) = Inr n \<and> x = parseResultResponse c p'
        \<and> own_result u i p s \<and> \<not> res_is_confirmed p \<and> res_version p = urr_version r
        \<and> p' = result_Update_set c e n (res_version p) p \<and> result_edit s p p' s')"
proof -
  consider "s' = s" "\<exists>err. x = Inl err"
    | n p' where "normalizeUpdate (Some r) = Inr n" "x = parseResultResponse c p'"
        "result_Update_tx c e u i n s = Inr (p', s')"
    using assms(1)
    by (auto simp: result_Update_def transaction_Inr dest: transaction_Inl
        split: if_splits sum.splits prod.splits)
  then show ?thesis
  proof cases
    case 2
    then show ?thesis using result_Update_tx_Inr [OF 2(3) ok] normalizeUpdate_Inr [OF 2(1)] by auto
  qed simp
qed

abbreviation result_update_call ::
  "time_codec \<Rightarrow> int \<Rightarrow> int \<Rightarrow> env \<times> update_parse_result_request \<Rightarrow> db
     \<Rightarrow> (error + parse_result_response) \<times> db" where
  "result_update_call c u i call \<equiv> result_Update c (fst call) u i (Some (snd call))"

interpretation rv: versioned "result_update_call c u i" "\<lambda>call. urr_version (snd call)"
  "result_version i" "\<lambda>s. schema_ok s \<and> codec_ok c" for c u i
proof
  fix s s' call x
  assume ok: "schema_ok s \<and> codec_ok c" and upd: "result_update_call c u i call s = (Inr x, s')"
  from result_Update_cases [OF upd] ok obtain n p p' where p: "own_result u i p s"
      "res_version p = urr_version (snd call)"
    and p': "p' = result_Update_set c (fst call) n (res_version p) p" and ed: "result_edit s p p' s'"
    by blast
  have same: "res_id p' = res_id p" "res_id p = i" using p p' by (simp_all add: own_result_def)
  have "res_version p' = res_version p + 1"
    using p' ok by (intro result_edit_version [OF ed same(1)]) simp_all
  then show "(schema_ok s' \<and> codec_ok c) \<and> result_version i s = Some (urr_version (snd call))
      \<and> result_version i s' = Some (urr_version (snd call) + 1)"
    using result_edit_map [OF conjunct1 [OF ok] ed same(1)] result_edit_schema_ok [OF _ ed same(1)]
      same p ok by (simp add: result_version_def)
next
  fix s s' call err
  assume ok: "schema_ok s \<and> codec_ok c" and upd: "result_update_call c u i call s = (Inl err, s')"
  consider "s' = s" | n p v where "normalizeUpdate (Some (snd call)) = Inr n"
      "Inl err = parseResultResponse c (result_Update_set c (fst call) n v p)"
    using result_Update_cases [OF upd conjunct1 [OF ok]] by blast
  then show "s' = s"
  proof cases
    case 2
    then show ?thesis using parseResultResponse_updated [OF conjunct2 [OF ok] 2(1)] by (metis sum.distinct(1))
  qed
qed

text \<open>
  No lost update on parse results. If times print and parse back, then of any sequence
  of Update requests for a result, with any faults, the accepted ones send the stored
  version, its successor, and so on, without gap or repetition, and the stored version ends
  where it began plus their number. In particular an Update that answers with an error has
  written nothing: a row it wrote always decodes.
\<close>

theorem result_Update_no_lost_update:
  assumes "schema_ok s" "codec_ok c" "result_version i s = Some v"
    and "run_updates (result_update_call c u i) calls s = (acc, s')"
  shows "map (\<lambda>call. urr_version (snd call)) acc = versions_from v (length acc)
    \<and> distinct (map (\<lambda>call. urr_version (snd call)) acc)
    \<and> result_version i s' = Some (v + int (length acc))"
  using rv.run_versions [OF conjI [OF assms(1,2)] assms(3,4)]
    rv.run_distinct [OF conjI [OF assms(1,2)] assms(3,4)] by blast

definition sample_review :: update_parse_result_request where
  "sample_review = \<lparr>urr_version = 1, urr_title = '' t'', urr_summary = ''s'', urr_deadline = None,
     urr_deliverables = Some [''d'', ''d ''], urr_key_requirements = Some [], urr_risk_warnings = Some [],
     urr_generated_tasks = Some [\<lparr>gt_title = ''write '', gt_description = None, gt_priority = [],
       gt_deadline = None\<rparr>]\<rparr>"

theorem result_Update_no_lost_update_witness:
  "distinct (map (\<lambda>call. urr_version (snd call))
     (fst (run_updates (result_update_call sample_codec 1 4)
       [(sample_env, sample_review), (sample_env, sample_review)] sample_db)))"
proof -
  have "result_version 4 sample_db = Some 1"
    by (simp add: result_version_def sample_db_def sample_result_def)
  then show ?thesis
    by (rule result_Update_no_lost_update [OF schema_ok_sample codec_ok_sample _ prod.collapse [symmetric],
        THEN conjunct2, THEN conjunct1])
qed

section \<open>Review and confirmation\<close>

lemma results_reload:
  assumes "no_faults e" "schema_ok s" "own_result u i p s"
  shows "result_find e u i s = Inr p"
proof -
  have "sql_first res_id (\<lambda>r. res_id r = i \<and> res_user_id r = u) (parse_results s) = Inr p"
    using assms(3) by (intro rt.first_keyed [OF schema_ok_distinct(3) [OF assms(2)]])
      (auto simp: own_result_def)
  then show ?thesis using assms(1) by (simp add: result_find_def)
qed

lemma result_edit_own:
  assumes "result_edit s p p' s'" "res_id p' = res_id p" "res_user_id p' = res_user_id p"
    "own_result u i p s"
  shows "own_result u i p' s'"
  using assms set_replace_row [of p "parse_results s" res_id p']
  by (auto simp: result_edit_def own_result_def)

text \<open>The text of a request is well-formed UTF-8: what the JSON decoder of the handlers yields.\<close>

definition valid_review :: "update_parse_result_request \<Rightarrow> bool" where
  "valid_review r \<longleftrightarrow>
     list_all valid_utf8 (or_empty (urr_deliverables r))
     \<and> list_all valid_utf8 (or_empty (urr_key_requirements r))
     \<and> list_all valid_utf8 (or_empty (urr_risk_warnings r))
     \<and> list_all valid_task (or_empty (urr_generated_tasks r))"

lemma valid_utf8_first_occurrences:
  "normalizeStrings vs m k = Inr out \<Longrightarrow> list_all valid_utf8 (or_empty vs) \<Longrightarrow> list_all valid_utf8 out"
  by (cases vs) (auto simp: normalizeStrings_def normalize_strings_loop_eq or_empty_def list_all_iff
      valid_utf8_trim_space split: if_splits)

lemma result_normalizeTask_valid:
  "result_normalizeTask g = Inr g' \<Longrightarrow> valid_task g \<Longrightarrow> valid_task g'"
  using result_normalizeTask_Inr [of g g']
  by (cases "gt_description g")
    (auto simp: valid_task_def valid_utf8_trim_space valid_utf8_priority)

lemma normalizeUpdate_valid:
  assumes "normalizeUpdate (Some r) = Inr n" "valid_review r"
  shows "valid_review n"
proof -
  obtain ts gs where "urr_generated_tasks r = Some ts" "urr_generated_tasks n = Some gs"
    and tr: "traverse result_normalizeTask ts = Inr gs"
    using assms(1)
    by (auto simp: normalizeUpdate_def Let_def split: if_splits sum.splits option.splits)
  moreover from tr have "list_all valid_task ts \<Longrightarrow> list_all valid_task gs"
    by (auto simp: traverse_Inr list_all2_conv_all_nth list_all_length)
      (metis result_normalizeTask_valid)
  ultimately show ?thesis
    using normalizeUpdate_Inr [OF assms(1)] assms(2) valid_utf8_first_occurrences
    by (auto simp: valid_review_def or_empty_def)
qed


text \<open>What the statements do on a row the caller owns, when the database answers.\<close>

lemma results_violation_replace:
  assumes ok: "schema_ok s" and p: "p \<in> set (parse_results s)"
    and same: "res_id p' = res_id p" "res_user_id p' = res_user_id p"
      "res_document_id p' = res_document_id p" "res_parse_job_id p' = res_parse_job_id p"
  shows "parse_results_violation s (replace_row res_id p' (parse_results s)) =
    (if parse_result_check p' then None else Some ErrConstraintViolated)"
proof -
  have v: "parse_results_violation s (parse_results s) = None" using ok by (simp add: schema_ok_def)
  have one: "r = p" if "r \<in> set (parse_results s)" "res_id r = res_id p'" for r
    using distinct_map_unique [OF schema_ok_distinct(3) [OF ok] that(1) p] that same by simp
  have "map res_parse_job_id (replace_row res_id p' (parse_results s)) =
      map res_parse_job_id (parse_results s)"
    using one same by (intro map_replace_row) auto
  moreover have "parse_result_refs s p' = parse_result_refs s p"
    using same by (simp add: parse_result_refs_def)
  moreover have all: "list_all parse_result_check (parse_results s)"
    "list_all (parse_result_refs s) (parse_results s)"
    and "distinct (map res_id (parse_results s))" "distinct (map res_parse_job_id (parse_results s))"
    using v by (simp_all add: parse_results_violation_def)
  moreover have "parse_result_refs s p" using all(2) p by (simp add: list_all_iff)
  ultimately show ?thesis
    using list_all_replace_row [OF all(1) p same(1) [symmetric]]
      list_all_replace_row [OF all(2) p same(1) [symmetric]]
    by (simp add: parse_results_violation_def violation_def)
qed

definition store_result :: "parse_result \<Rightarrow> db \<Rightarrow> db" where
  "store_result p' s = s\<lparr>parse_results := replace_row res_id p' (parse_results s)\<rparr>"

lemma results_update_spec:
  assumes ok: "schema_ok s" and own: "own_result u i p s" and P: "P p"
    and only: "\<And>q. P q \<Longrightarrow> res_id q = res_id p"
    and same: "res_id (f p) = res_id p" "res_user_id (f p) = res_user_id p"
      "res_document_id (f p) = res_document_id p" "res_parse_job_id (f p) = res_parse_job_id p"
  shows "sql_update (parse_results_violation s) P f (parse_results s) =
    (if parse_result_check (f p) then Inr (replace_row res_id (f p) (parse_results s), 1)
     else Inl ErrConstraintViolated)"
    and "sql_first res_id (\<lambda>q. res_id q = i \<and> res_user_id q = u)
      (replace_row res_id (f p) (parse_results s)) = Inr (f p)"
proof -
  have p: "p \<in> set (parse_results s)" "res_id p = i" "res_user_id p = u"
    using own by (simp_all add: own_result_def)
  have "sql_update (parse_results_violation s) P f (parse_results s) =
    (case parse_results_violation s (replace_row res_id (f p) (parse_results s)) of
       Some x \<Rightarrow> Inl x | None \<Rightarrow> Inr (replace_row res_id (f p) (parse_results s), 1))"
    using schema_ok_distinct(3) [OF ok] p(1) P only same(1) by (rule rt.update_keyed)
  then show "sql_update (parse_results_violation s) P f (parse_results s) =
    (if parse_result_check (f p) then Inr (replace_row res_id (f p) (parse_results s), 1)
     else Inl ErrConstraintViolated)"
    using results_violation_replace [OF ok p(1) same] by simp
  show "sql_first res_id (\<lambda>q. res_id q = i \<and> res_user_id q = u)
      (replace_row res_id (f p) (parse_results s)) = Inr (f p)"
    by (rule rt.reload_keyed [OF schema_ok_distinct(3) [OF ok] p(1) same(1)]) (use p same in auto)
qed

lemma result_lock:
  assumes "schema_ok s" "own_result u i p s"
  shows "sql_first res_id (\<lambda>p. res_id p = i \<and> res_user_id p = u) (parse_results s) = Inr p"
  using assms(2) by (intro rt.first_keyed [OF schema_ok_distinct(3) [OF assms(1)]])
    (auto simp: own_result_def)

lemma result_Update_no_faults:
  assumes nf: "no_faults e" and ok: "schema_ok s" and own: "own_result u i p s"
    and n: "normalizeUpdate (Some r) = Inr n"
  shows "result_Update c e u i (Some r) s =
    (if res_is_confirmed p then (Inl ErrInvalidState, s)
     else if res_version p \<noteq> urr_version r then (Inl ErrConflict, s)
     else if res_version p = 2147483647
       then (Inl (Wrapf ''update parse result'' (GormErr ErrConstraintViolated)), s)
     else let p' = result_Update_set c e n (res_version p) p
       in (parseResultResponse c p', store_result p' s))"
proof -
  let ?p' = "result_Update_set c e n (res_version p) p"
  note nn = normalizeUpdate_Inr [OF n]
  have up: "db_up e" using nf by (simp add: no_faults_def)
  have "parse_result_check p" using schema_ok_result_check [OF ok] own by (auto simp: own_result_def)
  then have check: "parse_result_check ?p' \<longleftrightarrow> res_version p \<noteq> 2147483647"
    using nn by (auto simp: parse_result_check_def int4_def varchar_def int32_succ_cases
        result_Update_set_def)
  show ?thesis
  proof (cases "res_is_confirmed p \<or> res_version p \<noteq> urr_version r")
    case True
    then show ?thesis using nf up n nn result_lock [OF ok own]
      by (auto simp: result_Update_def result_Update_tx_def)
  next
    case False
    let ?P = "\<lambda>q. res_id q = i \<and> res_user_id q = u \<and> res_version q = res_version p \<and> \<not> res_is_confirmed q"
    have "?P p" "\<And>q. ?P q \<Longrightarrow> res_id q = res_id p" using own False by (auto simp: own_result_def)
    note spec = results_update_spec [OF ok own, of ?P "result_Update_set c e n (res_version p)", OF this]
    show ?thesis using nf up n nn result_lock [OF ok own] False check spec
      by (simp add: result_Update_def result_Update_tx_def store_result_def Let_def)
  qed
qed

lemma result_Confirm_no_faults:
  assumes nf: "no_faults e" and ok: "schema_ok s" and own: "own_result u i p s"
  shows "result_Confirm c e u i s =
    (if res_is_confirmed p then (parseResultResponse c p, s)
     else (parseResultResponse c (result_Confirm_set e p), store_result (result_Confirm_set e p) s))"
proof -
  have up: "db_up e" using nf by (simp add: no_faults_def)
  have "parse_result_check p" using schema_ok_result_check [OF ok] own by (auto simp: own_result_def)
  then have check: "parse_result_check (result_Confirm_set e p)"
    by (simp add: parse_result_check_def result_Confirm_set_def)
  show ?thesis
  proof (cases "res_is_confirmed p")
    case True
    then show ?thesis using nf up result_lock [OF ok own]
      by (simp add: result_Confirm_def result_Confirm_tx_def)
  next
    case False
    let ?P = "\<lambda>q. res_id q = i \<and> res_user_id q = u \<and> \<not> res_is_confirmed q"
    have "?P p" "\<And>q. ?P q \<Longrightarrow> res_id q = res_id p" using own False by (auto simp: own_result_def)
    note spec = results_update_spec [OF ok own, of ?P "result_Confirm_set e", OF this]
    show ?thesis using nf up result_lock [OF ok own] False check spec
      by (simp add: result_Confirm_def result_Confirm_tx_def store_result_def)
  qed
qed

text \<open>
  C22: Confirmation is final and changes nothing else. When the database answers, Confirm
  on the caller's unconfirmed result sets the flag and the update time of that row and
  nothing more; on the resulting state, and on any result already confirmed, a further
  Confirm repeats the answer and every well-formed Update is refused, and both change
  nothing.
\<close>

theorem result_Confirm_final:
  assumes "schema_ok s" "no_faults e" "no_faults e'" "own_result u i p s"
    and "normalizeUpdate (Some r) = Inr n"
  defines "q \<equiv> (if res_is_confirmed p then p else p\<lparr>res_is_confirmed := True, res_updated_at := now e\<rparr>)"
  defines "s' \<equiv> s\<lparr>parse_results := replace_row res_id q (parse_results s)\<rparr>"
  shows "result_Confirm c e u i s = (parseResultResponse c q, s')
    \<and> result_Confirm c e' u i s' = (parseResultResponse c q, s')
    \<and> result_Update c e' u i (Some r) s' = (Inl ErrInvalidState, s')"
proof (cases "res_is_confirmed p")
  case True
  then have "s' = s" using assms(4) schema_ok_distinct(3) [OF assms(1)]
    by (simp add: s'_def q_def own_result_def replace_row_self)
  then show ?thesis
    using True result_Confirm_no_faults [OF _ assms(1,4)] result_Update_no_faults [OF assms(3,1,4,5)]
      assms(2,3) by (simp add: q_def)
next
  case False
  then have q: "q = result_Confirm_set e p" by (simp add: q_def result_Confirm_set_def)
  have c1: "result_Confirm c e u i s = (parseResultResponse c q, s')"
    using False result_Confirm_no_faults [OF assms(2,1,4)] by (simp add: q s'_def store_result_def)
  have "parse_result_check q"
    using schema_ok_result_check [OF assms(1)] assms(4)
    by (auto simp: q own_result_def parse_result_check_def result_Confirm_set_def)
  then have ed: "result_edit s p q s'"
    using results_violation_replace [OF assms(1), of p q] assms(4)
    by (simp add: result_edit_def s'_def own_result_def q)
  have "schema_ok s'" by (rule result_edit_schema_ok [OF assms(1) ed]) (simp add: q)
  moreover have "own_result u i q s'" using assms(4) by (intro result_edit_own [OF ed]) (simp_all add: q)
  moreover have "res_is_confirmed q" by (simp add: q)
  ultimately show ?thesis
    using c1 result_Confirm_no_faults [OF assms(3)] result_Update_no_faults [OF assms(3) _ _ assms(5)]
    by simp
qed

section \<open>Witnesses\<close>

definition sample_reviewed :: update_parse_result_request where
  "sample_reviewed = sample_review\<lparr>urr_title := ''t'', urr_deliverables := Some [''d''],
     urr_generated_tasks := Some [\<lparr>gt_title = ''write'', gt_description = None,
       gt_priority = ''medium'', gt_deadline = None\<rparr>]\<rparr>"

lemma normalize_sample_review: "normalizeUpdate (Some sample_review) = Inr sample_reviewed"
  by (simp add: normalizeUpdate_def sample_reviewed_def sample_review_def normalizeStrings_def
      result_normalizeTask_def ascii_simps Let_def)

lemma valid_sample_review: "valid_review sample_review"
  by (simp add: valid_review_def sample_review_def or_empty_def valid_task_def valid_utf8_ascii)

lemma sample_own_result: "own_result 1 4 (sample_result 4 1 4 False) sample_db"
  by (simp add: own_result_def sample_db_def sample_result_def)


theorem result_Confirm_final_witness:
  "fst (result_Update sample_codec sample_env 1 4 (Some sample_review)
     (snd (result_Confirm sample_codec sample_env 1 4 sample_db))) = Inl ErrInvalidState"
  using result_Confirm_final [OF schema_ok_sample no_faults_sample_env no_faults_sample_env
      sample_own_result normalize_sample_review, of sample_codec]
  by simp

end
