(* ===== verification/AiParser.thy ===== *)
theory AiParser
  imports Json
begin

text \<open>
  \<open>pkg/ai/parser.go\<close>: the errors of the AI client and what a user is told of them, the
  retry loop of \<open>Parse\<close>, and the validation of the structured output. The HTTP exchange of
  one attempt (\<open>parseOnce\<close> up to the decoded document) is a parameter of the loop.
\<close>

record parsed_document =
  pd_title :: string
  pd_summary :: string
  pd_deadline :: "int option"
  pd_deliverables :: "string list option"
  pd_key_requirements :: "string list option"
  pd_risk_warnings :: "string list option"
  pd_generated_tasks :: "generated_task list option"
  pd_model :: string

section \<open>Errors\<close>

text \<open>
  \<open>ErrInvalidResponse\<close>, \<open>*ResponseError\<close>, the two context errors, any other error, and an
  error wrapped with \<open>%w\<close> after a text (\<open>WrapAi\<close>) or before one (\<open>DetailAi\<close>).
\<close>

datatype ai_error =
    InvalidResponse
  | ResponseError int string
  | DeadlineExceeded
  | Canceled
  | OtherError string
  | WrapAi string ai_error
  | DetailAi ai_error string

text \<open>\<open>err.Error()\<close>.\<close>

fun ai_error_text :: "ai_error \<Rightarrow> string" where
  "ai_error_text InvalidResponse = ''invalid AI response''"
| "ai_error_text (ResponseError code msg) =
     (if trim_space msg \<noteq> []
      then ''AI responses API returned status '' @ dec (nat code) @ '': '' @ msg
      else ''AI responses API returned status '' @ dec (nat code))"
| "ai_error_text DeadlineExceeded = ''context deadline exceeded''"
| "ai_error_text Canceled = ''context canceled''"
| "ai_error_text (OtherError m) = m"
| "ai_error_text (WrapAi m e) = m @ '': '' @ ai_error_text e"
| "ai_error_text (DetailAi e m) = ai_error_text e @ '': '' @ m"

fun ai_root :: "ai_error \<Rightarrow> ai_error" where
  "ai_root (WrapAi m e) = ai_root e"
| "ai_root (DetailAi e m) = ai_root e"
| "ai_root e = e"

text \<open>\<open>PublicErrorMessage\<close>, whose cases test the chain of the error.\<close>

definition PublicErrorMessage :: "ai_error \<Rightarrow> string" where
  "PublicErrorMessage err =
     (case ai_root err of
        InvalidResponse \<Rightarrow> ''AI response validation failed''
      | ResponseError code _ \<Rightarrow>
          if code = 401 \<or> code = 403 then ''AI service authentication failed''
          else if code = 429 \<or> code \<ge> 500 then ''AI service temporarily unavailable''
          else ''AI service rejected the parse request''
      | DeadlineExceeded \<Rightarrow> ''AI parsing timed out''
      | _ \<Rightarrow> ''AI parsing failed'')"

section \<open>The retry loop\<close>

text \<open>
  One attempt answers with a document, or with an error and whether it is worth a retry.
  \<open>expired k\<close>: the parse context is done after attempt \<open>k\<close>, \<open>interrupted k\<close>: while
  waiting after it; \<open>ctx_err\<close> is its error. The first component counts the attempts made.
\<close>

definition Parse ::
  "(nat \<Rightarrow> string \<Rightarrow> (bool \<times> ai_error) + parsed_document) \<Rightarrow> (nat \<Rightarrow> bool) \<Rightarrow> (nat \<Rightarrow> bool)
     \<Rightarrow> ai_error \<Rightarrow> string \<Rightarrow> nat \<times> (ai_error + parsed_document)" where
  "Parse attempt expired interrupted ctx_err text =
     (let t = trim_space text in
      if t = [] then (0, Inl (OtherError ''document text is empty''))
      else case attempt 0 t of
        Inr parsed \<Rightarrow> (1, Inr parsed)
      | Inl (retryable, err) \<Rightarrow>
          if \<not> retryable \<or> expired 0 then (1, Inl err)
          else if interrupted 0 then (1, Inl ctx_err)
          else case attempt 1 t of
            Inr parsed \<Rightarrow> (2, Inr parsed)
          | Inl (_, err') \<Rightarrow> (2, Inl err'))"

section \<open>Validation\<close>

text \<open>The loop of \<open>normalizeStrings\<close>, with the values seen so far.\<close>

fun ai_strings_loop :: "nat \<Rightarrow> string set \<Rightarrow> string list \<Rightarrow> string + string list" where
  "ai_strings_loop maxRunes seen [] = Inr []"
| "ai_strings_loop maxRunes seen (original # values) =
     (let value = trim_space original in
      if value = [] \<or> rune_count value > maxRunes then Inl ''contains an empty or overlong item''
      else if value \<in> seen then ai_strings_loop maxRunes seen values
      else case ai_strings_loop maxRunes (insert value seen) values of
          Inl err \<Rightarrow> Inl err
        | Inr normalized \<Rightarrow> Inr (value # normalized))"

definition ai_normalizeStrings ::
  "string list option \<Rightarrow> nat \<Rightarrow> nat \<Rightarrow> string + string list" where
  "ai_normalizeStrings values maxItems maxRunes =
     (case values of
        None \<Rightarrow> Inl (''must be an array with at most '' @ dec maxItems @ '' items'')
      | Some vs \<Rightarrow>
          if length vs > maxItems
            then Inl (''must be an array with at most '' @ dec maxItems @ '' items'')
          else ai_strings_loop maxRunes {} vs)"

text \<open>The loop over the generated tasks, from position \<open>index\<close> on.\<close>

fun ai_normalize_tasks :: "nat \<Rightarrow> generated_task list \<Rightarrow> string + generated_task list" where
  "ai_normalize_tasks index [] = Inr []"
| "ai_normalize_tasks index (original # rest) =
     (let title = trim_space (gt_title original); task1 = original\<lparr>gt_title := title\<rparr> in
      if title = [] \<or> rune_count title > 255
        then Inl (''generated task '' @ dec index @ '' has an invalid title'')
      else
        (case (case gt_description task1 of
                 None \<Rightarrow> Inr task1
               | Some d \<Rightarrow>
                   let description = trim_space d in
                   if description = [] \<or> rune_count description > 2000
                     then Inl (''generated task '' @ dec index @ '' has an invalid description'')
                   else Inr (task1\<lparr>gt_description := Some description\<rparr>)) of
           Inl err \<Rightarrow> Inl err
         | Inr task2 \<Rightarrow>
             if gt_priority task2 = ''low'' \<or> gt_priority task2 = ''medium'' \<or> gt_priority task2 = ''high''
             then (case ai_normalize_tasks (Suc index) rest of
                     Inl err \<Rightarrow> Inl err
                   | Inr normalized \<Rightarrow> Inr (task2 # normalized))
             else Inl (''generated task '' @ dec index @ '' has an invalid priority'')))"

definition normalizeAndValidate :: "parsed_document \<Rightarrow> string + parsed_document" where
  "normalizeAndValidate parsed =
     (let title = trim_space (pd_title parsed); summary = trim_space (pd_summary parsed) in
      if title = [] \<or> rune_count title > 255 then Inl ''title is empty or too long''
      else if summary = [] \<or> rune_count summary > 5000 then Inl ''summary is empty or too long''
      else
        (case ai_normalizeStrings (pd_deliverables parsed) 50 1000 of
           Inl err \<Rightarrow> Inl (''deliverables: '' @ err)
         | Inr deliverables \<Rightarrow>
        (case ai_normalizeStrings (pd_key_requirements parsed) 100 1000 of
           Inl err \<Rightarrow> Inl (''key requirements: '' @ err)
         | Inr keyRequirements \<Rightarrow>
        (case ai_normalizeStrings (pd_risk_warnings parsed) 50 1000 of
           Inl err \<Rightarrow> Inl (''risk warnings: '' @ err)
         | Inr riskWarnings \<Rightarrow>
        (case pd_generated_tasks parsed of
           None \<Rightarrow> Inl ''generated tasks must be an array with at most 100 items''
         | Some gts \<Rightarrow>
             if length gts > 100
               then Inl ''generated tasks must be an array with at most 100 items''
             else case ai_normalize_tasks 0 gts of
                 Inl err \<Rightarrow> Inl err
               | Inr tasks' \<Rightarrow>
                   Inr (parsed\<lparr>pd_title := title, pd_summary := summary,
                          pd_deliverables := Some deliverables,
                          pd_key_requirements := Some keyRequirements,
                          pd_risk_warnings := Some riskWarnings,
                          pd_generated_tasks := Some tasks'\<rparr>))))))"

end
