(* ===== verification/ParseJobService.thy ===== *)
theory ParseJobService
  imports Sample
begin

text \<open>
  \<open>internal/logic/parsejob/service.go\<close>: a parse job is created for a ready document, read,
  and retried after a failure. A job is announced to the workers by publishing its id on a
  Redis stream after the transaction; a failed publication is only logged, the worker's
  reconciliation publishes the job again. The stream is the list of the ids published.
\<close>

type_synonym stream = "int list"

record parse_job_response =
  jr_id :: int
  jr_document_id :: int
  jr_job_type :: string
  jr_status :: string
  jr_retry_count :: int
  jr_error_message :: "string option"
  jr_started_at :: "int option"
  jr_finished_at :: "int option"
  jr_created_at :: int
  jr_updated_at :: int

definition parseJobResponse :: "parse_job \<Rightarrow> parse_job_response" where
  "parseJobResponse j =
     \<lparr>jr_id = job_id j, jr_document_id = job_document_id j, jr_job_type = job_job_type j,
      jr_status = job_status j, jr_retry_count = job_retry_count j,
      jr_error_message = job_error_message j, jr_started_at = job_started_at j,
      jr_finished_at = job_finished_at j, jr_created_at = job_created_at j,
      jr_updated_at = job_updated_at j\<rparr>"

text \<open>\<open>publish\<close>: without a queue, or when it fails, the job is just not announced.\<close>

definition job_publish :: "env \<Rightarrow> nat \<Rightarrow> int \<Rightarrow> stream \<Rightarrow> stream" where
  "job_publish e k jobID q = (if fault e ''publish'' k then q else q @ [jobID])"

definition job_find :: "env \<Rightarrow> int \<Rightarrow> int \<Rightarrow> db \<Rightarrow> error + parse_job" where
  "job_find e userID jobID s =
     (case sql e ''get parse job'' 0
             (sql_first job_id (\<lambda>j. job_id j = jobID \<and> job_user_id j = userID) (parse_jobs s)) of
        Inl ErrRecordNotFound \<Rightarrow> Inl ErrNotFound
      | Inl x \<Rightarrow> Inl (Wrapf ''get parse job'' (GormErr x))
      | Inr j \<Rightarrow> Inr j)"

section \<open>Creating\<close>

definition new_job :: "env \<Rightarrow> int \<Rightarrow> int \<Rightarrow> parse_job" where
  "new_job e userID documentID =
     \<lparr>job_id = new_id e 0, job_user_id = userID, job_document_id = documentID,
      job_job_type = ''ai_parse'', job_status = ''pending'', job_retry_count = 0,
      job_error_message = None, job_started_at = None, job_finished_at = None,
      job_created_at = now e, job_updated_at = now e\<rparr>"

definition job_Create_tx :: "env \<Rightarrow> int \<Rightarrow> int \<Rightarrow> db \<Rightarrow> error + parse_job \<times> db" where
  "job_Create_tx e userID documentID s =
     (case sql e ''lock document for parse job creation'' 0
             (sql_first doc_id
               (\<lambda>d. doc_id d = documentID \<and> doc_user_id d = userID \<and> doc_deleted_at d = None)
               (documents s)) of
        Inl ErrRecordNotFound \<Rightarrow> Inl ErrNotFound
      | Inl x \<Rightarrow> Inl (Wrapf ''lock document for parse job creation'' (GormErr x))
      | Inr d \<Rightarrow>
          if doc_status d \<noteq> ''ready'' then Inl ErrInvalidState
          else
            (case sql e ''count active parse jobs'' 0
                    (Inr (sql_count
                      (\<lambda>j. job_document_id j = documentID \<and> active_status (job_status j))
                      (parse_jobs s))) of
               Inl x \<Rightarrow> Inl (Wrapf ''count active parse jobs'' (GormErr x))
             | Inr activeJobs \<Rightarrow>
                 if activeJobs > 0 then Inl ErrConflict
                 else
                   let j = new_job e userID documentID in
                   (case sql e ''create parse job'' 0
                           (sql_insert (parse_jobs_violation s) [j] (parse_jobs s)) of
                      Inl ErrDuplicatedKey \<Rightarrow> Inl ErrConflict
                    | Inl x \<Rightarrow> Inl (Wrapf ''create parse job'' (GormErr x))
                    | Inr js \<Rightarrow> Inr (j, s\<lparr>parse_jobs := js\<rparr>))))"

definition job_Create ::
  "env \<Rightarrow> int \<Rightarrow> int \<Rightarrow> db \<times> stream \<Rightarrow> (error + parse_job_response) \<times> (db \<times> stream)" where
  "job_Create e userID documentID sq =
     (case sq of (s, q) \<Rightarrow>
        if \<not> db_up e then (Inl ErrDatabaseUnavailable, sq)
        else
          (case transaction e (job_Create_tx e userID documentID) s of
             (Inl err, s') \<Rightarrow> (Inl err, (s', q))
           | (Inr j, s') \<Rightarrow> (Inr (parseJobResponse j), (s', job_publish e 0 (job_id j) q))))"

section \<open>Reading\<close>

definition job_Get :: "env \<Rightarrow> int \<Rightarrow> int \<Rightarrow> db \<Rightarrow> error + parse_job_response" where
  "job_Get e userID jobID s =
     (if \<not> db_up e then Inl ErrDatabaseUnavailable
      else case job_find e userID jobID s of
        Inl err \<Rightarrow> Inl err
      | Inr j \<Rightarrow> Inr (parseJobResponse j))"

definition job_order :: "parse_job \<Rightarrow> order_key" where
  "job_order j = desc_key (job_created_at j) (job_id j)"

definition job_Latest :: "env \<Rightarrow> int \<Rightarrow> int \<Rightarrow> db \<Rightarrow> error + parse_job_response" where
  "job_Latest e userID documentID s =
     (if \<not> db_up e then Inl ErrDatabaseUnavailable
      else case sql e ''get latest parse job'' 0
             (case sql_find job_order
                     (\<lambda>j. job_user_id j = userID \<and> job_document_id j = documentID)
                     (parse_jobs s) of
                [] \<Rightarrow> Inl ErrRecordNotFound
              | j # _ \<Rightarrow> Inr j) of
        Inl ErrRecordNotFound \<Rightarrow> Inl ErrNotFound
      | Inl x \<Rightarrow> Inl (Wrapf ''get latest parse job'' (GormErr x))
      | Inr j \<Rightarrow> Inr (parseJobResponse j))"

section \<open>Retrying\<close>

definition job_reset :: "env \<Rightarrow> int \<Rightarrow> parse_job \<Rightarrow> parse_job" where
  "job_reset e retryCount j =
     j\<lparr>job_status := ''pending'', job_retry_count := int32_wrap (retryCount + 1),
       job_error_message := None, job_started_at := None, job_finished_at := None,
       job_updated_at := now e\<rparr>"

definition job_Retry_tx :: "env \<Rightarrow> int \<Rightarrow> int \<Rightarrow> parse_job \<Rightarrow> db \<Rightarrow> error + parse_job \<times> db" where
  "job_Retry_tx e userID jobID initialJob s =
     (case sql e ''lock document for parse job retry'' 0
             (sql_first doc_id
               (\<lambda>d. doc_id d = job_document_id initialJob \<and> doc_user_id d = userID
                  \<and> doc_deleted_at d = None) (documents s)) of
        Inl ErrRecordNotFound \<Rightarrow> Inl ErrInvalidState
      | Inl x \<Rightarrow> Inl (Wrapf ''lock document for parse job retry'' (GormErr x))
      | Inr _ \<Rightarrow>
          (case sql e ''lock parse job for retry'' 0
                  (sql_first job_id (\<lambda>j. job_id j = jobID \<and> job_user_id j = userID) (parse_jobs s)) of
             Inl ErrRecordNotFound \<Rightarrow> Inl ErrNotFound
           | Inl x \<Rightarrow> Inl (Wrapf ''lock parse job for retry'' (GormErr x))
           | Inr lockedJob \<Rightarrow>
               if job_status lockedJob \<noteq> ''failed'' then Inl ErrInvalidState
               else
                 (case sql e ''reset parse job for retry'' 0
                         (sql_update (parse_jobs_violation s)
                           (\<lambda>j. job_id j = job_id lockedJob \<and> job_user_id j = userID
                              \<and> job_status j = ''failed'')
                           (job_reset e (job_retry_count lockedJob)) (parse_jobs s)) of
                    Inl ErrDuplicatedKey \<Rightarrow> Inl ErrConflict
                  | Inl x \<Rightarrow> Inl (Wrapf ''reset parse job for retry'' (GormErr x))
                  | Inr (js, rowsAffected) \<Rightarrow>
                      if rowsAffected = 0 then Inl ErrInvalidState
                      else
                        (case sql e ''reload retried parse job'' 0
                                (sql_first job_id
                                  (\<lambda>j. job_id j = job_id lockedJob \<and> job_user_id j = userID) js) of
                           Inl x \<Rightarrow> Inl (Wrapf ''reload retried parse job'' (GormErr x))
                         | Inr j \<Rightarrow> Inr (j, s\<lparr>parse_jobs := js\<rparr>)))))"

definition job_Retry ::
  "env \<Rightarrow> int \<Rightarrow> int \<Rightarrow> db \<times> stream \<Rightarrow> (error + parse_job_response) \<times> (db \<times> stream)" where
  "job_Retry e userID jobID sq =
     (case sq of (s, q) \<Rightarrow>
        if \<not> db_up e then (Inl ErrDatabaseUnavailable, sq)
        else
          (case job_find e userID jobID s of
             Inl err \<Rightarrow> (Inl err, sq)
           | Inr initialJob \<Rightarrow>
               (case transaction e (job_Retry_tx e userID jobID initialJob) s of
                  (Inl err, s') \<Rightarrow> (Inl err, (s', q))
                | (Inr j, s') \<Rightarrow> (Inr (parseJobResponse j), (s', job_publish e 0 (job_id j) q)))))"

section \<open>What an accepted operation did\<close>

definition job_edit :: "db \<Rightarrow> parse_job \<Rightarrow> parse_job \<Rightarrow> db \<Rightarrow> bool" where
  "job_edit s j j' s' \<longleftrightarrow>
     j \<in> set (parse_jobs s) \<and> s' = s\<lparr>parse_jobs := replace_row job_id j' (parse_jobs s)\<rparr>
     \<and> parse_jobs_violation s (replace_row job_id j' (parse_jobs s)) = None"

text \<open>The document is the caller's, not deleted, and ready if a job is to be created for it.\<close>

definition live_document :: "int \<Rightarrow> int \<Rightarrow> document \<Rightarrow> db \<Rightarrow> bool" where
  "live_document u i d s \<longleftrightarrow>
     d \<in> set (documents s) \<and> doc_id d = i \<and> doc_user_id d = u \<and> doc_deleted_at d = None"

lemma job_reset_sel [simp]:
  "job_id (job_reset e n j) = job_id j" "job_user_id (job_reset e n j) = job_user_id j"
  "job_document_id (job_reset e n j) = job_document_id j"
  "job_status (job_reset e n j) = ''pending''"
  "job_retry_count (job_reset e n j) = int32_wrap (n + 1)"
  "job_job_type (job_reset e n j) = job_job_type j"
  "job_started_at (job_reset e n j) = None" "job_finished_at (job_reset e n j) = None"
  "job_error_message (job_reset e n j) = None"
  by (simp_all add: job_reset_def)

lemma new_job_sel [simp]:
  "job_id (new_job e u d) = new_id e 0" "job_user_id (new_job e u d) = u"
  "job_document_id (new_job e u d) = d" "job_status (new_job e u d) = ''pending''"
  "job_retry_count (new_job e u d) = 0" "job_job_type (new_job e u d) = ''ai_parse''"
  "job_started_at (new_job e u d) = None"
  by (simp_all add: new_job_def)

lemma job_Create_tx_Inr:
  assumes "job_Create_tx e u i s = Inr (j, s')"
  shows "\<exists>d. live_document u i d s \<and> doc_status d = ''ready'' \<and> j = new_job e u i
    \<and> (\<forall>k\<in>set (parse_jobs s). job_document_id k = i \<longrightarrow> \<not> active_status (job_status k))
    \<and> s' = s\<lparr>parse_jobs := parse_jobs s @ [j]\<rparr> \<and> parse_jobs_violation s (parse_jobs s @ [j]) = None"
proof -
  let ?Q = "\<lambda>j. job_document_id j = i \<and> active_status (job_status j)"
  obtain d where lock: "sql_first doc_id
      (\<lambda>d. doc_id d = i \<and> doc_user_id d = u \<and> doc_deleted_at d = None) (documents s) = Inr d"
    and "doc_status d = ''ready''" "\<not> sql_count ?Q (parse_jobs s) > 0"
    and "j = new_job e u i" "sql_insert (parse_jobs_violation s) [j] (parse_jobs s) = Inr (parse_jobs s')"
    and "s' = s\<lparr>parse_jobs := parse_jobs s'\<rparr>"
    using assms unfolding job_Create_tx_def
    by (auto simp: Let_def split: sum.splits db_error.splits if_splits)
  moreover from this have "sql_count ?Q (parse_jobs s) = 0"
    using sql_count_nonneg [of ?Q "parse_jobs s"] by linarith
  ultimately show ?thesis
    using sql_first_Inr [OF lock] by (auto simp: live_document_def sql_insert_Inr)
qed

lemma job_Create_Inr:
  assumes "job_Create e u i (s, q) = (Inr resp, (s', q'))"
  shows "\<exists>j. job_Create_tx e u i s = Inr (j, s') \<and> resp = parseJobResponse j
    \<and> q' = job_publish e 0 (job_id j) q"
  using assms by (auto simp: job_Create_def transaction_Inr split: if_splits sum.splits prod.splits)

lemma job_Create_Inl: "job_Create e u i (s, q) = (Inl err, (s', q')) \<Longrightarrow> s' = s \<and> q' = q"
  by (auto simp: job_Create_def dest: transaction_Inl split: if_splits sum.splits prod.splits)

lemma job_find_Inr:
  "job_find e u i s = Inr j \<Longrightarrow> j \<in> set (parse_jobs s) \<and> job_id j = i \<and> job_user_id j = u"
  by (auto simp: job_find_def dest: sql_first_Inr split: sum.splits db_error.splits)

lemma job_Retry_tx_Inr:
  assumes "job_Retry_tx e u i j0 s = Inr (j', s')" and ok: "schema_ok s"
  shows "\<exists>j d. j \<in> set (parse_jobs s) \<and> job_id j = i \<and> job_user_id j = u \<and> job_status j = ''failed''
    \<and> live_document u (job_document_id j0) d s
    \<and> j' = job_reset e (job_retry_count j) j \<and> job_edit s j j' s'"
proof -
  obtain d j js n where doc: "sql_first doc_id (\<lambda>d. doc_id d = job_document_id j0 \<and> doc_user_id d = u
       \<and> doc_deleted_at d = None) (documents s) = Inr d"
    and lock: "sql_first job_id (\<lambda>j. job_id j = i \<and> job_user_id j = u) (parse_jobs s) = Inr j"
    and st: "job_status j = ''failed''"
    and upd: "sql_update (parse_jobs_violation s)
       (\<lambda>k. job_id k = job_id j \<and> job_user_id k = u \<and> job_status k = ''failed'')
       (job_reset e (job_retry_count j)) (parse_jobs s) = Inr (js, n)"
    and re: "sql_first job_id (\<lambda>k. job_id k = job_id j \<and> job_user_id k = u) js = Inr j'"
    and s': "s' = s\<lparr>parse_jobs := js\<rparr>"
    using assms(1) unfolding job_Retry_tx_def
    by (auto split: sum.splits db_error.splits prod.splits if_splits)
  note j = sql_first_Inr [OF lock]
  note ur = jt.update_reload [OF upd schema_ok_distinct(2) [OF ok], of j]
  have "js = replace_row job_id (job_reset e (job_retry_count j) j) (parse_jobs s)"
    and "parse_jobs_violation s js = None" and "j' = job_reset e (job_retry_count j) j"
    using j st sql_first_Inr [OF re] ur ur(4) [OF _ _ _ _ re] by auto
  then show ?thesis using j st s' sql_first_Inr [OF doc]
    by (auto simp: job_edit_def live_document_def)
qed

text \<open>The document checked is the job's: both lookups see the same row.\<close>

lemma job_Retry_Inr:
  assumes "job_Retry e u i (s, q) = (Inr resp, (s', q'))" and ok: "schema_ok s"
  shows "\<exists>j d. j \<in> set (parse_jobs s) \<and> job_id j = i \<and> job_user_id j = u \<and> job_status j = ''failed''
    \<and> live_document u (job_document_id j) d s
    \<and> job_edit s j (job_reset e (job_retry_count j) j) s'
    \<and> resp = parseJobResponse (job_reset e (job_retry_count j) j)
    \<and> q' = job_publish e 0 i q"
proof -
  obtain j0 j' where j0: "job_find e u i s = Inr j0" and tx: "job_Retry_tx e u i j0 s = Inr (j', s')"
    and resp: "resp = parseJobResponse j'" "q' = job_publish e 0 (job_id j') q"
    using assms(1) by (auto simp: job_Retry_def transaction_Inr split: if_splits sum.splits prod.splits)
  from job_Retry_tx_Inr [OF tx ok] obtain j d where j: "j \<in> set (parse_jobs s)" "job_id j = i"
    and rest: "job_user_id j = u" "job_status j = ''failed''"
    "live_document u (job_document_id j0) d s" "j' = job_reset e (job_retry_count j) j" "job_edit s j j' s'"
    by blast
  have "j0 = j"
    using job_find_Inr [OF j0] j distinct_map_unique [OF schema_ok_distinct(2) [OF ok]] by metis
  then show ?thesis using j rest resp by auto
qed

lemma job_Retry_Inl: "job_Retry e u i (s, q) = (Inl err, (s', q')) \<Longrightarrow> s' = s \<and> q' = q"
  by (auto simp: job_Retry_def dest: transaction_Inl split: if_splits sum.splits prod.splits)

lemma job_edit_schema_ok:
  "schema_ok s \<Longrightarrow> job_edit s j j' s' \<Longrightarrow> job_id j' = job_id j \<Longrightarrow> schema_ok s'"
  by (auto simp: job_edit_def intro!: schema_ok_parse_jobs)

text \<open>
  A job may be replaced by one with the same keys: it never becomes active by that, so the
  index that allows one active job per document still holds.
\<close>

lemma jobs_violation_replace:
  assumes v: "parse_jobs_violation s js = None" and k: "k \<in> set js"
    and same: "job_id k' = job_id k" "job_document_id k' = job_document_id k" "job_user_id k' = job_user_id k"
    and act: "active_status (job_status k') \<Longrightarrow> active_status (job_status k)" and chk: "parse_job_check k'"
  shows "parse_jobs_violation s (replace_row job_id k' js) = None"
proof -
  let ?A = "\<lambda>j. active_status (job_status j)"
  have d: "distinct (map job_id js)" and da: "distinct (map job_document_id (filter ?A js))"
    and all: "list_all parse_job_check js" "list_all (parse_job_refs s) js"
    using v by (simp_all add: parse_jobs_violation_def)
  have refs: "parse_job_refs s k'"
    using all(2) k same by (auto simp: list_all_iff parse_job_refs_def)
  have doc: "job_document_id (if job_id j = job_id k' then k' else j) = job_document_id j" if "j \<in> set js" for j
    using that distinct_map_unique [OF d that k] same by auto
  have "filter ?A (replace_row job_id k' js) =
      map (\<lambda>j. if job_id j = job_id k' then k' else j)
        (filter (\<lambda>j. ?A (if job_id j = job_id k' then k' else j)) js)"
    unfolding replace_row_def filter_map comp_def ..
  then have "map job_document_id (filter ?A (replace_row job_id k' js)) =
      map job_document_id (filter (\<lambda>j. ?A (if job_id j = job_id k' then k' else j)) js)"
    using doc by (auto simp: comp_def)
  also have "filter (\<lambda>j. ?A (if job_id j = job_id k' then k' else j)) js =
      filter (\<lambda>j. ?A (if job_id j = job_id k' then k' else j)) (filter ?A js)"
    unfolding filter_filter
    by (intro filter_cong refl) (use act distinct_map_unique [OF d _ k] same in auto)
  finally have "distinct (map job_document_id (filter ?A (replace_row job_id k' js)))"
    using distinct_map_filter [OF da] by simp
  then show ?thesis
    using d all refs chk list_all_replace_row [of _ js k job_id k'] k same(1)
    by (simp add: parse_jobs_violation_def)
qed

end
