(* ===== verification/Worker.thy ===== *)
theory Worker
  imports ParseJobService AiParser
begin

text \<open>
  \<open>internal/worker/parsejob/worker.go\<close>: the worker that takes parse jobs off the stream,
  runs the AI parser and stores its result, and the two loops that repair what crashes and
  lost messages leave behind. The parser (\<open>ai.Parser\<close>) is a parameter.
\<close>

definition reconciliationBatchSize :: int where
  "reconciliationBatchSize = 100"

section \<open>Claiming a job\<close>

definition job_claimed :: "env \<Rightarrow> parse_job \<Rightarrow> parse_job" where
  "job_claimed e j =
     j\<lparr>job_status := ''processing'', job_started_at := Some (now e), job_finished_at := None,
       job_error_message := None, job_updated_at := now e\<rparr>"

text \<open>
  The \<open>UPDATE\<close> and the \<open>SELECT\<close> are two statements without a transaction: when the second
  fails the first stands. A job that does not exist is the zero job, \<open>None\<close>.
\<close>

definition worker_claimJob :: "env \<Rightarrow> int \<Rightarrow> db \<Rightarrow> (error + parse_job option \<times> bool) \<times> db" where
  "worker_claimJob e jobID s =
     (case sql e ''claim parse job'' 0
             (sql_update (parse_jobs_violation s)
               (\<lambda>j. job_id j = jobID \<and> job_status j = ''pending'')
               (job_claimed e) (parse_jobs s)) of
        Inl x \<Rightarrow> (Inl (Wrapf ''claim parse job'' (GormErr x)), s)
      | Inr (js, rowsAffected) \<Rightarrow>
          let s' = s\<lparr>parse_jobs := js\<rparr> in
          (case sql e ''load claimed parse job'' 0 (sql_first job_id (\<lambda>j. job_id j = jobID) js) of
             Inl ErrRecordNotFound \<Rightarrow> (Inr (None, False), s')
           | Inl x \<Rightarrow> (Inl (Wrapf ''load claimed parse job'' (GormErr x)), s')
           | Inr j \<Rightarrow> (Inr (Some j, rowsAffected = 1), s')))"

section \<open>Finishing a job\<close>

definition new_result :: "time_codec \<Rightarrow> env \<Rightarrow> parse_job \<Rightarrow> parsed_document \<Rightarrow> parse_result" where
  "new_result c e j parsed =
     \<lparr>res_id = new_id e 0, res_user_id = job_user_id j, res_document_id = job_document_id j,
      res_parse_job_id = job_id j, res_title = pd_title parsed, res_summary = pd_summary parsed,
      res_deadline = pd_deadline parsed,
      res_deliverables = marshal_strings (pd_deliverables parsed),
      res_key_requirements = marshal_strings (pd_key_requirements parsed),
      res_risk_warnings = marshal_strings (pd_risk_warnings parsed),
      res_generated_tasks = marshal_tasks c (pd_generated_tasks parsed),
      res_ai_model = Some (pd_model parsed), res_version = 1, res_is_confirmed = False,
      res_created_at = now e, res_updated_at = now e\<rparr>"

definition job_completed :: "env \<Rightarrow> parse_job \<Rightarrow> parse_job" where
  "job_completed e j =
     j\<lparr>job_status := ''success'', job_error_message := None, job_finished_at := Some (now e),
       job_updated_at := now e\<rparr>"

definition worker_completeJob_tx ::
  "time_codec \<Rightarrow> env \<Rightarrow> parse_job \<Rightarrow> parsed_document \<Rightarrow> db \<Rightarrow> error + unit \<times> db" where
  "worker_completeJob_tx c e j parsed s =
     (case sql e ''create parse result'' 0
             (sql_insert (parse_results_violation s) [new_result c e j parsed] (parse_results s)) of
        Inl x \<Rightarrow> Inl (Wrapf ''create parse result'' (GormErr x))
      | Inr rs \<Rightarrow>
          let s1 = s\<lparr>parse_results := rs\<rparr> in
          (case sql e ''complete parse job'' 0
                  (sql_update (parse_jobs_violation s1)
                    (\<lambda>k. job_id k = job_id j \<and> job_status k = ''processing'')
                    (job_completed e) (parse_jobs s1)) of
             Inl x \<Rightarrow> Inl (Wrapf ''complete parse job'' (GormErr x))
           | Inr (js, rowsAffected) \<Rightarrow>
               if rowsAffected \<noteq> 1
                 then Inl (ErrNew ''complete parse job: processing state was lost'')
               else Inr ((), s1\<lparr>parse_jobs := js\<rparr>)))"

definition worker_completeJob ::
  "time_codec \<Rightarrow> env \<Rightarrow> parse_job \<Rightarrow> parsed_document \<Rightarrow> db \<Rightarrow> (error + unit) \<times> db" where
  "worker_completeJob c e j parsed s = transaction e (worker_completeJob_tx c e j parsed) s"

definition job_failed :: "env \<Rightarrow> string \<Rightarrow> parse_job \<Rightarrow> parse_job" where
  "job_failed e message' j =
     j\<lparr>job_status := ''failed'', job_error_message := Some message',
       job_finished_at := Some (now e), job_updated_at := now e\<rparr>"

text \<open>The result of \<open>processJob\<close>: whether the job is terminal, and the error it returns, if any.\<close>

definition worker_failJob ::
  "env \<Rightarrow> int \<Rightarrow> string \<Rightarrow> error \<Rightarrow> db \<Rightarrow> (bool \<times> error option) \<times> db" where
  "worker_failJob e jobID message' processingErr s =
     (case sql e ''mark parse job failed'' 0
             (sql_update (parse_jobs_violation s)
               (\<lambda>j. job_id j = jobID \<and> job_status j = ''processing'')
               (job_failed e message') (parse_jobs s)) of
        Inl x \<Rightarrow> ((False, Some (Wrapf (''mark parse job failed after '' @ error_text processingErr)
                                 (GormErr x))), s)
      | Inr (js, rowsAffected) \<Rightarrow>
          let s' = s\<lparr>parse_jobs := js\<rparr> in
          if rowsAffected \<noteq> 1
            then ((False, Some (ErrNew (''mark parse job failed after '' @ error_text processingErr
                                 @ '': processing state was lost''))), s')
          else ((True, Some processingErr), s'))"

section \<open>Processing\<close>

definition document_content :: "document \<Rightarrow> string option" where
  "document_content d = (case doc_text_input d of None \<Rightarrow> doc_raw_text d | Some t \<Rightarrow> Some t)"

text \<open>\<open>processJob\<close> after a successful claim.\<close>

definition worker_run ::
  "time_codec \<Rightarrow> (string \<Rightarrow> ai_error + parsed_document) \<Rightarrow> env \<Rightarrow> parse_job \<Rightarrow> db
     \<Rightarrow> (bool \<times> error option) \<times> db" where
  "worker_run c parser e j s =
     (case sql e ''load parse job document'' 0
             (sql_first doc_id
               (\<lambda>d. doc_id d = job_document_id j \<and> doc_user_id d = job_user_id j
                  \<and> doc_deleted_at d = None) (documents s)) of
        Inl x \<Rightarrow> worker_failJob e (job_id j) ''source document is unavailable''
                    (Wrapf ''load parse job document'' (GormErr x)) s
      | Inr d \<Rightarrow>
          let content = (case document_content d of None \<Rightarrow> [] | Some t \<Rightarrow> t) in
          if trim_space content = [] then
            worker_failJob e (job_id j) ''source document text is empty''
              (ErrNew ''source document text is empty'') s
          else
            (case parser content of
               Inl err \<Rightarrow> worker_failJob e (job_id j) (PublicErrorMessage err)
                            (Wrapf ''parse document with AI'' (ErrNew (ai_error_text err))) s
             | Inr parsed \<Rightarrow>
                 (case worker_completeJob c e j parsed s of
                    (Inl err, s') \<Rightarrow> ((False, Some err), s')
                  | (Inr _, s') \<Rightarrow> ((True, None), s'))))"

definition worker_processJob ::
  "time_codec \<Rightarrow> (string \<Rightarrow> ai_error + parsed_document) \<Rightarrow> env \<Rightarrow> int \<Rightarrow> db
     \<Rightarrow> (bool \<times> error option) \<times> db" where
  "worker_processJob c parser e jobID s =
     (case worker_claimJob e jobID s of
        (Inl err, s') \<Rightarrow> ((False, Some err), s')
      | (Inr (j, claimed), s') \<Rightarrow>
          if \<not> claimed then
            ((case j of None \<Rightarrow> False
              | Some k \<Rightarrow> job_status k = ''success'' \<or> job_status k = ''failed'', None), s')
          else (case j of None \<Rightarrow> ((False, None), s') | Some k \<Rightarrow> worker_run c parser e k s'))"

text \<open>
  \<open>handleMessage\<close>: whether the message is acknowledged. A message that is not stays with
  the consumer group and is delivered again.
\<close>

definition worker_handleMessage ::
  "time_codec \<Rightarrow> (string \<Rightarrow> ai_error + parsed_document) \<Rightarrow> env \<Rightarrow> int \<Rightarrow> db \<Rightarrow> bool \<times> db" where
  "worker_handleMessage c parser e jobID s =
     (if jobID \<le> 0 then (True, s)
      else case worker_processJob c parser e jobID s of ((terminal, _), s') \<Rightarrow> (terminal, s'))"

section \<open>Repair\<close>

text \<open>One turn of the loop of \<open>recoverStaleJobs\<close>, for the \<open>k\<close>-th stale job found.\<close>

definition stale_job :: "int \<Rightarrow> parse_job \<Rightarrow> bool" where
  "stale_job cutoff j \<longleftrightarrow>
     job_status j = ''processing''
     \<and> (case job_started_at j of None \<Rightarrow> False | Some t \<Rightarrow> t < cutoff)"

definition recover_one ::
  "env \<Rightarrow> int \<Rightarrow> int \<Rightarrow> nat \<Rightarrow> parse_job \<Rightarrow> db \<times> stream \<Rightarrow> (error + unit) \<times> (db \<times> stream)" where
  "recover_one e maxRecoveries cutoff k j sq =
     (case sq of (s, q) \<Rightarrow>
        if maxRecoveries \<le> job_retry_count j then
          (case sql e ''fail exhausted stale parse job'' k
                  (sql_update (parse_jobs_violation s)
                    (\<lambda>i. job_id i = job_id j \<and> stale_job cutoff i)
                    (job_failed e ''parse worker recovery limit exceeded'') (parse_jobs s)) of
             Inl x \<Rightarrow> (Inl (Wrapf (''fail exhausted stale parse job '' @ dec (nat (job_id j))) (GormErr x)), sq)
           | Inr (js, _) \<Rightarrow> (Inr (), (s\<lparr>parse_jobs := js\<rparr>, q)))
        else
          (case sql e ''reset stale parse job'' k
                  (sql_update (parse_jobs_violation s)
                    (\<lambda>i. job_id i = job_id j \<and> stale_job cutoff i)
                    (job_reset e (job_retry_count j)) (parse_jobs s)) of
             Inl x \<Rightarrow> (Inl (Wrapf (''reset stale parse job '' @ dec (nat (job_id j))) (GormErr x)), sq)
           | Inr (js, rowsAffected) \<Rightarrow>
               (Inr (), (s\<lparr>parse_jobs := js\<rparr>,
                 if rowsAffected = 1 then job_publish e k (job_id j) q else q))))"

fun recover_loop ::
  "env \<Rightarrow> int \<Rightarrow> int \<Rightarrow> nat \<Rightarrow> parse_job list \<Rightarrow> db \<times> stream \<Rightarrow> (error + unit) \<times> (db \<times> stream)" where
  "recover_loop e maxRecoveries cutoff k [] sq = (Inr (), sq)"
| "recover_loop e maxRecoveries cutoff k (j # js) sq =
     (case recover_one e maxRecoveries cutoff k j sq of
        (Inl err, sq') \<Rightarrow> (Inl err, sq')
      | (Inr _, sq') \<Rightarrow> recover_loop e maxRecoveries cutoff (Suc k) js sq')"

definition started_order :: "parse_job \<Rightarrow> order_key" where
  "started_order j =
     asc_key (case job_started_at j of None \<Rightarrow> 0 | Some t \<Rightarrow> t) (job_id j)"

definition worker_recoverStaleJobs ::
  "int \<Rightarrow> int \<Rightarrow> env \<Rightarrow> db \<times> stream \<Rightarrow> (error + unit) \<times> (db \<times> stream)" where
  "worker_recoverStaleJobs leaseTimeout maxRecoveries e sq =
     (let cutoff = now e - leaseTimeout in
      case sql e ''list stale parse jobs'' 0
             (Inr (sql_page 0 reconciliationBatchSize
               (sql_find started_order (stale_job cutoff) (parse_jobs (fst sq))))) of
        Inl x \<Rightarrow> (Inl (Wrapf ''list stale parse jobs'' (GormErr x)), sq)
      | Inr js \<Rightarrow> recover_loop e maxRecoveries cutoff 0 js sq)"

text \<open>One turn of the loop of \<open>reconcilePendingJobs\<close>.\<close>

definition overdue_job :: "int \<Rightarrow> parse_job \<Rightarrow> bool" where
  "overdue_job cutoff j \<longleftrightarrow> job_status j = ''pending'' \<and> job_updated_at j < cutoff"

definition reconcile_one ::
  "env \<Rightarrow> int \<Rightarrow> nat \<Rightarrow> parse_job \<Rightarrow> db \<times> stream \<Rightarrow> (error + unit) \<times> (db \<times> stream)" where
  "reconcile_one e cutoff k j sq =
     (case sq of (s, q) \<Rightarrow>
        if fault e ''publish'' k
          then (Inl (Wrapf (''republish pending parse job '' @ dec (nat (job_id j))) (ErrNew ''publish parse job'')), sq)
        else
          (let q' = job_publish e k (job_id j) q in
           case sql e ''mark pending parse job reconciled'' k
                  (sql_update (parse_jobs_violation s)
                    (\<lambda>i. job_id i = job_id j \<and> overdue_job cutoff i)
                    (\<lambda>i. i\<lparr>job_updated_at := now e\<rparr>) (parse_jobs s)) of
             Inl x \<Rightarrow> (Inl (Wrapf (''mark pending parse job '' @ dec (nat (job_id j)) @ '' reconciled'') (GormErr x)), (s, q'))
           | Inr (js, _) \<Rightarrow> (Inr (), (s\<lparr>parse_jobs := js\<rparr>, q'))))"

fun reconcile_loop ::
  "env \<Rightarrow> int \<Rightarrow> nat \<Rightarrow> parse_job list \<Rightarrow> db \<times> stream \<Rightarrow> (error + unit) \<times> (db \<times> stream)" where
  "reconcile_loop e cutoff k [] sq = (Inr (), sq)"
| "reconcile_loop e cutoff k (j # js) sq =
     (case reconcile_one e cutoff k j sq of
        (Inl err, sq') \<Rightarrow> (Inl err, sq')
      | (Inr _, sq') \<Rightarrow> reconcile_loop e cutoff (Suc k) js sq')"

definition updated_order :: "parse_job \<Rightarrow> order_key" where
  "updated_order j = asc_key (job_updated_at j) (job_id j)"

definition worker_reconcilePendingJobs ::
  "int \<Rightarrow> env \<Rightarrow> db \<times> stream \<Rightarrow> (error + unit) \<times> (db \<times> stream)" where
  "worker_reconcilePendingJobs pendingGrace e sq =
     (let cutoff = now e - pendingGrace in
      case sql e ''list pending parse jobs'' 0
             (Inr (sql_page 0 reconciliationBatchSize
               (sql_find updated_order (overdue_job cutoff) (parse_jobs (fst sq))))) of
        Inl x \<Rightarrow> (Inl (Wrapf ''list pending parse jobs'' (GormErr x)), sq)
      | Inr js \<Rightarrow> reconcile_loop e cutoff 0 js sq)"

text \<open>\<open>nextBackoff\<close>, in nanoseconds.\<close>

definition nextBackoff :: "int \<Rightarrow> int" where
  "nextBackoff current =
     (let doubled = int64_wrap (current * 2) in
      if doubled > 30000000000 then 30000000000 else doubled)"

section \<open>What a step of the worker did\<close>

lemma job_claimed_sel [simp]:
  "job_id (job_claimed e j) = job_id j" "job_user_id (job_claimed e j) = job_user_id j"
  "job_document_id (job_claimed e j) = job_document_id j"
  "job_status (job_claimed e j) = ''processing''"
  "job_retry_count (job_claimed e j) = job_retry_count j"
  "job_started_at (job_claimed e j) = Some (now e)" "job_job_type (job_claimed e j) = job_job_type j"
  by (simp_all add: job_claimed_def)

lemma job_completed_sel [simp]:
  "job_id (job_completed e j) = job_id j" "job_user_id (job_completed e j) = job_user_id j"
  "job_document_id (job_completed e j) = job_document_id j"
  "job_status (job_completed e j) = ''success''"
  "job_retry_count (job_completed e j) = job_retry_count j"
  "job_started_at (job_completed e j) = job_started_at j"
  "job_job_type (job_completed e j) = job_job_type j"
  by (simp_all add: job_completed_def)

lemma job_failed_sel [simp]:
  "job_id (job_failed e m j) = job_id j" "job_user_id (job_failed e m j) = job_user_id j"
  "job_document_id (job_failed e m j) = job_document_id j"
  "job_status (job_failed e m j) = ''failed''"
  "job_retry_count (job_failed e m j) = job_retry_count j"
  "job_started_at (job_failed e m j) = job_started_at j"
  "job_error_message (job_failed e m j) = Some m"
  by (simp_all add: job_failed_def)

lemma new_result_sel [simp]:
  "res_id (new_result c e j p) = new_id e 0" "res_user_id (new_result c e j p) = job_user_id j"
  "res_document_id (new_result c e j p) = job_document_id j"
  "res_parse_job_id (new_result c e j p) = job_id j" "res_version (new_result c e j p) = 1"
  "\<not> res_is_confirmed (new_result c e j p)"
  "res_generated_tasks (new_result c e j p) = marshal_tasks c (pd_generated_tasks p)"
  "res_title (new_result c e j p) = pd_title p" "res_ai_model (new_result c e j p) = Some (pd_model p)"
  by (simp_all add: new_result_def)

lemma worker_claimJob_Inr:
  assumes "worker_claimJob e i s = (r, s')" and ok: "schema_ok s"
  shows "s' = s \<and> (\<forall>j. r \<noteq> Inr (j, True))
    \<or> (\<exists>j. job_id j = i \<and> job_status j = ''pending'' \<and> job_edit s j (job_claimed e j) s'
         \<and> (r = Inr (Some (job_claimed e j), True) \<or> (\<exists>err. r = Inl err)))"
proof (cases "sql e ''claim parse job'' 0 (sql_update (parse_jobs_violation s)
    (\<lambda>j. job_id j = i \<and> job_status j = ''pending'') (job_claimed e) (parse_jobs s))")
  case (Inl x)
  then show ?thesis using assms(1) by (auto simp: worker_claimJob_def)
next
  case (Inr y)
  obtain js n where y: "y = (js, n)" by fastforce
  have upd: "sql_update (parse_jobs_violation s) (\<lambda>j. job_id j = i \<and> job_status j = ''pending'')
      (job_claimed e) (parse_jobs s) = Inr (js, n)"
    using Inr y by simp
  let ?sel = "sql e ''load claimed parse job'' 0 (sql_first job_id (\<lambda>j. job_id j = i) js)"
  have run: "(case ?sel of
        Inl ErrRecordNotFound \<Rightarrow> (Inr (None, False), s\<lparr>parse_jobs := js\<rparr>)
      | Inl x \<Rightarrow> (Inl (Wrapf ''load claimed parse job'' (GormErr x)), s\<lparr>parse_jobs := js\<rparr>)
      | Inr j \<Rightarrow> (Inr (Some j, n = 1), s\<lparr>parse_jobs := js\<rparr>)) = (r, s')"
    using assms(1) Inr y by (simp only: worker_claimJob_def sum.case prod.case Let_def)
  consider "n = 0" "js = parse_jobs s"
    | j where "j \<in> set (parse_jobs s)" "job_id j = i" "job_status j = ''pending''" "n = 1"
        "js = replace_row job_id (job_claimed e j) (parse_jobs s)" "parse_jobs_violation s js = None"
    using jt.update_cases [OF upd schema_ok_distinct(2) [OF ok], of i] by auto
  then show ?thesis
  proof cases
    case 1
    then show ?thesis using run by (auto split: sum.splits db_error.splits)
  next
    case (2 j)
    have ed: "job_edit s j (job_claimed e j) (s\<lparr>parse_jobs := js\<rparr>)"
      using 2 by (simp add: job_edit_def)
    have in_js: "job_claimed e j \<in> set js"
      using set_replace_row [of j "parse_jobs s" job_id "job_claimed e j"] 2 by simp
    show ?thesis
    proof (cases ?sel)
      case (Inl x)
      then have "x \<noteq> ErrRecordNotFound" using in_js 2(2) by (force simp: sql_Inl)
      then show ?thesis using run Inl ed 2 by (auto split: db_error.splits)
    next
      case (Inr k)
      then have "k \<in> set js" "job_id k = i" using sql_first_Inr by fastforce+
      then have "k = job_claimed e j"
        using 2 in_replace_row [of k job_id "job_claimed e j" "parse_jobs s"] by auto
      moreover have "(Inr (Some k, n = 1), s\<lparr>parse_jobs := js\<rparr>) = (r, s')"
        using run unfolding Inr by simp
      ultimately show ?thesis using ed 2(2-4) by auto
    qed
  qed
qed

lemma worker_completeJob_Inr:
  assumes "worker_completeJob c e j p s = (Inr x, s')" and ok: "schema_ok s"
  shows "\<exists>k. k \<in> set (parse_jobs s) \<and> job_id k = job_id j \<and> job_status k = ''processing''
    \<and> parse_results_violation s (parse_results s @ [new_result c e j p]) = None
    \<and> job_edit (s\<lparr>parse_results := parse_results s @ [new_result c e j p]\<rparr>) k (job_completed e k) s'"
proof -
  let ?s1 = "s\<lparr>parse_results := parse_results s @ [new_result c e j p]\<rparr>"
  obtain js where ins: "parse_results_violation s (parse_results s @ [new_result c e j p]) = None"
    and upd: "sql_update (parse_jobs_violation ?s1)
       (\<lambda>k. job_id k = job_id j \<and> job_status k = ''processing'') (job_completed e) (parse_jobs s) = Inr (js, 1)"
    and s': "s' = ?s1\<lparr>parse_jobs := js\<rparr>"
    using assms(1)
    by (auto simp: worker_completeJob_def worker_completeJob_tx_def transaction_Inr sql_insert_Inr Let_def
        split: sum.splits if_splits)
  from jt.update_cases [OF upd schema_ok_distinct(2) [OF ok], of "job_id j"] show ?thesis
    using ins s' by (auto simp: job_edit_def)
qed

lemma worker_completeJob_Inl: "worker_completeJob c e j p s = (Inl err, s') \<Longrightarrow> s' = s"
  by (auto simp: worker_completeJob_def dest: transaction_Inl)

lemma worker_failJob_cases:
  assumes "worker_failJob e i m perr s = (r, s')" and ok: "schema_ok s"
  shows "\<not> fst r \<and> s' = s
    \<or> fst r \<and> (\<exists>j. job_id j = i \<and> job_status j = ''processing'' \<and> job_edit s j (job_failed e m j) s')"
proof (cases "sql e ''mark parse job failed'' 0 (sql_update (parse_jobs_violation s)
    (\<lambda>j. job_id j = i \<and> job_status j = ''processing'') (job_failed e m) (parse_jobs s))")
  case (Inl x)
  then show ?thesis using assms(1) by (auto simp: worker_failJob_def)
next
  case (Inr y)
  obtain js n where y: "y = (js, n)" by fastforce
  have upd: "sql_update (parse_jobs_violation s) (\<lambda>j. job_id j = i \<and> job_status j = ''processing'')
      (job_failed e m) (parse_jobs s) = Inr (js, n)"
    using Inr y by simp
  from jt.update_cases [OF upd schema_ok_distinct(2) [OF ok], of i] show ?thesis
    using assms(1) Inr y
    by (auto simp: worker_failJob_def Let_def job_edit_def split: if_splits)
qed

text \<open>One repair step: it changes nothing, or fails or resets the one stale job it names.\<close>

lemma recover_one_cases:
  assumes "recover_one e mx cutoff k j (s, q) = (r, (s', q'))" and ok: "schema_ok s"
  shows "s' = s \<and> q' = q
    \<or> (\<exists>i. job_id i = job_id j \<and> stale_job cutoff i
         \<and> (if mx \<le> job_retry_count j
            then job_edit s i (job_failed e ''parse worker recovery limit exceeded'' i) s' \<and> q' = q
            else job_edit s i (job_reset e (job_retry_count j) i) s' \<and> q' = job_publish e k (job_id j) q))"
proof (cases "mx \<le> job_retry_count j")
  case True
  show ?thesis
  proof (cases "sql e ''fail exhausted stale parse job'' k (sql_update (parse_jobs_violation s)
      (\<lambda>i. job_id i = job_id j \<and> stale_job cutoff i)
      (job_failed e ''parse worker recovery limit exceeded'') (parse_jobs s))")
    case (Inl x)
    then show ?thesis using assms(1) True by (auto simp: recover_one_def)
  next
    case (Inr y)
    obtain js n where y: "y = (js, n)" by fastforce
    have upd: "sql_update (parse_jobs_violation s) (\<lambda>i. job_id i = job_id j \<and> stale_job cutoff i)
        (job_failed e ''parse worker recovery limit exceeded'') (parse_jobs s) = Inr (js, n)"
      using Inr y by simp
    from jt.update_cases [OF upd schema_ok_distinct(2) [OF ok], of "job_id j"] show ?thesis
      using assms(1) Inr y True by (auto simp: recover_one_def job_edit_def)
  qed
next
  case False
  show ?thesis
  proof (cases "sql e ''reset stale parse job'' k (sql_update (parse_jobs_violation s)
      (\<lambda>i. job_id i = job_id j \<and> stale_job cutoff i) (job_reset e (job_retry_count j)) (parse_jobs s))")
    case (Inl x)
    then show ?thesis using assms(1) False by (auto simp: recover_one_def)
  next
    case (Inr y)
    obtain js n where y: "y = (js, n)" by fastforce
    have upd: "sql_update (parse_jobs_violation s) (\<lambda>i. job_id i = job_id j \<and> stale_job cutoff i)
        (job_reset e (job_retry_count j)) (parse_jobs s) = Inr (js, n)"
      using Inr y by simp
    from jt.update_cases [OF upd schema_ok_distinct(2) [OF ok], of "job_id j"] show ?thesis
      using assms(1) Inr y False by (auto simp: recover_one_def job_edit_def split: if_splits)
  qed
qed

lemma reconcile_one_cases:
  assumes "reconcile_one e cutoff k j (s, q) = (r, (s', q'))" and ok: "schema_ok s"
  shows "(q' = q \<or> q' = q @ [job_id j])
    \<and> (s' = s \<or> (\<exists>i. overdue_job cutoff i \<and> job_edit s i (i\<lparr>job_updated_at := now e\<rparr>) s'))"
proof (cases "fault e ''publish'' k")
  case True
  then show ?thesis using assms(1) by (simp add: reconcile_one_def)
next
  case nf: False
  show ?thesis
  proof (cases "sql e ''mark pending parse job reconciled'' k (sql_update (parse_jobs_violation s)
      (\<lambda>i. job_id i = job_id j \<and> overdue_job cutoff i) (\<lambda>i. i\<lparr>job_updated_at := now e\<rparr>) (parse_jobs s))")
    case (Inl x)
    then show ?thesis using assms(1) nf by (auto simp: reconcile_one_def job_publish_def Let_def)
  next
    case (Inr y)
    obtain js n where y: "y = (js, n)" by fastforce
    have upd: "sql_update (parse_jobs_violation s) (\<lambda>i. job_id i = job_id j \<and> overdue_job cutoff i)
        (\<lambda>i. i\<lparr>job_updated_at := now e\<rparr>) (parse_jobs s) = Inr (js, n)"
      using Inr y by simp
    from jt.update_cases [OF upd schema_ok_distinct(2) [OF ok], of "job_id j"] show ?thesis
      using assms(1) Inr y nf by (auto simp: reconcile_one_def job_edit_def job_publish_def Let_def)
  qed
qed

section \<open>What a message does\<close>

text \<open>The texts that may be stored in \<open>error_message\<close> for a failed attempt.\<close>

definition failure_texts :: "string list" where
  "failure_texts =
     [''source document is unavailable'', ''source document text is empty'',
      ''AI response validation failed'', ''AI service authentication failed'',
      ''AI service temporarily unavailable'', ''AI service rejected the parse request'',
      ''AI parsing timed out'', ''AI parsing failed'']"

lemma PublicErrorMessage_texts: "PublicErrorMessage err \<in> set failure_texts"
  by (simp add: PublicErrorMessage_def failure_texts_def split: ai_error.splits)

text \<open>
  The four ways a message can end: nothing was claimed; the job was claimed and left in
  processing, for the lease to expire; it failed; it produced its result.
\<close>

definition left_processing :: "env \<Rightarrow> int \<Rightarrow> db \<Rightarrow> db \<Rightarrow> bool" where
  "left_processing e i s s' \<longleftrightarrow>
     (\<exists>j\<in>set (parse_jobs s). job_id j = i \<and> job_status j = ''pending'' \<and> job_edit s j (job_claimed e j) s')"

definition processing_failed :: "env \<Rightarrow> int \<Rightarrow> db \<Rightarrow> db \<Rightarrow> bool" where
  "processing_failed e i s s' \<longleftrightarrow>
     (\<exists>j\<in>set (parse_jobs s). \<exists>m\<in>set failure_texts. job_id j = i \<and> job_status j = ''pending''
        \<and> job_edit s j (job_failed e m (job_claimed e j)) s')"

definition parsed_result ::
  "time_codec \<Rightarrow> (string \<Rightarrow> ai_error + parsed_document) \<Rightarrow> env \<Rightarrow> int \<Rightarrow> db \<Rightarrow> db \<Rightarrow> bool" where
  "parsed_result c parser e i s s' \<longleftrightarrow>
     (\<exists>j\<in>set (parse_jobs s). \<exists>d\<in>set (documents s). \<exists>content parsed.
        job_id j = i \<and> job_status j = ''pending''
        \<and> doc_id d = job_document_id j \<and> doc_user_id d = job_user_id j \<and> doc_deleted_at d = None
        \<and> document_content d = Some content \<and> trim_space content \<noteq> [] \<and> parser content = Inr parsed
        \<and> parse_results s' = parse_results s @ [new_result c e j parsed]
        \<and> parse_results_violation s (parse_results s') = None
        \<and> job_edit (s\<lparr>parse_results := parse_results s'\<rparr>) j (job_completed e (job_claimed e j)) s')"

text \<open>Two edits of the same job in a row are one.\<close>

lemma replace_row_twice:
  "key r' = key r \<Longrightarrow> replace_row key r' (replace_row key r rows) = replace_row key r' rows"
  by (simp add: replace_row_def)

lemma job_edit_trans:
  assumes "job_edit s j j1 s1" "job_edit s1 k k' s2"
    and "job_id j1 = job_id j" "job_id k = job_id j" "job_id k' = job_id j"
  shows "k = j1 \<and> job_edit s j k' s2"
proof -
  have k: "k \<in> set (replace_row job_id j1 (parse_jobs s))" using assms(1,2) by (simp add: job_edit_def)
  then have kj: "k = j1" using in_replace_row [OF k] assms(3,4) by auto
  have "parse_job_refs (s\<lparr>parse_jobs := x\<rparr>) = parse_job_refs s" for x
    by (simp add: fun_eq_iff parse_job_refs_def)
  then have viol: "parse_jobs_violation (s\<lparr>parse_jobs := x\<rparr>) y = parse_jobs_violation s y" for x y
    by (simp add: parse_jobs_violation_def)
  show ?thesis
    using assms kj viol replace_row_twice [of job_id k' j1 "parse_jobs s"] by (auto simp: job_edit_def)
qed

lemma worker_claimJob_row:
  "worker_claimJob e i s = (Inr (Some k, b), s') \<Longrightarrow> k \<in> set (parse_jobs s') \<and> job_id k = i"
  using sql_first_Inr
  by (fastforce simp: worker_claimJob_def Let_def split: sum.splits prod.splits db_error.splits)

lemma parse_result_refs_jobs:
  "documents s1 = documents s \<Longrightarrow> users s1 = users s
     \<Longrightarrow> job_id ` set (parse_jobs s1) = job_id ` set (parse_jobs s)
     \<Longrightarrow> parse_result_refs s1 = parse_result_refs s"
  by (simp add: fun_eq_iff parse_result_refs_def)

lemma parse_jobs_violation_results:
  "parse_jobs_violation (s\<lparr>parse_results := x\<rparr>) js = parse_jobs_violation s js"
proof -
  have "parse_job_refs (s\<lparr>parse_results := x\<rparr>) = parse_job_refs s"
    by (simp add: fun_eq_iff parse_job_refs_def)
  then show ?thesis by (simp add: parse_jobs_violation_def)
qed

lemma worker_run_outcome:
  assumes run: "worker_run c parser e (job_claimed e j) s1 = ((terminal, err), s')"
    and ok: "schema_ok s" and j: "job_id j = i" "job_status j = ''pending''" "j \<in> set (parse_jobs s)"
    and ed: "job_edit s j (job_claimed e j) s1"
  shows "\<not> terminal \<and> s' = s1 \<or> terminal \<and> processing_failed e i s s'
    \<or> terminal \<and> err = None \<and> parsed_result c parser e i s s'"
proof -
  have ok1: "schema_ok s1" using job_edit_schema_ok [OF ok ed] by simp
  have fail: ?thesis if f: "worker_failJob e (job_id (job_claimed e j)) m perr s1 = ((terminal, err), s')"
    and m: "m \<in> set failure_texts" for m perr
  proof (cases terminal)
    case False
    then show ?thesis using worker_failJob_cases [OF f ok1] by simp
  next
    case True
    then obtain k where k: "job_id k = job_id j" "job_edit s1 k (job_failed e m k) s'"
      using worker_failJob_cases [OF f ok1] by auto
    have "job_edit s j (job_failed e m (job_claimed e j)) s'"
      using job_edit_trans [OF ed k(2)] k(1) by auto
    then have "processing_failed e i s s'"
      using j m unfolding processing_failed_def by blast
    then show ?thesis using True by simp
  qed
  let ?doc = "sql e ''load parse job document'' 0 (sql_first doc_id
      (\<lambda>d. doc_id d = job_document_id (job_claimed e j) \<and> doc_user_id d = job_user_id (job_claimed e j)
         \<and> doc_deleted_at d = None) (documents s1))"
  show ?thesis
  proof (cases ?doc)
    case (Inl x)
    then show ?thesis using run unfolding worker_run_def
      by (intro fail) (auto simp: failure_texts_def)
  next
    case (Inr d)
    note loaded = Inr
    have d: "d \<in> set (documents s)" "doc_id d = job_document_id j" "doc_user_id d = job_user_id j"
      "doc_deleted_at d = None"
      using sql_first_Inr [of _ _ "documents s1" d] loaded ed by (auto simp: job_edit_def)
    let ?content = "case document_content d of None \<Rightarrow> [] | Some t \<Rightarrow> t"
    show ?thesis
    proof (cases "trim_space ?content = []")
      case True
      then show ?thesis using run unfolding worker_run_def loaded sum.case Let_def
        by (intro fail) (auto simp: failure_texts_def)
    next
      case False
      then obtain content where ct: "document_content d = Some content" "trim_space content \<noteq> []"
        by (cases "document_content d") (auto simp: trim_space_def strip_def)
      show ?thesis
      proof (cases "parser content")
        case (Inl x)
        then show ?thesis using run ct unfolding worker_run_def loaded sum.case Let_def
          by (intro fail [of "PublicErrorMessage x"]) (auto simp: PublicErrorMessage_texts)
      next
        case (Inr parsed)
        note answer = Inr
        obtain r s2 where fin: "worker_completeJob c e (job_claimed e j) parsed s1 = (r, s2)" by fastforce
        show ?thesis
        proof (cases r)
          case (Inl x)
          then have "\<not> terminal \<and> s' = s2" using run ct answer fin
            unfolding worker_run_def loaded sum.case Let_def by auto
          then show ?thesis using worker_completeJob_Inl fin Inl by blast
        next
          case (Inr u)
          then have res: "terminal \<and> err = None \<and> s' = s2" using run ct answer fin
            unfolding worker_run_def loaded sum.case Let_def by auto
          let ?n = "new_result c e (job_claimed e j) parsed"
          let ?s1 = "s1\<lparr>parse_results := parse_results s1 @ [?n]\<rparr>"
          obtain k where k: "job_id k = job_id j"
            and v: "parse_results_violation s1 (parse_results s1 @ [?n]) = None"
            and ed2: "job_edit ?s1 k (job_completed e k) s2"
            using worker_completeJob_Inr [OF fin [unfolded Inr] ok1] by auto
          have n: "?n = new_result c e j parsed" by (simp add: new_result_def)
          have rs: "parse_results s1 = parse_results s" "documents s1 = documents s" "users s1 = users s"
            and ids: "job_id ` set (parse_jobs s1) = job_id ` set (parse_jobs s)"
            using ed by (auto simp: job_edit_def)
          have v': "parse_results_violation s (parse_results s @ [?n]) = None"
            using v rs(1) parse_result_refs_jobs [OF rs(2,3) ids] by (simp add: parse_results_violation_def)
          have edn: "job_edit (s\<lparr>parse_results := parse_results s @ [?n]\<rparr>) j (job_claimed e j) ?s1"
            using ed rs(1) parse_jobs_violation_results by (auto simp: job_edit_def)
          have ed3: "job_edit (s\<lparr>parse_results := parse_results s @ [?n]\<rparr>) j
              (job_completed e (job_claimed e j)) s2"
            using job_edit_trans [OF edn ed2] k by auto
          have "parse_results s2 = parse_results s @ [new_result c e j parsed]"
            using ed3 n by (simp add: job_edit_def)
          then have "parsed_result c parser e i s s2"
            using j d ct answer v' ed3 n unfolding parsed_result_def by force
          then show ?thesis using res by simp
        qed
      qed
    qed
  qed
qed

lemma worker_processJob_cases:
  assumes "schema_ok s" "worker_processJob c parser e i s = ((terminal, err), s')"
  shows "s' = s \<and> (terminal \<longrightarrow> (\<exists>j\<in>set (parse_jobs s). job_id j = i
          \<and> (job_status j = ''success'' \<or> job_status j = ''failed'')))
    \<or> \<not> terminal \<and> left_processing e i s s'
    \<or> terminal \<and> processing_failed e i s s'
    \<or> terminal \<and> err = None \<and> parsed_result c parser e i s s'"
proof (cases "worker_claimJob e i s")
  case (Pair r s1)
  note claim = worker_claimJob_Inr [OF Pair assms(1)]
  show ?thesis
  proof (cases "\<exists>j. r = Inr (Some j, True)")
    case True
    then obtain k where k: "r = Inr (Some k, True)" by blast
    then obtain j where j: "job_id j = i" "job_status j = ''pending''" "job_edit s j (job_claimed e j) s1"
      and kj: "k = job_claimed e j"
      using claim by auto
    have "worker_run c parser e (job_claimed e j) s1 = ((terminal, err), s')"
      using assms(2) Pair k kj by (simp add: worker_processJob_def)
    moreover have "j \<in> set (parse_jobs s)" using j(3) by (simp add: job_edit_def)
    ultimately show ?thesis
      using worker_run_outcome [OF _ assms(1) j(1,2) _ j(3)] j unfolding left_processing_def by blast
  next
    case False
    have res: "s' = s1" "\<not> terminal \<or> (\<exists>k. r = Inr (Some k, False) \<and> (job_status k = ''success'' \<or> job_status k = ''failed''))"
      using assms(2) Pair False by (auto simp: worker_processJob_def split: sum.splits option.splits if_splits)
    from claim consider "s1 = s" | j err where "job_id j = i" "job_status j = ''pending''"
        "job_edit s j (job_claimed e j) s1" "r = Inl err"
      using False by blast
    then show ?thesis
    proof cases
      case 1
      then show ?thesis using res worker_claimJob_row [of e i s] Pair by fastforce
    next
      case 2
      then have "j \<in> set (parse_jobs s)" by (simp add: job_edit_def)
      then show ?thesis using 2 res unfolding left_processing_def by auto
    qed
  qed
qed

text \<open>
  C10: What processing a job can do to the database, whatever fails. Either nothing changes;
  or the job was pending and is now in processing, and the message is kept; or it was
  pending and has failed with one of eight fixed texts, none of them taken from the AI
  service's answer; or it was pending, its document was its owner's and not deleted, and it
  has succeeded, with one new result that holds what the parser returned for the document's
  text. The worker calls the job terminal
  only in the last two, or when it found the job finished.
\<close>

theorem worker_processJob_outcome:
  assumes "schema_ok s" "worker_processJob c parser e i s = ((terminal, err), s')"
  shows "s' = s \<and> (terminal \<longrightarrow> (\<exists>j\<in>set (parse_jobs s). job_id j = i
          \<and> (job_status j = ''success'' \<or> job_status j = ''failed'')))
    \<or> \<not> terminal \<and> left_processing e i s s'
    \<or> terminal \<and> processing_failed e i s s'
    \<or> terminal \<and> err = None \<and> parsed_result c parser e i s s'"
  by (rule worker_processJob_cases [OF assms])

section \<open>A message without faults\<close>

lemma claimed_violation:
  assumes "schema_ok s" "j \<in> set (parse_jobs s)" "job_status j = ''pending''"
  shows "parse_jobs_violation s (replace_row job_id (job_claimed e j) (parse_jobs s)) = None"
proof (rule jobs_violation_replace)
  show "parse_jobs_violation s (parse_jobs s) = None" using assms(1) by (simp add: schema_ok_def)
  then show "parse_job_check (job_claimed e j)"
    using assms(2) by (auto simp: parse_jobs_violation_def parse_job_check_def list_all_iff job_claimed_def)
qed (use assms in \<open>auto simp: active_status_def\<close>)

lemma finished_violation:
  assumes "schema_ok s" "j \<in> set (parse_jobs s)" "job_status j = ''processing''"
  shows "parse_jobs_violation s (replace_row job_id (job_completed e j) (parse_jobs s)) = None"
    "parse_jobs_violation s (replace_row job_id (job_failed e m j) (parse_jobs s)) = None"
proof -
  have v: "parse_jobs_violation s (parse_jobs s) = None" using assms(1) by (simp add: schema_ok_def)
  then have "parse_job_check (job_completed e j) \<and> parse_job_check (job_failed e m j)"
    using assms(2)
    by (auto simp: parse_jobs_violation_def parse_job_check_def list_all_iff job_completed_def job_failed_def)
  with jobs_violation_replace [OF v assms(2), of "job_completed e j"]
    jobs_violation_replace [OF v assms(2), of "job_failed e m j"] assms(3)
  show "parse_jobs_violation s (replace_row job_id (job_completed e j) (parse_jobs s)) = None"
    "parse_jobs_violation s (replace_row job_id (job_failed e m j) (parse_jobs s)) = None"
    by (simp_all add: active_status_def)
qed

lemma worker_claimJob_no_faults:
  assumes nf: "no_faults e" and ok: "schema_ok s"
    and j: "j \<in> set (parse_jobs s)" "job_status j = ''pending''"
  shows "worker_claimJob e (job_id j) s = (Inr (Some (job_claimed e j), True),
    s\<lparr>parse_jobs := replace_row job_id (job_claimed e j) (parse_jobs s)\<rparr>)"
proof -
  note d = schema_ok_distinct(2) [OF ok]
  have "sql_update (parse_jobs_violation s) (\<lambda>k. job_id k = job_id j \<and> job_status k = ''pending'')
      (job_claimed e) (parse_jobs s) = Inr (replace_row job_id (job_claimed e j) (parse_jobs s), 1)"
    using jt.update_keyed [OF d j(1), of "\<lambda>k. job_id k = job_id j \<and> job_status k = ''pending''" "job_claimed e" s]
      claimed_violation [OF ok j] j by simp
  moreover have "sql_first job_id (\<lambda>k. job_id k = job_id j)
      (replace_row job_id (job_claimed e j) (parse_jobs s)) = Inr (job_claimed e j)"
    by (rule jt.reload_keyed [OF d j(1)]) simp_all
  ultimately show ?thesis using nf by (simp add: worker_claimJob_def)
qed

lemma worker_completeJob_no_faults:
  assumes nf: "no_faults e" and ok: "schema_ok s"
    and k: "k \<in> set (parse_jobs s)" "job_status k = ''processing''" "job_id j = job_id k"
    and v: "parse_results_violation s (parse_results s @ [new_result c e j p]) = None"
  shows "worker_completeJob c e j p s = (Inr (),
    s\<lparr>parse_results := parse_results s @ [new_result c e j p],
      parse_jobs := replace_row job_id (job_completed e k) (parse_jobs s)\<rparr>)"
proof -
  let ?s1 = "s\<lparr>parse_results := parse_results s @ [new_result c e j p]\<rparr>"
  have "sql_update (parse_jobs_violation ?s1) (\<lambda>i. job_id i = job_id k \<and> job_status i = ''processing'')
      (job_completed e) (parse_jobs s) = Inr (replace_row job_id (job_completed e k) (parse_jobs s), 1)"
    using jt.update_keyed [OF schema_ok_distinct(2) [OF ok] k(1),
        of "\<lambda>i. job_id i = job_id k \<and> job_status i = ''processing''" "job_completed e" ?s1]
      finished_violation(1) [OF ok k(1,2)] k parse_jobs_violation_results by simp
  then show ?thesis
    using nf v k(3) by (simp add: worker_completeJob_def worker_completeJob_tx_def sql_insert_def Let_def)
qed

text \<open>A second delivery of a message whose job is finished.\<close>

lemma worker_finished_no_effect:
  assumes "distinct (map job_id (parse_jobs s))" "k \<in> set (parse_jobs s)" "job_id k = i"
    and "job_status k = ''success'' \<or> job_status k = ''failed''"
  shows "snd (worker_handleMessage c parser e i s) = s"
proof -
  have "\<not> (job_id x = i \<and> job_status x = ''pending'')" if "x \<in> set (parse_jobs s)" for x
    using distinct_map_unique [OF assms(1) that assms(2)] assms(3,4) by auto
  then have "sql_update (parse_jobs_violation s) (\<lambda>j. job_id j = i \<and> job_status j = ''pending'')
      (job_claimed e) (parse_jobs s) = Inr (js, n) \<Longrightarrow> js = parse_jobs s \<and> n = 0" for js n
    using jt.update_cases [OF _ assms(1), of s "\<lambda>j. job_id j = i \<and> job_status j = ''pending''" "job_claimed e" js n i]
    by auto
  then show ?thesis
    by (auto simp: worker_handleMessage_def worker_processJob_def worker_claimJob_def
        split: sum.splits option.splits prod.splits db_error.splits)
qed

text \<open>
  C11: A message is not lost. When no statement fails, a pending job whose document is its
  owner's, still there and with text in it, and for which the parser has an answer that
  the columns can hold, ends in success in one processing of its message: one result is
  added, with the parser's answer, the job is marked, nothing else changes, and the
  message is acknowledged. Delivered again, at any time and whatever the parser would say
  then, the message changes nothing.
\<close>

theorem worker_completes_pending:
  assumes nf: "no_faults e" and ok: "schema_ok s"
    and j: "j \<in> set (parse_jobs s)" "job_status j = ''pending''" "0 < job_id j"
    and d: "d \<in> set (documents s)" "doc_id d = job_document_id j" "doc_user_id d = job_user_id j"
      "doc_deleted_at d = None" "document_content d = Some content" "trim_space content \<noteq> []"
    and p: "parser content = Inr parsed" "varchar 255 (Some (pd_title parsed))" "varchar 64 (Some (pd_model parsed))"
    and fresh: "new_id e 0 \<notin> res_id ` set (parse_results s)" "job_id j \<notin> res_parse_job_id ` set (parse_results s)"
  shows "worker_handleMessage c parser e (job_id j) s =
      (True, s\<lparr>parse_results := parse_results s @ [new_result c e j parsed],
        parse_jobs := replace_row job_id (job_completed e (job_claimed e j)) (parse_jobs s)\<rparr>)
    \<and> snd (worker_handleMessage c' parser' e' (job_id j)
        (snd (worker_handleMessage c parser e (job_id j) s))) = snd (worker_handleMessage c parser e (job_id j) s)"
proof -
  let ?j1 = "job_claimed e j"
  let ?s1 = "s\<lparr>parse_jobs := replace_row job_id ?j1 (parse_jobs s)\<rparr>"
  let ?s2 = "s\<lparr>parse_results := parse_results s @ [new_result c e j parsed],
        parse_jobs := replace_row job_id (job_completed e ?j1) (parse_jobs s)\<rparr>"
  have ed: "job_edit s j ?j1 ?s1" using j claimed_violation [OF ok j(1,2)] by (simp add: job_edit_def)
  have ok1: "schema_ok ?s1" using job_edit_schema_ok [OF ok ed] by simp
  have doc: "sql_first doc_id (\<lambda>d. doc_id d = job_document_id j \<and> doc_user_id d = job_user_id j
      \<and> doc_deleted_at d = None) (documents s) = Inr d"
    using d(2-4) by (intro dt.first_keyed [OF schema_ok_distinct(1) [OF ok] d(1)]) auto
  have j1: "?j1 \<in> set (parse_jobs ?s1)"
    using set_replace_row [of j "parse_jobs s" job_id ?j1] j(1) by simp
  have "parse_result_refs ?s1 = parse_result_refs s" by (rule parse_result_refs_jobs) simp_all
  moreover have "parse_result_check (new_result c e ?j1 parsed) \<and> parse_result_refs s (new_result c e ?j1 parsed)"
    using ok j(1) p(2,3)
    by (auto simp: parse_result_check_def parse_result_refs_def new_result_def int4_def schema_ok_def
        parse_jobs_violation_def parse_job_refs_def list_all_iff)
  ultimately have v: "parse_results_violation ?s1 (parse_results ?s1 @ [new_result c e ?j1 parsed]) = None"
    using ok fresh by (auto simp: schema_ok_def parse_results_violation_def)
  have fin: "worker_completeJob c e ?j1 parsed ?s1 = (Inr (), ?s2)"
    using worker_completeJob_no_faults [OF nf ok1 j1 _ refl v] replace_row_twice [of job_id "job_completed e ?j1" ?j1]
    by (simp add: new_result_def)
  have run: "worker_handleMessage c parser e (job_id j) s = (True, ?s2)"
    using worker_claimJob_no_faults [OF nf ok j(1,2)] fin doc d(5,6) p(1) nf j(3)
    by (simp add: worker_handleMessage_def worker_processJob_def worker_run_def)
  have "job_completed e ?j1 \<in> set (parse_jobs ?s2)"
    using set_replace_row [of j "parse_jobs s" job_id "job_completed e ?j1"] j(1) by simp
  then have "snd (worker_handleMessage c' parser' e' (job_id j) ?s2) = ?s2"
    using schema_ok_distinct(2) [OF ok] 
    by (intro worker_finished_no_effect [where k = "job_completed e ?j1"]) simp_all
  then show ?thesis using run by simp
qed

text \<open>The sample database with its failed job on document 2 pending instead.\<close>

definition pending_job :: parse_job where
  "pending_job = sample_job 5 2 ''pending''"

definition pending_db :: db where
  "pending_db = sample_db\<lparr>parse_jobs := replace_row job_id pending_job (parse_jobs sample_db)\<rparr>"

lemma schema_ok_pending [simp]: "schema_ok pending_db"
proof -
  have "parse_jobs_violation sample_db (parse_jobs pending_db) = None"
    by (simp add: pending_db_def pending_job_def parse_jobs_violation_def parse_job_refs_def sample_defs
        parse_job_check_def active_status_def int4_def replace_row_def)
  then show ?thesis
    unfolding pending_db_def by (intro schema_ok_parse_jobs [OF schema_ok_sample]) auto
qed

lemma pending_db_sel [simp]:
  "pending_job \<in> set (parse_jobs pending_db)" "job_status pending_job = ''pending''" "job_id pending_job = 5"
  "sample_document 2 \<in> set (documents pending_db)" "job_document_id pending_job = 2"
  "job_user_id pending_job = 1" "parse_results pending_db = parse_results sample_db"
  "projects pending_db = projects sample_db" "document_content (sample_document 2) = Some ''build it''"
  by (simp_all add: pending_db_def pending_job_def sample_defs document_content_def replace_row_def)

definition sample_answer :: parsed_document where
  "sample_answer = \<lparr>pd_title = ''t'', pd_summary = ''s'', pd_deadline = None, pd_deliverables = Some [],
     pd_key_requirements = Some [], pd_risk_warnings = Some [], pd_generated_tasks = Some [], pd_model = ''t''\<rparr>"

theorem worker_completes_pending_witness:
  "worker_handleMessage sample_codec (\<lambda>_. Inr sample_answer) sample_env 5 pending_db =
    (True, pending_db\<lparr>parse_results := parse_results pending_db @ [new_result sample_codec sample_env pending_job sample_answer],
        parse_jobs := replace_row job_id (job_completed sample_env (job_claimed sample_env pending_job)) (parse_jobs pending_db)\<rparr>)"
  using worker_completes_pending [OF no_faults_sample_env schema_ok_pending pending_db_sel(1,2) _ pending_db_sel(4) _ _ _
      pending_db_sel(9), of "\<lambda>_. Inr sample_answer" sample_answer sample_codec sample_codec "\<lambda>_. Inr sample_answer" sample_env]
  by (simp add: sample_answer_def sample_document_def sample_db_def sample_result_def varchar_def
      rune_count_sample ascii_simps)

lemma pending_rejected:
  "\<exists>err s'. worker_processJob sample_codec (\<lambda>_. Inl InvalidResponse) sample_env 5 pending_db = ((True, Some err), s')"
proof -
  let ?j1 = "job_claimed sample_env pending_job"
  let ?s1 = "pending_db\<lparr>parse_jobs := replace_row job_id ?j1 (parse_jobs pending_db)\<rparr>"
  have "job_edit pending_db pending_job ?j1 ?s1"
    using claimed_violation [OF schema_ok_pending pending_db_sel(1,2)] by (simp add: job_edit_def)
  then have ok1: "schema_ok ?s1" using job_edit_schema_ok [OF schema_ok_pending] by simp
  have j1: "?j1 \<in> set (parse_jobs ?s1)"
    using set_replace_row [of pending_job "parse_jobs pending_db" job_id ?j1] by simp
  have upd: "sql_update (parse_jobs_violation ?s1) (\<lambda>j. job_id j = 5 \<and> job_status j = ''processing'')
      (job_failed sample_env m) (parse_jobs ?s1) =
      Inr (replace_row job_id (job_failed sample_env m ?j1) (parse_jobs ?s1), 1)" for m
    using jt.update_keyed [OF schema_ok_distinct(2) [OF ok1] j1,
        of "\<lambda>j. job_id j = 5 \<and> job_status j = ''processing''" "job_failed sample_env m" ?s1]
      finished_violation(2) [OF ok1 j1] by simp
  have "documents ?s1 = [sample_document 1, sample_document 2]" by (simp add: pending_db_def sample_db_def)
  then have "sql_first doc_id (\<lambda>d. doc_id d = 2 \<and> doc_user_id d = 1 \<and> doc_deleted_at d = None) (documents ?s1)
      = Inr (sample_document 2)"
    by (intro sql_first_one) (simp add: sample_document_def)
  then show ?thesis
    using worker_claimJob_no_faults [OF no_faults_sample_env schema_ok_pending pending_db_sel(1,2)] upd
    by (simp add: worker_processJob_def worker_run_def worker_failJob_def ascii_simps)
qed

theorem worker_processJob_outcome_witness:
  "processing_failed sample_env 5 pending_db
    (snd (worker_processJob sample_codec (\<lambda>_. Inl InvalidResponse) sample_env 5 pending_db))"
proof -
  obtain err s' where run: "worker_processJob sample_codec (\<lambda>_. Inl InvalidResponse) sample_env 5 pending_db = ((True, Some err), s')"
    using pending_rejected by blast
  have "\<not> (j \<in> set (parse_jobs pending_db) \<and> job_id j = 5 \<and> (job_status j = ''success'' \<or> job_status j = ''failed''))" for j
    using distinct_map_unique [OF schema_ok_distinct(2) [OF schema_ok_pending], of j pending_job] by auto
  with worker_processJob_outcome [OF schema_ok_pending run] run show ?thesis by auto
qed

end
