(* ===== verification/Paths.thy ===== *)
theory Paths
  imports GoStrings
begin

text \<open>
  Slash-separated paths as Go's \<open>path/filepath\<close> treats them on Unix: \<open>Clean\<close>, \<open>Join\<close>,
  \<open>Rel\<close> from an absolute base, \<open>Base\<close>, \<open>Ext\<close>. A path is its string; its elements are
  the strings between the slashes.
\<close>

abbreviation slash :: char where "slash \<equiv> CHR ''/''"

fun elements :: "string \<Rightarrow> string list" where
  "elements [] = [[]]"
| "elements (c # s) =
     (if c = slash then [] # elements s
      else (case elements s of [] \<Rightarrow> [[c]] | x # xs \<Rightarrow> (c # x) # xs))"

fun join_path :: "string list \<Rightarrow> string" where
  "join_path [] = []"
| "join_path [x] = x"
| "join_path (x # xs) = x @ slash # join_path xs"

definition rooted :: "string \<Rightarrow> bool" where
  "rooted p \<longleftrightarrow> (case p of [] \<Rightarrow> False | c # _ \<Rightarrow> c = slash)"

section \<open>Clean, Join, Rel\<close>

text \<open>
  The elements \<open>Clean\<close> keeps, the innermost first: empty and \<open>.\<close> elements go, \<open>..\<close>
  takes the last one back unless there is none or it is itself a \<open>..\<close>.
\<close>

fun clean_step :: "bool \<Rightarrow> string \<Rightarrow> string list \<Rightarrow> string list" where
  "clean_step rt x kept =
     (if x = [] \<or> x = ''.'' then kept
      else if x = ''..'' then
        (case kept of
           [] \<Rightarrow> if rt then [] else [''..'']
         | y # ys \<Rightarrow> if y = ''..'' then ''..'' # kept else ys)
      else x # kept)"

declare clean_step.simps [simp del]

definition clean_elements :: "string \<Rightarrow> string list" where
  "clean_elements p = rev (fold (clean_step (rooted p)) (elements p) [])"

definition Clean :: "string \<Rightarrow> string" where
  "Clean p =
     (if p = [] then ''.''
      else if rooted p then slash # join_path (clean_elements p)
      else if clean_elements p = [] then ''.'' else join_path (clean_elements p))"

definition Join :: "string list \<Rightarrow> string" where
  "Join ps = (let qs = filter (\<lambda>p. p \<noteq> []) ps in if qs = [] then [] else Clean (join_path qs))"

text \<open>\<open>Rel\<close>, when both paths are absolute: the way up to the common part, then down.\<close>

fun strip_common :: "'a list \<Rightarrow> 'a list \<Rightarrow> 'a list \<times> 'a list" where
  "strip_common (x # xs) (y # ys) = (if x = y then strip_common xs ys else (x # xs, y # ys))"
| "strip_common xs ys = (xs, ys)"

definition Rel :: "string \<Rightarrow> string \<Rightarrow> string" where
  "Rel base targ =
     (case strip_common (clean_elements base) (clean_elements targ) of
        (up, down) \<Rightarrow>
          if up = [] \<and> down = [] then ''.'' else join_path (replicate (length up) ''..'' @ down))"

section \<open>Base and Ext\<close>

definition strip_slashes :: "string \<Rightarrow> string" where
  "strip_slashes p = rev (dropWhile (\<lambda>c. c = slash) (rev p))"

definition Base :: "string \<Rightarrow> string" where
  "Base p =
     (if p = [] then ''.''
      else let q = strip_slashes p in if q = [] then [slash] else last (elements q))"

definition Ext :: "string \<Rightarrow> string" where
  "Ext p =
     (let x = last (elements p); r = rev x in
      if CHR ''.'' \<notin> set x then [] else rev (takeWhile (\<lambda>c. c \<noteq> CHR ''.'') r @ ''.''))"

section \<open>Normal elements\<close>

text \<open>An element that \<open>Clean\<close> leaves in place.\<close>

definition normal_element :: "string \<Rightarrow> bool" where
  "normal_element x \<longleftrightarrow> x \<noteq> [] \<and> x \<noteq> ''.'' \<and> x \<noteq> ''..'' \<and> slash \<notin> set x"

lemma elements_no_slash: "x \<in> set (elements p) \<Longrightarrow> slash \<notin> set x"
proof (induction p arbitrary: x)
  case (Cons c s)
  then show ?case by (cases "elements s") (auto split: if_splits)
qed simp

lemma elements_not_Nil [simp]: "elements p \<noteq> []"
  by (induction p) (auto split: list.splits)

lemma elements_single: "slash \<notin> set x \<Longrightarrow> elements x = [x]"
  by (induction x) auto

lemma elements_append: "slash \<notin> set x \<Longrightarrow> elements (x @ slash # p) = x # elements p"
  by (induction x) auto

lemma elements_join_path:
  "xs \<noteq> [] \<Longrightarrow> list_all (\<lambda>x. slash \<notin> set x) xs \<Longrightarrow> elements (join_path xs) = xs"
  by (induction xs rule: join_path.induct) (auto simp: elements_single elements_append)

lemma normal_elements_no_slash: "list_all normal_element xs \<Longrightarrow> list_all (\<lambda>x. slash \<notin> set x) xs"
  by (auto simp: list_all_iff normal_element_def)

lemma rooted_Cons [simp]: "rooted (c # p) \<longleftrightarrow> c = slash" "\<not> rooted []"
  by (simp_all add: rooted_def)

lemma rooted_join_path: "xs \<noteq> [] \<Longrightarrow> hd xs \<noteq> [] \<Longrightarrow> slash \<notin> set (hd xs) \<Longrightarrow> \<not> rooted (join_path xs)"
  by (cases xs rule: join_path.cases; cases "hd xs") (auto simp: rooted_def split: list.splits)

lemma clean_step_normal: "normal_element x \<Longrightarrow> clean_step rt x kept = x # kept"
  by (simp add: clean_step.simps normal_element_def)

lemma fold_clean_normal:
  "list_all normal_element xs \<Longrightarrow> fold (clean_step rt) xs kept = rev xs @ kept"
  by (induction xs arbitrary: kept) (auto simp: clean_step_normal)

text \<open>What is kept of an absolute path is normal; of a relative one, some \<open>..\<close> come first.\<close>

lemma clean_step_abs:
  "slash \<notin> set x \<Longrightarrow> list_all normal_element kept \<Longrightarrow> list_all normal_element (clean_step True x kept)"
  by (auto simp: clean_step.simps normal_element_def split: list.splits)

lemma fold_clean_abs:
  "list_all (\<lambda>x. slash \<notin> set x) xs \<Longrightarrow> list_all normal_element kept \<Longrightarrow>
   list_all normal_element (fold (clean_step True) xs kept)"
  by (induction xs arbitrary: kept) (simp_all add: clean_step_abs)

lemma clean_elements_rooted: "rooted p \<Longrightarrow> list_all normal_element (clean_elements p)"
  using fold_clean_abs [of "elements p" "[]"] elements_no_slash [of _ p]
  by (simp add: clean_elements_def list_all_iff)

definition ups_then_normal :: "string list \<Rightarrow> bool" where
  "ups_then_normal kept \<longleftrightarrow>
     (\<exists>n ns. kept = ns @ replicate n ''..'' \<and> list_all normal_element ns)"

lemma clean_step_rel:
  assumes "slash \<notin> set x" "ups_then_normal kept"
  shows "ups_then_normal (clean_step False x kept)"
proof -
  obtain n ns where k: "kept = ns @ replicate n ''..''" and ns: "list_all normal_element ns"
    using assms(2) by (auto simp: ups_then_normal_def)
  consider "x = [] \<or> x = ''.''" | "x = ''..''" | "normal_element x"
    using assms(1) by (auto simp: normal_element_def)
  then show ?thesis
  proof cases
    case 1
    then show ?thesis using assms(2) by (auto simp: clean_step.simps)
  next
    case 2
    show ?thesis
    proof (cases ns)
      case Nil
      have "clean_step False x kept = replicate (Suc n) ''..''"
        using 2 k Nil by (cases n) (auto simp: clean_step.simps)
      then show ?thesis unfolding ups_then_normal_def
        by (intro exI [of _ "Suc n"] exI [of _ "[]"]) simp
    next
      case (Cons y ys)
      then have "clean_step False x kept = ys @ replicate n ''..''"
        using 2 k ns by (auto simp: clean_step.simps normal_element_def)
      then show ?thesis using Cons ns by (auto simp: ups_then_normal_def)
    qed
  next
    case 3
    then have "clean_step False x kept = (x # ns) @ replicate n ''..''"
      using k by (simp add: clean_step_normal)
    moreover have "list_all normal_element (x # ns)" using 3 ns by simp
    ultimately show ?thesis unfolding ups_then_normal_def by blast
  qed
qed

lemma clean_elements_relative:
  assumes "\<not> rooted p"
  shows "\<exists>n ns. clean_elements p = replicate n ''..'' @ ns \<and> list_all normal_element ns"
proof -
  have "ups_then_normal (fold (clean_step False) xs kept)"
    if "list_all (\<lambda>x. slash \<notin> set x) xs" "ups_then_normal kept" for xs kept
    using that by (induction xs arbitrary: kept) (simp_all add: clean_step_rel)
  moreover have "ups_then_normal []" by (auto simp: ups_then_normal_def)
  ultimately have "ups_then_normal (fold (clean_step False) (elements p) [])"
    using elements_no_slash by (simp add: list_all_iff)
  then obtain n ns where "fold (clean_step False) (elements p) [] = ns @ replicate n ''..''"
    "list_all normal_element ns"
    by (auto simp: ups_then_normal_def)
  then show ?thesis using assms
    by (intro exI [of _ n] exI [of _ "rev ns"]) (simp add: clean_elements_def list_all_iff)
qed

lemma clean_elements_join_normal:
  assumes "xs \<noteq> []" "list_all normal_element xs"
  shows "clean_elements (join_path xs) = xs"
  using assms elements_join_path [OF assms(1) normal_elements_no_slash [OF assms(2)]]
  by (simp add: clean_elements_def fold_clean_normal)

lemma elements_append_path: "elements (p @ slash # q) = elements p @ elements q"
  by (induction p) (auto split: list.splits)

lemma rooted_append: "rooted p \<Longrightarrow> rooted (p @ q)"
  by (cases p) auto

lemma clean_elements_below:
  assumes "rooted p" "list_all normal_element ks" "ks \<noteq> []"
  shows "clean_elements (p @ slash # join_path ks) = clean_elements p @ ks"
  using assms elements_join_path [OF assms(3) normal_elements_no_slash [OF assms(2)]]
  by (simp add: clean_elements_def elements_append_path rooted_append fold_clean_normal)

lemma clean_elements_dot:
  assumes "rooted p"
  shows "clean_elements (p @ ''/.'') = clean_elements p"
  using assms elements_append_path [of p "''.''"]
  by (simp add: clean_elements_def rooted_append clean_step.simps)

lemma strip_common_prefix [simp]: "strip_common xs (xs @ ys) = ([], ys)"
  by (induction xs) (cases ys, auto)

end
