(* ===== verification/FileStore.thy ===== *)
theory FileStore
  imports Paths Store "HOL-Library.List_Lexorder" "HOL-Library.Char_ord"
begin

text \<open>
  \<open>pkg/upload/file_store.go\<close> and \<open>cleanup.go\<close>: the files uploads are kept in, under one
  root directory. The directory tree is the list of its regular files by absolute path;
  directories exist as needed. What the operating system decides, the failure of a call,
  is a fault of the environment; random bytes are a parameter.
\<close>

record stored_file =
  sf_data :: string
  sf_mod_time :: int

type_synonym file_tree = "(string \<times> stored_file) list"

record upload_file =
  fl_key :: string
  fl_local_path :: string
  fl_size :: int
  fl_mod_time :: int

definition ErrFileTooLarge :: error where
  "ErrFileTooLarge = ErrNew ''file exceeds configured size limit''"

section \<open>Keys and paths\<close>

definition escapes :: "string \<Rightarrow> bool" where
  "escapes p \<longleftrightarrow> p = ''..'' \<or> take 3 p = ''../''"

definition file_resolve :: "string \<Rightarrow> string \<Rightarrow> error + string" where
  "file_resolve root key =
     (if key = [] then Inl (ErrNew ''empty storage key'')
      else
        let cleanKey = Clean key in
        if rooted cleanKey \<or> escapes cleanKey then Inl (ErrNew ''invalid storage key'')
        else
          let path = Join [root, cleanKey] in
          if escapes (Rel root path) then Inl (ErrNew ''storage key escapes upload root'')
          else Inr path)"

text \<open>The \<open>k\<close>-th random name a request draws.\<close>

definition randomName :: "env \<Rightarrow> (nat \<Rightarrow> nat list) \<Rightarrow> nat \<Rightarrow> error + string" where
  "randomName e rnd k =
     (if fault e ''generate upload key'' k
      then Inl (Wrapf ''generate upload key'' (ErrNew ''random source failed''))
      else Inr (hex_encode (rnd k)))"

text \<open>\<open>today\<close>: the year and the month of the server's clock.\<close>

definition DocumentKey ::
  "env \<Rightarrow> (nat \<Rightarrow> nat list) \<Rightarrow> nat \<Rightarrow> int \<Rightarrow> nat \<times> nat \<Rightarrow> error + string" where
  "DocumentKey e rnd k userID today =
     (case randomName e rnd k of
        Inl err \<Rightarrow> Inl err
      | Inr name \<Rightarrow>
          Inr (''documents/'' @ dec_int userID @ slash # dec_pad 4 (fst today) @ slash
                # dec_pad 2 (snd today) @ slash # name @ ''.pdf''))"

section \<open>Reading an upload\<close>

text \<open>
  What the reads of the request body return: some bytes, and whether more follow, the
  body ended, or the read failed. \<open>limit_reads\<close> is \<open>io.LimitReader\<close>.
\<close>

datatype read_status = MoreData | AtEOF | ReadFailed

type_synonym reads = "(string \<times> read_status) list"

fun limit_reads :: "int \<Rightarrow> reads \<Rightarrow> reads" where
  "limit_reads n [] = []"
| "limit_reads n ((b, st) # rs) =
     (if n \<le> 0 then [([], AtEOF)]
      else if int (length b) > n then (take (nat n) b, MoreData) # [([], AtEOF)]
      else (b, st) # limit_reads (n - int (length b)) rs)"

text \<open>The loop of \<open>copyWithContext\<close> from read \<open>k\<close> on: the bytes written, and an error.\<close>

fun copyWithContext :: "env \<Rightarrow> nat \<Rightarrow> reads \<Rightarrow> string \<times> error option" where
  "copyWithContext e k [] = ([], None)"
| "copyWithContext e k ((b, st) # rs) =
     (if fault e ''upload context'' k then ([], Some (ErrNew ''context canceled''))
      else if b \<noteq> [] \<and> fault e ''write upload'' k then ([], Some (ErrNew ''short write''))
      else
        (case st of
           AtEOF \<Rightarrow> (b, None)
         | ReadFailed \<Rightarrow> (b, Some (ErrNew ''read failed''))
         | MoreData \<Rightarrow>
             (case copyWithContext e (Suc k) rs of (written, err) \<Rightarrow> (b @ written, err))))"

section \<open>The operations\<close>

definition fs_remove :: "string \<Rightarrow> file_tree \<Rightarrow> file_tree" where
  "fs_remove path fs = filter (\<lambda>pf. fst pf \<noteq> path) fs"

definition fs_write :: "string \<Rightarrow> stored_file \<Rightarrow> file_tree \<Rightarrow> file_tree" where
  "fs_write path f fs = fs_remove path fs @ [(path, f)]"

text \<open>
  \<open>SaveTemp\<close>: the deferred clean-up removes what was written unless the save succeeded;
  if that removal fails too, the partial file stays.
\<close>

definition SaveTemp ::
  "env \<Rightarrow> (nat \<Rightarrow> nat list) \<Rightarrow> nat \<Rightarrow> string \<Rightarrow> reads \<Rightarrow> int \<Rightarrow> file_tree \<Rightarrow> (error + upload_file) \<times> file_tree" where
  "SaveTemp e rnd k root reader maxBytes fs =
     (case randomName e rnd k of
        Inl err \<Rightarrow> (Inl err, fs)
      | Inr name \<Rightarrow>
          let key = Join [''.tmp'', name @ ''.pdf''] in
          (case file_resolve root key of
             Inl err \<Rightarrow> (Inl err, fs)
           | Inr path \<Rightarrow>
               if fault e ''create temporary upload directory'' 0
                 then (Inl (Wrapf ''create temporary upload directory'' (ErrNew ''mkdir'')), fs)
               else if fault e ''create temporary upload'' 0 \<or> path \<in> fst ` set fs
                 then (Inl (Wrapf ''create temporary upload'' (ErrNew ''open'')), fs)
               else
                 (case copyWithContext e 0 (limit_reads (int64_wrap (maxBytes + 1)) reader) of
                    (data, copied) \<Rightarrow>
                      let saved = fs_write path \<lparr>sf_data = data, sf_mod_time = now e\<rparr> fs;
                          discarded = (if fault e ''discard temporary upload'' 0 then saved else fs) in
                      (case copied of
                         Some err \<Rightarrow> (Inl (Wrapf ''write temporary upload'' err), discarded)
                       | None \<Rightarrow>
                           if int (length data) > maxBytes then (Inl ErrFileTooLarge, discarded)
                           else if fault e ''sync temporary upload'' 0
                             then (Inl (Wrapf ''sync temporary upload'' (ErrNew ''sync'')), discarded)
                           else if fault e ''close temporary upload'' 0
                             then (Inl (Wrapf ''close temporary upload'' (ErrNew ''close'')), discarded)
                           else (Inr \<lparr>fl_key = key, fl_local_path = path,
                                   fl_size = int (length data), fl_mod_time = now e\<rparr>, saved)))))"

definition Promote :: "env \<Rightarrow> string \<Rightarrow> string \<Rightarrow> string \<Rightarrow> file_tree \<Rightarrow> (error + unit) \<times> file_tree" where
  "Promote e root temporaryKey finalKey fs =
     (case file_resolve root temporaryKey of
        Inl err \<Rightarrow> (Inl err, fs)
      | Inr temporaryPath \<Rightarrow>
          (case file_resolve root finalKey of
             Inl err \<Rightarrow> (Inl err, fs)
           | Inr finalPath \<Rightarrow>
               if fault e ''create final upload directory'' 0
                 then (Inl (Wrapf ''create final upload directory'' (ErrNew ''mkdir'')), fs)
               else
                 (case map_of fs temporaryPath of
                    None \<Rightarrow> (Inl (Wrapf ''promote uploaded file'' (ErrNew ''no such file'')), fs)
                  | Some f \<Rightarrow>
                      if fault e ''promote uploaded file'' 0
                        then (Inl (Wrapf ''promote uploaded file'' (ErrNew ''rename'')), fs)
                      else (Inr (), fs_write finalPath f (fs_remove temporaryPath fs)))))"

definition file_Delete :: "env \<Rightarrow> nat \<Rightarrow> string \<Rightarrow> string \<Rightarrow> file_tree \<Rightarrow> (error + unit) \<times> file_tree" where
  "file_Delete e k root key fs =
     (case file_resolve root key of
        Inl err \<Rightarrow> (Inl err, fs)
      | Inr path \<Rightarrow>
          if fault e ''delete uploaded file'' k
            then (Inl (Wrapf ''delete uploaded file'' (ErrNew ''remove'')), fs)
          else (Inr (), fs_remove path fs))"

text \<open>
  \<open>List\<close> walks the tree below the prefix in lexical order. The walk is atomic in the
  model: it fails as a whole or sees one state of the tree.
\<close>

definition below :: "string \<Rightarrow> string \<Rightarrow> bool" where
  "below start path \<longleftrightarrow>
     take (length (clean_elements start)) (clean_elements path) = clean_elements start"

definition file_List :: "env \<Rightarrow> nat \<Rightarrow> string \<Rightarrow> string \<Rightarrow> file_tree \<Rightarrow> error + upload_file list" where
  "file_List e k root prefix fs =
     (case file_resolve root prefix of
        Inl err \<Rightarrow> Inl err
      | Inr start \<Rightarrow>
          if fault e ''list uploaded files'' k
            then Inl (Wrapf ''list uploaded files'' (ErrNew ''walk''))
          else
            Inr (map (\<lambda>pf. \<lparr>fl_key = Rel root (fst pf), fl_local_path = fst pf,
                            fl_size = int (length (sf_data (snd pf))),
                            fl_mod_time = sf_mod_time (snd pf)\<rparr>)
                  (sort_key (\<lambda>pf. clean_elements (fst pf)) (filter (\<lambda>pf. below start (fst pf)) fs))))"

section \<open>Clean-up\<close>

record cleanup_stats =
  cs_scanned :: int
  cs_deleted :: int
  cs_skipped :: int
  cs_failed :: int

text \<open>
  The interface \<open>FileStore\<close> that \<open>Cleanup\<close> uses is two functions on a state \<open>'s\<close>: what
  \<open>List\<close> returns for a prefix, and \<open>Delete\<close>, numbered by the deletions tried before.
\<close>

fun cleanup_files ::
  "(nat \<Rightarrow> string \<Rightarrow> 's \<Rightarrow> (error + unit) \<times> 's) \<Rightarrow> string set \<Rightarrow> int \<Rightarrow> int \<Rightarrow> bool \<Rightarrow> nat \<Rightarrow> upload_file list
     \<Rightarrow> cleanup_stats \<times> error list \<times> 's \<Rightarrow> cleanup_stats \<times> error list \<times> 's" where
  "cleanup_files del referenced at grace temp k [] acc = acc"
| "cleanup_files del referenced at grace temp k (f # fl) (stats, errs, s) =
     (let stats = stats\<lparr>cs_scanned := cs_scanned stats + 1\<rparr> in
      if at - fl_mod_time f < grace \<or> \<not> temp \<and> fl_key f \<in> referenced
        then cleanup_files del referenced at grace temp k fl
               (stats\<lparr>cs_skipped := cs_skipped stats + 1\<rparr>, errs, s)
      else
        (case del k (fl_key f) s of
           (Inl err, s') \<Rightarrow>
             cleanup_files del referenced at grace temp (Suc k) fl
               (stats\<lparr>cs_failed := cs_failed stats + 1\<rparr>,
                errs @ [Wrapf (''delete '' @ fl_key f) err], s')
         | (Inr _, s') \<Rightarrow>
             cleanup_files del referenced at grace temp (Suc k) fl
               (stats\<lparr>cs_deleted := cs_deleted stats + 1\<rparr>, errs, s')))"

definition cleanup_target ::
  "(string \<Rightarrow> 's \<Rightarrow> error + upload_file list) \<Rightarrow> (nat \<Rightarrow> string \<Rightarrow> 's \<Rightarrow> (error + unit) \<times> 's) \<Rightarrow> string set
     \<Rightarrow> int \<Rightarrow> int \<Rightarrow> bool \<Rightarrow> string \<Rightarrow> cleanup_stats \<times> error list \<times> 's \<Rightarrow> cleanup_stats \<times> error list \<times> 's" where
  "cleanup_target lst del referenced at grace temp prefix acc =
     (case acc of (stats, errs, s) \<Rightarrow>
        (case lst prefix s of
           Inl err \<Rightarrow>
             (stats\<lparr>cs_failed := cs_failed stats + 1\<rparr>,
              errs @ [Wrapf (''list '' @ prefix @ '' files'') err], s)
         | Inr fl \<Rightarrow>
             cleanup_files del referenced at grace temp (nat (cs_deleted stats + cs_failed stats)) fl acc))"

definition Cleanup ::
  "(string \<Rightarrow> 's \<Rightarrow> error + upload_file list) \<Rightarrow> (nat \<Rightarrow> string \<Rightarrow> 's \<Rightarrow> (error + unit) \<times> 's) \<Rightarrow> string set
     \<Rightarrow> int \<Rightarrow> int \<Rightarrow> int \<Rightarrow> 's \<Rightarrow> cleanup_stats \<times> error list \<times> 's" where
  "Cleanup lst del referenced at tempGrace orphanGrace s =
     cleanup_target lst del referenced at orphanGrace False ''documents''
       (cleanup_target lst del referenced at tempGrace True ''.tmp''
         (\<lparr>cs_scanned = 0, cs_deleted = 0, cs_skipped = 0, cs_failed = 0\<rparr>, [], s))"

section \<open>Keys stay below the root\<close>

text \<open>The cleaned path of a relative key.\<close>

lemma Clean_relative:
  assumes "p \<noteq> []" "\<not> rooted p"
  shows "Clean p = (if clean_elements p = [] then ''.'' else join_path (clean_elements p))"
  using assms by (simp add: Clean_def)

lemma clean_prefix_cases:
  obtains "p = []" | a where "p = [a]" | a b where "p = [a, b]" | a b c r where "p = a # b # c # r"
  by (metis list.exhaust)

lemma split_at_slash:
  "slash \<notin> set x \<Longrightarrow> slash \<notin> set y \<Longrightarrow> x @ slash # r = y @ slash # r' \<longleftrightarrow> x = y \<and> r = r'"
proof (induction x arbitrary: y)
  case Nil
  then show ?case by (cases y) auto
next
  case (Cons c x)
  then show ?case by (cases y) auto
qed

lemma escapes_join_path:
  assumes "list_all (\<lambda>x. slash \<notin> set x) (x # xs)"
  shows "escapes (join_path (x # xs)) \<longleftrightarrow> x = ''..''"
proof -
  have ns: "slash \<notin> set x" using assms by simp
  have t: "take 3 p = ''../'' \<longleftrightarrow> (\<exists>r. p = ''..'' @ slash # r)" for p
    by (cases p rule: clean_prefix_cases) auto
  show ?thesis
  proof (cases xs)
    case Nil
    then show ?thesis using ns by (auto simp: escapes_def t)
  next
    case (Cons y ys)
    have "x @ slash # r = ''..'' @ slash # r' \<longleftrightarrow> x = ''..'' \<and> r = r'" for r r'
      using ns split_at_slash [of x "''..''" r r'] by auto
    moreover have "x @ slash # r \<noteq> ''..''" for r
      by (cases x rule: clean_prefix_cases) auto
    ultimately show ?thesis using Cons by (auto simp: escapes_def t simp del: take_append)
  qed
qed

lemma clean_elements_no_slash: "list_all (\<lambda>x. slash \<notin> set x) (clean_elements p)"
proof (cases "rooted p")
  case True
  then show ?thesis using clean_elements_rooted normal_elements_no_slash by blast
next
  case False
  then obtain n ns where "clean_elements p = replicate n ''..'' @ ns" and ns: "list_all normal_element ns"
    using clean_elements_relative by blast
  moreover have "list_all (\<lambda>x. slash \<notin> set x) (replicate n ''..'')" by (simp add: list_all_iff)
  ultimately show ?thesis using normal_elements_no_slash [OF ns] by simp
qed

lemma clean_elements_normal:
  assumes "\<not> rooted p" "\<nexists>ks. clean_elements p = ''..'' # ks"
  shows "list_all normal_element (clean_elements p)"
proof -
  obtain n ns where "clean_elements p = replicate n ''..'' @ ns" "list_all normal_element ns"
    using clean_elements_relative [OF assms(1)] by blast
  then show ?thesis using assms(2) by (cases n) auto
qed

lemma Rel_below:
  assumes "clean_elements p = clean_elements root @ ks" "list_all normal_element ks"
  shows "Rel root p = (if ks = [] then ''.'' else join_path ks)" "\<not> escapes (Rel root p)"
proof -
  show 1: "Rel root p = (if ks = [] then ''.'' else join_path ks)"
    using assms(1) by (simp add: Rel_def)
  have "\<not> escapes ''.''" by (simp add: escapes_def)
  moreover have "\<not> escapes (join_path (x # xs))" if "ks = x # xs" for x xs
    using that assms(2) escapes_join_path [OF normal_elements_no_slash, of x xs]
    by (auto simp: normal_element_def)
  ultimately show "\<not> escapes (Rel root p)" unfolding 1 by (cases ks) auto
qed

lemma Join_root:
  assumes "rooted root" "list_all normal_element ks"
  shows "Join [root, if ks = [] then ''.'' else join_path ks] = slash # join_path (clean_elements root @ ks)"
    and "clean_elements (Join [root, if ks = [] then ''.'' else join_path ks]) = clean_elements root @ ks"
proof -
  let ?k = "if ks = [] then ''.'' else join_path ks" and ?es = "clean_elements root @ ks"
  have k: "?k \<noteq> []" using assms(2) by (cases ks rule: join_path.cases) (auto simp: normal_element_def)
  have "clean_elements (root @ slash # ?k) = ?es"
    using clean_elements_dot [OF assms(1)] clean_elements_below [OF assms] by simp
  moreover have "Join [root, ?k] = Clean (root @ slash # ?k)"
    using k assms(1) by (auto simp: Join_def Let_def)
  ultimately show j: "Join [root, ?k] = slash # join_path ?es"
    using assms(1) by (auto simp: Clean_def rooted_append)
  have es: "list_all normal_element ?es" using assms clean_elements_rooted by simp
  have "clean_elements (slash # join_path ?es) = ?es"
  proof (cases "?es = []")
    case True
    then show ?thesis by (simp add: clean_elements_def clean_step.simps)
  next
    case False
    then have "elements (slash # join_path ?es) = [] # ?es"
      using elements_join_path [OF False normal_elements_no_slash [OF es]] by simp
    then show ?thesis
      using fold_clean_normal [OF es, of True "[]"] by (simp add: clean_elements_def clean_step.simps)
  qed
  then show "clean_elements (Join [root, ?k]) = ?es" by (simp add: j)
qed

lemma file_resolve_eq:
  assumes "rooted root"
  shows "file_resolve root key =
    (if key = [] then Inl (ErrNew ''empty storage key'')
     else if rooted key \<or> (\<exists>ks. clean_elements key = ''..'' # ks)
       then Inl (ErrNew ''invalid storage key'')
     else Inr (slash # join_path (clean_elements root @ clean_elements key)))"
proof (cases "key = [] \<or> rooted key")
  case True
  then show ?thesis by (auto simp: file_resolve_def Clean_def)
next
  case False
  then have cl: "Clean key = (if clean_elements key = [] then ''.'' else join_path (clean_elements key))"
    by (intro Clean_relative) auto
  show ?thesis
  proof (cases "\<exists>ks. clean_elements key = ''..'' # ks")
    case True
    then obtain ks where ks: "clean_elements key = ''..'' # ks" by blast
    have "list_all (\<lambda>x. slash \<notin> set x) (''..'' # ks)" using clean_elements_no_slash [of key] ks by simp
    then have "escapes (Clean key)" using ks cl escapes_join_path by simp
    with False True show ?thesis by (simp add: file_resolve_def Let_def)
  next
    case up: False
    let ?ks = "clean_elements key"
    have n: "list_all normal_element ?ks" using False up clean_elements_normal by blast
    have nr: "\<not> rooted (Clean key) \<and> \<not> escapes (Clean key)"
    proof (cases ?ks)
      case Nil
      then show ?thesis using cl by (simp add: escapes_def)
    next
      case (Cons x xs)
      then show ?thesis
        using cl n escapes_join_path [OF normal_elements_no_slash, of x xs] rooted_join_path [of "x # xs"]
        by (auto simp: normal_element_def)
    qed
    note j = Join_root [OF assms n, folded cl]
    have "\<not> escapes (Rel root (Join [root, Clean key]))" by (rule Rel_below(2) [OF j(2) n])
    then show ?thesis using False up nr j(1) by (simp add: file_resolve_def Let_def)
  qed
qed

text \<open>
  No storage key reaches outside the upload directory. A key that is accepted names a
  path whose elements are those of the root followed by ordinary names, never \<open>..\<close>; a key is
  refused only if it is empty, absolute, or climbs above where it started.
\<close>

theorem file_resolve_confined:
  assumes "rooted root"
  shows "case file_resolve root key of
      Inr path \<Rightarrow> (\<exists>ks. list_all normal_element ks \<and> clean_elements path = clean_elements root @ ks
        \<and> path = slash # join_path (clean_elements root @ ks))
    | Inl err \<Rightarrow> key = [] \<or> rooted key \<or> (\<exists>ks. clean_elements key = ''..'' # ks)"
proof (cases "key = [] \<or> rooted key \<or> (\<exists>ks. clean_elements key = ''..'' # ks)")
  case True
  then show ?thesis using file_resolve_eq [OF assms, of key] by auto
next
  case False
  then have n: "list_all normal_element (clean_elements key)" using clean_elements_normal by blast
  show ?thesis using False n file_resolve_eq [OF assms, of key] Join_root [OF assms n] by auto
qed

theorem file_resolve_confined_witness:
  "file_resolve ''/up'' ''a/../../etc'' = Inl (ErrNew ''invalid storage key'')
   \<and> (\<exists>ks. list_all normal_element ks
        \<and> clean_elements ''/up/a/b.pdf'' = clean_elements ''/up'' @ ks)"
proof -
  have k: "clean_elements ''a/./x/../b.pdf'' = [''a'', ''b.pdf'']" "clean_elements ''/up'' = [''up'']"
    "clean_elements ''a/../../etc'' = [''..'', ''etc'']"
    by (simp_all add: clean_elements_def clean_step.simps)
  then have "file_resolve ''/up'' ''a/./x/../b.pdf'' = Inr ''/up/a/b.pdf''"
    by (simp add: file_resolve_eq)
  then have "\<exists>ks. list_all normal_element ks \<and> clean_elements ''/up/a/b.pdf'' = clean_elements ''/up'' @ ks"
    using file_resolve_confined [of "''/up''" "''a/./x/../b.pdf''"] by auto
  moreover have "file_resolve ''/up'' ''a/../../etc'' = Inl (ErrNew ''invalid storage key'')"
    using k by (simp add: file_resolve_eq)
  ultimately show ?thesis by blast
qed

section \<open>The tree as a map from keys to files\<close>

text \<open>The keys the program makes: ordinary names between single slashes.\<close>

definition canonical_key :: "string \<Rightarrow> bool" where
  "canonical_key k \<longleftrightarrow> list_all normal_element (elements k)"

definition key_path :: "string \<Rightarrow> string \<Rightarrow> string" where
  "key_path root k = slash # join_path (clean_elements root @ elements k)"

definition tree_ok :: "string \<Rightarrow> file_tree \<Rightarrow> bool" where
  "tree_ok root fs \<longleftrightarrow>
     rooted root \<and> distinct (map fst fs)
     \<and> list_all (\<lambda>pf. canonical_key (Rel root (fst pf)) \<and> fst pf = key_path root (Rel root (fst pf))) fs"

definition tree_files :: "string \<Rightarrow> file_tree \<Rightarrow> string \<rightharpoonup> stored_file" where
  "tree_files root fs k = (if canonical_key k then map_of fs (key_path root k) else None)"

definition under_prefix :: "string \<Rightarrow> string \<Rightarrow> bool" where
  "under_prefix prefix k \<longleftrightarrow> take (length (clean_elements prefix)) (elements k) = clean_elements prefix"

lemma join_path_elements [simp]: "join_path (elements k) = k"
proof (induction k)
  case (Cons c k)
  obtain x xs where e: "elements k = x # xs" by (cases "elements k") auto
  show ?case
  proof (cases xs)
    case Nil
    then show ?thesis using Cons e by auto
  next
    case (Cons y ys)
    then show ?thesis using Cons.IH e by auto
  qed
qed simp

lemma canonical_key_not_Nil [simp]: "canonical_key k \<Longrightarrow> k \<noteq> []"
  by (auto simp: canonical_key_def normal_element_def)

lemma canonical_clean_elements: "canonical_key k \<Longrightarrow> clean_elements k = elements k"
  unfolding canonical_key_def
  using clean_elements_join_normal [of "elements k"] by simp

lemma canonical_not_rooted: "canonical_key k \<Longrightarrow> \<not> rooted k"
  by (cases k; cases "elements (tl k)") (auto simp: canonical_key_def normal_element_def)

lemma key_path_props:
  assumes "rooted root" "canonical_key k"
  shows "clean_elements (key_path root k) = clean_elements root @ elements k"
    and "Rel root (key_path root k) = k" and "file_resolve root k = Inr (key_path root k)"
proof -
  have n: "list_all normal_element (elements k)" using assms(2) by (simp add: canonical_key_def)
  show 1: "clean_elements (key_path root k) = clean_elements root @ elements k"
    using Join_root [OF assms(1) n] by (simp add: key_path_def)
  show "Rel root (key_path root k) = k" using Rel_below(1) [OF 1 n] by simp
  have "\<nexists>ks. elements k = ''..'' # ks" using n by (auto simp: normal_element_def)
  then show "file_resolve root k = Inr (key_path root k)"
    using assms canonical_not_rooted [OF assms(2)] canonical_clean_elements [OF assms(2)]
    by (simp add: file_resolve_eq key_path_def)
qed

lemma key_path_eq [simp]:
  "rooted root \<Longrightarrow> canonical_key k \<Longrightarrow> canonical_key k' \<Longrightarrow> key_path root k = key_path root k' \<longleftrightarrow> k = k'"
  using key_path_props(2) by metis

lemma map_of_fs_remove: "map_of (fs_remove p fs) = (map_of fs)(p := None)"
  by (induction fs) (auto simp: fs_remove_def fun_eq_iff)

lemma tree_ok_remove: "tree_ok root fs \<Longrightarrow> tree_ok root (fs_remove p fs)"
  by (auto simp: tree_ok_def fs_remove_def list_all_iff distinct_map_filter)

lemma tree_files_remove:
  "rooted root \<Longrightarrow> canonical_key k \<Longrightarrow>
   tree_files root (fs_remove (key_path root k) fs) = (tree_files root fs)(k := None)"
  by (auto simp: tree_files_def map_of_fs_remove fun_eq_iff)

lemma tree_ok_write:
  "tree_ok root fs \<Longrightarrow> canonical_key k \<Longrightarrow> tree_ok root (fs_write (key_path root k) f fs)"
  using tree_ok_remove [of root fs "key_path root k"] key_path_props(2) [of root k]
  by (auto simp: tree_ok_def fs_write_def fs_remove_def)

lemma tree_files_write:
  "rooted root \<Longrightarrow> canonical_key k \<Longrightarrow>
   tree_files root (fs_write (key_path root k) f fs) = (tree_files root fs)(k \<mapsto> f)"
  by (auto simp: tree_files_def fs_write_def map_of_fs_remove map_add_def fun_eq_iff
      split: option.splits)

lemma tree_entry:
  assumes "tree_ok root fs" "pf \<in> set fs"
  shows "canonical_key (Rel root (fst pf))" "fst pf = key_path root (Rel root (fst pf))"
    "tree_files root fs (Rel root (fst pf)) = Some (snd pf)"
proof -
  show 1: "canonical_key (Rel root (fst pf))" and 2: "fst pf = key_path root (Rel root (fst pf))"
    using assms by (auto simp: tree_ok_def list_all_iff)
  have "map_of fs (fst pf) = Some (snd pf)" using assms by (auto simp: tree_ok_def)
  then show "tree_files root fs (Rel root (fst pf)) = Some (snd pf)"
    using 1 2 [symmetric] by (simp add: tree_files_def)
qed

lemma tree_lookup:
  "tree_files root fs k = Some g \<Longrightarrow> canonical_key k \<and> (key_path root k, g) \<in> set fs"
  by (auto simp: tree_files_def dest: map_of_SomeD split: if_splits)

section \<open>The contract of a file store\<close>

text \<open>
  What \<open>Cleanup\<close> relies on: a listing names exactly the files under the prefix, each once,
  with their modification times; a deletion that answers no error removes that one file; one
  that answers an error removes nothing.
\<close>

definition expired :: "string set \<Rightarrow> int \<Rightarrow> int \<Rightarrow> int \<Rightarrow> string \<Rightarrow> stored_file \<Rightarrow> bool" where
  "expired referenced at tempGrace orphanGrace k g \<longleftrightarrow>
     under_prefix ''.tmp'' k \<and> tempGrace \<le> at - sf_mod_time g
     \<or> under_prefix ''documents'' k \<and> orphanGrace \<le> at - sf_mod_time g \<and> k \<notin> referenced"

locale file_storage =
  fixes lst :: "string \<Rightarrow> 's \<Rightarrow> error + upload_file list"
    and del :: "nat \<Rightarrow> string \<Rightarrow> 's \<Rightarrow> (error + unit) \<times> 's"
    and files :: "'s \<Rightarrow> string \<Rightarrow> stored_file option"
    and inv :: "'s \<Rightarrow> bool"
  assumes listed: "inv s \<Longrightarrow> lst p s = Inr fl \<Longrightarrow>
      distinct (map fl_key fl)
      \<and> (\<forall>f\<in>set fl. under_prefix p (fl_key f) \<and> map_option sf_mod_time (files s (fl_key f)) = Some (fl_mod_time f))
      \<and> (\<forall>k. files s k \<noteq> None \<longrightarrow> under_prefix p k \<longrightarrow> k \<in> fl_key ` set fl)"
    and removed: "inv s \<Longrightarrow> files s k \<noteq> None \<Longrightarrow> del n k s = (Inr x, s') \<Longrightarrow>
      inv s' \<and> files s' = (files s)(k := None)"
    and kept: "inv s \<Longrightarrow> del n k s = (Inl err, s') \<Longrightarrow> s' = s"
begin

definition due :: "string set \<Rightarrow> int \<Rightarrow> int \<Rightarrow> bool \<Rightarrow> string \<Rightarrow> stored_file \<Rightarrow> bool" where
  "due referenced at grace temp k g \<longleftrightarrow>
     grace \<le> at - sf_mod_time g \<and> (temp \<or> k \<notin> referenced)"

lemma cleanup_files_spec:
  assumes "inv s" "distinct (map fl_key fl)"
    and "\<forall>f\<in>set fl. map_option sf_mod_time (files s (fl_key f)) = Some (fl_mod_time f)"
    and "cleanup_files del referenced at grace temp n fl (st, errs, s) = (st', errs', s')"
  shows "inv s' \<and> (\<exists>es. errs' = errs @ es \<and> cs_failed st' = cs_failed st + int (length es)
    \<and> (\<forall>k. files s' k = files s k
        \<or> k \<in> fl_key ` set fl \<and> files s' k = None
          \<and> (\<exists>g. files s k = Some g \<and> due referenced at grace temp k g))
    \<and> (es = [] \<longrightarrow> (\<forall>k\<in>fl_key ` set fl. \<forall>g. files s k = Some g \<longrightarrow>
          due referenced at grace temp k g \<longrightarrow> files s' k = None)))"
  using assms
proof (induction fl arbitrary: n st errs s)
  case (Cons f fl)
  let ?st = "st\<lparr>cs_scanned := cs_scanned st + 1\<rparr>" and ?k = "fl_key f"
  obtain g where g: "files s ?k = Some g" "sf_mod_time g = fl_mod_time f" using Cons.prems(3) by auto
  have due: "due referenced at grace temp ?k g \<longleftrightarrow> \<not> (at - fl_mod_time f < grace \<or> \<not> temp \<and> ?k \<in> referenced)"
    using g(2) by (auto simp: due_def)
  have d: "distinct (map fl_key fl)" "?k \<notin> fl_key ` set fl" using Cons.prems(2) by auto
  show ?case
  proof (cases "due referenced at grace temp ?k g")
    case False
    then have run: "cleanup_files del referenced at grace temp n fl
        (?st\<lparr>cs_skipped := cs_skipped ?st + 1\<rparr>, errs, s) = (st', errs', s')"
      using due Cons.prems(4) by (simp add: Let_def)
    from Cons.IH [OF Cons.prems(1) d(1) _ run] Cons.prems(3) show ?thesis
      using False g(1) by fastforce
  next
    case True
    show ?thesis
    proof (cases "del n ?k s")
      case (Pair r s1)
      show ?thesis
      proof (cases r)
        case (Inl err)
        have s1: "s1 = s" using kept [OF Cons.prems(1)] Pair Inl by blast
        have run: "cleanup_files del referenced at grace temp (Suc n) fl
            (?st\<lparr>cs_failed := cs_failed ?st + 1\<rparr>, errs @ [Wrapf (''delete '' @ ?k) err], s) = (st', errs', s')"
          using Cons.prems(4) Pair Inl s1 True
          by (simp only: cleanup_files.simps Let_def due if_False prod.case sum.case not_not)
        from Cons.IH [OF Cons.prems(1) d(1) _ run] Cons.prems(3)
        obtain es where "inv s'" "errs' = errs @ Wrapf (''delete '' @ ?k) err # es"
          "cs_failed st' = cs_failed st + 1 + int (length es)"
          "\<forall>k. files s' k = files s k \<or> k \<in> fl_key ` set fl \<and> files s' k = None
            \<and> (\<exists>g. files s k = Some g \<and> due referenced at grace temp k g)"
          by auto
        then show ?thesis by (intro conjI exI [of _ "Wrapf (''delete '' @ ?k) err # es"]) auto
      next
        case (Inr x)
        have s1: "inv s1" "files s1 = (files s)(?k := None)"
          using removed [OF Cons.prems(1) _, of ?k n x s1] Pair Inr g(1) by auto
        have run: "cleanup_files del referenced at grace temp (Suc n) fl
            (?st\<lparr>cs_deleted := cs_deleted ?st + 1\<rparr>, errs, s1) = (st', errs', s')"
          using Cons.prems(4) Pair Inr True
          by (simp only: cleanup_files.simps Let_def due if_False prod.case sum.case not_not)
        have "\<forall>f\<in>set fl. map_option sf_mod_time (files s1 (fl_key f)) = Some (fl_mod_time f)"
          using Cons.prems(3) d(2) s1(2) by (auto simp: image_iff)
        from Cons.IH [OF s1(1) d(1) this run]
        obtain es where es: "inv s'" "errs' = errs @ es" "cs_failed st' = cs_failed st + int (length es)"
          and frame: "\<And>k. files s' k = files s1 k \<or> k \<in> fl_key ` set fl \<and> files s' k = None
            \<and> (\<exists>g. files s1 k = Some g \<and> due referenced at grace temp k g)"
          and all: "es = [] \<Longrightarrow> \<forall>k\<in>fl_key ` set fl. \<forall>g. files s1 k = Some g \<longrightarrow>
            due referenced at grace temp k g \<longrightarrow> files s' k = None"
          by auto
        have gone: "files s' ?k = None" using frame [of ?k] s1(2) by auto
        have "files s' k = files s k \<or> k \<in> fl_key ` set (f # fl) \<and> files s' k = None
            \<and> (\<exists>g. files s k = Some g \<and> due referenced at grace temp k g)" for k
          using frame [of k] gone g(1) True s1(2) by (cases "k = ?k") auto
        note frame' = this
        have all': "files s' k = None" if "es = []" "k \<in> fl_key ` set (f # fl)"
          "files s k = Some g" "due referenced at grace temp k g" for k g
        proof (cases "k = ?k")
          case False
          then have "k \<in> fl_key ` set fl" "files s1 k = Some g" using that s1(2) by auto
          then show ?thesis by (rule all [OF that(1), rule_format, OF _ _ that(4)])
        qed (simp add: gone)
        show ?thesis
          using es by (intro conjI exI [of _ es] allI impI ballI frame') (assumption | rule all')+
      qed
    qed
  qed
qed auto

lemma cleanup_target_spec:
  assumes "inv s"
    and "cleanup_target lst del referenced at grace temp p (st, errs, s) = (st', errs', s')"
  shows "inv s' \<and> (\<exists>es. errs' = errs @ es \<and> cs_failed st' = cs_failed st + int (length es)
    \<and> (\<forall>k. files s' k = files s k
        \<or> under_prefix p k \<and> files s' k = None \<and> (\<exists>g. files s k = Some g \<and> due referenced at grace temp k g))
    \<and> (es = [] \<longrightarrow> (\<forall>k g. under_prefix p k \<longrightarrow> files s k = Some g \<longrightarrow>
          due referenced at grace temp k g \<longrightarrow> files s' k = None)))"
proof (cases "lst p s")
  case (Inl err)
  then show ?thesis using assms by (auto simp: cleanup_target_def)
next
  case (Inr fl)
  note l = listed [OF assms(1) Inr]
  have run: "cleanup_files del referenced at grace temp (nat (cs_deleted st + cs_failed st)) fl (st, errs, s)
      = (st', errs', s')"
    using assms(2) Inr by (simp add: cleanup_target_def)
  have d: "distinct (map fl_key fl)"
    and m: "\<forall>f\<in>set fl. map_option sf_mod_time (files s (fl_key f)) = Some (fl_mod_time f)"
    using l by auto
  from cleanup_files_spec [OF assms(1) d m run] obtain es where es: "inv s'" "errs' = errs @ es"
    "cs_failed st' = cs_failed st + int (length es)"
    and frame: "\<forall>k. files s' k = files s k \<or> k \<in> fl_key ` set fl \<and> files s' k = None
          \<and> (\<exists>g. files s k = Some g \<and> due referenced at grace temp k g)"
    and all: "es = [] \<longrightarrow> (\<forall>k\<in>fl_key ` set fl. \<forall>g. files s k = Some g \<longrightarrow>
          due referenced at grace temp k g \<longrightarrow> files s' k = None)"
    by (elim conjE exE)
  have "k \<in> fl_key ` set fl \<longleftrightarrow> under_prefix p k" if "files s k = Some g" for k g
    using l that by auto
  note keys = this
  show ?thesis
  proof (intro conjI exI [of _ es] allI impI)
    fix k
    show "files s' k = files s k \<or> under_prefix p k \<and> files s' k = None
        \<and> (\<exists>g. files s k = Some g \<and> due referenced at grace temp k g)"
      using spec [OF frame, of k] keys [of k] by blast
  next
    fix k g
    assume "es = []" "under_prefix p k" "files s k = Some g" "due referenced at grace temp k g"
    then show "files s' k = None" using keys [of k g] by (intro all [rule_format]) auto
  qed (fact es)+
qed

lemma Cleanup_spec:
  assumes "inv s" "Cleanup lst del referenced at tempGrace orphanGrace s = (st, errs, s')"
  shows "inv s'" "cs_failed st = int (length errs)"
    and "files s' k = files s k
      \<or> files s' k = None \<and> (\<exists>g. files s k = Some g \<and> expired referenced at tempGrace orphanGrace k g)"
    and "errs = [] \<Longrightarrow> files s k = Some g \<Longrightarrow> expired referenced at tempGrace orphanGrace k g \<Longrightarrow>
      files s' k = None"
proof -
  let ?st0 = "\<lparr>cs_scanned = 0, cs_deleted = 0, cs_skipped = 0, cs_failed = 0\<rparr>"
  obtain st1 errs1 s1 where run1: "cleanup_target lst del referenced at tempGrace True ''.tmp'' (?st0, [], s)
      = (st1, errs1, s1)"
    by (metis prod_cases3)
  have run2: "cleanup_target lst del referenced at orphanGrace False ''documents'' (st1, errs1, s1)
      = (st, errs, s')"
    using assms(2) run1 by (simp add: Cleanup_def)
  from cleanup_target_spec [OF assms(1) run1] have inv1: "inv s1"
    and f1: "cs_failed st1 = int (length errs1)"
    and frame1: "files s1 k = files s k \<or> under_prefix ''.tmp'' k \<and> files s1 k = None
        \<and> (\<exists>g. files s k = Some g \<and> due referenced at tempGrace True k g)"
    and all1: "errs1 = [] \<Longrightarrow> under_prefix ''.tmp'' k \<Longrightarrow> files s k = Some g \<Longrightarrow>
        due referenced at tempGrace True k g \<Longrightarrow> files s1 k = None"
    by auto
  from cleanup_target_spec [OF inv1 run2] obtain es where inv': "inv s'" and es: "errs = errs1 @ es"
    and f2: "cs_failed st = cs_failed st1 + int (length es)"
    and frame2: "files s' k = files s1 k \<or> under_prefix ''documents'' k \<and> files s' k = None
        \<and> (\<exists>g. files s1 k = Some g \<and> due referenced at orphanGrace False k g)"
    and all2: "es = [] \<Longrightarrow> under_prefix ''documents'' k \<Longrightarrow> files s1 k = Some g \<Longrightarrow>
        due referenced at orphanGrace False k g \<Longrightarrow> files s' k = None"
    by auto
  show "inv s'" by (rule inv')
  show "cs_failed st = int (length errs)" using f1 f2 es by simp
  show "files s' k = files s k
      \<or> files s' k = None \<and> (\<exists>g. files s k = Some g \<and> expired referenced at tempGrace orphanGrace k g)"
    using frame1 frame2 by (cases "files s k") (auto simp: due_def expired_def)
  show "files s' k = None" if "errs = []" "files s k = Some g"
    "expired referenced at tempGrace orphanGrace k g"
  proof (cases "files s1 k")
    case None
    then show ?thesis using frame2 by auto
  next
    case (Some g1)
    then have g1: "files s1 k = Some g" using frame1 that(2) by auto
    then have "\<not> (under_prefix ''.tmp'' k \<and> due referenced at tempGrace True k g)"
      using all1 that es by auto
    then have "under_prefix ''documents'' k" "due referenced at orphanGrace False k g"
      using that(3) by (auto simp: due_def expired_def)
    then show ?thesis using all2 g1 that(1) es by simp
  qed
qed

end

section \<open>The local store meets the contract\<close>

definition local_list :: "env \<Rightarrow> string \<Rightarrow> string \<Rightarrow> file_tree \<Rightarrow> error + upload_file list" where
  "local_list e root prefix fs = file_List e (if prefix = ''.tmp'' then 0 else 1) root prefix fs"

definition local_del :: "env \<Rightarrow> string \<Rightarrow> nat \<Rightarrow> string \<Rightarrow> file_tree \<Rightarrow> (error + unit) \<times> file_tree" where
  "local_del e root n key fs = file_Delete e n root key fs"

lemma below_under:
  assumes "rooted root" "file_resolve root p = Inr start" "canonical_key k"
  shows "below start (key_path root k) \<longleftrightarrow> under_prefix p k"
proof -
  have "p \<noteq> []" "\<not> rooted p" "\<nexists>ks. clean_elements p = ''..'' # ks"
    using assms(1,2) by (auto simp: file_resolve_eq split: if_splits)
  then have n: "list_all normal_element (clean_elements p)" by (intro clean_elements_normal) auto
  have "clean_elements start = clean_elements root @ clean_elements p"
    using assms(2) Join_root [OF assms(1) n] by (auto simp: file_resolve_eq [OF assms(1)] split: if_splits)
  then show ?thesis using key_path_props(1) [OF assms(1,3)] by (simp add: below_def under_prefix_def)
qed

lemma local_list_spec:
  assumes ok: "tree_ok root fs" and l: "local_list e root p fs = Inr fl"
  shows "distinct (map fl_key fl)
      \<and> (\<forall>f\<in>set fl. under_prefix p (fl_key f)
          \<and> map_option sf_mod_time (tree_files root fs (fl_key f)) = Some (fl_mod_time f))
      \<and> (\<forall>k. tree_files root fs k \<noteq> None \<longrightarrow> under_prefix p k \<longrightarrow> k \<in> fl_key ` set fl)"
proof -
  have rt: "rooted root" using ok by (simp add: tree_ok_def)
  obtain start where start: "file_resolve root p = Inr start"
    and fl: "fl = map (\<lambda>pf. \<lparr>fl_key = Rel root (fst pf), fl_local_path = fst pf,
                            fl_size = int (length (sf_data (snd pf))),
                            fl_mod_time = sf_mod_time (snd pf)\<rparr>)
                  (sort_key (\<lambda>pf. clean_elements (fst pf)) (filter (\<lambda>pf. below start (fst pf)) fs))"
    using l unfolding local_list_def file_List_def by (auto split: sum.splits if_splits)
  have set_fl: "fl_key ` set fl = (\<lambda>pf. Rel root (fst pf)) ` {pf \<in> set fs. below start (fst pf)}"
    by (simp add: fl image_image)
  have below: "below start (fst pf) \<longleftrightarrow> under_prefix p (Rel root (fst pf))" if "pf \<in> set fs" for pf
    using below_under [OF rt start tree_entry(1) [OF ok that]] tree_entry(2) [OF ok that, symmetric] by simp
  have "inj_on (\<lambda>pf. Rel root (fst pf)) (set fs)"
  proof (rule inj_onI)
    fix x y
    assume "x \<in> set fs" "y \<in> set fs" "Rel root (fst x) = Rel root (fst y)"
    then have "fst x = fst y" using tree_entry(2) [OF ok] by metis
    then show "x = y" using \<open>x \<in> set fs\<close> \<open>y \<in> set fs\<close> ok
      by (auto simp: tree_ok_def distinct_map inj_on_def)
  qed
  moreover have "distinct fs" using ok by (auto simp: tree_ok_def distinct_map)
  ultimately have "distinct (map fl_key fl)"
    by (simp add: fl comp_def distinct_map inj_on_def)
  moreover have "under_prefix p (fl_key f)
      \<and> map_option sf_mod_time (tree_files root fs (fl_key f)) = Some (fl_mod_time f)" if "f \<in> set fl" for f
    using that below tree_entry(3) [OF ok] by (auto simp: fl)
  moreover have "k \<in> fl_key ` set fl" if "tree_files root fs k \<noteq> None" "under_prefix p k" for k
  proof -
    from that(1) obtain g where "tree_files root fs k = Some g" by blast
    then have "canonical_key k" "(key_path root k, g) \<in> set fs" using tree_lookup by blast+
    then show ?thesis using key_path_props(2) [OF rt] below [of "(key_path root k, g)"] that(2)
      unfolding set_fl by (intro image_eqI [of _ _ "(key_path root k, g)"]) auto
  qed
  ultimately show ?thesis by blast
qed

lemma file_Delete_known:
  assumes "tree_ok root fs" "canonical_key k" "file_Delete e n root k fs = (r, fs')"
  shows "if fault e ''delete uploaded file'' n then fs' = fs \<and> (\<exists>err. r = Inl err)
    else r = Inr () \<and> tree_ok root fs' \<and> tree_files root fs' = (tree_files root fs)(k := None)"
  using assms key_path_props(3) [of root k] tree_files_remove [of root k fs] tree_ok_remove [of root fs]
  by (auto simp: file_Delete_def tree_ok_def)

interpretation lf: file_storage "local_list e root" "local_del e root" "tree_files root" "tree_ok root"
proof unfold_locales
  fix s p fl
  assume "tree_ok root s" "local_list e root p s = Inr fl"
  then show "distinct (map fl_key fl)
      \<and> (\<forall>f\<in>set fl. under_prefix p (fl_key f)
          \<and> map_option sf_mod_time (tree_files root s (fl_key f)) = Some (fl_mod_time f))
      \<and> (\<forall>k. tree_files root s k \<noteq> None \<longrightarrow> under_prefix p k \<longrightarrow> k \<in> fl_key ` set fl)"
    by (rule local_list_spec)
next
  fix s k n x s'
  assume "tree_ok root s" "tree_files root s k \<noteq> None" "local_del e root n k s = (Inr x, s')"
  then show "tree_ok root s' \<and> tree_files root s' = (tree_files root s)(k := None)"
    using file_Delete_known [of root s k e n] tree_lookup [of root s k]
    by (auto simp: local_del_def split: if_splits)
next
  fix s n k err s'
  assume "local_del e root n k s = (Inl err, s')"
  then show "s' = s" by (auto simp: local_del_def file_Delete_def split: sum.splits if_splits)
qed

text \<open>
  The clean-up of the upload directory deletes what it may and nothing else. Whatever
  calls fail, a file that is gone afterwards was either a temporary file older than its
  grace period, or a document file older than its own that no document refers to; every
  failure is counted; and if none is reported, all these files are gone.
\<close>

theorem Cleanup_exact:
  assumes "tree_ok root fs"
    and "Cleanup (local_list e root) (local_del e root) referenced at tempGrace orphanGrace fs = (st, errs, fs')"
  shows "tree_ok root fs' \<and> cs_failed st = int (length errs)
    \<and> (tree_files root fs' k = tree_files root fs k
       \<or> tree_files root fs' k = None
         \<and> (\<exists>g. tree_files root fs k = Some g \<and> expired referenced at tempGrace orphanGrace k g))
    \<and> (errs = [] \<longrightarrow> tree_files root fs' k =
         (case tree_files root fs k of
            None \<Rightarrow> None
          | Some g \<Rightarrow> if expired referenced at tempGrace orphanGrace k g then None else Some g))"
  using lf.Cleanup_spec(1,2) [OF assms] lf.Cleanup_spec(3) [OF assms, of k]
    lf.Cleanup_spec(4) [OF assms, of k]
  by (auto split: option.splits)

definition sample_tree :: file_tree where
  "sample_tree = [(''/up/.tmp/a'', \<lparr>sf_data = ''x'', sf_mod_time = 0\<rparr>),
     (''/up/documents/1/b'', \<lparr>sf_data = ''y'', sf_mod_time = 0\<rparr>)]"

lemma sample_tree_elements:
  "clean_elements ''/up/.tmp/a'' = [''up'', ''.tmp'', ''a'']"
  "clean_elements ''/up/documents/1/b'' = [''up'', ''documents'', ''1'', ''b'']"
  "clean_elements ''/up'' = [''up'']"
  by (simp_all add: clean_elements_def clean_step.simps)

lemma tree_ok_sample: "tree_ok ''/up'' sample_tree"
  by (simp add: tree_ok_def sample_tree_def Rel_def sample_tree_elements canonical_key_def
      normal_element_def key_path_def)

definition no_fault_env :: env where
  "no_fault_env = \<lparr>db_up = True, now = 100, new_id = int, fault = (\<lambda>_ _. False)\<rparr>"

theorem Cleanup_exact_witness:
  "\<exists>st errs fs'. Cleanup (local_list no_fault_env ''/up'') (local_del no_fault_env ''/up'') {''documents/1/b''} 100 10 10 sample_tree
      = (st, errs, fs')
    \<and> tree_files ''/up'' fs' ''documents/1/b'' = Some \<lparr>sf_data = ''y'', sf_mod_time = 0\<rparr>
    \<and> (errs = [] \<longrightarrow> tree_files ''/up'' fs' ''.tmp/a'' = None)"
proof -
  obtain st errs fs' where run: "Cleanup (local_list no_fault_env ''/up'') (local_del no_fault_env ''/up'') {''documents/1/b''}
      100 10 10 sample_tree = (st, errs, fs')"
    by (metis prod_cases3)
  have "tree_files ''/up'' sample_tree ''documents/1/b'' = Some \<lparr>sf_data = ''y'', sf_mod_time = 0\<rparr>"
    "tree_files ''/up'' sample_tree ''.tmp/a'' = Some \<lparr>sf_data = ''x'', sf_mod_time = 0\<rparr>"
    by (simp_all add: tree_files_def canonical_key_def normal_element_def key_path_def
        sample_tree_elements sample_tree_def)
  moreover have "under_prefix ''.tmp'' ''.tmp/a''" "\<not> under_prefix ''.tmp'' ''documents/1/b''"
    by (simp_all add: under_prefix_def clean_elements_def clean_step.simps)
  ultimately show ?thesis
    using run Cleanup_exact [OF tree_ok_sample run, of "''documents/1/b''"]
      Cleanup_exact [OF tree_ok_sample run, of "''.tmp/a''"]
    by (auto simp: expired_def)
qed

end
