(* ===== verification/DocumentService.thy ===== *)
theory DocumentService
  imports Sample FileStore
begin

text \<open>
  \<open>internal/logic/document/service.go\<close>: a document is created from text or from an uploaded
  PDF, read, listed, and soft-deleted. A PDF lives in the file store under the key its row
  refers to. The state of the operations that touch files is the pair of the database and
  the file tree; the text extractor (\<open>upload.PDFExtractor\<close>) is a parameter, a function of
  the bytes of the file.
\<close>

record create_text_request =
  ctd_title :: string
  ctd_text :: string

record create_pdf_request =
  cpd_title :: string
  cpd_file_name :: string

record document_list_request =
  dlr_page :: int
  dlr_page_size :: int

record document_summary =
  ds_id :: int
  ds_source_type :: string
  ds_title :: "string option"
  ds_file_name :: "string option"
  ds_file_url :: "string option"
  ds_page_count :: "int option"
  ds_file_size :: "int option"
  ds_status :: string
  ds_created_at :: int
  ds_updated_at :: int

record document_response =
  dr_summary :: document_summary
  dr_content :: "string option"

record document_list_response =
  dl_items :: "document_summary list"
  dl_page :: int
  dl_page_size :: int
  dl_total :: int

datatype pdf_error =
    PDFInvalid
  | PDFEncrypted
  | PDFTooManyPages
  | PDFTextTooLarge
  | PDFNoUsableText
  | PDFExtractTimeout
  | PDFExtractorBusy
  | PDFContextError string
  | PDFOther string

text \<open>What the service context provides: the root of the store, the extractor, the size limit.\<close>

record upload_service =
  us_root :: "string option"
  us_extractor :: "(string \<Rightarrow> pdf_error + string \<times> int) option"
  us_max_file_bytes :: int

definition MaxTextDocumentChars :: nat where
  "MaxTextDocumentChars = 50000"

section \<open>Responses\<close>

definition documentSummaryResponse :: "document \<Rightarrow> document_summary" where
  "documentSummaryResponse d =
     \<lparr>ds_id = doc_id d, ds_source_type = doc_source_type d, ds_title = doc_title d,
      ds_file_name = doc_file_name d, ds_file_url = doc_file_url d,
      ds_page_count = doc_page_count d, ds_file_size = doc_file_size d,
      ds_status = doc_status d, ds_created_at = doc_created_at d,
      ds_updated_at = doc_updated_at d\<rparr>"

definition documentResponse :: "document \<Rightarrow> document_response" where
  "documentResponse d =
     \<lparr>dr_summary = documentSummaryResponse d,
      dr_content = (case doc_text_input d of None \<Rightarrow> doc_raw_text d | Some t \<Rightarrow> Some t)\<rparr>"

section \<open>Names and errors\<close>

text \<open>\<open>strings.Map\<close>: dropped runes vanish, malformed bytes become U+FFFD.\<close>

definition drop_control_runes :: "string \<Rightarrow> string" where
  "drop_control_runes s =
     concat (map (\<lambda>x. if fst x < 32 \<or> fst x = 127 then []
                      else if bad_segment x then [CHR 0xEF, CHR 0xBF, CHR 0xBD] else snd x)
       (segments s))"

definition sanitizedFileName :: "string \<Rightarrow> string" where
  "sanitizedFileName value =
     (let v1 = map (\<lambda>c. if c = CHR 0x5C then slash else c) value;
          v2 = trim_space (drop_control_runes (Base v1)) in
      if rune_count v2 > 255 then take_runes 255 v2 else v2)"

text \<open>The title of an upload: the one sent, or the name of the file without its extension.\<close>

definition pdf_title :: "string \<Rightarrow> string \<Rightarrow> string" where
  "pdf_title title fileName =
     (let t = trim_space title in
      if t \<noteq> [] then t
      else
        let u = trim_space fileName in
        if map lower_char (Ext u) = ''.pdf''
          then trim_space (take (length u - length (Ext u)) u)
        else u)"

definition mapExtractionError :: "pdf_error \<Rightarrow> error" where
  "mapExtractionError err =
     (case err of
        PDFExtractorBusy \<Rightarrow> ErrExtractionBusy
      | PDFContextError m \<Rightarrow> ErrNew m
      | PDFOther m \<Rightarrow> Wrapf ''extract PDF text'' (ErrNew m)
      | _ \<Rightarrow> ErrPDFUnprocessable)"

definition validatePDFHeader :: "env \<Rightarrow> string \<Rightarrow> file_tree \<Rightarrow> error option" where
  "validatePDFHeader e path fs =
     (case map_of fs path of
        None \<Rightarrow> Some (Wrapf ''open temporary PDF'' (ErrNew ''no such file''))
      | Some f \<Rightarrow>
          if fault e ''open temporary PDF'' 0
            then Some (Wrapf ''open temporary PDF'' (ErrNew ''open''))
          else if fault e ''read temporary PDF'' 0 \<or> take 5 (sf_data f) \<noteq> ''%PDF-''
            then Some ErrUnsupportedFileType
          else None)"

section \<open>Creating\<close>

definition new_text_document :: "env \<Rightarrow> int \<Rightarrow> string \<Rightarrow> string \<Rightarrow> document" where
  "new_text_document e userID title text =
     \<lparr>doc_id = new_id e 0, doc_user_id = userID, doc_source_type = ''text'',
      doc_title = Some title, doc_file_name = None, doc_file_url = None, doc_raw_text = Some text,
      doc_text_input = Some text, doc_page_count = None, doc_file_size = None,
      doc_status = ''ready'', doc_created_at = now e, doc_updated_at = now e, doc_deleted_at = None\<rparr>"

definition doc_CreateText ::
  "env \<Rightarrow> int \<Rightarrow> create_text_request \<Rightarrow> db \<Rightarrow> (error + document_response) \<times> db" where
  "doc_CreateText e userID req s =
     (if \<not> db_up e then (Inl ErrDatabaseUnavailable, s)
      else
        let title = trim_space (ctd_title req); text = trim_space (ctd_text req) in
        if title = [] \<or> text = [] \<or> rune_count text > MaxTextDocumentChars
          then (Inl ErrInvalidInput, s)
        else
          let d = new_text_document e userID title text in
          (case sql e ''create text document'' 0
                  (sql_insert (documents_violation s) [d] (documents s)) of
             Inl x \<Rightarrow> (Inl (Wrapf ''create text document'' (GormErr x)), s)
           | Inr ds \<Rightarrow> (Inr (documentResponse d), s\<lparr>documents := ds\<rparr>)))"

definition new_pdf_document ::
  "env \<Rightarrow> int \<Rightarrow> string \<Rightarrow> string \<Rightarrow> string \<Rightarrow> string \<Rightarrow> int \<Rightarrow> int \<Rightarrow> document" where
  "new_pdf_document e userID title fileName finalKey text pageCount fileSize =
     \<lparr>doc_id = new_id e 0, doc_user_id = userID, doc_source_type = ''pdf'',
      doc_title = Some title, doc_file_name = Some fileName, doc_file_url = Some finalKey,
      doc_raw_text = Some text, doc_text_input = None, doc_page_count = Some pageCount,
      doc_file_size = Some fileSize, doc_status = ''ready'', doc_created_at = now e,
      doc_updated_at = now e, doc_deleted_at = None\<rparr>"

text \<open>
  The two deferred functions of \<open>CreatePDF\<close> remove the temporary file until it has been
  promoted, and the final one unless its row was stored. Their own failures are only logged.
\<close>

definition doc_CreatePDF ::
  "env \<Rightarrow> (nat \<Rightarrow> nat list) \<Rightarrow> nat \<times> nat \<Rightarrow> upload_service \<Rightarrow> int \<Rightarrow> create_pdf_request \<Rightarrow> reads
     \<Rightarrow> db \<times> file_tree \<Rightarrow> (error + document_response) \<times> (db \<times> file_tree)" where
  "doc_CreatePDF e rnd today svc userID req reader sf =
     (case sf of (s, fs) \<Rightarrow>
      if \<not> db_up e then (Inl ErrDatabaseUnavailable, sf)
      else case us_root svc of
        None \<Rightarrow> (Inl (ErrNew ''PDF upload service is not configured''), sf)
      | Some root \<Rightarrow>
      (case us_extractor svc of
        None \<Rightarrow> (Inl (ErrNew ''PDF upload service is not configured''), sf)
      | Some extract \<Rightarrow>
      let fileName = sanitizedFileName (cpd_file_name req);
          title = pdf_title (cpd_title req) fileName in
      if title = [] \<or> rune_count title > 255 \<or> fileName = [] then (Inl ErrInvalidInput, sf)
      else
      let maxFileBytes = (if us_max_file_bytes svc = 0 then 10485760 else us_max_file_bytes svc) in
      (case SaveTemp e rnd 0 root reader maxFileBytes fs of
        (Inl err, fs1) \<Rightarrow>
          (Inl (if errors_Is err ErrFileTooLarge then ErrPayloadTooLarge
                else Wrapf ''save temporary PDF'' err), (s, fs1))
      | (Inr temporary, fs1) \<Rightarrow>
      let removeTemporary = (\<lambda>fs. snd (file_Delete e 0 root (fl_key temporary) fs)) in
      (case validatePDFHeader e (fl_local_path temporary) fs1 of
        Some err \<Rightarrow> (Inl err, (s, removeTemporary fs1))
      | None \<Rightarrow>
      (case extract (case map_of fs1 (fl_local_path temporary) of None \<Rightarrow> [] | Some f \<Rightarrow> sf_data f) of
        Inl x \<Rightarrow> (Inl (mapExtractionError x), (s, removeTemporary fs1))
      | Inr (text, pageCount) \<Rightarrow>
      (case DocumentKey e rnd 1 userID today of
        Inl err \<Rightarrow> (Inl err, (s, removeTemporary fs1))
      | Inr finalKey \<Rightarrow>
      (case Promote e root (fl_key temporary) finalKey fs1 of
        (Inl err, fs2) \<Rightarrow> (Inl (Wrapf ''save final PDF'' err), (s, removeTemporary fs2))
      | (Inr _, fs2) \<Rightarrow>
      let d = new_pdf_document e userID title fileName finalKey text pageCount (fl_size temporary) in
      (case sql e ''create PDF document'' 0
              (sql_insert (documents_violation s) [d] (documents s)) of
        Inl x \<Rightarrow>
          (Inl (Wrapf ''create PDF document'' (GormErr x)),
           (s, snd (file_Delete e 1 root finalKey fs2)))
      | Inr ds \<Rightarrow> (Inr (documentResponse d), (s\<lparr>documents := ds\<rparr>, fs2))))))))))"

section \<open>Reading\<close>

definition own_document :: "int \<Rightarrow> int \<Rightarrow> document \<Rightarrow> bool" where
  "own_document userID documentID d \<longleftrightarrow>
     doc_id d = documentID \<and> doc_user_id d = userID \<and> doc_deleted_at d = None"

definition doc_Get :: "env \<Rightarrow> int \<Rightarrow> int \<Rightarrow> db \<Rightarrow> error + document_response" where
  "doc_Get e userID documentID s =
     (if \<not> db_up e then Inl ErrDatabaseUnavailable
      else case sql e ''get document'' 0
             (sql_first doc_id (own_document userID documentID) (documents s)) of
        Inl ErrRecordNotFound \<Rightarrow> Inl ErrNotFound
      | Inl x \<Rightarrow> Inl (Wrapf ''get document'' (GormErr x))
      | Inr d \<Rightarrow> Inr (documentResponse d))"

definition doc_order :: "document \<Rightarrow> order_key" where
  "doc_order d = desc_key (doc_created_at d) (doc_id d)"

definition doc_List :: "env \<Rightarrow> int \<Rightarrow> document_list_request \<Rightarrow> db \<Rightarrow> error + document_list_response" where
  "doc_List e userID req s =
     (if \<not> db_up e then Inl ErrDatabaseUnavailable
      else
        let page = (if dlr_page req = 0 then 1 else dlr_page req);
            pageSize = (if dlr_page_size req = 0 then 10 else dlr_page_size req);
            query = (\<lambda>d. doc_user_id d = userID \<and> doc_deleted_at d = None) in
        (case sql e ''count documents'' 0 (Inr (sql_count query (documents s))) of
           Inl x \<Rightarrow> Inl (Wrapf ''count documents'' (GormErr x))
         | Inr cnt \<Rightarrow>
             (case sql e ''list documents'' 0
                     (Inr (sql_page (int64_wrap ((page - 1) * pageSize)) pageSize
                       (sql_find doc_order query (documents s)))) of
                Inl x \<Rightarrow> Inl (Wrapf ''list documents'' (GormErr x))
              | Inr ds \<Rightarrow>
                  Inr \<lparr>dl_items = map documentSummaryResponse ds, dl_page = page,
                       dl_page_size = pageSize, dl_total = cnt\<rparr>)))"

section \<open>Deleting\<close>

definition doc_Delete_tx :: "env \<Rightarrow> int \<Rightarrow> int \<Rightarrow> db \<Rightarrow> error + string \<times> db" where
  "doc_Delete_tx e userID documentID s =
     (case sql e ''lock document for deletion'' 0
             (sql_first doc_id (own_document userID documentID) (documents s)) of
        Inl ErrRecordNotFound \<Rightarrow> Inl ErrNotFound
      | Inl x \<Rightarrow> Inl (Wrapf ''lock document for deletion'' (GormErr x))
      | Inr d \<Rightarrow>
          (case sql e ''count active parse jobs before document deletion'' 0
                  (Inr (sql_count
                    (\<lambda>j. job_document_id j = documentID \<and> job_user_id j = userID
                       \<and> active_status (job_status j)) (parse_jobs s))) of
             Inl x \<Rightarrow> Inl (Wrapf ''count active parse jobs before document deletion'' (GormErr x))
           | Inr activeJobs \<Rightarrow>
               if activeJobs > 0 then Inl ErrConflict
               else
                 (case sql e ''soft delete document'' 0
                         (sql_update (documents_violation s) (own_document userID documentID)
                           (\<lambda>d. d\<lparr>doc_deleted_at := Some (now e)\<rparr>) (documents s)) of
                    Inl x \<Rightarrow> Inl (Wrapf ''soft delete document'' (GormErr x))
                  | Inr (ds, rowsAffected) \<Rightarrow>
                      if rowsAffected = 0 then Inl ErrNotFound
                      else
                        Inr ((if doc_source_type d = ''pdf''
                              then (case doc_file_url d of None \<Rightarrow> [] | Some k \<Rightarrow> k) else []),
                             s\<lparr>documents := ds\<rparr>))))"

definition doc_Delete ::
  "env \<Rightarrow> upload_service \<Rightarrow> int \<Rightarrow> int \<Rightarrow> db \<times> file_tree \<Rightarrow> (error + unit) \<times> (db \<times> file_tree)" where
  "doc_Delete e svc userID documentID sf =
     (case sf of (s, fs) \<Rightarrow>
      if \<not> db_up e then (Inl ErrDatabaseUnavailable, sf)
      else
        (case transaction e (doc_Delete_tx e userID documentID) s of
           (Inl err, s') \<Rightarrow> (Inl err, (s', fs))
         | (Inr fileKey, s') \<Rightarrow>
             (case us_root svc of
                None \<Rightarrow> (Inr (), (s', fs))
              | Some root \<Rightarrow>
                  if fileKey = [] then (Inr (), (s', fs))
                  else (Inr (), (s', snd (file_Delete e 0 root fileKey fs))))))"

section \<open>The keys the service makes\<close>

lemma normal_element_hd:
  "x \<noteq> [] \<Longrightarrow> hd x \<noteq> CHR ''.'' \<Longrightarrow> slash \<notin> set x \<Longrightarrow> normal_element x"
  by (auto simp: normal_element_def)

lemma digits_no_slash: "list_all digit x \<Longrightarrow> slash \<notin> set x \<and> CHR ''.'' \<notin> set x"
  by (auto simp: list_all_iff digit_def byte_in_def)

lemma hex_no_slash: "slash \<notin> set (hex_encode bs) \<and> CHR ''.'' \<notin> set (hex_encode bs)"
  using hex_encode_chars [of bs] by (auto simp: list_all_iff hex_char_def byte_in_def)

lemma normal_digits: "list_all digit x \<Longrightarrow> x \<noteq> [] \<Longrightarrow> normal_element x"
  using digits_no_slash [of x] by (intro normal_element_hd) (auto dest: hd_in_set)

lemma normal_dec_int: "normal_element (dec_int n)"
  using normal_digits [OF dec_digits dec_not_Nil] digits_no_slash [OF dec_digits]
  by (auto simp: dec_int_def normal_element_def)

lemma normal_dec_pad: "normal_element (dec_pad w n)"
  by (rule normal_digits [OF dec_pad_digits]) (simp add: dec_pad_def)

lemma normal_hex_pdf: "normal_element (hex_encode bs @ ''.pdf'')"
  using hex_no_slash [of bs] by (cases "hex_encode bs") (auto simp: normal_element_def)

lemma canonical_join:
  "xs \<noteq> [] \<Longrightarrow> list_all normal_element xs \<Longrightarrow> canonical_key (join_path xs) \<and> elements (join_path xs) = xs"
  using elements_join_path [OF _ normal_elements_no_slash] by (simp add: canonical_key_def)

lemma Clean_canonical: "canonical_key k \<Longrightarrow> Clean k = k"
  using canonical_not_rooted [of k] canonical_clean_elements [of k] canonical_key_not_Nil [of k]
  by (simp add: Clean_def)

definition temp_key :: "string \<Rightarrow> string" where
  "temp_key name = join_path [''.tmp'', name @ ''.pdf'']"

lemma canonical_temp_key: "canonical_key (temp_key (hex_encode bs))"
  using canonical_join [of "[''.tmp'', hex_encode bs @ ''.pdf'']"] normal_hex_pdf [of bs]
  by (simp add: temp_key_def normal_element_def)

lemma Join_temp_key: "Join [''.tmp'', hex_encode bs @ ''.pdf''] = temp_key (hex_encode bs)"
  using Clean_canonical [OF canonical_temp_key, of bs] by (simp add: Join_def temp_key_def)

definition document_key :: "int \<Rightarrow> nat \<times> nat \<Rightarrow> string \<Rightarrow> string" where
  "document_key userID today name =
     join_path [''documents'', dec_int userID, dec_pad 4 (fst today), dec_pad 2 (snd today), name @ ''.pdf'']"

lemma document_key_elements:
  "canonical_key (document_key u today (hex_encode bs))"
  "elements (document_key u today (hex_encode bs)) =
     [''documents'', dec_int u, dec_pad 4 (fst today), dec_pad 2 (snd today), hex_encode bs @ ''.pdf'']"
proof -
  let ?xs = "[''documents'', dec_int u, dec_pad 4 (fst today), dec_pad 2 (snd today), hex_encode bs @ ''.pdf'']"
  have "list_all normal_element ?xs"
    using normal_dec_int normal_dec_pad normal_hex_pdf by (simp add: normal_element_def)
  then show "canonical_key (document_key u today (hex_encode bs))"
    "elements (document_key u today (hex_encode bs)) = ?xs"
    using canonical_join [of ?xs] by (simp_all add: document_key_def)
qed

lemma DocumentKey_Inr:
  "DocumentKey e rnd k u today = Inr key \<Longrightarrow> key = document_key u today (hex_encode (rnd k))"
  by (auto simp: DocumentKey_def randomName_def document_key_def split: if_splits)

section \<open>Saving and promoting\<close>

text \<open>The bytes of a request body that is read to its end.\<close>

fun body :: "reads \<Rightarrow> string option" where
  "body [] = Some []"
| "body ((b, st) # rs) =
     (case st of
        AtEOF \<Rightarrow> Some b
      | ReadFailed \<Rightarrow> None
      | MoreData \<Rightarrow> map_option (\<lambda>s. b @ s) (body rs))"

lemma copy_whole_body:
  "copyWithContext e k (limit_reads n rs) = (data, None) \<Longrightarrow> int (length data) < n \<Longrightarrow> body rs = Some data"
proof (induction rs arbitrary: k n data)
  case (Cons r rs)
  obtain b st where r: "r = (b, st)" by fastforce
  show ?case
  proof (cases "n \<le> 0 \<or> int (length b) > n")
    case True
    then show ?thesis using Cons.prems r
      by (auto split: if_splits)
  next
    case False
    then have "copyWithContext e k ((b, st) # limit_reads (n - int (length b)) rs) = (data, None)"
      using Cons.prems r by simp
    then show ?thesis
      using Cons.prems(2) r Cons.IH [of "Suc k" "n - int (length b)"]
      by (auto split: if_splits read_status.splits prod.splits)
  qed
qed simp

lemma copy_limited: "copyWithContext e k (limit_reads n rs) = (data, None) \<Longrightarrow> n \<le> 0 \<Longrightarrow> data = []"
  by (cases rs) (auto split: if_splits prod.splits)

lemma SaveTemp_Inl:
  assumes "SaveTemp e rnd k root rs m fs = (Inl err, fs')" "\<not> fault e ''discard temporary upload'' 0"
  shows "fs' = fs"
  using assms unfolding SaveTemp_def Let_def
  by (auto split: sum.splits if_splits prod.splits option.splits)

lemma SaveTemp_Inr:
  assumes "SaveTemp e rnd k root rs m fs = (Inr f, fs')" and ok: "tree_ok root fs"
  defines "key \<equiv> temp_key (hex_encode (rnd k))"
  shows "\<exists>data. f = \<lparr>fl_key = key, fl_local_path = key_path root key, fl_size = int (length data),
        fl_mod_time = now e\<rparr>
    \<and> tree_files root fs key = None \<and> int (length data) \<le> m
    \<and> fs' = fs_write (key_path root key) \<lparr>sf_data = data, sf_mod_time = now e\<rparr> fs
    \<and> copyWithContext e 0 (limit_reads (int64_wrap (m + 1)) rs) = (data, None)"
proof -
  have rt: "rooted root" using ok by (simp add: tree_ok_def)
  have ck: "canonical_key key" using canonical_temp_key by (simp add: key_def)
  have path: "file_resolve root key = Inr (key_path root key)" by (rule key_path_props(3) [OF rt ck])
  obtain data where "key_path root key \<notin> fst ` set fs" "int (length data) \<le> m"
    "copyWithContext e 0 (limit_reads (int64_wrap (m + 1)) rs) = (data, None)"
    "f = \<lparr>fl_key = key, fl_local_path = key_path root key, fl_size = int (length data), fl_mod_time = now e\<rparr>"
    "fs' = fs_write (key_path root key) \<lparr>sf_data = data, sf_mod_time = now e\<rparr> fs"
    using assms(1) path unfolding SaveTemp_def Let_def randomName_def key_def Join_temp_key [symmetric]
    by (auto split: sum.splits if_splits prod.splits option.splits)
  moreover from this(1) have "tree_files root fs key = None"
    by (simp add: tree_files_def map_of_eq_None_iff)
  ultimately show ?thesis by blast
qed

lemma Promote_cases:
  assumes "Promote e root k1 k2 fs = (r, fs')" and ok: "tree_ok root fs"
    and k: "canonical_key k1" "canonical_key k2" "k1 \<noteq> k2" and f: "tree_files root fs k1 = Some f"
  shows "(\<exists>err. r = Inl err) \<and> fs' = fs
    \<or> r = Inr () \<and> tree_ok root fs' \<and> tree_files root fs' = (tree_files root fs)(k1 := None, k2 \<mapsto> f)"
proof -
  have rt: "rooted root" using ok by (simp add: tree_ok_def)
  have "map_of fs (key_path root k1) = Some f" using f k(1) by (simp add: tree_files_def)
  then have "(\<exists>err. r = Inl err) \<and> fs' = fs
      \<or> r = Inr () \<and> fs' = fs_write (key_path root k2) f (fs_remove (key_path root k1) fs)"
    using assms(1) key_path_props(3) [OF rt k(1)] key_path_props(3) [OF rt k(2)]
    by (auto simp: Promote_def split: if_splits)
  then show ?thesis
    using tree_ok_write [OF tree_ok_remove [OF ok] k(2), of f "key_path root k1"]
      tree_files_write [OF rt k(2), of f "fs_remove (key_path root k1) fs"] tree_files_remove [OF rt k(1), of fs]
    by auto
qed

section \<open>Uploading\<close>

lemma temp_key_not_document_key: "temp_key (hex_encode bs) \<noteq> document_key u today (hex_encode bs')"
proof
  assume "temp_key (hex_encode bs) = document_key u today (hex_encode bs')"
  then have "elements (temp_key (hex_encode bs)) = elements (document_key u today (hex_encode bs'))" by simp
  moreover have "elements (temp_key (hex_encode bs)) = [''.tmp'', hex_encode bs @ ''.pdf'']"
    using canonical_join [of "[''.tmp'', hex_encode bs @ ''.pdf'']"] normal_hex_pdf [of bs]
    by (simp add: temp_key_def normal_element_def)
  ultimately show False by (simp add: document_key_elements)
qed

text \<open>Taking a file out again that was not there before.\<close>

lemma write_then_delete:
  assumes "tree_ok root fs" "canonical_key k" "tree_files root fs k = None"
    and "\<not> fault e ''delete uploaded file'' n"
  shows "tree_ok root (snd (file_Delete e n root k (fs_write (key_path root k) f fs)))
    \<and> tree_files root (snd (file_Delete e n root k (fs_write (key_path root k) f fs))) = tree_files root fs"
proof -
  let ?fs = "fs_write (key_path root k) f fs"
  obtain r fs' where del: "file_Delete e n root k ?fs = (r, fs')" by fastforce
  have "tree_files root ?fs = (tree_files root fs)(k \<mapsto> f)"
    using assms(1,2) by (intro tree_files_write) (auto simp: tree_ok_def)
  then show ?thesis
    using file_Delete_known [OF tree_ok_write [OF assms(1,2)] assms(2) del] assms(3,4) del
    by (auto simp: fun_eq_iff)
qed

text \<open>What a successful upload did, from the temporary file on.\<close>

definition pdf_stored ::
  "env \<Rightarrow> string \<Rightarrow> (string \<Rightarrow> pdf_error + string \<times> int) \<Rightarrow> int \<Rightarrow> reads \<Rightarrow> document_response
     \<Rightarrow> db \<Rightarrow> file_tree \<Rightarrow> db \<Rightarrow> file_tree \<Rightarrow> bool" where
  "pdf_stored e root extract u rs resp s fs s' fs' \<longleftrightarrow>
     (\<exists>d k data text pages.
        body rs = Some data \<and> take 5 data = ''%PDF-'' \<and> extract data = Inr (text, pages)
        \<and> resp = documentResponse d \<and> s' = s\<lparr>documents := documents s @ [d]\<rparr>
        \<and> documents_violation s (documents s @ [d]) = None
        \<and> doc_user_id d = u \<and> doc_source_type d = ''pdf'' \<and> doc_status d = ''ready''
        \<and> doc_file_url d = Some k \<and> doc_raw_text d = Some text \<and> doc_page_count d = Some pages
        \<and> doc_file_size d = Some (int (length data)) \<and> doc_deleted_at d = None
        \<and> under_prefix ''documents'' k \<and> tree_files root fs k = None
        \<and> tree_files root fs' = (tree_files root fs)(k \<mapsto> \<lparr>sf_data = data, sf_mod_time = now e\<rparr>))"

lemma under_documents: "under_prefix ''documents'' (document_key u today (hex_encode bs))"
proof -
  have "clean_elements ''documents'' = [''documents'']"
    by (simp add: clean_elements_def clean_step.simps)
  then show ?thesis by (simp add: under_prefix_def document_key_elements)
qed

lemma whole_body:
  assumes "copyWithContext e k (limit_reads (int64_wrap (m + 1)) rs) = (data, None)"
    and "int (length data) \<le> m" "m \<le> 9223372036854775807" "data \<noteq> []"
  shows "body rs = Some data"
proof -
  have "0 < int64_wrap (m + 1)" using copy_limited [OF assms(1)] assms(4) by linarith
  then have "m \<noteq> 9223372036854775807" by (auto simp: int64_wrap_def)
  then have "int64_wrap (m + 1) = m + 1" using assms(2,3) by (intro int64_wrap_id) linarith+
  then show ?thesis using copy_whole_body [OF assms(1)] assms(2) by simp
qed

lemma new_pdf_document_sel [simp]:
  "doc_id (new_pdf_document e u t n k tx pages sz) = new_id e 0"
  "doc_user_id (new_pdf_document e u t n k tx pages sz) = u"
  "doc_source_type (new_pdf_document e u t n k tx pages sz) = ''pdf''"
  "doc_status (new_pdf_document e u t n k tx pages sz) = ''ready''"
  "doc_file_url (new_pdf_document e u t n k tx pages sz) = Some k"
  "doc_raw_text (new_pdf_document e u t n k tx pages sz) = Some tx"
  "doc_text_input (new_pdf_document e u t n k tx pages sz) = None"
  "doc_page_count (new_pdf_document e u t n k tx pages sz) = Some pages"
  "doc_file_size (new_pdf_document e u t n k tx pages sz) = Some sz"
  "doc_deleted_at (new_pdf_document e u t n k tx pages sz) = None"
  by (simp_all add: new_pdf_document_def)

text \<open>The steps after the temporary file was saved, with the file known.\<close>

lemma doc_CreatePDF_saved:
  assumes ok: "tree_ok root fs" and files: "us_root svc = Some root" "us_extractor svc = Some extract"
    and call: "doc_CreatePDF e rnd today svc u rq rs (s, fs) = (r, (s', fs'))"
    and up: "db_up e" and title: "t = pdf_title (cpd_title rq) n" "n = sanitizedFileName (cpd_file_name rq)"
      "\<not> (t = [] \<or> rune_count t > 255 \<or> n = [])"
    and save: "SaveTemp e rnd 0 root rs m fs = (Inr f, fs1)"
      "m = (if us_max_file_bytes svc = 0 then 10485760 else us_max_file_bytes svc)"
    and m: "m \<le> 9223372036854775807"
    and nf: "fault e ''delete uploaded file'' = (\<lambda>_. False)"
    and fresh: "tree_files root fs (document_key u today (hex_encode (rnd 1))) = None"
  shows "tree_ok root fs' \<and> (case r of
      Inl err \<Rightarrow> s' = s \<and> tree_files root fs' = tree_files root fs
    | Inr resp \<Rightarrow> pdf_stored e root extract u rs resp s fs s' fs')"
proof -
  let ?k = "temp_key (hex_encode (rnd 0))" and ?d = "document_key u today (hex_encode (rnd 1))"
  have rt: "rooted root" using ok by (simp add: tree_ok_def)
  have ck: "canonical_key ?k" "canonical_key ?d" by (rule canonical_temp_key, rule document_key_elements(1))
  obtain data where f: "f = \<lparr>fl_key = ?k, fl_local_path = key_path root ?k, fl_size = int (length data),
        fl_mod_time = now e\<rparr>" and new: "tree_files root fs ?k = None" and len: "int (length data) \<le> m"
    and fs1: "fs1 = fs_write (key_path root ?k) \<lparr>sf_data = data, sf_mod_time = now e\<rparr> fs"
    and copy: "copyWithContext e 0 (limit_reads (int64_wrap (m + 1)) rs) = (data, None)"
    using SaveTemp_Inr [OF save(1) ok] by blast
  let ?F = "\<lparr>sf_data = data, sf_mod_time = now e\<rparr>"
  let ?rm = "\<lambda>fs. snd (file_Delete e 0 root ?k fs)"
  have ok1: "tree_ok root fs1" and files1: "tree_files root fs1 = (tree_files root fs)(?k \<mapsto> ?F)"
    using tree_ok_write [OF ok ck(1)] tree_files_write [OF rt ck(1)] by (simp_all add: fs1)
  have undo: "tree_ok root (?rm fs1) \<and> tree_files root (?rm fs1) = tree_files root fs"
    using write_then_delete [OF ok ck(1) new, of e 0 ?F] nf by (simp add: fs1)
  have look: "map_of fs1 (key_path root ?k) = Some ?F"
    using files1 ck(1) by (auto simp: tree_files_def fun_eq_iff split: if_splits dest: spec [of _ ?k])
  note call' = call [unfolded doc_CreatePDF_def prod.case files option.case Let_def title(2) [symmetric]
      title(1) [symmetric] save(2) [symmetric] save(1) sum.case]
  show ?thesis
  proof (cases "validatePDFHeader e (key_path root ?k) fs1")
    case (Some err)
    then have "r = Inl err \<and> s' = s \<and> fs' = ?rm fs1" using call' up title(3) f by simp
    then show ?thesis using undo by simp
  next
    case None
    then have head: "take 5 data = ''%PDF-''" using look
      by (auto simp: validatePDFHeader_def split: if_splits)
    show ?thesis
    proof (cases "extract data")
      case (Inl x)
      then have "r = Inl (mapExtractionError x) \<and> s' = s \<and> fs' = ?rm fs1"
        using call' up title(3) f None look by simp
      then show ?thesis using undo by simp
    next
      case (Inr tp)
      obtain tx pages where tp: "tp = (tx, pages)" by fastforce
      note stored = Inr [unfolded tp]
      show ?thesis
      proof (cases "DocumentKey e rnd 1 u today")
        case (Inl err)
        then have "r = Inl err \<and> s' = s \<and> fs' = ?rm fs1"
          using call' up title(3) f None look stored by simp
        then show ?thesis using undo by simp
      next
        case (Inr key)
        note key = Inr
        have d: "key = ?d" using DocumentKey_Inr [OF key] by simp
        obtain pr fs2 where prom: "Promote e root ?k ?d fs1 = (pr, fs2)" by fastforce
        note tail = call' up title(3) f None look stored key d prom
        from Promote_cases [OF prom ok1 ck temp_key_not_document_key, of ?F] files1
        consider (refused) err where "pr = Inl err" "fs2 = fs1"
          | (moved) "pr = Inr ()" "tree_ok root fs2" "tree_files root fs2 = (tree_files root fs1)(?k := None, ?d \<mapsto> ?F)"
          by auto
        then show ?thesis
        proof cases
          case refused
          then show ?thesis using tail undo by auto
        next
          case moved
          have files2: "tree_files root fs2 = (tree_files root fs)(?d \<mapsto> ?F)"
            using moved(3) files1 new by (auto simp: fun_eq_iff)
          let ?doc = "new_pdf_document e u t n ?d tx pages (int (length data))"
          show ?thesis
          proof (cases "sql e ''create PDF document'' 0
              (sql_insert (documents_violation s) [?doc] (documents s))")
            case (Inl x)
            obtain dr fs3 where del: "file_Delete e 1 root ?d fs2 = (dr, fs3)" by fastforce
            have "tree_ok root fs3 \<and> tree_files root fs3 = tree_files root fs"
              using file_Delete_known [OF moved(2) ck(2) del] nf files2 fresh by (auto simp: fun_eq_iff)
            then show ?thesis using tail moved(1) Inl del by auto
          next
            case (Inr ds)
            then have ds: "ds = documents s @ [?doc]" "documents_violation s (documents s @ [?doc]) = None"
              by (auto simp: sql_insert_Inr)
            have "r = Inr (documentResponse ?doc) \<and> s' = s\<lparr>documents := ds\<rparr> \<and> fs' = fs2"
              using tail moved(1) Inr by (auto simp del: sql_Inr)
            moreover have bd: "body rs = Some data"
              using whole_body [OF copy len m] head by (cases data) auto
            moreover have "pdf_stored e root extract u rs (documentResponse ?doc) s fs (s\<lparr>documents := ds\<rparr>) fs2"
              unfolding pdf_stored_def
              by (rule exI [of _ ?doc], rule exI [of _ ?d], rule exI [of _ data], rule exI [of _ tx],
                  rule exI [of _ pages])
                (simp add: bd head stored ds fresh under_documents files2 del: One_nat_def)
            ultimately show ?thesis using moved(2) by simp
          qed
        qed
      qed
    qed
  qed
qed

text \<open>
  C29: An upload leaves a document with its file, or nothing. If no clean-up call fails and
  the random name of the final file is new, a CreatePDF that answers with an error has
  changed neither the database nor any file, wherever it failed; one that answers with a
  document has added exactly one row and one file, the row refers to the file, and the file
  holds the bytes of the upload, which begin like a PDF and which the extractor read the
  stored text and page count from. In particular no temporary file is left behind.
\<close>

theorem doc_CreatePDF_files:
  assumes "tree_ok root fs" "us_root svc = Some root" "us_extractor svc = Some extract"
    and "doc_CreatePDF e rnd today svc u rq rs (s, fs) = (r, (s', fs'))"
    and "us_max_file_bytes svc \<le> 9223372036854775807"
    and "fault e ''delete uploaded file'' = (\<lambda>_. False)" "\<not> fault e ''discard temporary upload'' 0"
    and "tree_files root fs (document_key u today (hex_encode (rnd 1))) = None"
  shows "tree_ok root fs' \<and> (case r of
      Inl err \<Rightarrow> s' = s \<and> tree_files root fs' = tree_files root fs
    | Inr resp \<Rightarrow> pdf_stored e root extract u rs resp s fs s' fs')"
proof -
  let ?n = "sanitizedFileName (cpd_file_name rq)"
  let ?t = "pdf_title (cpd_title rq) ?n"
  let ?m = "if us_max_file_bytes svc = 0 then 10485760 else us_max_file_bytes svc"
  show ?thesis
  proof (cases "db_up e \<and> \<not> (?t = [] \<or> rune_count ?t > 255 \<or> ?n = [])")
    case False
    then have "(\<exists>err. r = Inl err) \<and> s' = s \<and> fs' = fs"
      using assms(2-4) by (auto simp: doc_CreatePDF_def Let_def split: if_splits)
    then show ?thesis using assms(1) by auto
  next
    case True
    show ?thesis
    proof (cases "SaveTemp e rnd 0 root rs ?m fs")
      case (Pair sr fs1)
      show ?thesis
      proof (cases sr)
        case (Inl err)
        then have "(\<exists>err. r = Inl err) \<and> s' = s \<and> fs' = fs"
          using True assms(2-4) Pair SaveTemp_Inl [of e rnd 0 root rs ?m fs err fs1] assms(7)
          by (auto simp: doc_CreatePDF_def Let_def)
        then show ?thesis using assms(1) by auto
      next
        case (Inr f)
        show ?thesis
          by (rule doc_CreatePDF_saved [OF assms(1-4) _ refl refl _ Pair [unfolded Inr] refl _ assms(6,8)])
            (use True assms(5) in auto)
      qed
    qed
  qed
qed

definition sample_upload :: upload_service where
  "sample_upload = \<lparr>us_root = Some ''/up'', us_extractor = Some (\<lambda>_. Inr (''text'', 1)), us_max_file_bytes = 0\<rparr>"

definition sample_pdf :: create_pdf_request where
  "sample_pdf = \<lparr>cpd_title = [], cpd_file_name = ''dir/a.pdf''\<rparr>"

lemma sample_pdf_names:
  "sanitizedFileName ''dir/a.pdf'' = ''a.pdf''" "pdf_title [] ''a.pdf'' = ''a''"
  by (simp_all add: sanitizedFileName_def Base_def strip_slashes_def drop_control_runes_def
      trim_space_def strip_def segments_ascii_Cons is_space_def rune_count_ascii bad_segment_def
      rune_error_def pdf_title_def Ext_def lower_char_def byte_in_def)

lemma tree_ok_empty: "rooted root \<Longrightarrow> tree_ok root []"
  by (simp add: tree_ok_def)

lemma sample_pdf_accepted:
  "\<exists>d. fst (doc_CreatePDF sample_env (\<lambda>n. [n]) (2030, 1) sample_upload 1 sample_pdf
     [(''%PDF-1'', AtEOF)] (sample_db, [])) = Inr (documentResponse d)"
proof -
  let ?k = "temp_key (hex_encode [0])" and ?d = "document_key 1 (2030, 1) (hex_encode [1])"
  let ?f = "\<lparr>sf_data = ''%PDF-1'', sf_mod_time = 50\<rparr>"
  have res: "file_resolve ''/up'' ?k = Inr (key_path ''/up'' ?k)"
    "file_resolve ''/up'' ?d = Inr (key_path ''/up'' ?d)"
    using key_path_props(3) [of "''/up''"] canonical_temp_key document_key_elements(1) by simp_all
  have save: "SaveTemp sample_env (\<lambda>n. [n]) 0 ''/up'' [(''%PDF-1'', AtEOF)] 10485760 [] =
      (Inr \<lparr>fl_key = ?k, fl_local_path = key_path ''/up'' ?k, fl_size = 6, fl_mod_time = 50\<rparr>,
       [(key_path ''/up'' ?k, ?f)])"
    using res by (simp add: SaveTemp_def randomName_def sample_env_def Join_temp_key
        fs_write_def fs_remove_def Let_def del: One_nat_def)
  have key: "DocumentKey sample_env (\<lambda>n. [n]) 1 1 (2030, 1) = Inr ?d"
    by (simp add: DocumentKey_def randomName_def sample_env_def document_key_def del: One_nat_def)
  have prom: "Promote sample_env ''/up'' ?k ?d [(key_path ''/up'' ?k, ?f)] = (Inr (), [(key_path ''/up'' ?d, ?f)])"
    using res by (simp add: Promote_def sample_env_def fs_write_def fs_remove_def del: One_nat_def)
  have hdr: "validatePDFHeader sample_env (key_path ''/up'' ?k) [(key_path ''/up'' ?k, ?f)] = None"
    by (simp add: validatePDFHeader_def sample_env_def)
  let ?doc = "new_pdf_document sample_env 1 ''a'' ''a.pdf'' ?d ''text'' 1 6"
  have "?d = ''documents/1/2030/01/01.pdf''"
    by (simp add: document_key_def dec_int_def dec_pad_def dec.simps hex_encode_def hex_digit_def
        char_of_def bit_0)
  then have chk: "document_check ?doc"
    by (simp add: document_check_def new_pdf_document_def varchar_def rune_count_ascii)
  have "documents_violation sample_db (documents sample_db @ [?doc]) = None"
    using schema_ok_sample chk
    by (simp add: schema_ok_def documents_violation_def sample_db_def document_refs_def sample_user_def
        sample_document_def)
  then have ins: "sql_insert (documents_violation sample_db) [?doc] (documents sample_db) =
      Inr (documents sample_db @ [?doc])"
    by (simp add: sql_insert_Inr)
  show ?thesis
    using save key prom hdr ins sample_pdf_names
    by (simp add: doc_CreatePDF_def sample_upload_def sample_pdf_def rune_count_ascii Let_def
        del: One_nat_def) blast
qed

theorem doc_CreatePDF_files_witness:
  "\<exists>d s' fs'. doc_CreatePDF sample_env (\<lambda>n. [n]) (2030, 1) sample_upload 1 sample_pdf
       [(''%PDF-1'', AtEOF)] (sample_db, []) = (Inr (documentResponse d), (s', fs'))
     \<and> pdf_stored sample_env ''/up'' (\<lambda>_. Inr (''text'', 1)) 1 [(''%PDF-1'', AtEOF)] (documentResponse d)
         sample_db [] s' fs'"
proof -
  obtain d s' fs' where call: "doc_CreatePDF sample_env (\<lambda>n. [n]) (2030, 1) sample_upload 1 sample_pdf
       [(''%PDF-1'', AtEOF)] (sample_db, []) = (Inr (documentResponse d), (s', fs'))"
    using sample_pdf_accepted by (metis prod.collapse)
  show ?thesis
    using call doc_CreatePDF_files [OF tree_ok_empty _ _ call, of "''/up''" "\<lambda>_. Inr (''text'', 1)"]
    by (auto simp: sample_upload_def sample_env_def tree_files_def)
qed

section \<open>What an accepted operation did\<close>

definition document_edit :: "db \<Rightarrow> document \<Rightarrow> document \<Rightarrow> db \<Rightarrow> bool" where
  "document_edit s d d' s' \<longleftrightarrow>
     d \<in> set (documents s) \<and> s' = s\<lparr>documents := replace_row doc_id d' (documents s)\<rparr>
     \<and> documents_violation s (replace_row doc_id d' (documents s)) = None"

lemma doc_CreateText_cases:
  assumes "doc_CreateText e u rq s = (r, s')"
  shows "s' = s \<and> (\<exists>err. r = Inl err)
    \<or> (\<exists>d. r = Inr (documentResponse d) \<and> d = new_text_document e u (trim_space (ctd_title rq)) (trim_space (ctd_text rq))
        \<and> trim_space (ctd_title rq) \<noteq> [] \<and> trim_space (ctd_text rq) \<noteq> []
        \<and> rune_count (trim_space (ctd_text rq)) \<le> MaxTextDocumentChars
        \<and> s' = s\<lparr>documents := documents s @ [d]\<rparr> \<and> documents_violation s (documents s @ [d]) = None)"
  using assms
  by (auto simp: doc_CreateText_def Let_def sql_insert_Inr split: if_splits sum.splits)

lemma doc_Delete_tx_Inr:
  assumes "doc_Delete_tx e u i s = Inr (key, s')" and ok: "schema_ok s"
  shows "\<exists>d. d \<in> set (documents s) \<and> own_document u i d
    \<and> (\<forall>j\<in>set (parse_jobs s). job_document_id j = i \<longrightarrow> job_user_id j = u \<longrightarrow> \<not> active_status (job_status j))
    \<and> document_edit s d (d\<lparr>doc_deleted_at := Some (now e)\<rparr>) s'
    \<and> key = (if doc_source_type d = ''pdf'' then case doc_file_url d of None \<Rightarrow> [] | Some k \<Rightarrow> k else [])"
proof -
  let ?P = "own_document u i" and ?f = "\<lambda>d. d\<lparr>doc_deleted_at := Some (now e)\<rparr>"
  let ?Q = "\<lambda>j. job_document_id j = i \<and> job_user_id j = u \<and> active_status (job_status j)"
  obtain d ds n where d: "sql_first doc_id ?P (documents s) = Inr d"
    and q: "\<not> sql_count ?Q (parse_jobs s) > 0"
    and upd: "sql_update (documents_violation s) ?P ?f (documents s) = Inr (ds, n)"
    and res: "key = (if doc_source_type d = ''pdf'' then case doc_file_url d of None \<Rightarrow> [] | Some k \<Rightarrow> k else [])"
      "s' = s\<lparr>documents := ds\<rparr>"
    using assms(1) unfolding doc_Delete_tx_def
    by (auto split: sum.splits db_error.splits prod.splits if_splits)
  note own = sql_first_Inr [OF d]
  have "sql_count ?Q (parse_jobs s) = 0"
    using q sql_count_nonneg [of ?Q "parse_jobs s"] by linarith
  then have jobs: "\<forall>j\<in>set (parse_jobs s). \<not> ?Q j" by simp
  have "ds = replace_row doc_id (?f d) (documents s)" "documents_violation s ds = None"
    using dt.update_reload(1,3) [OF upd schema_ok_distinct(1) [OF ok], of d] own
    by (auto simp: own_document_def)
  then show ?thesis using own jobs res by (intro exI [of _ d]) (auto simp: document_edit_def)
qed

lemma doc_Delete_cases:
  assumes "doc_Delete e svc u i (s, fs) = (r, (s', fs'))"
  shows "(\<exists>err. r = Inl err) \<and> s' = s \<and> fs' = fs
    \<or> r = Inr () \<and> (\<exists>key. doc_Delete_tx e u i s = Inr (key, s')
        \<and> fs' = (case us_root svc of None \<Rightarrow> fs
            | Some root \<Rightarrow> if key = [] then fs else snd (file_Delete e 0 root key fs)))"
  using assms
  by (auto simp: doc_Delete_def transaction_Inr dest: transaction_Inl
      split: if_splits sum.splits prod.splits option.splits)

text \<open>The keys of stored PDF documents are the ones the service makes.\<close>

definition stored_keys :: "db \<Rightarrow> bool" where
  "stored_keys s \<longleftrightarrow> list_all (\<lambda>d. doc_source_type d = ''pdf'' \<longrightarrow>
     (case doc_file_url d of None \<Rightarrow> False | Some k \<Rightarrow> canonical_key k)) (documents s)"

text \<open>
  C30: A document is deleted only when nothing is working on it, and its file goes with it.
  If Delete answers with an error, nothing has changed. Otherwise the document was the
  caller's and not deleted, none of the caller's jobs for it was pending or processing, the
  row is now marked deleted and no other row has changed, and the only file that may be
  gone is the document's own, which is gone for certain if the file store did not fail.
\<close>

theorem doc_Delete_exact:
  assumes "schema_ok s" "stored_keys s" "tree_ok root fs" "us_root svc = Some root"
    and "doc_Delete e svc u i (s, fs) = (r, (s', fs'))"
  shows "case r of
      Inl err \<Rightarrow> s' = s \<and> fs' = fs
    | Inr _ \<Rightarrow> \<exists>d\<in>set (documents s). own_document u i d
        \<and> (\<forall>j\<in>set (parse_jobs s). job_document_id j = i \<longrightarrow> job_user_id j = u
              \<longrightarrow> job_status j \<noteq> ''pending'' \<and> job_status j \<noteq> ''processing'')
        \<and> s' = s\<lparr>documents := replace_row doc_id (d\<lparr>doc_deleted_at := Some (now e)\<rparr>) (documents s)\<rparr>
        \<and> tree_ok root fs'
        \<and> (if doc_source_type d = ''pdf'' \<and> \<not> fault e ''delete uploaded file'' 0
            then tree_files root fs' = (tree_files root fs)(the (doc_file_url d) := None)
            else tree_files root fs' = tree_files root fs)"
proof (cases r)
  case (Inl err)
  then show ?thesis using doc_Delete_cases [OF assms(5)] by auto
next
  case (Inr x)
  then obtain key where tx: "doc_Delete_tx e u i s = Inr (key, s')"
    and fs': "fs' = (if key = [] then fs else snd (file_Delete e 0 root key fs))"
    using doc_Delete_cases [OF assms(5)] assms(4) by auto
  from doc_Delete_tx_Inr [OF tx assms(1)] obtain d where d: "d \<in> set (documents s)" "own_document u i d"
    and jobs: "\<forall>j\<in>set (parse_jobs s). job_document_id j = i \<longrightarrow> job_user_id j = u \<longrightarrow> \<not> active_status (job_status j)"
    and ed: "document_edit s d (d\<lparr>doc_deleted_at := Some (now e)\<rparr>) s'"
    and key: "key = (if doc_source_type d = ''pdf'' then case doc_file_url d of None \<Rightarrow> [] | Some k \<Rightarrow> k else [])"
    by blast
  have pdf: "\<exists>k. doc_file_url d = Some k \<and> canonical_key k" if "doc_source_type d = ''pdf''"
    using assms(2) d(1) that by (auto simp: stored_keys_def list_all_iff split: option.splits)
  have "tree_ok root fs' \<and> (if doc_source_type d = ''pdf'' \<and> \<not> fault e ''delete uploaded file'' 0
      then tree_files root fs' = (tree_files root fs)(the (doc_file_url d) := None)
      else tree_files root fs' = tree_files root fs)"
  proof (cases "doc_source_type d = ''pdf''")
    case True
    then obtain k where k: "doc_file_url d = Some k" "canonical_key k" using pdf by blast
    obtain dr fs1 where del: "file_Delete e 0 root k fs = (dr, fs1)" by fastforce
    have "key = k" "fs' = fs1" using True k key fs' del by auto
    then show ?thesis
      using file_Delete_known [OF assms(3) k(2) del] True k assms(3) by (auto split: if_splits)
  next
    case False
    then show ?thesis using key fs' assms(3) by simp
  qed
  then show ?thesis using Inr d jobs ed
    by (auto simp: document_edit_def active_status_def intro!: bexI [of _ d])
qed

theorem doc_Delete_exact_witness:
  "\<exists>d. documents (fst (snd (doc_Delete sample_env sample_upload 1 2 (sample_db, sample_tree)))) =
     replace_row doc_id (d\<lparr>doc_deleted_at := Some 50\<rparr>) (documents sample_db)"
proof -
  have sk: "stored_keys sample_db" by (simp add: stored_keys_def sample_defs)
  obtain r s' fs' where call: "doc_Delete sample_env sample_upload 1 2 (sample_db, sample_tree) = (r, (s', fs'))"
    by (metis prod_cases3)
  have first: "sql_first doc_id (own_document 1 2) (documents sample_db) = Inr (sample_document 2)"
    by (simp add: sql_first_def sample_db_def sample_document_def own_document_def)
  have none: "sql_count (\<lambda>j. job_document_id j = 2 \<and> job_user_id j = 1 \<and> active_status (job_status j))
      (parse_jobs sample_db) = 0"
    by (simp add: sample_db_def sample_job_def active_status_def)
  have "\<exists>ds. sql_update (documents_violation sample_db) (own_document 1 2)
      (\<lambda>d. d\<lparr>doc_deleted_at := Some 50\<rparr>) (documents sample_db) = Inr (ds, 1)"
    by (simp add: sql_update_Inr sql_count_def documents_violation_def sample_db_def sample_document_def
        own_document_def document_check_def varchar_def rune_count_sample document_refs_def sample_user_def)
  then have "\<exists>x. r = Inr x"
    using call first none by (auto simp: doc_Delete_def doc_Delete_tx_def split: if_splits option.splits)
  then show ?thesis
    using doc_Delete_exact [OF schema_ok_sample sk tree_ok_sample _ call] call
    by (auto simp: sample_upload_def)
qed

end
