(* ===== verification/Pipeline.thy ===== *)
theory Pipeline
  imports ProjectCreation ParseResultService Worker
begin

text \<open>
  The way from the AI's answer to a project: what the parser validates
  (\<open>pkg/ai/parser.go\<close>), the worker stores, a user reviews and confirms
  (\<open>internal/logic/parseresult\<close>) and the project service copies. The three components
  validate independently; here is how their rules fit together.
\<close>

section \<open>The parser's rules are the review's\<close>

definition as_review :: "int \<Rightarrow> parsed_document \<Rightarrow> update_parse_result_request" where
  "as_review v p =
     \<lparr>urr_version = v, urr_title = pd_title p, urr_summary = pd_summary p, urr_deadline = pd_deadline p,
      urr_deliverables = pd_deliverables p, urr_key_requirements = pd_key_requirements p,
      urr_risk_warnings = pd_risk_warnings p, urr_generated_tasks = pd_generated_tasks p\<rparr>"

lemma ai_strings_loop_eq:
  "ai_strings_loop k seen vs =
     (case normalize_strings_loop k seen vs of
        Inl _ \<Rightarrow> Inl ''contains an empty or overlong item'' | Inr out \<Rightarrow> Inr out)"
  by (induction vs arbitrary: seen) (auto simp: Let_def split: sum.splits)

lemma ai_normalizeStrings_eq:
  "ai_normalizeStrings vs m k = Inr out \<longleftrightarrow> normalizeStrings vs m k = Inr out"
  by (auto simp: ai_normalizeStrings_def normalizeStrings_def ai_strings_loop_eq
      split: option.splits sum.splits)

text \<open>A task passes the parser if it passes the review and states its priority.\<close>

lemma ai_normalize_tasks_eq:
  "ai_normalize_tasks i gs = Inr gs' \<longleftrightarrow>
   traverse result_normalizeTask gs = Inr gs' \<and> list_all (\<lambda>g. gt_priority g \<noteq> []) gs"
proof (induction gs arbitrary: i gs')
  case (Cons g gs)
  have "ai_normalize_tasks i (g # gs) = Inr gs' \<longleftrightarrow>
      gt_priority g \<noteq> [] \<and> (\<exists>h hs. gs' = h # hs \<and> result_normalizeTask g = Inr h
        \<and> ai_normalize_tasks (Suc i) gs = Inr hs)"
    by (cases "gt_description g")
      (auto simp: Let_def result_normalizeTask_def split: sum.splits)
  then show ?case using Cons.IH [of "Suc i"] by (auto split: sum.splits)
qed auto

text \<open>Acceptance by each, spelled out.\<close>

definition valid_content :: "string \<Rightarrow> string \<Rightarrow> bool" where
  "valid_content title summary \<longleftrightarrow>
     trim_space title \<noteq> [] \<and> rune_count (trim_space title) \<le> 255
     \<and> trim_space summary \<noteq> [] \<and> rune_count (trim_space summary) \<le> 5000"

lemma normalizeAndValidate_Inr:
  "normalizeAndValidate p = Inr q \<longleftrightarrow> valid_content (pd_title p) (pd_summary p)
   \<and> (\<exists>ds ks ws gts gs. normalizeStrings (pd_deliverables p) 50 1000 = Inr ds
     \<and> normalizeStrings (pd_key_requirements p) 100 1000 = Inr ks
     \<and> normalizeStrings (pd_risk_warnings p) 50 1000 = Inr ws
     \<and> pd_generated_tasks p = Some gts \<and> length gts \<le> 100
     \<and> traverse result_normalizeTask gts = Inr gs \<and> list_all (\<lambda>g. gt_priority g \<noteq> []) gts
     \<and> q = p\<lparr>pd_title := trim_space (pd_title p), pd_summary := trim_space (pd_summary p),
         pd_deliverables := Some ds, pd_key_requirements := Some ks, pd_risk_warnings := Some ws,
         pd_generated_tasks := Some gs\<rparr>)"
  (is "?l \<longleftrightarrow> ?r")
proof
  assume ?l
  then show ?r
    by (auto simp: normalizeAndValidate_def valid_content_def Let_def ai_normalizeStrings_eq
        ai_normalize_tasks_eq not_less split: if_splits sum.splits option.splits)
next
  assume ?r
  then show ?l
    by (auto simp: normalizeAndValidate_def valid_content_def Let_def
        ai_normalizeStrings_eq [THEN iffD2] ai_normalize_tasks_eq [THEN iffD2])
qed

lemma normalizeUpdate_as_review:
  "normalizeUpdate (Some (as_review v p)) = Inr n \<longleftrightarrow> 1 \<le> v \<and> valid_content (pd_title p) (pd_summary p)
   \<and> (\<exists>ds ks ws gts gs. normalizeStrings (pd_deliverables p) 50 1000 = Inr ds
     \<and> normalizeStrings (pd_key_requirements p) 100 1000 = Inr ks
     \<and> normalizeStrings (pd_risk_warnings p) 50 1000 = Inr ws
     \<and> pd_generated_tasks p = Some gts \<and> length gts \<le> 100
     \<and> traverse result_normalizeTask gts = Inr gs
     \<and> n = as_review v (p\<lparr>pd_title := trim_space (pd_title p), pd_summary := trim_space (pd_summary p),
         pd_deliverables := Some ds, pd_key_requirements := Some ks, pd_risk_warnings := Some ws,
         pd_generated_tasks := Some gs\<rparr>))"
  (is "?l \<longleftrightarrow> ?r")
proof
  assume ?l
  then show ?r
    by (auto simp: normalizeUpdate_def as_review_def valid_content_def Let_def not_less
        split: if_splits sum.splits option.splits)
next
  assume ?r
  then show ?l
    by (auto simp: normalizeUpdate_def as_review_def valid_content_def Let_def)
qed

text \<open>
  C34: The parser accepts exactly what a reviewer could have sent with every priority
  filled in. A document passes \<open>normalizeAndValidate\<close> if and only if a review with the same
  contents passes \<open>normalizeUpdate\<close> and no task leaves its priority empty, and both turn it
  into the same title, summary, lists and tasks.
\<close>

theorem ai_validator_agrees:
  assumes "1 \<le> v"
  shows "(\<exists>q. normalizeAndValidate p = Inr q \<and> n = as_review v q) \<longleftrightarrow>
    normalizeUpdate (Some (as_review v p)) = Inr n
    \<and> list_all (\<lambda>g. gt_priority g \<noteq> []) (or_empty (pd_generated_tasks p))"
  using assms unfolding normalizeAndValidate_Inr normalizeUpdate_as_review
  by (auto simp: or_empty_def)

definition sample_parsed :: parsed_document where
  "sample_parsed =
     \<lparr>pd_title = '' plan'', pd_summary = ''s'', pd_deadline = None, pd_deliverables = Some [''d'', ''d ''],
      pd_key_requirements = Some [], pd_risk_warnings = Some [],
      pd_generated_tasks = Some [\<lparr>gt_title = ''write '', gt_description = None, gt_priority = ''high'',
        gt_deadline = None\<rparr>], pd_model = ''m''\<rparr>"

definition sample_validated :: parsed_document where
  "sample_validated = sample_parsed\<lparr>pd_title := ''plan'', pd_deliverables := Some [''d''],
     pd_generated_tasks := Some [\<lparr>gt_title = ''write'', gt_description = None, gt_priority = ''high'',
        gt_deadline = None\<rparr>]\<rparr>"

lemma normalize_sample_parsed: "normalizeAndValidate sample_parsed = Inr sample_validated"
  by (simp add: normalizeAndValidate_Inr valid_content_def sample_parsed_def sample_validated_def
      normalizeStrings_eq result_normalizeTask_def Let_def ascii_simps)

theorem ai_validator_agrees_witness:
  "normalizeUpdate (Some (as_review 1 sample_parsed)) = Inr (as_review 1 sample_validated)"
  using ai_validator_agrees [of 1 sample_parsed "as_review 1 sample_validated"] normalize_sample_parsed
  by auto

section \<open>From the worker to the project\<close>

lemma project_normal_fixed: "normal_task g \<Longrightarrow> project_normalizeTask g = Inr g"
  by (cases "gt_description g") (auto simp: normal_task_def project_normalizeTask_def Let_def)

lemma decode_marshal:
  assumes "codec_ok c" "list_all normal_task gs" "list_all valid_task gs" "length gs \<le> 100"
  shows "decodeGeneratedTasks c (marshal_tasks c (Some gs)) = Inr gs"
proof -
  have "map coerce_task gs = gs" using assms(3) by (simp add: list_all_iff map_idI)
  moreover have "traverse project_normalizeTask gs = Inr gs"
    using traverse_Inr_map [of gs project_normalizeTask "\<lambda>g. g"] assms(2)
    by (simp add: list_all_iff project_normal_fixed)
  ultimately show ?thesis
    using assms(1,4) by (simp add: decodeGeneratedTasks_def unmarshal_marshal_tasks maxGeneratedTasks_def)
qed

lemma normalizeAndValidate_tasks:
  assumes "normalizeAndValidate p = Inr q" "list_all valid_task (or_empty (pd_generated_tasks p))"
  shows "\<exists>gs. pd_generated_tasks q = Some gs \<and> length gs \<le> 100
    \<and> list_all normal_task gs \<and> list_all valid_task gs"
proof -
  obtain gts gs where g: "pd_generated_tasks p = Some gts" "length gts \<le> 100"
    and tr: "traverse result_normalizeTask gts = Inr gs" and q: "pd_generated_tasks q = Some gs"
    using assms(1) unfolding normalizeAndValidate_Inr by auto
  have "list_all2 (\<lambda>x y. result_normalizeTask x = Inr y) gts gs" using tr by (simp add: traverse_Inr)
  moreover have "list_all valid_task gts" using assms(2) g(1) by (simp add: or_empty_def)
  ultimately have "list_all valid_task gs"
    by (auto simp: list_all2_conv_all_nth list_all_length) (metis result_normalizeTask_valid)
  then show ?thesis using q g(2) result_normalize_all [OF tr] list_all2_lengthD [OF traverse_Inr_all2 [OF tr]]
    by auto
qed

lemma worker_completeJob_schema_ok:
  assumes "schema_ok s" "worker_completeJob c e j p s = (Inr x, s')"
  shows "schema_ok s'" "parse_results s' = parse_results s @ [new_result c e j p]" "projects s' = projects s"
    "new_id e 0 \<notin> res_id ` set (parse_results s)" "tasks s' = tasks s"
proof -
  let ?s1 = "s\<lparr>parse_results := parse_results s @ [new_result c e j p]\<rparr>"
  obtain k where v: "parse_results_violation s (parse_results s @ [new_result c e j p]) = None"
    and ed: "job_edit ?s1 k (job_completed e k) s'"
    using worker_completeJob_Inr [OF assms(2,1)] by blast
  have "schema_ok ?s1" by (rule schema_ok_parse_results [OF assms(1) v]) auto
  then show "schema_ok s'" using job_edit_schema_ok [OF _ ed] by simp
  show "parse_results s' = parse_results s @ [new_result c e j p]" "projects s' = projects s" "tasks s' = tasks s"
    using ed by (simp_all add: job_edit_def)
  show "new_id e 0 \<notin> res_id ` set (parse_results s)"
    using v by (auto simp: parse_results_violation_def)
qed

lemma projects_refer: "schema_ok s \<Longrightarrow> prj_parse_result_id ` set (projects s) \<subseteq> res_id ` set (parse_results s)"
  by (auto simp: schema_ok_def projects_violation_def project_refs_def list_all_iff)

text \<open>The confirmation of a result the worker just stored.\<close>

lemma confirm_new_result:
  assumes ok: "schema_ok s" and fin: "worker_completeJob c e1 j q s = (Inr x, s1)"
    and conf: "result_Confirm c e2 (job_user_id j) (new_id e1 0) s1 = (Inr resp, s2)"
  defines "r \<equiv> result_Confirm_set e2 (new_result c e1 j q)"
  shows "schema_ok s2" "r \<in> set (parse_results s2)" "projects s2 = projects s"
    "new_id e1 0 \<notin> prj_parse_result_id ` set (projects s2)"
proof -
  note s1 = worker_completeJob_schema_ok [OF ok fin]
  obtain p' where tx: "result_Confirm_tx e2 (job_user_id j) (new_id e1 0) s1 = Inr (p', s2)"
    using conf by (auto simp: result_Confirm_def transaction_Inr split: if_splits sum.splits prod.splits)
  from result_Confirm_tx_Inr [OF tx s1(1)] obtain p where p: "own_result (job_user_id j) (new_id e1 0) p s1"
    and ed: "if res_is_confirmed p then p' = p \<and> s2 = s1
       else p' = result_Confirm_set e2 p \<and> result_edit s1 p p' s2" by blast
  have "p \<notin> set (parse_results s)" using p s1(4) imageI [of p "set (parse_results s)" res_id]
    by (auto simp: own_result_def)
  then have "p = new_result c e1 j q" using p s1(2) by (simp add: own_result_def)
  then have ed': "result_edit s1 (new_result c e1 j q) r s2" using ed by (auto simp: r_def)
  then show "schema_ok s2" using result_edit_schema_ok [OF s1(1)] by (auto simp: r_def)
  show "r \<in> set (parse_results s2)"
    using ed' set_replace_row [of "new_result c e1 j q" "parse_results s1" res_id r]
    by (auto simp: result_edit_def r_def)
  show 1: "projects s2 = projects s" using ed' s1(3) by (simp add: result_edit_def)
  show "new_id e1 0 \<notin> prj_parse_result_id ` set (projects s2)"
    using s1(4) projects_refer [OF ok] 1 by auto
qed

text \<open>
  C7: From the AI's answer to the project nothing is lost or altered. Take a document that
  passed the parser's validation, stored by the worker as the result of a job, confirmed by
  its owner, and turned into a project, each step at its own time: the project carries the
  summary and deadline of the validated document, and its tasks are the validated tasks, in
  their order, with their titles, descriptions, priorities and deadlines, all to do. What
  the parser lets through, the project service never refuses.
\<close>

theorem validated_document_becomes_project:
  assumes "schema_ok s" "codec_ok c" "normalizeAndValidate p = Inr q"
    and "list_all valid_task (or_empty (pd_generated_tasks p))"
    and "worker_completeJob c e1 j q s = (Inr x, s1)"
    and "result_Confirm c e2 (job_user_id j) (new_id e1 0) s1 = (Inr resp, s2)"
    and "no_faults e3" "project_normalizeRequest (job_user_id j) (Some rq) = Inr name"
    and "cpr_parse_result_id rq = new_id e1 0"
    and "fresh_project_ids e3 (length (or_empty (pd_generated_tasks q))) s2"
  shows "\<exists>prj ts. project_Create c e3 (job_user_id j) (Some rq) s2 =
        (Inr (createProjectResponse prj ts, True),
         s2\<lparr>projects := projects s2 @ [prj], tasks := tasks s2 @ ts\<rparr>)
    \<and> prj_name prj = name \<and> prj_description prj = Some (pd_summary q) \<and> prj_deadline prj = pd_deadline q
    \<and> prj_source_document_id prj = job_document_id j
    \<and> map (\<lambda>t. \<lparr>gt_title = tsk_title t, gt_description = tsk_description t,
          gt_priority = tsk_priority t, gt_deadline = tsk_deadline t\<rparr>) ts = or_empty (pd_generated_tasks q)
    \<and> map tsk_sort_order ts = map int [0..<length ts] \<and> list_all (\<lambda>t. tsk_status t = ''todo'') ts"
proof -
  let ?u = "job_user_id j" and ?r = "result_Confirm_set e2 (new_result c e1 j q)"
  obtain gs where gs: "pd_generated_tasks q = Some gs" "length gs \<le> 100"
    and nv: "list_all normal_task gs" "list_all valid_task gs"
    using normalizeAndValidate_tasks [OF assms(3,4)] by blast
  note conf = confirm_new_result [OF assms(1,5,6)]
  have dec: "decodeGeneratedTasks c (res_generated_tasks ?r) = Inr gs"
    using decode_marshal [OF assms(2) nv gs(2)] gs(1) by simp
  let ?p = "new_project e3 ?u name ?r" and ?ts = "new_project_tasks e3 ?u (new_id e3 0) (res_id ?r) gs"
  have create: "project_Create c e3 ?u (Some rq) s2 = (Inr (createProjectResponse ?p ?ts, True),
      s2\<lparr>projects := projects s2 @ [?p], tasks := tasks s2 @ ?ts\<rparr>)"
    using conf assms(9,10) gs(1)
    by (intro project_Create_fresh [OF conf(1) assms(7,8) conf(2) _ _ _ dec]) (auto simp: or_empty_def)
  have "map (\<lambda>t. \<lparr>gt_title = tsk_title t, gt_description = tsk_description t,
          gt_priority = tsk_priority t, gt_deadline = tsk_deadline t\<rparr>) ?ts = gs"
    by (rule nth_equalityI) (simp_all add: new_project_task_def)
  moreover have "map tsk_sort_order ?ts = map int [0..<length ?ts]"
    using gs(2) by (intro nth_equalityI) simp_all
  moreover have "list_all (\<lambda>t. tsk_status t = ''todo'') ?ts"
    by (simp add: list_all_length new_project_task_def)
  ultimately show ?thesis
    using create gs(1)
    by (intro exI [of _ ?p] exI [of _ ?ts])
      (simp add: or_empty_def new_project_def result_Confirm_set_def new_result_def)
qed

lemma sample_document_validates:
  "list_all valid_task (or_empty (pd_generated_tasks sample_parsed))"
  by (simp add: sample_parsed_def or_empty_def valid_task_def valid_utf8_ascii)

lemma sample_create_pending:
  "project_normalizeRequest 1 (Some (sample_create\<lparr>cpr_parse_result_id := 100\<rparr>)) = Inr ''n''"
  using normalize_sample_create by (simp add: project_normalizeRequest_def sample_create_def)

lemma parseResultResponse_new:
  "codec_ok c \<Longrightarrow> pd_deliverables q = Some ds \<Longrightarrow> pd_key_requirements q = Some ks
     \<Longrightarrow> pd_risk_warnings q = Some ws \<Longrightarrow> pd_generated_tasks q = Some gs
     \<Longrightarrow> \<exists>resp. parseResultResponse c (result_Confirm_set e2 (new_result c e j q)) = Inr resp"
  by (simp add: parseResultResponse_def new_result_def result_Confirm_set_def
      unmarshal_marshal_strings unmarshal_marshal_tasks)

theorem validated_document_becomes_project_witness:
  "\<exists>s1 s2 prj ts resp.
     worker_completeJob sample_codec sample_env (job_claimed sample_env pending_job) sample_validated
       (pending_db\<lparr>parse_jobs := replace_row job_id (job_claimed sample_env pending_job) (parse_jobs pending_db)\<rparr>)
       = (Inr (), s1)
     \<and> result_Confirm sample_codec sample_env 1 100 s1 = (Inr resp, s2)
     \<and> fst (project_Create sample_codec sample_env 1 (Some (sample_create\<lparr>cpr_parse_result_id := 100\<rparr>)) s2)
       = Inr (createProjectResponse prj ts, True)
     \<and> prj_name prj = ''n'' \<and> prj_description prj = Some (pd_summary sample_validated) \<and> map tsk_title ts = [''write'']"
proof -
  let ?j = "job_claimed sample_env pending_job" and ?q = sample_validated
  let ?s = "pending_db\<lparr>parse_jobs := replace_row job_id ?j (parse_jobs pending_db)\<rparr>"
  let ?n = "new_result sample_codec sample_env ?j ?q"
  have ok: "schema_ok ?s"
    using claimed_violation [OF schema_ok_pending pending_db_sel(1,2)]
    by (intro job_edit_schema_ok [OF schema_ok_pending, of pending_job ?j]) (simp_all add: job_edit_def)
  have j: "?j \<in> set (parse_jobs ?s)"
    using set_replace_row [of pending_job "parse_jobs pending_db" job_id ?j] by simp
  have "parse_results_violation pending_db (parse_results sample_db) = None"
    using schema_ok_pending unfolding schema_ok_def by simp
  moreover have "parse_result_refs ?s = parse_result_refs pending_db" by (rule parse_result_refs_jobs) simp_all
  moreover have "parse_result_check ?n \<and> parse_result_refs pending_db ?n"
    by (simp add: parse_result_check_def parse_result_refs_def new_result_def int4_def varchar_def
        sample_validated_def sample_parsed_def rune_count_ascii pending_db_def pending_job_def sample_defs replace_row_def)
  ultimately have v: "parse_results_violation ?s (parse_results ?s @ [?n]) = None"
    by (simp add: parse_results_violation_def sample_db_def sample_result_def)
  obtain s1 where fin: "worker_completeJob sample_codec sample_env ?j ?q ?s = (Inr (), s1)"
    using worker_completeJob_no_faults [OF no_faults_sample_env ok j _ refl v] by simp
  note s1 = worker_completeJob_schema_ok [OF ok fin]
  have "own_result 1 100 ?n s1" using s1(2) by (simp add: own_result_def)
  note conf = result_Confirm_no_faults [OF no_faults_sample_env s1(1) this]
  obtain resp where "parseResultResponse sample_codec (result_Confirm_set sample_env ?n) = Inr resp"
    using parseResultResponse_new [OF codec_ok_sample] by (fastforce simp: sample_validated_def sample_parsed_def)
  then obtain s2 where c2: "result_Confirm sample_codec sample_env 1 100 s1 = (Inr resp, s2)"
    using conf by simp
  have "projects s2 = projects sample_db" "tasks s2 = tasks sample_db"
    using conf c2 s1(3,5) by (auto simp: store_result_def pending_db_def)
  then have "fresh_project_ids sample_env (length (or_empty (pd_generated_tasks ?q))) s2"
    using fresh_sample by (simp add: fresh_project_ids_def sample_validated_def or_empty_def)
  then obtain prj ts where create: "project_Create sample_codec sample_env 1 (Some (sample_create\<lparr>cpr_parse_result_id := 100\<rparr>)) s2
      = (Inr (createProjectResponse prj ts, True), s2\<lparr>projects := projects s2 @ [prj], tasks := tasks s2 @ ts\<rparr>)"
    and prj: "prj_name prj = ''n''" "prj_description prj = Some (pd_summary ?q)"
    and ts: "map (\<lambda>t. \<lparr>gt_title = tsk_title t, gt_description = tsk_description t,
          gt_priority = tsk_priority t, gt_deadline = tsk_deadline t\<rparr>) ts = or_empty (pd_generated_tasks ?q)"
    using validated_document_becomes_project [OF ok codec_ok_sample normalize_sample_parsed sample_document_validates
        fin _ no_faults_sample_env, of sample_env resp s2 "sample_create\<lparr>cpr_parse_result_id := 100\<rparr>" "''n''"]
      c2 sample_create_pending by (auto simp: sample_create_def)
  have "map tsk_title ts = map gt_title (or_empty (pd_generated_tasks ?q))" by (simp add: ts [symmetric])
  then have "map tsk_title ts = [''write'']" by (simp add: sample_validated_def or_empty_def)
  then show ?thesis using fin c2 create prj
    by (intro exI [of _ s1] exI [of _ s2] exI [of _ prj] exI [of _ ts] exI [of _ resp]) simp
qed

end
