(* ===== verification/Encoding.thy ===== *)
theory Encoding
  imports GoStrings
begin

text \<open>
  The encodings of the standard library that tokens and the cache rely on: unpadded URL
  base64 (\<open>base64.RawURLEncoding\<close>), \<open>strconv.FormatInt\<close> and \<open>ParseInt\<close>, and
  \<open>strings.Split\<close> on one separator. Bytes are characters.
\<close>

section \<open>base64.RawURLEncoding\<close>

definition b64_char :: "nat \<Rightarrow> char" where
  "b64_char n =
     char_of (if n < 26 then 65 + n else if n < 52 then 71 + n else if n < 62 then n - 4
              else if n = 62 then 45 else 95)"

definition b64_index :: "char \<Rightarrow> nat option" where
  "b64_index c =
     (let n = of_char c in
      if 65 \<le> n \<and> n \<le> 90 then Some (n - 65)
      else if 97 \<le> n \<and> n \<le> 122 then Some (n - 71)
      else if 48 \<le> n \<and> n \<le> 57 then Some (n + 4)
      else if n = 45 then Some 62 else if n = 95 then Some 63 else None)"

fun b64_sextets :: "nat list \<Rightarrow> nat list" where
  "b64_sextets [] = []"
| "b64_sextets [x] = [x div 4, x mod 4 * 16]"
| "b64_sextets [x, y] = [x div 4, x mod 4 * 16 + y div 16, y mod 16 * 4]"
| "b64_sextets (x # y # z # s) =
     [x div 4, x mod 4 * 16 + y div 16, y mod 16 * 4 + z div 64, z mod 64] @ b64_sextets s"

definition b64_encode :: "string \<Rightarrow> string" where
  "b64_encode s = map b64_char (b64_sextets (map of_char s))"

text \<open>A quantum of two or three characters ends the input; one character is an error.\<close>

fun b64_octets :: "nat list \<Rightarrow> nat list option" where
  "b64_octets [] = Some []"
| "b64_octets [p] = None"
| "b64_octets [p, q] = Some [p * 4 + q div 16]"
| "b64_octets [p, q, r] = Some [p * 4 + q div 16, q mod 16 * 16 + r div 4]"
| "b64_octets (p # q # r # t # s) =
     map_option (\<lambda>bs. [p * 4 + q div 16, q mod 16 * 16 + r div 4, r mod 4 * 64 + t] @ bs) (b64_octets s)"

fun b64_indices :: "string \<Rightarrow> nat list option" where
  "b64_indices [] = Some []"
| "b64_indices (c # s) =
     (if c = CHR 0x0A \<or> c = CHR 0x0D then b64_indices s
      else case b64_index c of
        None \<Rightarrow> None | Some n \<Rightarrow> map_option ((#) n) (b64_indices s))"

definition b64_decode :: "string \<Rightarrow> string option" where
  "b64_decode s = map_option (map char_of) (Option.bind (b64_indices s) b64_octets)"

lemma b64_index_char [simp]: "n < 64 \<Longrightarrow> b64_index (b64_char n) = Some n"
  by (auto simp: b64_index_def b64_char_def Let_def)

lemma b64_char_not_space [simp]:
  assumes "n < 64"
  shows "b64_char n \<noteq> CHR 0x0A" "b64_char n \<noteq> CHR 0x0D" "b64_char n \<noteq> CHR ''.''"
proof -
  have "b64_index (CHR 0x0A) = None" "b64_index (CHR 0x0D) = None" "b64_index (CHR ''.'') = None"
    by (simp_all add: b64_index_def)
  then show "b64_char n \<noteq> CHR 0x0A" "b64_char n \<noteq> CHR 0x0D" "b64_char n \<noteq> CHR ''.''"
    using b64_index_char [OF assms] by auto
qed

lemma b64_sextets_bound: "list_all (\<lambda>x. x < 256) xs \<Longrightarrow> list_all (\<lambda>n. n < 64) (b64_sextets xs)"
  by (induction xs rule: b64_sextets.induct) auto

lemma b64_octets_sextets: "list_all (\<lambda>x. x < 256) xs \<Longrightarrow> b64_octets (b64_sextets xs) = Some xs"
  by (induction xs rule: b64_sextets.induct) auto

lemma b64_indices_map: "list_all (\<lambda>n. n < 64) ns \<Longrightarrow> b64_indices (map b64_char ns) = Some ns"
  by (induction ns) auto

lemma bytes_bound: "list_all (\<lambda>x. x < 256) (map of_char (s :: string) :: nat list)"
  by (simp add: list_all_iff)

lemma b64_decode_encode [simp]: "b64_decode (b64_encode s) = Some s"
proof -
  have "b64_indices (b64_encode s) = Some (b64_sextets (map of_char s))"
    unfolding b64_encode_def by (intro b64_indices_map b64_sextets_bound bytes_bound)
  then show ?thesis
    by (simp add: b64_decode_def b64_octets_sextets [OF bytes_bound] comp_def)
qed

lemma b64_encode_inject: "b64_encode s = b64_encode t \<longleftrightarrow> s = t"
  by (metis b64_decode_encode option.inject)

lemma b64_encode_no_dot: "CHR ''.'' \<notin> set (b64_encode s)"
  using b64_sextets_bound [OF bytes_bound, of s]
  by (fastforce simp: b64_encode_def list_all_iff dest: b64_char_not_space(3))

lemma b64_encode_ascii: "list_all (\<lambda>c. of_char c < (128::nat)) (b64_encode s)"
proof -
  have "of_char (b64_char n) < (128::nat)" if "n < 64" for n
    using that by (auto simp: b64_char_def)
  then show ?thesis
    using b64_sextets_bound [OF bytes_bound, of s] by (simp add: b64_encode_def list_all_iff)
qed

section \<open>strings.Split\<close>

fun split_on :: "char \<Rightarrow> string \<Rightarrow> string list" where
  "split_on d [] = [[]]"
| "split_on d (c # s) =
     (if c = d then [] # split_on d s
      else case split_on d s of [] \<Rightarrow> [[c]] | p # ps \<Rightarrow> (c # p) # ps)"

lemma split_on_not_Nil [simp]: "split_on d s \<noteq> []"
  by (induction s) (auto split: list.splits)

lemma split_on_clean: "d \<notin> set s \<Longrightarrow> split_on d s = [s]"
  by (induction s) auto

lemma split_on_append: "d \<notin> set s \<Longrightarrow> split_on d (s @ d # t) = s # split_on d t"
  by (induction s) auto

section \<open>strconv\<close>

definition digits_value :: "string \<Rightarrow> int" where
  "digits_value s = foldl (\<lambda>n c. 10 * n + (int (of_char c) - 48)) 0 s"

text \<open>A decimal literal with an optional sign; \<open>ParseInt(s, 10, 64)\<close> also checks the range.\<close>

definition parse_decimal :: "string \<Rightarrow> int option" where
  "parse_decimal s =
     (case s of
        [] \<Rightarrow> None
      | c # t \<Rightarrow>
          if c = CHR ''-'' then (if t \<noteq> [] \<and> list_all digit t then Some (- digits_value t) else None)
          else if c = CHR ''+'' then (if t \<noteq> [] \<and> list_all digit t then Some (digits_value t) else None)
          else if list_all digit s then Some (digits_value s) else None)"

definition parse_int64 :: "string \<Rightarrow> int option" where
  "parse_int64 s =
     (case parse_decimal s of
        None \<Rightarrow> None
      | Some n \<Rightarrow> if - 9223372036854775808 \<le> n \<and> n < 9223372036854775808 then Some n else None)"

lemma digits_value_dec [simp]: "digits_value (dec n) = int n"
proof (induction n rule: dec.induct)
  case (1 n)
  show ?case
  proof (cases "n < 10")
    case True
    then show ?thesis by (subst dec.simps) (simp add: digits_value_def)
  next
    case False
    then have "digits_value (dec (n div 10)) = int (n div 10)" using 1 by simp
    moreover have "int n = 10 * int (n div 10) + int (n mod 10)" by (simp add: zdiv_int zmod_int)
    ultimately show ?thesis using False
      by (subst dec.simps) (simp add: digits_value_def)
  qed
qed

lemma hd_dec_digit: "\<exists>c t. dec n = c # t \<and> digit c"
  using dec_digits [of n] by (cases "dec n") auto

lemma not_digit_sign: "\<not> digit (CHR ''-'')" "\<not> digit (CHR ''+'')"
  by (simp_all add: digit_def byte_in_def)

lemma parse_decimal_dec_int [simp]: "parse_decimal (dec_int n) = Some n"
proof (cases "n < 0")
  case True
  then show ?thesis by (simp add: parse_decimal_def dec_int_def dec_digits)
next
  case False
  obtain c t where ct: "dec (nat n) = c # t" "digit c" using hd_dec_digit by blast
  then have "c \<noteq> CHR ''-''" "c \<noteq> CHR ''+''" using not_digit_sign by auto
  moreover have "list_all digit (c # t)" "digits_value (c # t) = n"
    using dec_digits [of "nat n"] digits_value_dec [of "nat n"] ct False by simp_all
  ultimately show ?thesis using False ct by (simp add: parse_decimal_def dec_int_def)
qed

lemma parse_int64_dec_int:
  "- 9223372036854775808 \<le> n \<Longrightarrow> n < 9223372036854775808 \<Longrightarrow> parse_int64 (dec_int n) = Some n"
  by (simp add: parse_int64_def)

lemma dec_int_inject [simp]: "dec_int m = dec_int n \<longleftrightarrow> m = n"
  by (metis option.inject parse_decimal_dec_int)

end
