(* ===== verification/Tokens.thy ===== *)
theory Tokens
  imports Encoding Json Store
begin

text \<open>
  \<open>pkg/auth\<close>: refresh tokens (\<open>refresh.go\<close>) and access tokens (\<open>jwt.go\<close>). SHA-256,
  HMAC-SHA-256 and bcrypt are parameters (\<open>crypto\<close>), as is the text of a JSON value
  (\<open>json_text\<close>); the encodings, the structure of the tokens and every check are the code's.
  A time is in nanoseconds.
\<close>

record crypto =
  sha256 :: "string \<Rightarrow> string"
  hmac_sha256 :: "string \<Rightarrow> string \<Rightarrow> string"
  bcrypt_hash :: "string \<Rightarrow> string option"
  bcrypt_compare :: "string \<Rightarrow> string \<Rightarrow> bool"

record json_text =
  print_json :: "json \<Rightarrow> string"
  parse_json :: "string \<Rightarrow> json option"

definition unix :: "int \<Rightarrow> int" where
  "unix t = t div 1000000000"

section \<open>Refresh tokens\<close>

record refresh_token =
  rt_raw :: string
  rt_session_id :: string
  rt_hash :: string

record refresh_session =
  rs_id :: string
  rs_user_id :: int
  rs_email :: string
  rs_nickname :: string
  rs_avatar_url :: "string option"
  rs_expires_at :: int

definition token_invalid :: error where
  "token_invalid = ErrNew ''invalid refresh token''"

text \<open>\<open>rand.Read\<close> of the \<open>k\<close>-th 32 bytes of a request.\<close>

definition randomSegment :: "env \<Rightarrow> (nat \<Rightarrow> string) \<Rightarrow> nat \<Rightarrow> error + string" where
  "randomSegment e rnd k =
     (if fault e ''rand'' k then Inl (ErrNew ''read random bytes'') else Inr (b64_encode (rnd k)))"

definition validSegment :: "string \<Rightarrow> bool" where
  "validSegment value' = (case b64_decode value' of None \<Rightarrow> False | Some decoded \<Rightarrow> length decoded = 32)"

definition hashToken :: "crypto \<Rightarrow> string \<Rightarrow> string" where
  "hashToken cr raw = hex_encode (map of_char (sha256 cr raw))"

definition GenerateRefreshToken ::
  "crypto \<Rightarrow> env \<Rightarrow> (nat \<Rightarrow> string) \<Rightarrow> string \<Rightarrow> error + refresh_token" where
  "GenerateRefreshToken cr e rnd sessionID =
     (case (if sessionID = [] then randomSegment e rnd 0 else Inr sessionID) of
        Inl err \<Rightarrow> Inl err
      | Inr sid \<Rightarrow>
          if \<not> validSegment sid then Inl token_invalid
          else
            (case randomSegment e rnd 1 of
               Inl err \<Rightarrow> Inl err
             | Inr secret \<Rightarrow>
                 let raw = sid @ ''.'' @ secret in
                 Inr \<lparr>rt_raw = raw, rt_session_id = sid, rt_hash = hashToken cr raw\<rparr>))"

definition ParseRefreshToken :: "crypto \<Rightarrow> string \<Rightarrow> error + refresh_token" where
  "ParseRefreshToken cr raw0 =
     (let raw = trim_space raw0 in
      case split_on (CHR ''.'') raw of
        [p, q] \<Rightarrow>
          if \<not> validSegment p \<or> \<not> validSegment q then Inl token_invalid
          else Inr \<lparr>rt_raw = raw, rt_session_id = p, rt_hash = hashToken cr raw\<rparr>
      | _ \<Rightarrow> Inl token_invalid)"

section \<open>Access tokens\<close>

record claims =
  cl_user_id :: int
  cl_email :: string
  cl_nickname :: string

record manager =
  secret :: string
  expire_seconds :: int

record jwt_payload =
  jp_claims :: claims
  jp_exp :: int
  jp_iat :: int

datatype token_error = ErrInvalidJWTConfig | ErrInvalidToken | ErrExpiredToken

definition token_error_of :: "token_error \<Rightarrow> error" where
  "token_error_of x = ErrNew (case x of
       ErrInvalidJWTConfig \<Rightarrow> ''jwt manager is misconfigured''
     | ErrInvalidToken \<Rightarrow> ''invalid token''
     | ErrExpiredToken \<Rightarrow> ''token expired'')"

definition manager_valid :: "manager option \<Rightarrow> bool" where
  "manager_valid m = (case m of None \<Rightarrow> False | Some x \<Rightarrow> secret x \<noteq> [] \<and> 0 < expire_seconds x)"

definition jwt_header_json :: json where
  "jwt_header_json = JObj [(''alg'', JStr ''HS256''), (''typ'', JStr ''JWT'')]"

definition marshal_payload :: "jwt_payload \<Rightarrow> json" where
  "marshal_payload p = JObj
     [(''user_id'', JNum (dec_int (cl_user_id (jp_claims p)))),
      (''email'', marshal_string (cl_email (jp_claims p))),
      (''nickname'', marshal_string (cl_nickname (jp_claims p))),
      (''exp'', JNum (dec_int (jp_exp p))),
      (''iat'', JNum (dec_int (jp_iat p)))]"

definition signHS256 :: "crypto \<Rightarrow> string \<Rightarrow> string \<Rightarrow> string" where
  "signHS256 cr signingInput key = hmac_sha256 cr signingInput key"

definition GenerateToken ::
  "crypto \<Rightarrow> json_text \<Rightarrow> manager option \<Rightarrow> int \<Rightarrow> claims \<Rightarrow> token_error + string" where
  "GenerateToken cr jt m t c =
     (case m of
        None \<Rightarrow> Inl ErrInvalidJWTConfig
      | Some x \<Rightarrow>
          if \<not> manager_valid m then Inl ErrInvalidJWTConfig
          else
            let payload = \<lparr>jp_claims = c, jp_exp = int64_wrap (unix t + expire_seconds x), jp_iat = unix t\<rparr>;
                signingInput = b64_encode (print_json jt jwt_header_json) @ ''.''
                  @ b64_encode (print_json jt (marshal_payload payload)) in
            Inr (signingInput @ ''.'' @ b64_encode (signHS256 cr signingInput (secret x))))"

text \<open>\<open>json.Unmarshal\<close> into a struct: field by field, the last value of a name wins.\<close>

fun unmarshal_into :: "(string \<Rightarrow> json \<Rightarrow> 'a \<Rightarrow> 'a option) \<Rightarrow> (string \<times> json) list \<Rightarrow> 'a \<Rightarrow> 'a option" where
  "unmarshal_into f [] x = Some x"
| "unmarshal_into f ((k, v) # kvs) x =
     (case f (fold_key k) v x of None \<Rightarrow> None | Some y \<Rightarrow> unmarshal_into f kvs y)"

definition unmarshal_struct :: "(string \<Rightarrow> json \<Rightarrow> 'a \<Rightarrow> 'a option) \<Rightarrow> 'a \<Rightarrow> json \<Rightarrow> 'a option" where
  "unmarshal_struct f zero j =
     (case j of JNull \<Rightarrow> Some zero | JObj kvs \<Rightarrow> unmarshal_into f kvs zero | _ \<Rightarrow> None)"

definition unmarshal_int64 :: "int \<Rightarrow> json \<Rightarrow> int option" where
  "unmarshal_int64 old j = (case j of JNull \<Rightarrow> Some old | JNum s \<Rightarrow> parse_int64 s | _ \<Rightarrow> None)"

definition header_field :: "string \<Rightarrow> json \<Rightarrow> string \<times> string \<Rightarrow> (string \<times> string) option" where
  "header_field k v x =
     (if k = ''alg'' then map_option (\<lambda>s. (s, snd x)) (unmarshal_text (fst x) v)
      else if k = ''typ'' then map_option (\<lambda>s. (fst x, s)) (unmarshal_text (snd x) v)
      else Some x)"

definition payload_field :: "string \<Rightarrow> json \<Rightarrow> jwt_payload \<Rightarrow> jwt_payload option" where
  "payload_field k v p =
     (let c = jp_claims p in
      if k = ''user_id'' then
        map_option (\<lambda>n. p\<lparr>jp_claims := c\<lparr>cl_user_id := n\<rparr>\<rparr>) (unmarshal_int64 (cl_user_id c) v)
      else if k = ''email'' then
        map_option (\<lambda>s. p\<lparr>jp_claims := c\<lparr>cl_email := s\<rparr>\<rparr>) (unmarshal_text (cl_email c) v)
      else if k = ''nickname'' then
        map_option (\<lambda>s. p\<lparr>jp_claims := c\<lparr>cl_nickname := s\<rparr>\<rparr>) (unmarshal_text (cl_nickname c) v)
      else if k = ''exp'' then map_option (\<lambda>n. p\<lparr>jp_exp := n\<rparr>) (unmarshal_int64 (jp_exp p) v)
      else if k = ''iat'' then map_option (\<lambda>n. p\<lparr>jp_iat := n\<rparr>) (unmarshal_int64 (jp_iat p) v)
      else Some p)"

definition zero_payload :: jwt_payload where
  "zero_payload =
     \<lparr>jp_claims = \<lparr>cl_user_id = 0, cl_email = [], cl_nickname = []\<rparr>, jp_exp = 0, jp_iat = 0\<rparr>"

definition unmarshal_segment ::
  "json_text \<Rightarrow> (string \<Rightarrow> json \<Rightarrow> 'a \<Rightarrow> 'a option) \<Rightarrow> 'a \<Rightarrow> string \<Rightarrow> 'a option" where
  "unmarshal_segment jt f zero segment =
     (case b64_decode segment of
        None \<Rightarrow> None
      | Some bytes \<Rightarrow> (case parse_json jt bytes of None \<Rightarrow> None | Some j \<Rightarrow> unmarshal_struct f zero j))"

definition ParseToken ::
  "crypto \<Rightarrow> json_text \<Rightarrow> manager option \<Rightarrow> int \<Rightarrow> string \<Rightarrow> token_error + claims" where
  "ParseToken cr jt m t token0 =
     (case m of
        None \<Rightarrow> Inl ErrInvalidJWTConfig
      | Some x \<Rightarrow>
          if \<not> manager_valid m then Inl ErrInvalidJWTConfig
          else
            (case split_on (CHR ''.'') (trim_space token0) of
               [h, p, s] \<Rightarrow>
                 if b64_decode s \<noteq> Some (signHS256 cr (h @ ''.'' @ p) (secret x)) then Inl ErrInvalidToken
                 else if unmarshal_segment jt header_field ([], []) h \<noteq> Some (''HS256'', ''JWT'')
                   then Inl ErrInvalidToken
                 else
                   (case unmarshal_segment jt payload_field zero_payload p of
                      None \<Rightarrow> Inl ErrInvalidToken
                    | Some payload \<Rightarrow>
                        if jp_exp payload \<le> 0 then Inl ErrInvalidToken
                        else if jp_exp payload \<le> unix t then Inl ErrExpiredToken
                        else Inr (jp_claims payload))
             | _ \<Rightarrow> Inl ErrInvalidToken))"

section \<open>Round trips\<close>

definition plain_char :: "char \<Rightarrow> bool" where
  "plain_char c \<longleftrightarrow> byte_in 33 127 c"

lemma strip_plain: "list_all (\<lambda>x. \<not> P x) xs \<Longrightarrow> strip P xs = xs"
proof -
  assume a: "list_all (\<lambda>x. \<not> P x) xs"
  then have "dropWhile P xs = xs" by (cases xs) auto
  moreover have "dropWhile P (rev xs) = rev xs" using a by (cases "rev xs") (auto simp: list_all_iff)
  ultimately show ?thesis by (simp add: strip_def)
qed

lemma trim_space_plain: "list_all plain_char s \<Longrightarrow> trim_space s = s"
proof -
  assume a: "list_all plain_char s"
  then have "segments s = map (\<lambda>c. (of_char c, [c])) s"
    by (induction s) (auto simp: segments_ascii_Cons plain_char_def byte_in_def)
  moreover have "\<not> is_space (of_char c)" if "c \<in> set s" for c
  proof -
    have "33 \<le> (of_char c :: nat)" "of_char c < (128::nat)"
      using a that by (auto simp: plain_char_def byte_in_def list_all_iff)
    then show ?thesis by (auto simp: is_space_def)
  qed
  ultimately show ?thesis
    by (simp add: trim_space_def strip_plain list_all_iff comp_def)
qed

lemma plain_b64: "list_all plain_char (b64_encode s)"
proof -
  have "plain_char (b64_char n)" if "n < 64" for n
    using that by (auto simp: b64_char_def plain_char_def byte_in_def)
  then show ?thesis
    using b64_sextets_bound [OF bytes_bound, of s] by (simp add: b64_encode_def list_all_iff)
qed

lemma plain_dot: "plain_char (CHR ''.'')"
  by (simp add: plain_char_def byte_in_def)

lemma validSegment_encode [simp]: "validSegment (b64_encode s) \<longleftrightarrow> length s = 32"
  by (simp add: validSegment_def)

text \<open>What a request's random bytes are: 32 of them each time.\<close>

definition random_ok :: "(nat \<Rightarrow> string) \<Rightarrow> bool" where
  "random_ok rnd \<longleftrightarrow> (\<forall>k. length (rnd k) = 32)"

text \<open>The tokens the server hands out, for a session it names itself.\<close>

definition server_token :: "crypto \<Rightarrow> string \<Rightarrow> string \<Rightarrow> refresh_token" where
  "server_token cr sid key =
     (let raw = b64_encode sid @ ''.'' @ b64_encode key in
      \<lparr>rt_raw = raw, rt_session_id = b64_encode sid, rt_hash = hashToken cr raw\<rparr>)"

lemma server_token_sel [simp]:
  "rt_raw (server_token cr sid key) = b64_encode sid @ ''.'' @ b64_encode key"
  "rt_session_id (server_token cr sid key) = b64_encode sid"
  "rt_hash (server_token cr sid key) = hashToken cr (b64_encode sid @ ''.'' @ b64_encode key)"
  by (simp_all add: server_token_def Let_def)

lemma b64_encode_Nil [simp]: "b64_encode s = [] \<longleftrightarrow> s = []"
  using b64_encode_inject [of s "[]"] by (simp add: b64_encode_def)

lemma ParseRefreshToken_server:
  "length sid = 32 \<Longrightarrow> length key = 32
     \<Longrightarrow> ParseRefreshToken cr (rt_raw (server_token cr sid key)) = Inr (server_token cr sid key)"
proof -
  assume len: "length sid = 32" "length key = 32"
  let ?raw = "b64_encode sid @ ''.'' @ b64_encode key"
  have "trim_space ?raw = ?raw"
    by (rule trim_space_plain) (simp add: plain_b64 plain_dot)
  moreover have "split_on (CHR ''.'') ?raw = [b64_encode sid, b64_encode key]"
    by (simp add: split_on_append split_on_clean b64_encode_no_dot)
  ultimately show ?thesis using len by (simp add: ParseRefreshToken_def server_token_def Let_def)
qed

lemma GenerateRefreshToken_new:
  "random_ok rnd \<Longrightarrow> GenerateRefreshToken cr e rnd [] = Inr t \<Longrightarrow> t = server_token cr (rnd 0) (rnd 1)"
  by (auto simp: GenerateRefreshToken_def randomSegment_def random_ok_def server_token_def Let_def
      simp del: One_nat_def split: if_splits)

lemma GenerateRefreshToken_next:
  "random_ok rnd \<Longrightarrow> length sid = 32 \<Longrightarrow> GenerateRefreshToken cr e rnd (b64_encode sid) = Inr t
     \<Longrightarrow> t = server_token cr sid (rnd 1)"
  by (auto simp: GenerateRefreshToken_def randomSegment_def random_ok_def server_token_def Let_def
      simp del: One_nat_def split: if_splits)

text \<open>What the code relies on of \<open>encoding/json\<close>: a flat object of strings and integers comes back.\<close>

definition flat_value :: "json \<Rightarrow> bool" where
  "flat_value v = (case v of JStr s \<Rightarrow> valid_utf8 s | JNum s \<Rightarrow> parse_decimal s \<noteq> None | _ \<Rightarrow> False)"

definition json_text_ok :: "json_text \<Rightarrow> bool" where
  "json_text_ok jt \<longleftrightarrow> (\<forall>kvs. list_all (\<lambda>kv. valid_utf8 (fst kv) \<and> flat_value (snd kv)) kvs
     \<longrightarrow> parse_json jt (print_json jt (JObj kvs)) = Some (JObj kvs))"

lemma json_text_flat:
  "json_text_ok jt \<Longrightarrow> list_all (\<lambda>kv. valid_utf8 (fst kv) \<and> flat_value (snd kv)) kvs
     \<Longrightarrow> parse_json jt (print_json jt (JObj kvs)) = Some (JObj kvs)"
  by (simp add: json_text_ok_def)

definition int64 :: "int \<Rightarrow> bool" where
  "int64 n \<longleftrightarrow> - 9223372036854775808 \<le> n \<and> n < 9223372036854775808"

lemma parse_int64_printed [simp]: "int64 n \<Longrightarrow> parse_int64 (dec_int n) = Some n"
  by (simp add: int64_def parse_int64_dec_int)

lemma int64_wrap_int64 [simp]: "int64 n \<Longrightarrow> int64_wrap n = n"
  by (simp add: int64_def)

lemma unmarshal_header: "json_text_ok jt
  \<Longrightarrow> unmarshal_segment jt header_field ([], []) (b64_encode (print_json jt jwt_header_json)) = Some (''HS256'', ''JWT'')"
proof -
  assume ok: "json_text_ok jt"
  have "parse_json jt (print_json jt jwt_header_json) = Some jwt_header_json"
    unfolding jwt_header_json_def by (rule json_text_flat [OF ok]) (simp add: flat_value_def valid_utf8_ascii)
  then show ?thesis
    by (simp add: unmarshal_segment_def unmarshal_struct_def jwt_header_json_def header_field_def
        unmarshal_text_def fold_key_ascii lower_char_def byte_in_def)
qed

lemma unmarshal_payload:
  assumes "json_text_ok jt" "valid_utf8 (cl_email (jp_claims p))" "valid_utf8 (cl_nickname (jp_claims p))"
    and "int64 (cl_user_id (jp_claims p))" "int64 (jp_exp p)" "int64 (jp_iat p)"
  shows "unmarshal_segment jt payload_field zero_payload (b64_encode (print_json jt (marshal_payload p))) = Some p"
proof -
  have "parse_json jt (print_json jt (marshal_payload p)) = Some (marshal_payload p)"
    unfolding marshal_payload_def using assms
    by (intro json_text_flat [OF assms(1)]) (simp add: flat_value_def valid_utf8_ascii marshal_string_def)
  then show ?thesis using assms(2-6)
    by (simp add: unmarshal_segment_def unmarshal_struct_def marshal_payload_def payload_field_def zero_payload_def
        unmarshal_text_def unmarshal_int64_def marshal_string_def fold_key_ascii lower_char_def byte_in_def)
qed

lemma GenerateToken_split:
  assumes ok: "json_text_ok jt" and m: "manager_valid (Some m)"
    and c: "valid_utf8 (cl_email c)" "valid_utf8 (cl_nickname c)" "int64 (cl_user_id c)"
    and t: "0 \<le> t0" "unix t0 + expire_seconds m < 9223372036854775808"
    and gen: "GenerateToken cr jt (Some m) t0 c = Inr tok"
  obtains h b where "tok = (h @ ''.'' @ b) @ ''.'' @ b64_encode (hmac_sha256 cr (h @ ''.'' @ b) (secret m))"
    "trim_space tok = tok" "split_on (CHR ''.'') tok = [h, b, b64_encode (hmac_sha256 cr (h @ ''.'' @ b) (secret m))]"
    "ParseToken cr jt (Some m) t tok = (if unix t < unix t0 + expire_seconds m then Inr c else Inl ErrExpiredToken)"
proof -
  let ?p = "\<lparr>jp_claims = c, jp_exp = unix t0 + expire_seconds m, jp_iat = unix t0\<rparr>"
  let ?h = "b64_encode (print_json jt jwt_header_json)" and ?b = "b64_encode (print_json jt (marshal_payload ?p))"
  let ?in = "?h @ ''.'' @ ?b"
  have u: "0 \<le> unix t0" using t(1) by (simp add: unix_def)
  have life: "0 < expire_seconds m" using m by (simp add: manager_valid_def)
  have i64: "int64 (unix t0 + expire_seconds m)" "int64 (unix t0)" using u life t(2) by (simp_all add: int64_def)
  have tok: "tok = ?in @ ''.'' @ b64_encode (hmac_sha256 cr ?in (secret m))"
    using gen m i64(1) by (simp add: GenerateToken_def signHS256_def Let_def)
  have "list_all plain_char tok" by (simp add: tok plain_b64 plain_dot)
  then have trim: "trim_space tok = tok" by (rule trim_space_plain)
  have split: "split_on (CHR ''.'') tok = [?h, ?b, b64_encode (hmac_sha256 cr ?in (secret m))]"
    by (simp add: tok split_on_append split_on_clean b64_encode_no_dot)
  have "ParseToken cr jt (Some m) t tok =
      (if unix t < unix t0 + expire_seconds m then Inr c else Inl ErrExpiredToken)"
    using m trim split unmarshal_header [OF ok] unmarshal_payload [OF ok, of ?p] c i64 u life
    by (simp add: ParseToken_def signHS256_def)
  from that [OF _ trim split this] tok show thesis by simp
qed

text \<open>
  C27: The life of an access token. A token issued at one time for some claims is accepted
  by the manager that issued it, with exactly those claims, until the second its lifetime
  ends, and refused as expired from then on; spaces around it do not matter. Any other
  manager accepts it only if its secret gives the same signature.
\<close>

theorem access_token_lifetime:
  assumes ok: "json_text_ok jt" and m: "manager_valid (Some m)"
    and c: "valid_utf8 (cl_email c)" "valid_utf8 (cl_nickname c)" "int64 (cl_user_id c)"
    and t: "0 \<le> t0" "unix t0 + expire_seconds m < 9223372036854775808"
    and gen: "GenerateToken cr jt (Some m) t0 c = Inr tok"
  shows "ParseToken cr jt (Some m) t tok =
      (if unix t < unix t0 + expire_seconds m then Inr c else Inl ErrExpiredToken)
    \<and> (ParseToken cr jt (Some m') t tok = Inr c' \<longrightarrow>
      (\<exists>input. tok = input @ ''.'' @ b64_encode (hmac_sha256 cr input (secret m))
        \<and> hmac_sha256 cr input (secret m') = hmac_sha256 cr input (secret m)))"
proof -
  obtain h b where tok: "tok = (h @ ''.'' @ b) @ ''.'' @ b64_encode (hmac_sha256 cr (h @ ''.'' @ b) (secret m))"
    and trim: "trim_space tok = tok"
    and split: "split_on (CHR ''.'') tok = [h, b, b64_encode (hmac_sha256 cr (h @ ''.'' @ b) (secret m))]"
    and own: "ParseToken cr jt (Some m) t tok =
      (if unix t < unix t0 + expire_seconds m then Inr c else Inl ErrExpiredToken)"
    by (rule GenerateToken_split [OF ok m c t gen])
  have "\<exists>input. tok = input @ ''.'' @ b64_encode (hmac_sha256 cr input (secret m))
        \<and> hmac_sha256 cr input (secret m') = hmac_sha256 cr input (secret m)"
    if "ParseToken cr jt (Some m') t tok = Inr c'"
    using that trim split
    by (intro exI [of _ "h @ ''.'' @ b"]) (auto simp: tok ParseToken_def signHS256_def split: if_splits)
  with own show ?thesis by blast
qed

section \<open>A concrete instance\<close>

text \<open>
  One way to print flat objects that reads back, and functions for the primitives, to
  apply the theorems to.
\<close>

definition sample_pair :: "string \<times> json \<Rightarrow> string" where
  "sample_pair kv = b64_encode (fst kv) @ ''.'' @
     (case snd kv of JStr s \<Rightarrow> ''s.'' @ b64_encode s | JNum s \<Rightarrow> ''n.'' @ b64_encode s | _ \<Rightarrow> ''.'') @ ''.''"

definition sample_print :: "json \<Rightarrow> string" where
  "sample_print j = (case j of JObj kvs \<Rightarrow> concat (map sample_pair kvs) | _ \<Rightarrow> ''.'')"

fun sample_pairs :: "string list \<Rightarrow> (string \<times> json) list option" where
  "sample_pairs [s] = Some []"
| "sample_pairs (k # t # v # rest) =
     (case b64_decode k of None \<Rightarrow> None | Some k' \<Rightarrow>
     (case b64_decode v of None \<Rightarrow> None | Some v' \<Rightarrow>
        map_option (\<lambda>kvs. (k', if t = ''s'' then JStr v' else JNum v') # kvs) (sample_pairs rest)))"
| "sample_pairs ss = None"

definition sample_json_text :: json_text where
  "sample_json_text = \<lparr>print_json = sample_print,
     parse_json = (\<lambda>s. map_option JObj (sample_pairs (split_on (CHR ''.'') s)))\<rparr>"

lemma split_sample_pair:
  assumes "flat_value v"
  shows "\<exists>t x. split_on (CHR ''.'') (sample_pair (k, v) @ r) = b64_encode k # t # b64_encode x # split_on (CHR ''.'') r
    \<and> v = (if t = ''s'' then JStr x else JNum x)"
  using assms
  by (cases v) (auto simp: sample_pair_def flat_value_def split_on_append b64_encode_no_dot
      split_on_clean [of _ "''s''"])

lemma sample_pairs_print:
  "list_all (\<lambda>kv. flat_value (snd kv)) kvs
     \<Longrightarrow> sample_pairs (split_on (CHR ''.'') (concat (map sample_pair kvs))) = Some kvs"
proof (induction kvs)
  case (Cons kv kvs)
  obtain k v where kv: "kv = (k, v)" by fastforce
  then have "flat_value v" using Cons.prems by simp
  from split_sample_pair [OF this, of k "concat (map sample_pair kvs)"] obtain t x where
    "split_on (CHR ''.'') (sample_pair (k, v) @ concat (map sample_pair kvs))
      = b64_encode k # t # b64_encode x # split_on (CHR ''.'') (concat (map sample_pair kvs))"
    "v = (if t = ''s'' then JStr x else JNum x)" by blast
  then show ?case using Cons kv by simp
qed simp

lemma json_text_ok_sample [simp]: "json_text_ok sample_json_text"
  by (auto simp: json_text_ok_def sample_json_text_def sample_print_def list_all_iff intro!: sample_pairs_print)

definition sample_crypto :: crypto where
  "sample_crypto = \<lparr>sha256 = (\<lambda>s. s), hmac_sha256 = (\<lambda>s k. k @ s),
     bcrypt_hash = (\<lambda>p. if length p \<le> 72 then Some p else None), bcrypt_compare = (\<lambda>h p. h = p)\<rparr>"

definition sample_manager :: manager where
  "sample_manager = \<lparr>secret = ''k'', expire_seconds = 7200\<rparr>"

definition sample_claims :: claims where
  "sample_claims = \<lparr>cl_user_id = 1, cl_email = ''a'', cl_nickname = ''n''\<rparr>"

lemma sample_claims_ok [simp]:
  "valid_utf8 (cl_email sample_claims)" "valid_utf8 (cl_nickname sample_claims)" "int64 (cl_user_id sample_claims)"
  "manager_valid (Some sample_manager)"
  by (simp_all add: sample_claims_def valid_utf8_ascii int64_def manager_valid_def sample_manager_def)

text \<open>A token of user 1, issued at the epoch.\<close>

definition sample_token :: string where
  "sample_token = (case GenerateToken sample_crypto sample_json_text (Some sample_manager) 0 sample_claims of
     Inl _ \<Rightarrow> [] | Inr tok \<Rightarrow> tok)"

lemma sample_token_valid [simp]:
  "ParseToken sample_crypto sample_json_text (Some sample_manager) 0 sample_token = Inr sample_claims"
  "trim_space sample_token \<noteq> []"
proof -
  have gen: "GenerateToken sample_crypto sample_json_text (Some sample_manager) 0 sample_claims = Inr sample_token"
    by (simp add: sample_token_def GenerateToken_def Let_def)
  have u: "unix 0 + expire_seconds sample_manager < 9223372036854775808"
    by (simp add: unix_def sample_manager_def)
  show "ParseToken sample_crypto sample_json_text (Some sample_manager) 0 sample_token = Inr sample_claims"
    by (rule GenerateToken_split [OF json_text_ok_sample sample_claims_ok(4,1-3) order_refl u gen, of 0])
      (simp add: sample_manager_def)
  show "trim_space sample_token \<noteq> []"
    by (rule GenerateToken_split [OF json_text_ok_sample sample_claims_ok(4,1-3) order_refl u gen, of 0]) auto
qed

theorem access_token_lifetime_witness:
  "\<exists>tok. GenerateToken sample_crypto sample_json_text (Some sample_manager) 0 sample_claims = Inr tok
    \<and> ParseToken sample_crypto sample_json_text (Some sample_manager) 7199999999999 tok = Inr sample_claims
    \<and> ParseToken sample_crypto sample_json_text (Some sample_manager) 7200000000000 tok = Inl ErrExpiredToken"
proof -
  obtain tok where gen: "GenerateToken sample_crypto sample_json_text (Some sample_manager) 0 sample_claims = Inr tok"
    by (simp add: GenerateToken_def Let_def)
  have end': "unix 0 + expire_seconds sample_manager < 9223372036854775808"
    by (simp add: unix_def sample_manager_def)
  have "unix 7199999999999 = 7199" "unix 7200000000000 = 7200" "unix 0 = 0" "expire_seconds sample_manager = 7200"
    by (simp_all add: unix_def sample_manager_def)
  then show ?thesis
    using gen access_token_lifetime [OF json_text_ok_sample sample_claims_ok(4,1-3) order_refl end' gen,
        of 7199999999999 sample_manager sample_claims]
      access_token_lifetime [OF json_text_ok_sample sample_claims_ok(4,1-3) order_refl end' gen,
        of 7200000000000 sample_manager sample_claims] by auto
qed

end
