(* ===== verification/Sessions.thy ===== *)
theory Sessions
  imports Tokens
begin

text \<open>
  \<open>pkg/cache/redis.go\<close>: the refresh sessions. A session is a Redis hash under one key; the
  three Lua scripts read and write it atomically, and the store turns their replies into
  sessions and errors. The server's keys are a map from key to hash and expiry; a key past
  its expiry vanishes in a step of its own, \<open>redis_expire\<close>.
\<close>

section \<open>Redis\<close>

text \<open>A Lua \<open>false\<close> in a script's reply is a nil element.\<close>

datatype reply = RInt int | RBulk string | RNil

type_synonym redis_hash = "string \<rightharpoonup> string"

type_synonym sessions = "string \<rightharpoonup> redis_hash \<times> int"

definition redis_expire :: "int \<Rightarrow> sessions \<Rightarrow> sessions" where
  "redis_expire t r =
     (\<lambda>k. case r k of None \<Rightarrow> None | Some (h, x) \<Rightarrow> if x \<le> unix t then None else Some (h, x))"

definition HGET :: "redis_hash \<Rightarrow> string \<Rightarrow> reply" where
  "HGET h f = (case h f of None \<Rightarrow> RNil | Some v \<Rightarrow> RBulk v)"

text \<open>
  A command sent to the server: it may fail before it runs, or run and lose its answer.
\<close>

definition redis_call ::
  "env \<Rightarrow> string \<Rightarrow> (sessions \<Rightarrow> 'a \<times> sessions) \<Rightarrow> sessions \<Rightarrow> (string + 'a) \<times> sessions" where
  "redis_call e l command r =
     (if fault e l 0 then (Inl ''connection refused'', r)
      else case command r of (x, r') \<Rightarrow>
        (if fault e l 1 then Inl ''connection reset'' else Inr x, r'))"

section \<open>The scripts\<close>

text \<open>
  Numbers are decimal integers below \<open>10\<close> to the \<open>14\<close>, which \<open>tonumber\<close> and \<open>tostring\<close>
  keep exactly.
\<close>

definition rotateRefreshSessionScript ::
  "string \<Rightarrow> string \<Rightarrow> string \<Rightarrow> int \<Rightarrow> sessions \<Rightarrow> reply list \<times> sessions" where
  "rotateRefreshSessionScript key currentHash replacementHash nowUnix r =
     (case r key of
        None \<Rightarrow> ([RInt 0], r)
      | Some (h, x) \<Rightarrow>
          (case Option.bind (h ''expires_at'') parse_decimal of
             None \<Rightarrow> ([RInt 0], r(key := None))
           | Some expires_at \<Rightarrow>
               if expires_at \<le> nowUnix then ([RInt 0], r(key := None))
               else if h ''token_hash'' \<noteq> Some currentHash then ([RInt (- 1)], r(key := None))
               else
                 let h' = h(''token_hash'' \<mapsto> replacementHash) in
                 ([RInt 1, HGET h' ''user_id'', HGET h' ''email'', HGET h' ''nickname'',
                   HGET h' ''avatar_url'', RBulk (dec_int expires_at)], r(key \<mapsto> (h', x)))))"

definition revokeRefreshSessionScript :: "string \<Rightarrow> string \<Rightarrow> sessions \<Rightarrow> int \<times> sessions" where
  "revokeRefreshSessionScript key tokenHash r =
     (case r key of
        None \<Rightarrow> (0, r)
      | Some (h, x) \<Rightarrow>
          (if h ''token_hash'' \<noteq> Some tokenHash then - 1 else 1, r(key := None)))"

definition rotateRefreshSessionProfileScript ::
  "string \<Rightarrow> string \<Rightarrow> string \<Rightarrow> string \<Rightarrow> string \<Rightarrow> string \<Rightarrow> int \<Rightarrow> sessions \<Rightarrow> reply list \<times> sessions" where
  "rotateRefreshSessionProfileScript key currentHash replacementHash userID nickname avatar nowUnix r =
     (case r key of
        None \<Rightarrow> ([RInt 0], r)
      | Some (h, x) \<Rightarrow>
          (case Option.bind (h ''expires_at'') parse_decimal of
             None \<Rightarrow> ([RInt 0], r(key := None))
           | Some expires_at \<Rightarrow>
               if expires_at \<le> nowUnix then ([RInt 0], r(key := None))
               else if h ''token_hash'' \<noteq> Some currentHash then ([RInt (- 1)], r(key := None))
               else if h ''user_id'' \<noteq> Some userID then ([RInt (- 2)], r)
               else
                 let h' = h(''token_hash'' \<mapsto> replacementHash, ''nickname'' \<mapsto> nickname,
                            ''avatar_url'' \<mapsto> avatar) in
                 ([RInt 1, RBulk userID, HGET h' ''email'', RBulk nickname, RBulk avatar,
                   RBulk (dec_int expires_at)], r(key \<mapsto> (h', x)))))"

section \<open>The store\<close>

datatype session_error = ErrRefreshSessionNotFound | ErrTokenReused | StoreError string

definition session_error_text :: "session_error \<Rightarrow> string" where
  "session_error_text x = (case x of
       ErrRefreshSessionNotFound \<Rightarrow> ''refresh session not found''
     | ErrTokenReused \<Rightarrow> ''refresh token reused''
     | StoreError m \<Rightarrow> m)"

definition refreshSessionKey :: "string \<Rightarrow> string" where
  "refreshSessionKey sessionID = ''taskpilot:auth:refresh_session:'' @ sessionID"

definition optionalString :: "string option \<Rightarrow> string" where
  "optionalString value' = (case value' of None \<Rightarrow> [] | Some s \<Rightarrow> s)"

definition optionalStringPointer :: "string \<Rightarrow> string option" where
  "optionalStringPointer value' = (if value' = [] then None else Some value')"

definition redisInt64 :: "reply \<Rightarrow> int option" where
  "redisInt64 value' = (case value' of RInt n \<Rightarrow> Some n | RBulk s \<Rightarrow> parse_int64 s | RNil \<Rightarrow> None)"

definition redisString :: "reply \<Rightarrow> string" where
  "redisString value' = (case value' of RNil \<Rightarrow> [] | RBulk s \<Rightarrow> s | RInt n \<Rightarrow> dec_int n)"

definition session_fields :: "refresh_session \<Rightarrow> string \<Rightarrow> redis_hash" where
  "session_fields session tokenHash =
     [''user_id'' \<mapsto> dec_int (rs_user_id session), ''email'' \<mapsto> rs_email session,
      ''nickname'' \<mapsto> rs_nickname session, ''avatar_url'' \<mapsto> optionalString (rs_avatar_url session),
      ''token_hash'' \<mapsto> tokenHash, ''expires_at'' \<mapsto> dec_int (unix (rs_expires_at session))]"

text \<open>\<open>HSET\<close> keeps the other fields of a hash that exists; \<open>MULTI\<close> makes the pair atomic.\<close>

definition store_Create ::
  "bool \<Rightarrow> env \<Rightarrow> refresh_session \<Rightarrow> string \<Rightarrow> sessions \<Rightarrow> (session_error + unit) \<times> sessions" where
  "store_Create client e session tokenHash r =
     (if \<not> client then (Inl (StoreError ''redis client is not configured''), r)
      else
        let key = refreshSessionKey (rs_id session);
            old = (case r key of None \<Rightarrow> Map.empty | Some (h, x) \<Rightarrow> h) in
        case redis_call e ''create refresh session''
               (\<lambda>r. ((), r(key \<mapsto> (old ++ session_fields session tokenHash, unix (rs_expires_at session))))) r of
          (Inl m, r') \<Rightarrow> (Inl (StoreError (''create refresh session: '' @ m)), r')
        | (Inr _, r') \<Rightarrow> (Inr (), r'))"

text \<open>How \<open>Rotate\<close> reads the reply of its script.\<close>

definition decode_rotation :: "string \<Rightarrow> reply list \<Rightarrow> session_error + refresh_session" where
  "decode_rotation sessionID result =
     (case result of
        [] \<Rightarrow> Inl ErrRefreshSessionNotFound
      | st # _ \<Rightarrow>
          (case redisInt64 st of
             None \<Rightarrow> Inl (StoreError ''decode refresh rotation status'')
           | Some status \<Rightarrow>
               if status = 0 then Inl ErrRefreshSessionNotFound
               else if status = - 1 then Inl ErrTokenReused
               else if status \<noteq> 1 then
                 Inl (StoreError (''decode refresh rotation status: unexpected value '' @ dec_int status))
               else if length result \<noteq> 6 then
                 Inl (StoreError (''decode refresh rotation result: unexpected field count ''
                        @ dec (length result)))
               else
                 (case redisInt64 (result ! 1) of
                    None \<Rightarrow> Inl (StoreError ''decode refresh session user id'')
                  | Some userID \<Rightarrow>
                      (case redisInt64 (result ! 5) of
                         None \<Rightarrow> Inl (StoreError ''decode refresh session expiry'')
                       | Some expiresAtUnix \<Rightarrow>
                           Inr \<lparr>rs_id = sessionID, rs_user_id = userID,
                                rs_email = redisString (result ! 2), rs_nickname = redisString (result ! 3),
                                rs_avatar_url = optionalStringPointer (redisString (result ! 4)),
                                rs_expires_at = expiresAtUnix * 1000000000\<rparr>))))"

definition store_Rotate ::
  "bool \<Rightarrow> env \<Rightarrow> string \<Rightarrow> string \<Rightarrow> string \<Rightarrow> int \<Rightarrow> sessions
     \<Rightarrow> (session_error + refresh_session) \<times> sessions" where
  "store_Rotate client e sessionID currentHash replacementHash t r =
     (if \<not> client then (Inl (StoreError ''redis client is not configured''), r)
      else
        case redis_call e ''rotate refresh session''
               (rotateRefreshSessionScript (refreshSessionKey sessionID) currentHash replacementHash (unix t)) r of
          (Inl m, r') \<Rightarrow> (Inl (StoreError (''rotate refresh session: '' @ m)), r')
        | (Inr result, r') \<Rightarrow> (decode_rotation sessionID result, r'))"

text \<open>\<open>RotateProfile\<close> knows one status more, and the user already.\<close>

definition decode_profile_rotation ::
  "string \<Rightarrow> int \<Rightarrow> reply list \<Rightarrow> session_error + refresh_session" where
  "decode_profile_rotation sessionID userID result =
     (case result of
        [] \<Rightarrow> Inl ErrRefreshSessionNotFound
      | st # _ \<Rightarrow>
          (case redisInt64 st of
             None \<Rightarrow> Inl (StoreError ''decode refresh profile rotation status'')
           | Some status \<Rightarrow>
               if status = 0 then Inl ErrRefreshSessionNotFound
               else if status = - 1 then Inl ErrTokenReused
               else if status = - 2 then Inl ErrRefreshSessionNotFound
               else if status \<noteq> 1 then
                 Inl (StoreError (''decode refresh profile rotation status: unexpected value '' @ dec_int status))
               else if length result \<noteq> 6 then
                 Inl (StoreError (''decode refresh profile rotation result: unexpected field count ''
                        @ dec (length result)))
               else
                 (case redisInt64 (result ! 5) of
                    None \<Rightarrow> Inl (StoreError ''decode refresh profile session expiry'')
                  | Some expiresAtUnix \<Rightarrow>
                      Inr \<lparr>rs_id = sessionID, rs_user_id = userID,
                           rs_email = redisString (result ! 2), rs_nickname = redisString (result ! 3),
                           rs_avatar_url = optionalStringPointer (redisString (result ! 4)),
                           rs_expires_at = expiresAtUnix * 1000000000\<rparr>)))"

definition store_RotateProfile ::
  "bool \<Rightarrow> env \<Rightarrow> string \<Rightarrow> string \<Rightarrow> string \<Rightarrow> int \<Rightarrow> string \<Rightarrow> string option \<Rightarrow> int \<Rightarrow> sessions
     \<Rightarrow> (session_error + refresh_session) \<times> sessions" where
  "store_RotateProfile client e sessionID currentHash replacementHash userID nickname avatarURL t r =
     (if \<not> client then (Inl (StoreError ''redis client is not configured''), r)
      else
        case redis_call e ''rotate refresh session profile''
               (rotateRefreshSessionProfileScript (refreshSessionKey sessionID) currentHash replacementHash
                 (dec_int userID) nickname (optionalString avatarURL) (unix t)) r of
          (Inl m, r') \<Rightarrow> (Inl (StoreError (''rotate refresh session profile: '' @ m)), r')
        | (Inr result, r') \<Rightarrow> (decode_profile_rotation sessionID userID result, r'))"

definition store_Revoke ::
  "bool \<Rightarrow> env \<Rightarrow> string \<Rightarrow> string \<Rightarrow> sessions \<Rightarrow> (session_error + unit) \<times> sessions" where
  "store_Revoke client e sessionID tokenHash r =
     (if \<not> client then (Inl (StoreError ''redis client is not configured''), r)
      else
        case redis_call e ''revoke refresh session''
               (revokeRefreshSessionScript (refreshSessionKey sessionID) tokenHash) r of
          (Inl m, r') \<Rightarrow> (Inl (StoreError (''revoke refresh session: '' @ m)), r')
        | (Inr result, r') \<Rightarrow>
            (if result = 1 then Inr ()
             else if result = 0 then Inl ErrRefreshSessionNotFound
             else if result = - 1 then Inl ErrTokenReused
             else Inl (StoreError (''decode refresh revocation status: unexpected value '' @ dec_int result)), r'))"

section \<open>What a store is: one current token per session\<close>

text \<open>
  The contents of the store, read as the interface \<open>jwtauth.RefreshSessionStore\<close> promises
  them: a session has one current token hash and the session's data.
\<close>

definition read_session :: "string \<Rightarrow> redis_hash \<Rightarrow> (string \<times> refresh_session) option" where
  "read_session sid h =
     (case (h ''token_hash'', Option.bind (h ''user_id'') parse_int64, Option.bind (h ''expires_at'') parse_int64,
            h ''email'', h ''nickname'', h ''avatar_url'') of
        (Some tok, Some u, Some x, Some em, Some nick, Some av) \<Rightarrow>
          Some (tok, \<lparr>rs_id = sid, rs_user_id = u, rs_email = em, rs_nickname = nick,
                      rs_avatar_url = optionalStringPointer av, rs_expires_at = x * 1000000000\<rparr>)
      | _ \<Rightarrow> None)"

definition session_view :: "sessions \<Rightarrow> string \<rightharpoonup> string \<times> refresh_session" where
  "session_view r = (\<lambda>sid. case r (refreshSessionKey sid) of None \<Rightarrow> None | Some (h, x) \<Rightarrow> read_session sid h)"

text \<open>Every key holds a whole session, as \<open>Create\<close> writes it.\<close>

definition session_int :: "refresh_session \<Rightarrow> bool" where
  "session_int s \<longleftrightarrow> int64 (rs_user_id s) \<and> int64 (unix (rs_expires_at s))"

definition store_ok :: "sessions \<Rightarrow> bool" where
  "store_ok r \<longleftrightarrow> (\<forall>sid h x. r (refreshSessionKey sid) = Some (h, x) \<longrightarrow>
     (\<exists>s tok. h = session_fields s tok \<and> x = unix (rs_expires_at s) \<and> rs_id s = sid \<and> session_int s))"

text \<open>What of a session a hash keeps: whole seconds, and no empty avatar.\<close>

definition stored_session :: "refresh_session \<Rightarrow> refresh_session" where
  "stored_session s = s\<lparr>rs_avatar_url := optionalStringPointer (optionalString (rs_avatar_url s)),
     rs_expires_at := unix (rs_expires_at s) * 1000000000\<rparr>"

definition spec_create :: "refresh_session \<Rightarrow> string \<Rightarrow> (string \<rightharpoonup> string \<times> refresh_session)
    \<Rightarrow> (session_error + unit) \<times> (string \<rightharpoonup> string \<times> refresh_session)" where
  "spec_create s tok a = (Inr (), a(rs_id s \<mapsto> (tok, stored_session s)))"

definition spec_rotate :: "string \<Rightarrow> string \<Rightarrow> string \<Rightarrow> int \<Rightarrow> (string \<rightharpoonup> string \<times> refresh_session)
    \<Rightarrow> (session_error + refresh_session) \<times> (string \<rightharpoonup> string \<times> refresh_session)" where
  "spec_rotate sid cur repl t a =
     (case a sid of
        None \<Rightarrow> (Inl ErrRefreshSessionNotFound, a)
      | Some (tok, s) \<Rightarrow>
          if unix (rs_expires_at s) \<le> unix t then (Inl ErrRefreshSessionNotFound, a(sid := None))
          else if tok \<noteq> cur then (Inl ErrTokenReused, a(sid := None))
          else (Inr s, a(sid \<mapsto> (repl, s))))"

definition spec_rotate_profile ::
  "string \<Rightarrow> string \<Rightarrow> string \<Rightarrow> int \<Rightarrow> string \<Rightarrow> string option \<Rightarrow> int \<Rightarrow> (string \<rightharpoonup> string \<times> refresh_session)
    \<Rightarrow> (session_error + refresh_session) \<times> (string \<rightharpoonup> string \<times> refresh_session)" where
  "spec_rotate_profile sid cur repl u nick av t a =
     (case a sid of
        None \<Rightarrow> (Inl ErrRefreshSessionNotFound, a)
      | Some (tok, s) \<Rightarrow>
          if unix (rs_expires_at s) \<le> unix t then (Inl ErrRefreshSessionNotFound, a(sid := None))
          else if tok \<noteq> cur then (Inl ErrTokenReused, a(sid := None))
          else if rs_user_id s \<noteq> u then (Inl ErrRefreshSessionNotFound, a)
          else let s' = stored_session (s\<lparr>rs_nickname := nick, rs_avatar_url := av\<rparr>) in
            (Inr s', a(sid \<mapsto> (repl, s'))))"

definition spec_revoke :: "string \<Rightarrow> string \<Rightarrow> (string \<rightharpoonup> string \<times> refresh_session)
    \<Rightarrow> (session_error + unit) \<times> (string \<rightharpoonup> string \<times> refresh_session)" where
  "spec_revoke sid tok0 a =
     (case a sid of
        None \<Rightarrow> (Inl ErrRefreshSessionNotFound, a)
      | Some (tok, s) \<Rightarrow> (if tok = tok0 then Inr () else Inl ErrTokenReused, a(sid := None)))"

lemma refreshSessionKey_inject [simp]: "refreshSessionKey a = refreshSessionKey b \<longleftrightarrow> a = b"
  by (simp add: refreshSessionKey_def)

lemma unix_seconds [simp]: "unix (n * 1000000000) = n"
  by (simp add: unix_def)

lemma read_session_fields [simp]:
  "session_int s \<Longrightarrow> rs_id s = sid \<Longrightarrow> read_session sid (session_fields s tok) = Some (tok, stored_session s)"
  by (auto simp: read_session_def session_fields_def stored_session_def session_int_def)

lemma session_view_upd [simp]:
  "session_view (r(refreshSessionKey sid := v)) =
     (session_view r)(sid := (case v of None \<Rightarrow> None | Some (h, x) \<Rightarrow> read_session sid h))"
  by (auto simp: session_view_def fun_eq_iff)

lemma store_ok_upd:
  assumes "store_ok r" "\<And>h x. v = Some (h, x) \<Longrightarrow>
     \<exists>s tok. h = session_fields s tok \<and> x = unix (rs_expires_at s) \<and> rs_id s = sid \<and> session_int s"
  shows "store_ok (r(refreshSessionKey sid := v))"
  using assms by (auto simp: store_ok_def)

lemma redis_call_no_faults [simp]:
  "no_faults e \<Longrightarrow> redis_call e l command r = (case command r of (x, r') \<Rightarrow> (Inr x, r'))"
  by (simp add: redis_call_def no_faults_def)

lemma store_ok_cases:
  assumes "store_ok r"
  obtains "r (refreshSessionKey sid) = None" "session_view r sid = None"
  | s tok where "r (refreshSessionKey sid) = Some (session_fields s tok, unix (rs_expires_at s))"
      "rs_id s = sid" "session_int s" "session_view r sid = Some (tok, stored_session s)"
proof (cases "r (refreshSessionKey sid)")
  case None
  then show ?thesis using that(1) by (simp add: session_view_def)
next
  case (Some hx)
  obtain h x where hx: "hx = (h, x)" by fastforce
  then obtain s tok where "h = session_fields s tok" "x = unix (rs_expires_at s)" "rs_id s = sid" "session_int s"
    using assms Some unfolding store_ok_def by metis
  then show ?thesis using that(2) [of s tok] Some hx by (simp add: session_view_def)
qed

lemma session_fields_sel [simp]:
  "session_fields s tok ''expires_at'' = Some (dec_int (unix (rs_expires_at s)))"
  "session_fields s tok ''token_hash'' = Some tok" "session_fields s tok ''user_id'' = Some (dec_int (rs_user_id s))"
  "session_fields s tok ''email'' = Some (rs_email s)" "session_fields s tok ''nickname'' = Some (rs_nickname s)"
  "session_fields s tok ''avatar_url'' = Some (optionalString (rs_avatar_url s))"
  by (simp_all add: session_fields_def)

lemma session_fields_token:
  "(session_fields s tok)(''token_hash'' \<mapsto> tok') = session_fields s tok'"
  by (auto simp: session_fields_def fun_eq_iff)

lemma session_fields_profile:
  "(session_fields s tok)(''token_hash'' \<mapsto> tok', ''nickname'' \<mapsto> nick, ''avatar_url'' \<mapsto> optionalString av)
     = session_fields (s\<lparr>rs_nickname := nick, rs_avatar_url := av\<rparr>) tok'"
  by (auto simp: session_fields_def fun_eq_iff)

lemma session_fields_overwrite: "session_fields s tok ++ session_fields s' tok' = session_fields s' tok'"
  by (auto simp: session_fields_def fun_eq_iff map_add_def)

lemma optionalStringPointer_idem [simp]:
  "optionalStringPointer (optionalString (optionalStringPointer v)) = optionalStringPointer v"
  by (simp add: optionalStringPointer_def optionalString_def)

lemma stored_session_sel [simp]:
  "rs_id (stored_session s) = rs_id s" "rs_user_id (stored_session s) = rs_user_id s"
  "rs_email (stored_session s) = rs_email s" "rs_nickname (stored_session s) = rs_nickname s"
  "unix (rs_expires_at (stored_session s)) = unix (rs_expires_at s)"
  "session_int (stored_session s) = session_int s"
  by (simp_all add: stored_session_def session_int_def)

lemma decode_rotation_fields:
  "session_int s \<Longrightarrow> rs_id s = sid \<Longrightarrow>
   decode_rotation sid [RInt 1, HGET (session_fields s tok) ''user_id'', HGET (session_fields s tok) ''email'',
     HGET (session_fields s tok) ''nickname'', HGET (session_fields s tok) ''avatar_url'',
     RBulk (dec_int (unix (rs_expires_at s)))] = Inr (stored_session s)"
  by (simp add: decode_rotation_def HGET_def redisInt64_def redisString_def session_int_def stored_session_def)

lemma decode_profile_fields:
  "session_int s \<Longrightarrow> rs_id s = sid \<Longrightarrow> rs_user_id s = u \<Longrightarrow>
   decode_profile_rotation sid u [RInt 1, RBulk (dec_int u), HGET (session_fields s tok) ''email'',
     RBulk (rs_nickname s), RBulk (optionalString (rs_avatar_url s)),
     RBulk (dec_int (unix (rs_expires_at s)))] = Inr (stored_session s)"
  by (simp add: decode_profile_rotation_def HGET_def redisInt64_def redisString_def session_int_def stored_session_def)

lemma decode_status [simp]:
  "decode_rotation sid [RInt 0] = Inl ErrRefreshSessionNotFound"
  "decode_rotation sid [RInt (- 1)] = Inl ErrTokenReused"
  "decode_profile_rotation sid u [RInt 0] = Inl ErrRefreshSessionNotFound"
  "decode_profile_rotation sid u [RInt (- 1)] = Inl ErrTokenReused"
  "decode_profile_rotation sid u [RInt (- 2)] = Inl ErrRefreshSessionNotFound"
  by (simp_all add: decode_rotation_def decode_profile_rotation_def redisInt64_def)

lemma store_Rotate_spec:
  assumes "no_faults e" "store_ok r"
  shows "map_prod (\<lambda>x. x) session_view (store_Rotate True e sid cur repl t r) = spec_rotate sid cur repl t (session_view r)
    \<and> store_ok (snd (store_Rotate True e sid cur repl t r))"
  using assms(2)
proof (rule store_ok_cases [where sid = sid])
  assume "r (refreshSessionKey sid) = None" "session_view r sid = None"
  then show ?thesis using assms by (simp add: store_Rotate_def rotateRefreshSessionScript_def spec_rotate_def)
next
  fix s :: refresh_session and tok
  assume r: "r (refreshSessionKey sid) = Some (session_fields s tok, unix (rs_expires_at s))"
    and s: "rs_id s = sid" "session_int s" and v: "session_view r sid = Some (tok, stored_session s)"
  show ?thesis
    using assms r s v decode_rotation_fields [OF s(2,1), of repl]
    by (auto simp: store_Rotate_def rotateRefreshSessionScript_def spec_rotate_def session_fields_token Let_def
        intro!: store_ok_upd)
qed

lemma store_RotateProfile_spec:
  assumes "no_faults e" "store_ok r"
  shows "map_prod (\<lambda>x. x) session_view (store_RotateProfile True e sid cur repl u nick av t r)
      = spec_rotate_profile sid cur repl u nick av t (session_view r)
    \<and> store_ok (snd (store_RotateProfile True e sid cur repl u nick av t r))"
  using assms(2)
proof (rule store_ok_cases [where sid = sid])
  assume "r (refreshSessionKey sid) = None" "session_view r sid = None"
  then show ?thesis using assms
    by (simp add: store_RotateProfile_def rotateRefreshSessionProfileScript_def spec_rotate_profile_def)
next
  fix s :: refresh_session and tok
  let ?s' = "s\<lparr>rs_nickname := nick, rs_avatar_url := av\<rparr>"
  assume r: "r (refreshSessionKey sid) = Some (session_fields s tok, unix (rs_expires_at s))"
    and s: "rs_id s = sid" "session_int s" and v: "session_view r sid = Some (tok, stored_session s)"
  have s': "session_int ?s'" "rs_id ?s' = sid" using s by (simp_all add: session_int_def)
  have st: "stored_session ((stored_session s)\<lparr>rs_nickname := nick, rs_avatar_url := av\<rparr>) = stored_session ?s'"
    by (simp add: stored_session_def)
  have "store_ok (r(refreshSessionKey sid \<mapsto> (session_fields ?s' repl, unix (rs_expires_at s))))"
    using assms(2) by (rule store_ok_upd) (use s' in \<open>auto intro!: exI [of _ ?s']\<close>)
  then show ?thesis
    using assms r s v decode_profile_fields [OF s', of u repl] s' st
    by (auto simp: store_RotateProfile_def rotateRefreshSessionProfileScript_def spec_rotate_profile_def
        session_fields_profile Let_def intro!: store_ok_upd [where v = None, simplified])
qed

lemma store_Create_spec:
  assumes "no_faults e" "store_ok r" "session_int s"
  shows "map_prod (\<lambda>x. x) session_view (store_Create True e s tok r) = spec_create s tok (session_view r)
    \<and> store_ok (snd (store_Create True e s tok r))"
  using assms(2)
proof (rule store_ok_cases [where sid = "rs_id s"])
  assume "r (refreshSessionKey (rs_id s)) = None"
  then show ?thesis using assms
    by (auto simp: store_Create_def spec_create_def Let_def intro!: store_ok_upd)
next
  fix s0 :: refresh_session and tok0
  assume "r (refreshSessionKey (rs_id s)) = Some (session_fields s0 tok0, unix (rs_expires_at s0))"
  then show ?thesis using assms
    by (auto simp: store_Create_def spec_create_def session_fields_overwrite Let_def intro!: store_ok_upd)
qed

lemma store_Revoke_spec:
  assumes "no_faults e" "store_ok r"
  shows "map_prod (\<lambda>x. x) session_view (store_Revoke True e sid tok r) = spec_revoke sid tok (session_view r)
    \<and> store_ok (snd (store_Revoke True e sid tok r))"
  using assms(2)
proof (rule store_ok_cases [where sid = sid])
  assume "r (refreshSessionKey sid) = None" "session_view r sid = None"
  then show ?thesis using assms by (simp add: store_Revoke_def revokeRefreshSessionScript_def spec_revoke_def)
next
  fix s :: refresh_session and tok0
  assume "r (refreshSessionKey sid) = Some (session_fields s tok0, unix (rs_expires_at s))"
    and "session_view r sid = Some (tok0, stored_session s)"
  then show ?thesis using assms
    by (auto simp: store_Revoke_def revokeRefreshSessionScript_def spec_revoke_def intro!: store_ok_upd)
qed

text \<open>
  C26: The Redis store implements the interface of refresh sessions. Read through
  \<open>session_view\<close>, each of its four operations does what the specification says on the map
  from sessions to their one current token: create binds a session; rotate replaces the
  current token if it is the one presented and the session has not expired, and otherwise
  ends the session; the profile variant also checks the user and writes the profile; revoke
  ends the session whatever token is presented. Every session stays readable.
\<close>

theorem session_store_refines_spec:
  assumes "no_faults e" "store_ok r" "session_int s"
  shows "map_prod (\<lambda>x. x) session_view (store_Create True e s tok r) = spec_create s tok (session_view r)
    \<and> map_prod (\<lambda>x. x) session_view (store_Rotate True e sid cur repl t r) = spec_rotate sid cur repl t (session_view r)
    \<and> map_prod (\<lambda>x. x) session_view (store_RotateProfile True e sid cur repl u nick av t r)
      = spec_rotate_profile sid cur repl u nick av t (session_view r)
    \<and> map_prod (\<lambda>x. x) session_view (store_Revoke True e sid tok r) = spec_revoke sid tok (session_view r)
    \<and> store_ok (snd (store_Create True e s tok r)) \<and> store_ok (snd (store_Rotate True e sid cur repl t r))
    \<and> store_ok (snd (store_RotateProfile True e sid cur repl u nick av t r))
    \<and> store_ok (snd (store_Revoke True e sid tok r))"
  using store_Create_spec [OF assms] store_Rotate_spec [OF assms(1,2)] store_RotateProfile_spec [OF assms(1,2)]
    store_Revoke_spec [OF assms(1,2)] by blast

definition sample_session :: refresh_session where
  "sample_session = \<lparr>rs_id = ''s'', rs_user_id = 1, rs_email = ''a'', rs_nickname = ''n'',
     rs_avatar_url = None, rs_expires_at = 9000000000\<rparr>"

definition calm_env :: env where
  "calm_env = \<lparr>db_up = True, now = 0, new_id = int, fault = (\<lambda>_ _. False)\<rparr>"

lemma no_faults_calm [simp]: "no_faults calm_env"
  by (simp add: no_faults_def calm_env_def)

lemma session_int_sample [simp]: "session_int sample_session"
  by (simp add: session_int_def sample_session_def int64_def unix_def)

lemma store_ok_empty [simp]: "store_ok Map.empty"
  by (simp add: store_ok_def)

theorem session_store_refines_spec_witness:
  "session_view (snd (store_Rotate True calm_env ''s'' ''h1'' ''h2'' 0
      (snd (store_Create True calm_env sample_session ''h1'' Map.empty)))) ''s'' = Some (''h2'', sample_session)"
proof -
  let ?r = "snd (store_Create True calm_env sample_session ''h1'' Map.empty)"
  note made = session_store_refines_spec [OF no_faults_calm store_ok_empty session_int_sample]
  have "session_view ?r = [''s'' \<mapsto> (''h1'', sample_session)]" "store_ok ?r"
    using made [of "''h1''"]
    by (auto simp: spec_create_def sample_session_def stored_session_def unix_def session_view_def
        optionalString_def optionalStringPointer_def prod_eq_iff)
  then show ?thesis
    using session_store_refines_spec [OF no_faults_calm _ session_int_sample, of ?r "''h1''" "''s''" "''h1''" "''h2''" 0]
    by (auto simp: spec_rotate_def sample_session_def unix_def prod_eq_iff)
qed

section \<open>Replay\<close>

text \<open>
  What any store with that rotation gives, whatever else it does: an attempt is a token
  presented, its replacement and a time.
\<close>

fun follows :: "string \<Rightarrow> (string \<times> string \<times> int) list \<Rightarrow> bool" where
  "follows tok [] \<longleftrightarrow> True"
| "follows tok ((cur, repl, t) # cs) \<longleftrightarrow> cur = tok \<and> follows repl cs"

locale token_store =
  fixes view :: "'s \<Rightarrow> string \<rightharpoonup> string \<times> refresh_session"
    and rotate :: "env \<Rightarrow> string \<Rightarrow> string \<Rightarrow> string \<Rightarrow> int \<Rightarrow> 's \<Rightarrow> (session_error + refresh_session) \<times> 's"
    and valid :: "'s \<Rightarrow> bool"
  assumes rotate_law: "no_faults e \<Longrightarrow> valid s \<Longrightarrow>
    map_prod (\<lambda>x. x) view (rotate e sid cur repl t s) = spec_rotate sid cur repl t (view s)
    \<and> valid (snd (rotate e sid cur repl t s))"
begin

fun attempts :: "env \<Rightarrow> string \<Rightarrow> (string \<times> string \<times> int) list \<Rightarrow> 's \<Rightarrow> (session_error + refresh_session) list" where
  "attempts e sid [] s = []"
| "attempts e sid ((cur, repl, t) # cs) s =
     (case rotate e sid cur repl t s of (x, s') \<Rightarrow> x # attempts e sid cs s')"

lemma rotate_cases:
  assumes "no_faults e" "valid s" "rotate e sid cur repl t s = (x, s')"
  shows "valid s'" "(x, view s') = spec_rotate sid cur repl t (view s)"
  using rotate_law [OF assms(1,2), of sid cur repl t] assms(3) by simp_all

lemma gone: "no_faults e \<Longrightarrow> valid s \<Longrightarrow> view s sid = None
  \<Longrightarrow> attempts e sid cs s = map (\<lambda>_. Inl ErrRefreshSessionNotFound) cs"
proof (induction cs arbitrary: s)
  case (Cons c cs)
  obtain cur repl t where c: "c = (cur, repl, t)" by (cases c)
  obtain x s' where r: "rotate e sid cur repl t s = (x, s')" by fastforce
  from rotate_cases [OF Cons.prems(1,2) r] Cons.prems(3)
  have "valid s'" "x = Inl ErrRefreshSessionNotFound" "view s' sid = None" by (auto simp: spec_rotate_def)
  then show ?case using Cons.IH [OF Cons.prems(1)] c r by simp
qed simp

lemma chain: "no_faults e \<Longrightarrow> valid s \<Longrightarrow> view s sid = Some (tok, ss)
  \<Longrightarrow> \<exists>k\<le>length cs. \<exists>errs. follows tok (take k cs)
        \<and> attempts e sid cs s = replicate k (Inr ss) @ map Inl errs"
proof (induction cs arbitrary: s tok)
  case Nil
  then show ?case by simp
next
  case (Cons c cs)
  obtain cur repl t where c: "c = (cur, repl, t)" by (cases c)
  obtain x s' where r: "rotate e sid cur repl t s = (x, s')" by fastforce
  note law = rotate_cases [OF Cons.prems(1,2) r]
  show ?case
  proof (cases "unix t < unix (rs_expires_at ss) \<and> tok = cur")
    case True
    then have x: "x = Inr ss" "view s' sid = Some (repl, ss)"
      using law(2) Cons.prems(3) by (auto simp: spec_rotate_def)
    from Cons.IH [OF Cons.prems(1) law(1) x(2)] obtain k errs where
      "k \<le> length cs" "follows repl (take k cs)" "attempts e sid cs s' = replicate k (Inr ss) @ map Inl errs"
      by blast
    then show ?thesis using True c r x by (intro exI [of _ "Suc k"]) auto
  next
    case False
    then have "view s' sid = None" "\<exists>err. x = Inl err"
      using law(2) Cons.prems(3) by (auto simp: spec_rotate_def split: if_splits)
    then obtain err where "x = Inl err" "attempts e sid cs s' = map Inl (map (\<lambda>_. ErrRefreshSessionNotFound) cs)"
      using gone [OF Cons.prems(1) law(1)] by auto
    then show ?thesis using c r
      by (intro exI [of _ 0]) (auto intro!: exI [of _ "err # map (\<lambda>_. ErrRefreshSessionNotFound) cs"])
  qed
qed

end

interpretation rs: token_store session_view "store_Rotate True" store_ok
  by unfold_locales (rule store_Rotate_spec)

text \<open>The attempts against the Redis store, one after the other.\<close>

fun rotation_attempts ::
  "env \<Rightarrow> string \<Rightarrow> (string \<times> string \<times> int) list \<Rightarrow> sessions \<Rightarrow> (session_error + refresh_session) list" where
  "rotation_attempts e sid [] r = []"
| "rotation_attempts e sid ((cur, repl, t) # cs) r =
     (case store_Rotate True e sid cur repl t r of (x, r') \<Rightarrow> x # rotation_attempts e sid cs r')"

lemma rotation_attempts_eq: "rotation_attempts e sid cs r = rs.attempts e sid cs r"
  by (induction cs arbitrary: r) (auto split: prod.splits)

text \<open>
  C18: A session has one usable token. Whatever tokens are presented for a session, in
  whatever order, by its owner or by a thief: the rotations that succeed come first, each
  presents the very token the one before it issued, the first of them the session's
  current one, and all answer the session's own user; from the first refusal on, every
  attempt is refused, so a token presented a second time ends the session for everybody.
\<close>

theorem rotation_is_a_chain:
  assumes "no_faults e" "store_ok r" "session_view r sid = Some (tok, ss)"
  shows "\<exists>k\<le>length cs. \<exists>errs. follows tok (take k cs)
    \<and> rotation_attempts e sid cs r = replicate k (Inr ss) @ map Inl errs"
  unfolding rotation_attempts_eq using assms by (rule rs.chain)

theorem rotation_is_a_chain_witness:
  "\<exists>k\<le>2. \<exists>errs. rotation_attempts calm_env ''s''
      [(''h1'', ''h2'', 0), (''h2'', ''h3'', 0), (''h1'', ''h4'', 0), (''h3'', ''h5'', 0)]
      (snd (store_Create True calm_env sample_session ''h1'' Map.empty)) = replicate k (Inr sample_session) @ map Inl errs"
proof -
  let ?r = "snd (store_Create True calm_env sample_session ''h1'' Map.empty)"
  let ?cs = "[(''h1'', ''h2'', 0), (''h2'', ''h3'', 0), (''h1'', ''h4'', 0), (''h3'', ''h5'', 0)] :: (string \<times> string \<times> int) list"
  note made = store_Create_spec [OF no_faults_calm store_ok_empty session_int_sample, of "''h1''"]
  then have "store_ok ?r" "session_view ?r ''s'' = Some (''h1'', sample_session)"
    by (auto simp: spec_create_def sample_session_def stored_session_def unix_def
        optionalString_def optionalStringPointer_def prod_eq_iff)
  from rotation_is_a_chain [OF no_faults_calm this, of ?cs] obtain k errs where
    k: "k \<le> length ?cs" "follows ''h1'' (take k ?cs)"
    and res: "rotation_attempts calm_env ''s'' ?cs ?r = replicate k (Inr sample_session) @ map Inl errs"
    by (elim exE conjE) blast
  have "k \<le> 2" using k by (auto simp: numeral_eq_Suc take_Suc_Cons le_Suc_eq)
  then show ?thesis using res by blast
qed

end
