(* ===== verification/AuthService.thy ===== *)
theory AuthService
  imports Sessions Sample
begin

text \<open>
  \<open>internal/logic/auth/service.go\<close>: registration, login, the rotation of refresh tokens,
  logout and the profile. The service works on the users of the database and on the
  sessions of the store; the store is not part of the database's transactions, so a
  rollback leaves it as it is and the service cleans up itself.
\<close>

section \<open>Types\<close>

text \<open>What the service uses of libraries; \<open>stamps\<close>: whether gorm sets \<open>updated_at\<close> itself.\<close>

record auth_lib =
  al_crypto :: crypto
  al_json :: json_text
  to_lower :: "string \<Rightarrow> string"
  sql_lower :: "string \<Rightarrow> string"
  stamps :: bool

record auth_conf =
  jwt_manager :: "manager option"
  sessions_client :: bool
  refresh_expire :: int
  access_expire :: int

record register_request =
  rr_email :: string
  rr_password :: string
  rr_nickname :: string

record login_request =
  lr_email :: string
  lr_password :: string

record optional_string =
  os_set :: bool
  os_value :: "string option"

record update_user_request =
  uu_nickname :: optional_string
  uu_avatar_url :: optional_string

record user_profile =
  up_id :: int
  up_email :: string
  up_nickname :: string
  up_avatar_url :: "string option"

record auth_response =
  ar_user :: user_profile
  ar_access_token :: string
  ar_expires_in_sec :: int

record auth_session =
  as_response :: auth_response
  as_refresh_token :: string
  as_refresh_expires_at :: int

section \<open>The users table\<close>

definition user_check :: "user \<Rightarrow> bool" where
  "user_check u \<longleftrightarrow> varchar 128 (Some (u_email u)) \<and> varchar 255 (Some (u_password_hash u))
     \<and> varchar 64 (Some (u_nickname u)) \<and> varchar 255 (u_avatar_url u)"

text \<open>\<open>uq_users_email_lower\<close> is an index on \<open>LOWER(email)\<close>.\<close>

definition users_violation :: "auth_lib \<Rightarrow> user list \<Rightarrow> db_error option" where
  "users_violation lib us =
     violation (list_all user_check us)
       (distinct (map u_id us) \<and> distinct (map (\<lambda>u. sql_lower lib (u_email u)) us)) True"

section \<open>Helpers\<close>

definition requireDB :: "env \<Rightarrow> error option" where
  "requireDB e = (if db_up e then None else Some ErrDatabaseUnavailable)"

definition requireJWT :: "auth_conf \<Rightarrow> error option" where
  "requireJWT conf =
     (if manager_valid (jwt_manager conf) then None else Some (token_error_of ErrInvalidJWTConfig))"

definition requireRefreshSessions :: "auth_conf \<Rightarrow> error option" where
  "requireRefreshSessions conf =
     (if \<not> sessions_client conf \<or> refresh_expire conf \<le> 0 then Some ErrCacheUnavailable else None)"

definition normalizeEmail :: "auth_lib \<Rightarrow> string \<Rightarrow> string" where
  "normalizeEmail lib email = to_lower lib (trim_space email)"

definition mapRefreshSessionError :: "string \<Rightarrow> session_error \<Rightarrow> error" where
  "mapRefreshSessionError operation err =
     (case err of
        ErrRefreshSessionNotFound \<Rightarrow> ErrInvalidRefreshToken
      | ErrTokenReused \<Rightarrow> ErrRefreshTokenReused
      | StoreError m \<Rightarrow> Detailf ErrCacheUnavailable (operation @ '': '' @ m))"

definition profile_of :: "user \<Rightarrow> user_profile" where
  "profile_of u =
     \<lparr>up_id = u_id u, up_email = u_email u, up_nickname = u_nickname u, up_avatar_url = u_avatar_url u\<rparr>"

definition newAuthResponse :: "user \<Rightarrow> string \<Rightarrow> int \<Rightarrow> auth_response" where
  "newAuthResponse u token expiresInSec =
     \<lparr>ar_user = profile_of u, ar_access_token = token, ar_expires_in_sec = expiresInSec\<rparr>"

definition issueToken :: "auth_lib \<Rightarrow> manager option \<Rightarrow> int \<Rightarrow> user \<Rightarrow> token_error + string" where
  "issueToken lib m t u =
     GenerateToken (al_crypto lib) (al_json lib) m t
       \<lparr>cl_user_id = u_id u, cl_email = u_email u, cl_nickname = u_nickname u\<rparr>"

definition session_of :: "env \<Rightarrow> auth_conf \<Rightarrow> user \<Rightarrow> string \<Rightarrow> refresh_session" where
  "session_of e conf u sid =
     \<lparr>rs_id = sid, rs_user_id = u_id u, rs_email = u_email u, rs_nickname = u_nickname u,
      rs_avatar_url = u_avatar_url u,
      rs_expires_at = now e + int64_wrap (refresh_expire conf * 1000000000)\<rparr>"

definition issueSession ::
  "auth_lib \<Rightarrow> auth_conf \<Rightarrow> env \<Rightarrow> (nat \<Rightarrow> string) \<Rightarrow> user \<Rightarrow> sessions \<Rightarrow> (error + auth_session) \<times> sessions" where
  "issueSession lib conf e rnd u r =
     (case issueToken lib (jwt_manager conf) (now e) u of
        Inl x \<Rightarrow> (Inl (Wrapf ''issue access token'' (token_error_of x)), r)
      | Inr accessToken \<Rightarrow>
          (case GenerateRefreshToken (al_crypto lib) e rnd [] of
             Inl err \<Rightarrow> (Inl (Wrapf ''generate refresh token'' err), r)
           | Inr refreshToken \<Rightarrow>
               let session = session_of e conf u (rt_session_id refreshToken) in
               (case store_Create (sessions_client conf) e session (rt_hash refreshToken) r of
                  (Inl x, r') \<Rightarrow> (Inl (mapRefreshSessionError ''create refresh session'' x), r')
                | (Inr _, r') \<Rightarrow>
                    (Inr \<lparr>as_response = newAuthResponse u accessToken (access_expire conf),
                          as_refresh_token = rt_raw refreshToken,
                          as_refresh_expires_at = rs_expires_at session\<rparr>, r'))))"

definition revokeIssuedSession :: "auth_lib \<Rightarrow> auth_conf \<Rightarrow> env \<Rightarrow> string \<Rightarrow> sessions \<Rightarrow> sessions" where
  "revokeIssuedSession lib conf e raw r =
     (case ParseRefreshToken (al_crypto lib) raw of
        Inl _ \<Rightarrow> r
      | Inr t \<Rightarrow> snd (store_Revoke (sessions_client conf) e (rt_session_id t) (rt_hash t) r))"

text \<open>
  \<open>DB.Transaction\<close> around a closure that also talks to the store: the error, if any, what
  the closure had assigned when it returned nil, and the state; only the database rolls back.
\<close>

definition auth_transaction ::
  "env \<Rightarrow> (db \<times> sessions \<Rightarrow> (error + 'a) \<times> (db \<times> sessions)) \<Rightarrow> db \<times> sessions
     \<Rightarrow> (error option \<times> 'a option) \<times> (db \<times> sessions)" where
  "auth_transaction e body sr =
     (if fault e ''begin'' 0 then ((Some (GormErr ErrStatement), None), sr)
      else case body sr of
        (Inl err, (_, r')) \<Rightarrow> ((Some err, None), (fst sr, r'))
      | (Inr a, (s', r')) \<Rightarrow>
          if fault e ''commit'' 0 then ((Some (GormErr ErrStatement), Some a), (fst sr, r'))
          else ((None, Some a), (s', r')))"

section \<open>Register\<close>

definition new_user :: "env \<Rightarrow> string \<Rightarrow> string \<Rightarrow> string \<Rightarrow> user" where
  "new_user e email hashedPassword nickname =
     \<lparr>u_id = new_id e 0, u_email = email, u_password_hash = hashedPassword, u_nickname = nickname,
      u_avatar_url = None, u_status = 1, u_created_at = now e, u_updated_at = now e\<rparr>"

definition auth_Register_tx ::
  "auth_lib \<Rightarrow> auth_conf \<Rightarrow> env \<Rightarrow> (nat \<Rightarrow> string) \<Rightarrow> user \<Rightarrow> db \<times> sessions
     \<Rightarrow> (error + auth_session) \<times> (db \<times> sessions)" where
  "auth_Register_tx lib conf e rnd u sr =
     (case sr of (s, r) \<Rightarrow>
       (case sql e ''create user'' 0 (sql_insert (users_violation lib) [u] (users s)) of
          Inl x \<Rightarrow> (Inl (GormErr x), sr)
        | Inr us \<Rightarrow>
            (case issueSession lib conf e rnd u r of
               (Inl err, r') \<Rightarrow> (Inl err, (s\<lparr>users := us\<rparr>, r'))
             | (Inr session, r') \<Rightarrow> (Inr session, (s\<lparr>users := us\<rparr>, r')))))"

definition auth_Register ::
  "auth_lib \<Rightarrow> auth_conf \<Rightarrow> env \<Rightarrow> (nat \<Rightarrow> string) \<Rightarrow> register_request \<Rightarrow> db \<times> sessions
     \<Rightarrow> (error + auth_session) \<times> (db \<times> sessions)" where
  "auth_Register lib conf e rnd req sr =
     (case requireDB e of Some err \<Rightarrow> (Inl err, sr) | None \<Rightarrow>
     (case requireJWT conf of Some err \<Rightarrow> (Inl err, sr) | None \<Rightarrow>
     (case requireRefreshSessions conf of Some err \<Rightarrow> (Inl err, sr) | None \<Rightarrow>
     (case bcrypt_hash (al_crypto lib) (rr_password req) of
        None \<Rightarrow> (Inl (Wrapf ''hash registration password'' (ErrNew ''bcrypt'')), sr)
      | Some hashedPassword \<Rightarrow>
          let u = new_user e (normalizeEmail lib (rr_email req)) hashedPassword (rr_nickname req) in
          (case auth_transaction e (auth_Register_tx lib conf e rnd u) sr of
             ((None, session), sr') \<Rightarrow>
               (case session of None \<Rightarrow> (Inl (ErrNew []), sr') | Some x \<Rightarrow> (Inr x, sr'))
           | ((Some err, session), (s', r')) \<Rightarrow>
               let r'' = (case session of None \<Rightarrow> r'
                          | Some x \<Rightarrow> revokeIssuedSession lib conf e (as_refresh_token x) r') in
               (Inl (if errors_Is err (GormErr ErrDuplicatedKey) then ErrEmailRegistered
                     else if errors_Is err ErrCacheUnavailable then err
                     else Wrapf ''register user'' err), (s', r'')))))))"

section \<open>Login, refresh, logout\<close>

definition auth_Login ::
  "auth_lib \<Rightarrow> auth_conf \<Rightarrow> env \<Rightarrow> (nat \<Rightarrow> string) \<Rightarrow> login_request \<Rightarrow> db \<times> sessions
     \<Rightarrow> (error + auth_session) \<times> (db \<times> sessions)" where
  "auth_Login lib conf e rnd req sr =
     (case requireDB e of Some err \<Rightarrow> (Inl err, sr) | None \<Rightarrow>
     (case requireJWT conf of Some err \<Rightarrow> (Inl err, sr) | None \<Rightarrow>
     (case requireRefreshSessions conf of Some err \<Rightarrow> (Inl err, sr) | None \<Rightarrow>
       let email = normalizeEmail lib (lr_email req) in
       (case sql e ''find user for login'' 0
               (sql_first u_id (\<lambda>u. sql_lower lib (u_email u) = email) (users (fst sr))) of
          Inl ErrRecordNotFound \<Rightarrow> (Inl ErrInvalidCredentials, sr)
        | Inl x \<Rightarrow> (Inl (Wrapf ''find user for login'' (GormErr x)), sr)
        | Inr u \<Rightarrow>
            if \<not> bcrypt_compare (al_crypto lib) (u_password_hash u) (lr_password req)
              then (Inl ErrInvalidCredentials, sr)
            else (case issueSession lib conf e rnd u (snd sr) of (x, r') \<Rightarrow> (x, (fst sr, r')))))))"

definition auth_Refresh ::
  "auth_lib \<Rightarrow> auth_conf \<Rightarrow> env \<Rightarrow> (nat \<Rightarrow> string) \<Rightarrow> string \<Rightarrow> sessions \<Rightarrow> (error + auth_session) \<times> sessions" where
  "auth_Refresh lib conf e rnd raw r =
     (case requireJWT conf of Some err \<Rightarrow> (Inl err, r) | None \<Rightarrow>
     (case requireRefreshSessions conf of Some err \<Rightarrow> (Inl err, r) | None \<Rightarrow>
     (case ParseRefreshToken (al_crypto lib) raw of Inl _ \<Rightarrow> (Inl ErrInvalidRefreshToken, r)
      | Inr currentToken \<Rightarrow>
     (case GenerateRefreshToken (al_crypto lib) e rnd (rt_session_id currentToken) of
        Inl err \<Rightarrow> (Inl (Wrapf ''generate replacement refresh token'' err), r)
      | Inr replacementToken \<Rightarrow>
     (case store_Rotate (sessions_client conf) e (rt_session_id currentToken) (rt_hash currentToken)
             (rt_hash replacementToken) (now e) r of
        (Inl x, r') \<Rightarrow> (Inl (mapRefreshSessionError ''rotate refresh session'' x), r')
      | (Inr session, r') \<Rightarrow>
          (case GenerateToken (al_crypto lib) (al_json lib) (jwt_manager conf) (now e)
                  \<lparr>cl_user_id = rs_user_id session, cl_email = rs_email session,
                   cl_nickname = rs_nickname session\<rparr> of
             Inl x \<Rightarrow> (Inl (Wrapf ''issue refreshed access token'' (token_error_of x)), r')
           | Inr accessToken \<Rightarrow>
               (Inr \<lparr>as_response =
                       \<lparr>ar_user = \<lparr>up_id = rs_user_id session, up_email = rs_email session,
                                  up_nickname = rs_nickname session, up_avatar_url = rs_avatar_url session\<rparr>,
                        ar_access_token = accessToken, ar_expires_in_sec = access_expire conf\<rparr>,
                     as_refresh_token = rt_raw replacementToken,
                     as_refresh_expires_at = rs_expires_at session\<rparr>, r')))))))"

definition auth_Logout ::
  "auth_lib \<Rightarrow> auth_conf \<Rightarrow> env \<Rightarrow> string \<Rightarrow> sessions \<Rightarrow> (error + unit) \<times> sessions" where
  "auth_Logout lib conf e raw r =
     (case requireRefreshSessions conf of Some err \<Rightarrow> (Inl err, r) | None \<Rightarrow>
     (case ParseRefreshToken (al_crypto lib) raw of
        Inl _ \<Rightarrow> (Inl ErrInvalidRefreshToken, r)
      | Inr t \<Rightarrow>
          (case store_Revoke (sessions_client conf) e (rt_session_id t) (rt_hash t) r of
             (Inl x, r') \<Rightarrow> (Inl (mapRefreshSessionError ''revoke refresh session'' x), r')
           | (Inr _, r') \<Rightarrow> (Inr (), r'))))"

definition auth_CurrentUserByID :: "env \<Rightarrow> int \<Rightarrow> db \<Rightarrow> error + user_profile" where
  "auth_CurrentUserByID e userID s =
     (case requireDB e of Some err \<Rightarrow> Inl err | None \<Rightarrow>
     (case sql e ''find current user'' 0 (sql_first u_id (\<lambda>u. u_id u = userID) (users s)) of
        Inl ErrRecordNotFound \<Rightarrow> Inl ErrInvalidAccessToken
      | Inl x \<Rightarrow> Inl (Wrapf ''find current user'' (GormErr x))
      | Inr u \<Rightarrow> Inr (profile_of u)))"

section \<open>The profile\<close>

text \<open>The two optional fields applied to the locked row, or the input is invalid.\<close>

definition apply_nickname :: "optional_string \<Rightarrow> user \<Rightarrow> error + user" where
  "apply_nickname o' u =
     (if \<not> os_set o' then Inr u
      else case os_value o' of
        None \<Rightarrow> Inl ErrInvalidInput
      | Some v \<Rightarrow>
          let nickname = trim_space v in
          if nickname = [] \<or> 64 < rune_count nickname then Inl ErrInvalidInput
          else Inr (u\<lparr>u_nickname := nickname\<rparr>))"

definition apply_avatar :: "optional_string \<Rightarrow> user \<Rightarrow> error + user" where
  "apply_avatar o' u =
     (if \<not> os_set o' then Inr u
      else case os_value o' of
        None \<Rightarrow> Inr (u\<lparr>u_avatar_url := None\<rparr>)
      | Some v \<Rightarrow>
          let normalized = trim_space v in
          if normalized = [] then Inr (u\<lparr>u_avatar_url := None\<rparr>)
          else if 255 < length normalized then Inl ErrInvalidInput
          else Inr (u\<lparr>u_avatar_url := Some normalized\<rparr>))"

definition apply_profile :: "update_user_request \<Rightarrow> user \<Rightarrow> error + user" where
  "apply_profile req u =
     (case apply_nickname (uu_nickname req) u of Inl err \<Rightarrow> Inl err
      | Inr u' \<Rightarrow> apply_avatar (uu_avatar_url req) u')"

definition profile_set :: "auth_lib \<Rightarrow> env \<Rightarrow> update_user_request \<Rightarrow> user \<Rightarrow> user \<Rightarrow> user" where
  "profile_set lib e req u k =
     (let k1 = (if os_set (uu_nickname req) then k\<lparr>u_nickname := u_nickname u\<rparr> else k);
          k2 = (if os_set (uu_avatar_url req) then k1\<lparr>u_avatar_url := u_avatar_url u\<rparr> else k1) in
      if stamps lib then k2\<lparr>u_updated_at := now e\<rparr> else k2)"

definition auth_UpdateCurrentUser_tx ::
  "auth_lib \<Rightarrow> auth_conf \<Rightarrow> env \<Rightarrow> int \<Rightarrow> refresh_token \<Rightarrow> refresh_token \<Rightarrow> update_user_request
     \<Rightarrow> db \<times> sessions \<Rightarrow> (error + user \<times> refresh_session) \<times> (db \<times> sessions)" where
  "auth_UpdateCurrentUser_tx lib conf e userID currentToken replacementToken req sr =
     (case sr of (s, r) \<Rightarrow>
       (case sql e ''find current user for update'' 0 (sql_first u_id (\<lambda>u. u_id u = userID) (users s)) of
          Inl ErrRecordNotFound \<Rightarrow> (Inl ErrInvalidAccessToken, sr)
        | Inl x \<Rightarrow> (Inl (Wrapf ''find current user for update'' (GormErr x)), sr)
        | Inr found \<Rightarrow>
            (case apply_profile req found of
               Inl err \<Rightarrow> (Inl err, sr)
             | Inr u \<Rightarrow>
                 (case sql e ''update current user'' 0
                         (sql_update (users_violation lib) (\<lambda>k. u_id k = userID) (profile_set lib e req u)
                           (users s)) of
                    Inl x \<Rightarrow> (Inl (Wrapf ''update current user'' (GormErr x)), sr)
                  | Inr (us, _) \<Rightarrow>
                      (case store_RotateProfile (sessions_client conf) e (rt_session_id currentToken)
                              (rt_hash currentToken) (rt_hash replacementToken) userID (u_nickname u)
                              (u_avatar_url u) (now e) r of
                         (Inl x, r') \<Rightarrow>
                           (Inl (mapRefreshSessionError ''rotate profile refresh session'' x),
                            (s\<lparr>users := us\<rparr>, r'))
                       | (Inr rotated, r') \<Rightarrow> (Inr (u, rotated), (s\<lparr>users := us\<rparr>, r')))))))"

definition auth_UpdateCurrentUser ::
  "auth_lib \<Rightarrow> auth_conf \<Rightarrow> env \<Rightarrow> (nat \<Rightarrow> string) \<Rightarrow> int \<Rightarrow> string \<Rightarrow> update_user_request option
     \<Rightarrow> db \<times> sessions \<Rightarrow> (error + auth_session) \<times> (db \<times> sessions)" where
  "auth_UpdateCurrentUser lib conf e rnd userID raw reqp sr =
     (case requireDB e of Some err \<Rightarrow> (Inl err, sr) | None \<Rightarrow>
     (case requireJWT conf of Some err \<Rightarrow> (Inl err, sr) | None \<Rightarrow>
     (case requireRefreshSessions conf of Some err \<Rightarrow> (Inl err, sr) | None \<Rightarrow>
     (case reqp of None \<Rightarrow> (Inl ErrInvalidInput, sr) | Some req \<Rightarrow>
      if \<not> os_set (uu_nickname req) \<and> \<not> os_set (uu_avatar_url req) then (Inl ErrInvalidInput, sr)
      else
     (case ParseRefreshToken (al_crypto lib) raw of Inl _ \<Rightarrow> (Inl ErrInvalidRefreshToken, sr)
      | Inr currentToken \<Rightarrow>
     (case GenerateRefreshToken (al_crypto lib) e rnd (rt_session_id currentToken) of
        Inl err \<Rightarrow> (Inl (Wrapf ''generate profile replacement refresh token'' err), sr)
      | Inr replacementToken \<Rightarrow>
     (case auth_transaction e
             (auth_UpdateCurrentUser_tx lib conf e userID currentToken replacementToken req) sr of
        ((Some err, done'), (s', r')) \<Rightarrow>
          (Inl err, (s', case done' of None \<Rightarrow> r'
                         | Some _ \<Rightarrow> revokeIssuedSession lib conf e (rt_raw replacementToken) r'))
      | ((None, done'), (s', r')) \<Rightarrow>
          (case done' of
             None \<Rightarrow> (Inl (ErrNew []), (s', r'))
           | Some (u, rotated) \<Rightarrow>
               (case issueToken lib (jwt_manager conf) (now e) u of
                  Inl x \<Rightarrow> (Inl (Wrapf ''issue profile access token'' (token_error_of x)),
                            (s', revokeIssuedSession lib conf e (rt_raw replacementToken) r'))
                | Inr accessToken \<Rightarrow>
                    (Inr \<lparr>as_response = newAuthResponse u accessToken (access_expire conf),
                          as_refresh_token = rt_raw replacementToken,
                          as_refresh_expires_at = rs_expires_at rotated\<rparr>, (s', r')))))))))))"

section \<open>Sessions issued\<close>

text \<open>The key a new session gets, and the store with it.\<close>

definition issued_key :: "(nat \<Rightarrow> string) \<Rightarrow> string" where
  "issued_key rnd = refreshSessionKey (b64_encode (rnd 0))"

definition issued_token :: "auth_lib \<Rightarrow> (nat \<Rightarrow> string) \<Rightarrow> refresh_token" where
  "issued_token lib rnd = server_token (al_crypto lib) (rnd 0) (rnd 1)"

definition with_session ::
  "auth_lib \<Rightarrow> auth_conf \<Rightarrow> env \<Rightarrow> (nat \<Rightarrow> string) \<Rightarrow> user \<Rightarrow> sessions \<Rightarrow> sessions" where
  "with_session lib conf e rnd u r =
     (let s = session_of e conf u (b64_encode (rnd 0)) in
      r(issued_key rnd \<mapsto> ((case r (issued_key rnd) of None \<Rightarrow> Map.empty | Some (h, x) \<Rightarrow> h)
          ++ session_fields s (rt_hash (issued_token lib rnd)), unix (rs_expires_at s))))"

lemma with_session_off [simp]:
  "(with_session lib conf e rnd u r)(issued_key rnd := None) = r(issued_key rnd := None)"
  by (simp add: with_session_def Let_def)

lemma session_of_sel [simp]: "rs_id (session_of e conf u sid) = sid" "rs_user_id (session_of e conf u sid) = u_id u"
  by (simp_all add: session_of_def)

lemma store_Create_cases:
  assumes "store_Create client e session tok r = (x, r')"
  defines "made \<equiv> r(refreshSessionKey (rs_id session) \<mapsto>
      ((case r (refreshSessionKey (rs_id session)) of None \<Rightarrow> Map.empty | Some (h, x) \<Rightarrow> h)
        ++ session_fields session tok, unix (rs_expires_at session)))"
  shows "(\<exists>err. x = Inl err) \<and> r' = r
    \<or> (\<exists>err. x = Inl err) \<and> fault e ''create refresh session'' 1 \<and> r' = made
    \<or> x = Inr () \<and> client \<and> r' = made"
  using assms by (auto simp: store_Create_def redis_call_def Let_def split: if_splits)

lemma issueSession_cases:
  assumes "issueSession lib conf e rnd u r = (x, r')" "random_ok rnd"
  shows "(\<exists>err. x = Inl err) \<and> (r' = r \<or> fault e ''create refresh session'' 1 \<and> r' = with_session lib conf e rnd u r)
    \<or> (\<exists>sess. x = Inr sess \<and> sessions_client conf \<and> r' = with_session lib conf e rnd u r
        \<and> as_refresh_token sess = rt_raw (issued_token lib rnd) \<and> ar_user (as_response sess) = profile_of u
        \<and> issueToken lib (jwt_manager conf) (now e) u = Inr (ar_access_token (as_response sess)))"
proof (cases "issueToken lib (jwt_manager conf) (now e) u")
  case (Inl y)
  then show ?thesis using assms(1) by (auto simp: issueSession_def)
next
  case (Inr access)
  note acc = Inr
  show ?thesis
  proof (cases "GenerateRefreshToken (al_crypto lib) e rnd []")
    case (Inl y)
    then show ?thesis using assms(1) acc by (auto simp: issueSession_def)
  next
    case (Inr tok)
    then have tok: "tok = issued_token lib rnd"
      using GenerateRefreshToken_new [OF assms(2)] by (simp add: issued_token_def)
    let ?s = "session_of e conf u (rt_session_id tok)"
    obtain y r1 where create: "store_Create (sessions_client conf) e ?s (rt_hash tok) r = (y, r1)" by fastforce
    have "rt_session_id tok = b64_encode (rnd 0)" by (simp add: tok issued_token_def)
    then show ?thesis using assms(1) acc Inr create store_Create_cases [OF create]
      by (auto simp: issueSession_def Let_def tok with_session_def issued_key_def newAuthResponse_def
          split: sum.splits)
  qed
qed

lemma store_Revoke_cases:
  "store_Revoke client e sid tok r = (x, r') \<Longrightarrow> r' = r \<or> r' = r(refreshSessionKey sid := None)"
  by (auto simp: store_Revoke_def redis_call_def revokeRefreshSessionScript_def split: if_splits option.splits)

lemma store_Revoke_done:
  "client \<Longrightarrow> \<not> fault e ''revoke refresh session'' 0
     \<Longrightarrow> snd (store_Revoke client e sid tok r) = r(refreshSessionKey sid := None)"
  by (auto simp: store_Revoke_def redis_call_def revokeRefreshSessionScript_def split: option.splits)

lemma revokeIssuedSession_server:
  assumes "length sid = 32" "length key = 32"
  shows "revokeIssuedSession lib conf e (rt_raw (server_token (al_crypto lib) sid key)) r =
    snd (store_Revoke (sessions_client conf) e (b64_encode sid)
      (rt_hash (server_token (al_crypto lib) sid key)) r)"
  using ParseRefreshToken_server [OF assms, of "al_crypto lib"] by (simp add: revokeIssuedSession_def)

lemma auth_transaction_cases:
  assumes "auth_transaction e body (s, r) = ((err, done'), (s', r'))"
  obtains (failed) x where "err = Some x" "done' = None" "s' = s"
      "fault e ''begin'' 0 \<and> r' = r \<or> (\<exists>s1. body (s, r) = (Inl x, (s1, r')))"
  | (lost) a s1 where "err = Some (GormErr ErrStatement)" "done' = Some a" "s' = s" "body (s, r) = (Inr a, (s1, r'))"
  | (ok) a where "err = None" "done' = Some a" "body (s, r) = (Inr a, (s', r'))"
  using assms by (auto simp: auth_transaction_def split: if_splits sum.splits prod.splits)

definition register_error :: "error \<Rightarrow> error" where
  "register_error err =
     (if errors_Is err (GormErr ErrDuplicatedKey) then ErrEmailRegistered
      else if errors_Is err ErrCacheUnavailable then err else Wrapf ''register user'' err)"

lemma auth_Register_tx_cases:
  assumes "auth_Register_tx lib conf e rnd u (s, r) = (y, (s1, r1))" "random_ok rnd"
  shows "(\<exists>err. y = Inl err) \<and> (r1 = r \<or> fault e ''create refresh session'' 1 \<and> r1 = with_session lib conf e rnd u r)
    \<or> (\<exists>sess. y = Inr sess \<and> s1 = s\<lparr>users := users s @ [u]\<rparr> \<and> users_violation lib (users s @ [u]) = None
        \<and> sessions_client conf \<and> r1 = with_session lib conf e rnd u r
        \<and> as_refresh_token sess = rt_raw (issued_token lib rnd) \<and> ar_user (as_response sess) = profile_of u)"
proof (cases "sql e ''create user'' 0 (sql_insert (users_violation lib) [u] (users s))")
  case (Inl x)
  then show ?thesis using assms(1) by (auto simp: auth_Register_tx_def)
next
  case (Inr us)
  obtain z r2 where iss: "issueSession lib conf e rnd u r = (z, r2)" by fastforce
  have "us = users s @ [u]" "users_violation lib (users s @ [u]) = None"
    using Inr by (simp_all add: sql_insert_Inr)
  then show ?thesis using assms(1) Inr iss issueSession_cases [OF iss assms(2)]
    by (auto simp: auth_Register_tx_def simp del: sql_Inr split: sum.splits)
qed

lemma auth_Register_all_or_nothing':
  assumes rnd: "random_ok rnd" and run: "auth_Register lib conf e rnd req (s, r) = (res, (s', r'))"
  shows "case res of
      Inl err \<Rightarrow> s' = s \<and> r'(issued_key rnd := None) = r(issued_key rnd := None)
        \<and> (r (issued_key rnd) = None \<and> \<not> fault e ''create refresh session'' 1
            \<and> \<not> fault e ''revoke refresh session'' 0 \<longrightarrow> r' = r)
    | Inr sess \<Rightarrow> \<exists>h. bcrypt_hash (al_crypto lib) (rr_password req) = Some h
        \<and> s' = s\<lparr>users := users s @ [new_user e (normalizeEmail lib (rr_email req)) h (rr_nickname req)]\<rparr>
        \<and> users_violation lib (users s') = None
        \<and> r' = with_session lib conf e rnd (new_user e (normalizeEmail lib (rr_email req)) h (rr_nickname req)) r
        \<and> as_refresh_token sess = rt_raw (issued_token lib rnd)"
proof (cases "requireDB e = None \<and> requireJWT conf = None \<and> requireRefreshSessions conf = None
    \<and> bcrypt_hash (al_crypto lib) (rr_password req) \<noteq> None")
  case False
  then have "(\<exists>err. res = Inl err) \<and> s' = s \<and> r' = r"
    using run by (auto simp: auth_Register_def split: option.splits)
  then show ?thesis by auto
next
  case True
  then obtain h where h: "bcrypt_hash (al_crypto lib) (rr_password req) = Some h" by auto
  let ?u = "new_user e (normalizeEmail lib (rr_email req)) h (rr_nickname req)"
  obtain err done' s1 r1 where tx: "auth_transaction e (auth_Register_tx lib conf e rnd ?u) (s, r) = ((err, done'), (s1, r1))"
    by (metis surj_pair)
  have len: "length (rnd 0) = 32" "length (rnd 1) = 32" using rnd by (simp_all add: random_ok_def)
  have key: "issued_key rnd = refreshSessionKey (b64_encode (rnd 0))" by (simp add: issued_key_def)
  have final: "(res, (s', r')) = (case done' of
      None \<Rightarrow> (case err of None \<Rightarrow> (Inl (ErrNew []), (s1, r1)) | Some x \<Rightarrow> (Inl (register_error x), (s1, r1)))
    | Some sess \<Rightarrow> (case err of None \<Rightarrow> (Inr sess, (s1, r1))
        | Some x \<Rightarrow> (Inl (register_error x), (s1, revokeIssuedSession lib conf e (as_refresh_token sess) r1))))"
    using run True h tx by (auto simp: auth_Register_def register_error_def Let_def split: option.splits)
  show ?thesis
  proof (rule auth_transaction_cases [OF tx], goal_cases)
    case (1 x)
    note failed = 1
    then have "r1 = r \<or> fault e ''create refresh session'' 1 \<and> r1 = with_session lib conf e rnd ?u r"
      using auth_Register_tx_cases [OF _ rnd] by fastforce
    then show ?thesis using failed final by auto
  next
    case (2 sess s2)
    note lost = 2
    have ok: "sessions_client conf" "r1 = with_session lib conf e rnd ?u r"
      "as_refresh_token sess = rt_raw (issued_token lib rnd)"
      using auth_Register_tx_cases [OF lost(4) rnd] by auto
    obtain y r2 where rev: "store_Revoke (sessions_client conf) e (b64_encode (rnd 0)) (rt_hash (issued_token lib rnd)) r1 = (y, r2)"
      by fastforce
    have r': "r' = r2" using final lost ok(3) rev revokeIssuedSession_server [OF len, of lib conf e r1]
      by (simp add: issued_token_def)
    have "r2 = r1 \<or> r2 = r1(issued_key rnd := None)"
      using store_Revoke_cases [OF rev] by (simp add: key)
    moreover have "\<not> fault e ''revoke refresh session'' 0 \<Longrightarrow> r2 = r1(issued_key rnd := None)"
      using store_Revoke_done [OF ok(1), of e] rev by (metis key snd_conv)
    moreover have "r (issued_key rnd) = None \<Longrightarrow> r(issued_key rnd := None) = r" by auto
    ultimately show ?thesis using final lost ok(2) r' by auto
  next
    case (3 sess)
    note ok = 3
    then show ?thesis using final h auth_Register_tx_cases [OF ok(3) rnd] by auto
  qed
qed

text \<open>
  C23: Registration is all or nothing. Whatever fails (a statement, the commit, the store,
  the random source): a refused registration leaves the database exactly as it was, and the
  store too except perhaps under the new session's own key; and if that key was unused, the
  store lost no answer and took the clean-up's command, the store is as it was. An accepted
  one adds one user, with the normalized email, the bcrypt hash of the password and no
  other user with that email, and opens one session, whose token is the one handed out.
\<close>

theorem auth_Register_all_or_nothing:
  assumes rnd: "random_ok rnd" and run: "auth_Register lib conf e rnd req (s, r) = (res, (s', r'))"
  shows "case res of
      Inl err \<Rightarrow> s' = s \<and> r'(issued_key rnd := None) = r(issued_key rnd := None)
        \<and> (r (issued_key rnd) = None \<and> \<not> fault e ''create refresh session'' 1
            \<and> \<not> fault e ''revoke refresh session'' 0 \<longrightarrow> r' = r)
    | Inr sess \<Rightarrow> \<exists>h. bcrypt_hash (al_crypto lib) (rr_password req) = Some h
        \<and> s' = s\<lparr>users := users s @ [new_user e (normalizeEmail lib (rr_email req)) h (rr_nickname req)]\<rparr>
        \<and> users_violation lib (users s') = None
        \<and> r' = with_session lib conf e rnd (new_user e (normalizeEmail lib (rr_email req)) h (rr_nickname req)) r
        \<and> as_refresh_token sess = rt_raw (issued_token lib rnd)"
  using assms by (rule auth_Register_all_or_nothing')
lemma issueSession_no_faults:
  assumes "no_faults e" "manager_valid (jwt_manager conf)" "sessions_client conf" "random_ok rnd"
  shows "\<exists>sess. issueSession lib conf e rnd u r = (Inr sess, with_session lib conf e rnd u r)
    \<and> ar_user (as_response sess) = profile_of u"
proof -
  obtain tok where tok: "GenerateRefreshToken (al_crypto lib) e rnd [] = Inr tok"
    using assms(1,4)
    by (simp add: GenerateRefreshToken_def randomSegment_def no_faults_def random_ok_def Let_def)
  moreover have "\<exists>a. issueToken lib (jwt_manager conf) (now e) u = Inr a"
    using assms(2) by (cases "jwt_manager conf") (simp_all add: issueToken_def GenerateToken_def manager_valid_def Let_def)
  moreover obtain x r1 where "issueSession lib conf e rnd u r = (x, r1)" by fastforce
  ultimately show ?thesis
    using issueSession_cases [of lib conf e rnd u r x r1] assms
    by (auto simp: issueSession_def store_Create_def Let_def)
qed

text \<open>What the code relies on of bcrypt and of the two ways to lower a string.\<close>

definition lib_ok :: "auth_lib \<Rightarrow> bool" where
  "lib_ok lib \<longleftrightarrow>
     (\<forall>p h. bcrypt_hash (al_crypto lib) p = Some h \<longrightarrow> bcrypt_compare (al_crypto lib) h p)
     \<and> (\<forall>s. sql_lower lib (to_lower lib s) = to_lower lib s)"

lemma new_user_sel [simp]:
  "u_email (new_user e em h n) = em" "u_password_hash (new_user e em h n) = h" "u_id (new_user e em h n) = new_id e 0"
  by (simp_all add: new_user_def)

lemma account_found:
  assumes "users_violation lib (us @ [u]) = None"
  shows "sql_first u_id (\<lambda>k. sql_lower lib (u_email k) = sql_lower lib (u_email u)) (us @ [u]) = Inr u"
proof (rule sql_first_one)
  have "sql_lower lib (u_email k) \<noteq> sql_lower lib (u_email u)" if "k \<in> set us" for k
    using assms imageI [OF that, of "\<lambda>k. sql_lower lib (u_email k)"] by (auto simp: users_violation_def)
  then show "filter (\<lambda>k. sql_lower lib (u_email k) = sql_lower lib (u_email u)) (us @ [u]) = [u]"
    by (simp add: filter_empty_conv)
qed

text \<open>
  C24: An account can be used by whoever knows its password, and cannot be taken twice.
  After a registration, a login with the same address, however it is spaced or written in
  upper and lower case, and the same password opens a session for that very user and
  changes no row; with a password bcrypt does not accept it is refused with the answer an
  unknown address gets, and changes nothing; and no later registration of that address
  succeeds, whatever its other fields.
\<close>

theorem register_then_login:
  assumes lib: "lib_ok lib" and rnd: "random_ok rnd" "random_ok rnd'" and nf: "no_faults e'"
    and reg: "auth_Register lib conf e rnd req (s, r) = (Inr sess, (s', r'))"
    and h: "bcrypt_hash (al_crypto lib) (rr_password req) = Some h"
    and same: "normalizeEmail lib (lr_email lreq) = normalizeEmail lib (rr_email req)"
      "normalizeEmail lib (rr_email req2) = normalizeEmail lib (rr_email req)"
  shows "(lr_password lreq = rr_password req \<longrightarrow>
      (\<exists>sess' r2. auth_Login lib conf e' rnd' lreq (s', r') = (Inr sess', (s', r2))
        \<and> up_id (ar_user (as_response sess')) = new_id e 0))
    \<and> (\<not> bcrypt_compare (al_crypto lib) h (lr_password lreq) \<longrightarrow>
        auth_Login lib conf e' rnd' lreq (s', r') = (Inl ErrInvalidCredentials, (s', r')))
    \<and> (\<exists>err. fst (auth_Register lib conf e2 rnd' req2 (s', r')) = Inl err)"
proof -
  let ?u = "new_user e (normalizeEmail lib (rr_email req)) h (rr_nickname req)"
  from auth_Register_all_or_nothing' [OF rnd(1) reg] h
  have s': "s' = s\<lparr>users := users s @ [?u]\<rparr>" and v: "users_violation lib (users s @ [?u]) = None" by auto
  have low: "sql_lower lib (normalizeEmail lib x) = normalizeEmail lib x" for x
    using lib by (simp add: lib_ok_def normalizeEmail_def)
  have conf: "requireJWT conf = None" "requireRefreshSessions conf = None" "requireDB e' = None"
    using reg nf by (auto simp: auth_Register_def requireDB_def no_faults_def split: option.splits)
  then have up: "manager_valid (jwt_manager conf)" "sessions_client conf"
    by (auto simp: requireJWT_def requireRefreshSessions_def split: if_splits)
  have found: "sql_first u_id (\<lambda>k. sql_lower lib (u_email k) = normalizeEmail lib (lr_email lreq)) (users s') = Inr ?u"
    using account_found [OF v] low same(1) by (simp add: s')
  obtain sess' where iss: "issueSession lib conf e' rnd' ?u r' = (Inr sess', with_session lib conf e' rnd' ?u r')"
    "ar_user (as_response sess') = profile_of ?u"
    using issueSession_no_faults [OF nf up rnd(2)] by blast
  have login: "auth_Login lib conf e' rnd' lreq (s', r') =
      (if \<not> bcrypt_compare (al_crypto lib) h (lr_password lreq) then (Inl ErrInvalidCredentials, (s', r'))
       else (Inr sess', (s', with_session lib conf e' rnd' ?u r')))"
    using conf found nf iss(1) by (simp add: auth_Login_def Let_def)
  have "\<exists>err. fst (auth_Register lib conf e2 rnd' req2 (s', r')) = Inl err"
  proof (rule ccontr)
    assume "\<not> ?thesis"
    then obtain x s2 r2 where "auth_Register lib conf e2 rnd' req2 (s', r') = (Inr x, (s2, r2))"
      by (metis prod.exhaust_sel sum.exhaust)
    from auth_Register_all_or_nothing' [OF rnd(2) this] s' same(2)
    show False by (auto simp: users_violation_def)
  qed
  moreover have "bcrypt_compare (al_crypto lib) h (rr_password req)" using lib h by (simp add: lib_ok_def)
  ultimately show ?thesis using login iss(2) by (auto simp: profile_of_def)
qed
section \<open>Refresh\<close>

lemma auth_Refresh_eq:
  assumes conf: "requireJWT conf = None" "requireRefreshSessions conf = None"
    and rnd: "random_ok rnd" and nf: "no_faults e" and len: "length sid = 32" "length key = 32"
    and rot: "store_Rotate True e (b64_encode sid) (rt_hash (server_token (al_crypto lib) sid key))
        (rt_hash (server_token (al_crypto lib) sid (rnd 1))) (now e) r = (x, r')"
  shows "case x of
      Inl y \<Rightarrow> auth_Refresh lib conf e rnd (rt_raw (server_token (al_crypto lib) sid key)) r
        = (Inl (mapRefreshSessionError ''rotate refresh session'' y), r')
    | Inr ss \<Rightarrow> \<exists>sess. auth_Refresh lib conf e rnd (rt_raw (server_token (al_crypto lib) sid key)) r = (Inr sess, r')
        \<and> as_refresh_token sess = rt_raw (server_token (al_crypto lib) sid (rnd 1))
        \<and> as_refresh_expires_at sess = rs_expires_at ss \<and> up_id (ar_user (as_response sess)) = rs_user_id ss"
proof -
  have up: "manager_valid (jwt_manager conf)" "sessions_client conf"
    using conf by (auto simp: requireJWT_def requireRefreshSessions_def split: if_splits)
  have "b64_encode sid \<noteq> []" using len by auto
  then obtain tok where "GenerateRefreshToken (al_crypto lib) e rnd (b64_encode sid) = Inr tok"
    using nf rnd len by (simp add: GenerateRefreshToken_def randomSegment_def no_faults_def Let_def)
  with GenerateRefreshToken_next [OF rnd len(1) this]
  have gen: "GenerateRefreshToken (al_crypto lib) e rnd (b64_encode sid) = Inr (server_token (al_crypto lib) sid (rnd 1))"
    by simp
  have acc: "\<exists>a. GenerateToken (al_crypto lib) (al_json lib) (jwt_manager conf) (now e) c = Inr a" for c
    using up(1) by (cases "jwt_manager conf") (simp_all add: GenerateToken_def manager_valid_def Let_def)
  note parse = ParseRefreshToken_server [OF len, of "al_crypto lib"]
  show ?thesis
  proof (cases x)
    case (Inl y)
    then show ?thesis using conf up(2) parse gen rot
      by (simp add: auth_Refresh_def del: server_token_sel(1,3) One_nat_def)
  next
    case (Inr ss)
    obtain a where "GenerateToken (al_crypto lib) (al_json lib) (jwt_manager conf) (now e)
        \<lparr>cl_user_id = rs_user_id ss, cl_email = rs_email ss, cl_nickname = rs_nickname ss\<rparr> = Inr a"
      using acc by blast
    then show ?thesis using conf up(2) parse gen rot Inr
      by (simp add: auth_Refresh_def del: server_token_sel(1,3) One_nat_def)
  qed
qed

text \<open>
  C19: A refresh token works once, and presenting it again ends the session. Take a token
  the server handed out that was just exchanged for a new one. Presented again, by anybody
  and at any time, it is refused: as reused while the session lasts, as invalid after it
  has expired. From then on the new token is refused as well, so neither the owner nor a
  thief keeps the session.
\<close>

theorem refresh_replay_ends_session:
  assumes nf: "no_faults e" "no_faults e2" "no_faults e3" and rnd: "random_ok rnd" "random_ok rnd2" "random_ok rnd3"
    and store: "store_ok r" and len: "length sid = 32" "length key = 32"
    and first: "auth_Refresh lib conf e rnd (rt_raw (server_token (al_crypto lib) sid key)) r = (Inr sess, r1)"
    and hash: "rt_hash (server_token (al_crypto lib) sid key) \<noteq> rt_hash (server_token (al_crypto lib) sid (rnd 1))"
  shows "\<exists>err r2. auth_Refresh lib conf e2 rnd2 (rt_raw (server_token (al_crypto lib) sid key)) r1 = (Inl err, r2)
    \<and> err = (if unix (as_refresh_expires_at sess) \<le> unix (now e2) then ErrInvalidRefreshToken else ErrRefreshTokenReused)
    \<and> auth_Refresh lib conf e3 rnd3 (as_refresh_token sess) r2 = (Inl ErrInvalidRefreshToken, r2)"
proof -
  let ?t = "server_token (al_crypto lib) sid key" and ?n = "server_token (al_crypto lib) sid (rnd 1)"
  have conf: "requireJWT conf = None" "requireRefreshSessions conf = None"
    using first by (auto simp: auth_Refresh_def split: option.splits)
  obtain x ra where r1: "store_Rotate True e (b64_encode sid) (rt_hash ?t) (rt_hash ?n) (now e) r = (x, ra)" by fastforce
  have len1: "length (rnd 1) = 32" using rnd(1) by (simp add: random_ok_def)
  note e1 = auth_Refresh_eq [OF conf rnd(1) nf(1) len r1]
  obtain ss where x: "x = Inr ss" using e1 first by (cases x) (auto simp: mapRefreshSessionError_def)
  have ra: "ra = r1" and tok: "as_refresh_token sess = rt_raw ?n"
    and exp: "as_refresh_expires_at sess = rs_expires_at ss"
    using e1 first x by auto
  note l1 = rs.rotate_cases [OF nf(1) store r1]
  have v1: "session_view r1 (b64_encode sid) = Some (rt_hash ?n, ss)"
    using l1(2) x ra by (auto simp: spec_rotate_def split: option.splits if_splits)
  obtain y r2 where r2: "store_Rotate True e2 (b64_encode sid) (rt_hash ?t)
      (rt_hash (server_token (al_crypto lib) sid (rnd2 1))) (now e2) r1 = (y, r2)" by fastforce
  note l2 = rs.rotate_cases [OF nf(2) l1(1) [unfolded ra] r2]
  have y: "y = Inl (if unix (rs_expires_at ss) \<le> unix (now e2) then ErrRefreshSessionNotFound else ErrTokenReused)"
    and v2: "session_view r2 (b64_encode sid) = None"
    using l2(2) v1 hash by (auto simp: spec_rotate_def split: if_splits)
  obtain z r3 where r3: "store_Rotate True e3 (b64_encode sid) (rt_hash ?n)
      (rt_hash (server_token (al_crypto lib) sid (rnd3 1))) (now e3) r2 = (z, r3)" by fastforce
  note l3 = rs.rotate_cases [OF nf(3) l2(1) r3]
  have none: "r2 (refreshSessionKey (b64_encode sid)) = None"
    using v2 l2(1) store_ok_cases [of r2 "b64_encode sid"] by fastforce
  have "z = Inl ErrRefreshSessionNotFound" "r3 = r2"
    using l3(2) v2 none r3 nf(3) by (auto simp: spec_rotate_def store_Rotate_def rotateRefreshSessionScript_def)
  then show ?thesis
    using auth_Refresh_eq [OF conf rnd(2) nf(2) len r2] auth_Refresh_eq [OF conf rnd(3) nf(3) len(1) len1 r3] y tok exp
    by (auto simp: mapRefreshSessionError_def simp del: server_token_sel(1,3) One_nat_def)
qed

section \<open>The profile\<close>

interpretation ut: keyed_table u_id users_violation
  by unfold_locales (simp add: users_violation_def)

lemma profile_set_sel [simp]: "u_id (profile_set lib e req u k) = u_id k" "u_email (profile_set lib e req u k) = u_email k"
  by (simp_all add: profile_set_def Let_def)

lemma apply_profile_Inr:
  assumes "apply_profile req u = Inr u'"
  shows "u_id u' = u_id u" "profile_of (profile_set lib e req u' u) = profile_of u'"
  using assms
  by (auto simp: apply_profile_def apply_nickname_def apply_avatar_def profile_set_def profile_of_def Let_def
      split: if_splits option.splits sum.splits)

lemma auth_UpdateCurrentUser_tx_Inr:
  assumes "auth_UpdateCurrentUser_tx lib conf e uid cur repl req (s, r) = (Inr (u', rotated), (s', r'))"
    and "distinct (map u_id (users s))"
  shows "\<exists>u\<in>set (users s). u_id u = uid \<and> apply_profile req u = Inr u'
    \<and> s' = s\<lparr>users := replace_row u_id (profile_set lib e req u' u) (users s)\<rparr>
    \<and> users_violation lib (users s') = None
    \<and> store_RotateProfile (sessions_client conf) e (rt_session_id cur) (rt_hash cur) (rt_hash repl) uid
        (u_nickname u') (u_avatar_url u') (now e) r = (Inr rotated, r')"
proof -
  obtain u where u: "sql_first u_id (\<lambda>u. u_id u = uid) (users s) = Inr u" and ap: "apply_profile req u = Inr u'"
    and "\<exists>us n. sql_update (users_violation lib) (\<lambda>k. u_id k = uid) (profile_set lib e req u') (users s) = Inr (us, n)
      \<and> s' = s\<lparr>users := us\<rparr>"
    and rot: "store_RotateProfile (sessions_client conf) e (rt_session_id cur) (rt_hash cur) (rt_hash repl) uid
        (u_nickname u') (u_avatar_url u') (now e) r = (Inr rotated, r')"
    using assms(1) by (auto simp: auth_UpdateCurrentUser_tx_def split: sum.splits db_error.splits prod.splits)
  then obtain us n where upd: "sql_update (users_violation lib) (\<lambda>k. u_id k = uid) (profile_set lib e req u') (users s) = Inr (us, n)"
    and s': "s' = s\<lparr>users := us\<rparr>" by blast
  have "u \<in> set (users s)" "u_id u = uid" using sql_first_Inr [OF u] by auto
  then show ?thesis
    using ut.update_reload(1,3) [OF upd assms(2), of u] ap s' rot by auto
qed

lemma issueToken_valid: "requireJWT conf = None \<Longrightarrow> issueToken lib (jwt_manager conf) t u \<noteq> Inl x"
  by (cases "jwt_manager conf")
    (simp_all add: requireJWT_def issueToken_def GenerateToken_def manager_valid_def Let_def split: if_splits)

lemma store_RotateProfile_Inr:
  assumes "store_RotateProfile client e sid cur repl u nick av t r = (Inr ss, r')" "store_ok r"
  shows "session_view r' sid = Some (repl, ss) \<and> rs_user_id ss = u \<and> rs_nickname ss = nick
    \<and> rs_avatar_url ss = optionalStringPointer (optionalString av)"
proof -
  have "store_RotateProfile True calm_env sid cur repl u nick av t r = (Inr ss, r')"
    using assms(1) by (auto simp: store_RotateProfile_def redis_call_def calm_env_def split: if_splits prod.splits)
  with store_RotateProfile_spec [OF no_faults_calm assms(2), of sid cur repl u nick av t] show ?thesis
    by (auto simp: spec_rotate_profile_def stored_session_def Let_def split: option.splits if_splits)
qed

text \<open>
  C25: A profile change happens in the row and in the session together. If it is refused,
  for whatever reason, the database is exactly as it was. If it is accepted, the user's own
  row holds the new fields, trimmed and within their limits, no other row changed, the
  answer shows the row, and the session behind the presented token now carries the same
  nickname and avatar, under the token that was handed out with the answer.
\<close>

theorem auth_UpdateCurrentUser_consistent:
  assumes users: "users_violation lib (users s) = None" and store: "store_ok r" and rnd: "random_ok rnd"
    and len: "length sid = 32" "length key = 32"
    and run: "auth_UpdateCurrentUser lib conf e rnd uid (rt_raw (server_token (al_crypto lib) sid key)) reqp (s, r)
      = (res, (s', r'))"
  shows "case res of
      Inl err \<Rightarrow> s' = s
    | Inr sess \<Rightarrow> \<exists>req u u' ss. reqp = Some req \<and> u \<in> set (users s) \<and> u_id u = uid \<and> apply_profile req u = Inr u'
        \<and> s' = s\<lparr>users := replace_row u_id (profile_set lib e req u' u) (users s)\<rparr>
        \<and> users_violation lib (users s') = None
        \<and> ar_user (as_response sess) = profile_of (profile_set lib e req u' u)
        \<and> as_refresh_token sess = rt_raw (server_token (al_crypto lib) sid (rnd 1))
        \<and> session_view r' (b64_encode sid) = Some (rt_hash (server_token (al_crypto lib) sid (rnd 1)), ss)
        \<and> rs_user_id ss = uid \<and> rs_nickname ss = u_nickname u'
        \<and> rs_avatar_url ss = optionalStringPointer (optionalString (u_avatar_url u'))"
proof (cases res)
  case (Inl err)
  then show ?thesis using run issueToken_valid [of conf lib]
    by (auto simp: auth_UpdateCurrentUser_def auth_transaction_def split: option.splits sum.splits if_splits prod.splits)
next
  case (Inr sess)
  let ?cr = "al_crypto lib"
  let ?t = "server_token ?cr sid key" and ?n = "server_token ?cr sid (rnd 1)"
  note parse = ParseRefreshToken_server [OF len, of ?cr]
  obtain req repl u' rotated where req: "reqp = Some req"
    and gen: "GenerateRefreshToken ?cr e rnd (b64_encode sid) = Inr repl"
    and tx: "auth_transaction e (auth_UpdateCurrentUser_tx lib conf e uid ?t repl req) (s, r)
      = ((None, Some (u', rotated)), (s', r'))"
    and out: "ar_user (as_response sess) = profile_of u'" "as_refresh_token sess = rt_raw repl"
    using run Inr parse
    by (auto simp: auth_UpdateCurrentUser_def newAuthResponse_def simp del: server_token_sel(1)
        split: option.splits sum.splits if_splits prod.splits)
  have repl: "repl = ?n" by (rule GenerateRefreshToken_next [OF rnd len(1) gen])
  have body: "auth_UpdateCurrentUser_tx lib conf e uid ?t repl req (s, r) = (Inr (u', rotated), (s', r'))"
    using tx by (auto simp: auth_transaction_def split: if_splits sum.splits prod.splits)
  have "distinct (map u_id (users s))" using users by (simp add: users_violation_def)
  from auth_UpdateCurrentUser_tx_Inr [OF body this] obtain u where
    u: "u \<in> set (users s)" "u_id u = uid" "apply_profile req u = Inr u'"
      "s' = s\<lparr>users := replace_row u_id (profile_set lib e req u' u) (users s)\<rparr>"
      "users_violation lib (users s') = None"
    and rot: "store_RotateProfile (sessions_client conf) e (rt_session_id ?t) (rt_hash ?t) (rt_hash repl) uid
        (u_nickname u') (u_avatar_url u') (now e) r = (Inr rotated, r')" by blast
  have view: "session_view r' (b64_encode sid) = Some (rt_hash repl, rotated) \<and> rs_user_id rotated = uid
      \<and> rs_nickname rotated = u_nickname u' \<and> rs_avatar_url rotated = optionalStringPointer (optionalString (u_avatar_url u'))"
    using store_RotateProfile_Inr [OF rot store] by simp
  have prof: "profile_of (profile_set lib e req u' u) = profile_of u'"
    by (rule apply_profile_Inr(2) [OF u(3)])
  show ?thesis unfolding Inr sum.case
    by (intro exI [of _ req] exI [of _ u] exI [of _ u'] exI [of _ rotated] conjI)
      (use req u out prof view repl in simp_all)
qed
section \<open>A concrete service\<close>

definition sample_lib :: auth_lib where
  "sample_lib = \<lparr>al_crypto = sample_crypto, al_json = sample_json_text, to_lower = map lower_char,
     sql_lower = map lower_char, stamps = False\<rparr>"

definition sample_conf :: auth_conf where
  "sample_conf = \<lparr>jwt_manager = Some sample_manager, sessions_client = True, refresh_expire = 9, access_expire = 7200\<rparr>"

definition sample_random :: "nat \<Rightarrow> string" where
  "sample_random k = replicate 32 (char_of k)"

definition empty_db :: db where
  "empty_db = \<lparr>users = [], documents = [], parse_jobs = [], parse_results = [], projects = [], tasks = []\<rparr>"

definition sample_register :: register_request where
  "sample_register = \<lparr>rr_email = ''A@b'', rr_password = ''p'', rr_nickname = ''n''\<rparr>"

lemma lower_char_idem: "lower_char (lower_char c) = lower_char c"
proof (cases "byte_in 65 90 c")
  case True
  then have "\<not> byte_in 65 90 (char_of (of_char c + 32 :: nat))" by (simp add: byte_in_def)
  then show ?thesis using True by (simp add: lower_char_def)
qed (simp add: lower_char_def)

lemma sample_lib_ok [simp]: "lib_ok sample_lib" "random_ok sample_random"
  by (auto simp: lib_ok_def sample_lib_def sample_crypto_def lower_char_idem random_ok_def sample_random_def
      split: if_splits)

lemma sample_conf_ready [simp]:
  "requireJWT sample_conf = None" "requireRefreshSessions sample_conf = None" "requireDB calm_env = None"
  "manager_valid (jwt_manager sample_conf)" "sessions_client sample_conf"
  by (simp_all add: requireJWT_def requireRefreshSessions_def requireDB_def sample_conf_def calm_env_def)

lemma sample_email: "normalizeEmail sample_lib ''A@b'' = ''a@b''" "normalizeEmail sample_lib ''  a@B'' = ''a@b''"
proof -
  have up: "lower_char (CHR ''A'') = CHR ''a''" "lower_char (CHR ''B'') = CHR ''b''" by code_simp+
  have low: "lower_char (CHR ''a'') = CHR ''a''" "lower_char (CHR ''b'') = CHR ''b''" "lower_char (CHR ''@'') = CHR ''@''"
    by code_simp+
  show "normalizeEmail sample_lib ''A@b'' = ''a@b''" "normalizeEmail sample_lib ''  a@B'' = ''a@b''"
    by (simp_all add: normalizeEmail_def sample_lib_def trim_space_def strip_def is_space_def segments_ascii_Cons up low)
qed

lemma calm_env_sel [simp]: "\<not> fault calm_env l k" "new_id calm_env k = int k" "now calm_env = 0"
  by (simp_all add: calm_env_def)

definition registered_user :: user where
  "registered_user = new_user calm_env ''a@b'' ''p'' ''n''"

lemma sample_registered:
  "\<exists>sess. auth_Register sample_lib sample_conf calm_env sample_random sample_register (empty_db, Map.empty)
    = (Inr sess, (empty_db\<lparr>users := [registered_user]\<rparr>,
        with_session sample_lib sample_conf calm_env sample_random registered_user Map.empty))"
proof -
  have hash: "bcrypt_hash (al_crypto sample_lib) ''p'' = Some ''p''"
    by (simp add: sample_lib_def sample_crypto_def)
  have "users_violation sample_lib [registered_user] = None"
    by (simp add: users_violation_def user_check_def registered_user_def new_user_def varchar_def rune_count_ascii)
  moreover obtain sess where "issueSession sample_lib sample_conf calm_env sample_random registered_user Map.empty
      = (Inr sess, with_session sample_lib sample_conf calm_env sample_random registered_user Map.empty)"
    using issueSession_no_faults [OF no_faults_calm sample_conf_ready(4,5) sample_lib_ok(2)] by blast
  ultimately have tx: "auth_Register_tx sample_lib sample_conf calm_env sample_random registered_user (empty_db, Map.empty)
      = (Inr sess, (empty_db\<lparr>users := [registered_user]\<rparr>,
          with_session sample_lib sample_conf calm_env sample_random registered_user Map.empty))"
    by (simp add: auth_Register_tx_def sql_insert_def empty_db_def)
  then show ?thesis
    using hash by (simp add: auth_Register_def auth_transaction_def sample_register_def sample_email
        registered_user_def Let_def)
qed

theorem auth_Register_all_or_nothing_witness:
  "\<exists>sess sr. auth_Register sample_lib sample_conf calm_env sample_random sample_register (empty_db, Map.empty) = (Inr sess, sr)
    \<and> users (fst sr) = [registered_user] \<and> as_refresh_token sess = rt_raw (issued_token sample_lib sample_random)"
proof -
  obtain sess where reg: "auth_Register sample_lib sample_conf calm_env sample_random sample_register (empty_db, Map.empty)
    = (Inr sess, (empty_db\<lparr>users := [registered_user]\<rparr>,
        with_session sample_lib sample_conf calm_env sample_random registered_user Map.empty))"
    using sample_registered by blast
  from auth_Register_all_or_nothing [OF sample_lib_ok(2) reg]
  have "as_refresh_token sess = rt_raw (issued_token sample_lib sample_random)" by auto
  then show ?thesis using reg by simp
qed

theorem register_then_login_witness:
  "\<exists>sess sess' s r r2. auth_Register sample_lib sample_conf calm_env sample_random sample_register (empty_db, Map.empty)
      = (Inr sess, (s, r))
    \<and> auth_Login sample_lib sample_conf calm_env sample_random \<lparr>lr_email = ''  a@B'', lr_password = ''p''\<rparr> (s, r)
      = (Inr sess', (s, r2))
    \<and> up_id (ar_user (as_response sess')) = 0
    \<and> auth_Login sample_lib sample_conf calm_env sample_random \<lparr>lr_email = ''  a@B'', lr_password = ''q''\<rparr> (s, r)
      = (Inl ErrInvalidCredentials, (s, r))"
proof -
  obtain sess s r where reg: "auth_Register sample_lib sample_conf calm_env sample_random sample_register (empty_db, Map.empty)
    = (Inr sess, (s, r))"
    using sample_registered by blast
  have hash: "bcrypt_hash (al_crypto sample_lib) (rr_password sample_register) = Some ''p''"
    by (simp add: sample_lib_def sample_crypto_def sample_register_def)
  have cmp: "\<not> bcrypt_compare (al_crypto sample_lib) ''p'' ''q''" by (simp add: sample_lib_def sample_crypto_def)
  have em: "normalizeEmail sample_lib (lr_email \<lparr>lr_email = ''  a@B'', lr_password = q\<rparr>)
      = normalizeEmail sample_lib (rr_email sample_register)" for q
    by (simp add: sample_email sample_register_def)
  note use = register_then_login [OF sample_lib_ok(1) sample_lib_ok(2) sample_lib_ok(2) no_faults_calm reg hash em refl]
  show ?thesis using reg use [of "''p''" calm_env] use [of "''q''" calm_env] cmp
    by (auto simp: sample_register_def)
qed

definition token_bytes :: string where
  "token_bytes = replicate 32 (CHR ''t'')"

definition token_session :: refresh_session where
  "token_session = \<lparr>rs_id = b64_encode token_bytes, rs_user_id = 1, rs_email = ''a'', rs_nickname = ''n'',
     rs_avatar_url = None, rs_expires_at = 9000000000\<rparr>"

definition token_store :: sessions where
  "token_store = snd (store_Create True calm_env token_session
     (rt_hash (server_token sample_crypto token_bytes token_bytes)) Map.empty)"

lemma token_store_view [simp]:
  "store_ok token_store" "session_view token_store (b64_encode token_bytes)
    = Some (rt_hash (server_token sample_crypto token_bytes token_bytes), token_session)"
proof -
  have s: "session_int token_session" "stored_session token_session = token_session" "rs_id token_session = b64_encode token_bytes"
    by (simp_all add: session_int_def token_session_def int64_def unix_def stored_session_def
        optionalString_def optionalStringPointer_def)
  show "store_ok token_store" "session_view token_store (b64_encode token_bytes)
    = Some (rt_hash (server_token sample_crypto token_bytes token_bytes), token_session)"
    using store_Create_spec [OF no_faults_calm store_ok_empty s(1),
        of "rt_hash (server_token sample_crypto token_bytes token_bytes)"] s
    by (simp_all add: token_store_def spec_create_def prod_eq_iff del: server_token_sel)
qed

lemma token_lengths [simp]: "length token_bytes = 32" "length (sample_random k) = 32"
  "al_crypto sample_lib = sample_crypto" "unix (now calm_env) = 0"
  by (simp_all add: token_bytes_def sample_random_def sample_lib_def calm_env_def unix_def)

lemma hex_digit_inject: "m < 16 \<Longrightarrow> n < 16 \<Longrightarrow> hex_digit m = hex_digit n \<Longrightarrow> m = n"
proof -
  assume mn: "m < 16" "n < 16" and eq: "hex_digit m = hex_digit n"
  have "of_char (hex_digit k) = (if k < 10 then 48 + k else 87 + k)" if "k < 16" for k :: nat
    using that by (simp add: hex_digit_def)
  then have "(if m < 10 then 48 + m else 87 + m) = (if n < 10 then 48 + n else 87 + n)" using mn eq by metis
  then show ?thesis using mn by (auto split: if_splits)
qed

lemma hex_encode_inject:
  "list_all (\<lambda>x. x < 256) xs \<Longrightarrow> list_all (\<lambda>x. x < 256) ys \<Longrightarrow> hex_encode xs = hex_encode ys \<Longrightarrow> xs = ys"
proof (induction xs arbitrary: ys)
  case Nil
  then show ?case by (cases ys) (simp_all add: hex_encode_def)
next
  case (Cons x xs)
  then obtain y ys' where ys: "ys = y # ys'" by (cases ys) (simp_all add: hex_encode_def)
  have "x div 16 mod 16 = y div 16 mod 16" "x mod 16 = y mod 16"
    using Cons.prems ys hex_digit_inject by (simp_all add: hex_encode_def)
  moreover have "x div 16 < 16" "y div 16 < 16" using Cons.prems ys by (simp_all add: div_less_iff_less_mult)
  ultimately have "x = y" by (metis div_mult_mod_eq mod_less)
  then show ?case using Cons ys by (simp add: hex_encode_def)
qed

lemma sample_hash_differs:
  "rt_hash (server_token sample_crypto token_bytes token_bytes)
     \<noteq> rt_hash (server_token sample_crypto token_bytes (sample_random 1))"
proof -
  have "hd token_bytes = CHR ''t''" "hd (sample_random 1) = char_of (1 :: nat)"
    by (simp_all add: token_bytes_def sample_random_def)
  moreover have "(of_char (CHR ''t'') :: nat) \<noteq> of_char (char_of (1 :: nat))" by simp
  ultimately have "token_bytes \<noteq> sample_random 1" by metis
  then show ?thesis
    using hex_encode_inject [OF bytes_bound bytes_bound, of "b64_encode token_bytes @ ''.'' @ b64_encode token_bytes"
        "b64_encode token_bytes @ ''.'' @ b64_encode (sample_random 1)"]
    by (auto simp: hashToken_def sample_crypto_def b64_encode_inject inj_map_eq_map [OF inj_of_char])
qed

lemma sample_refresh:
  "\<exists>sess r1. auth_Refresh sample_lib sample_conf calm_env sample_random
      (rt_raw (server_token (al_crypto sample_lib) token_bytes token_bytes)) token_store = (Inr sess, r1)
    \<and> as_refresh_expires_at sess = 9000000000"
proof -
  obtain x r1 where rot: "store_Rotate True calm_env (b64_encode token_bytes)
      (rt_hash (server_token (al_crypto sample_lib) token_bytes token_bytes))
      (rt_hash (server_token (al_crypto sample_lib) token_bytes (sample_random 1))) (now calm_env) token_store = (x, r1)"
    by fastforce
  have "x = Inr token_session"
    using rs.rotate_cases(2) [OF no_faults_calm token_store_view(1) rot] token_store_view(2)
    by (auto simp: spec_rotate_def token_session_def unix_def simp del: server_token_sel)
  then show ?thesis
    using auth_Refresh_eq [OF sample_conf_ready(1,2) sample_lib_ok(2) no_faults_calm token_lengths(1) token_lengths(1) rot]
    by (auto simp: token_session_def simp del: server_token_sel token_lengths)
qed

theorem refresh_replay_ends_session_witness:
  "\<exists>sess r1 r2. auth_Refresh sample_lib sample_conf calm_env sample_random
      (rt_raw (server_token sample_crypto token_bytes token_bytes)) token_store = (Inr sess, r1)
    \<and> auth_Refresh sample_lib sample_conf calm_env sample_random
      (rt_raw (server_token sample_crypto token_bytes token_bytes)) r1 = (Inl ErrRefreshTokenReused, r2)
    \<and> auth_Refresh sample_lib sample_conf calm_env sample_random (as_refresh_token sess) r2 = (Inl ErrInvalidRefreshToken, r2)"
proof -
  obtain sess r1 where first: "auth_Refresh sample_lib sample_conf calm_env sample_random
      (rt_raw (server_token (al_crypto sample_lib) token_bytes token_bytes)) token_store = (Inr sess, r1)"
    and exp: "as_refresh_expires_at sess = 9000000000" using sample_refresh by blast
  have "unix 9000000000 = 9" "unix 0 = 0" by (simp_all add: unix_def)
  with refresh_replay_ends_session [OF no_faults_calm no_faults_calm no_faults_calm sample_lib_ok(2) sample_lib_ok(2)
      sample_lib_ok(2) token_store_view(1) token_lengths(1) token_lengths(1) first] first exp sample_hash_differs
  show ?thesis by (auto simp del: server_token_sel)
qed
definition rename :: update_user_request where
  "rename = \<lparr>uu_nickname = \<lparr>os_set = True, os_value = Some '' m''\<rparr>, uu_avatar_url = \<lparr>os_set = False, os_value = None\<rparr>\<rparr>"

definition one_user_db :: db where
  "one_user_db = empty_db\<lparr>users := [sample_user 1]\<rparr>"

lemma one_user_ok: "users_violation sample_lib (users one_user_db) = None"
  by (simp add: users_violation_def user_check_def one_user_db_def sample_user_def varchar_def rune_count_ascii)

lemma rename_applies: "apply_profile rename (sample_user 1) = Inr ((sample_user 1)\<lparr>u_nickname := ''m''\<rparr>)"
  by (simp add: apply_profile_def apply_nickname_def apply_avatar_def rename_def trim_space_def strip_def
      is_space_def segments_ascii_Cons rune_count_ascii Let_def)

lemma sample_rename:
  "\<exists>sess s' r'. auth_UpdateCurrentUser sample_lib sample_conf calm_env sample_random 1
      (rt_raw (server_token (al_crypto sample_lib) token_bytes token_bytes)) (Some rename) (one_user_db, token_store)
    = (Inr sess, (s', r'))"
proof -
  let ?t = "server_token (al_crypto sample_lib) token_bytes token_bytes"
  let ?n = "server_token (al_crypto sample_lib) token_bytes (sample_random 1)"
  let ?u = "(sample_user 1)\<lparr>u_nickname := ''m''\<rparr>"
  note parse = ParseRefreshToken_server [OF token_lengths(1) token_lengths(1), of "al_crypto sample_lib"]
  obtain tok where gen: "GenerateRefreshToken (al_crypto sample_lib) calm_env sample_random (b64_encode token_bytes) = Inr tok"
    by (auto simp: GenerateRefreshToken_def randomSegment_def Let_def token_bytes_def)
  have tok: "tok = ?n" by (rule GenerateRefreshToken_next [OF sample_lib_ok(2) token_lengths(1) gen])
  have find: "sql_first u_id (\<lambda>u. u_id u = 1) (users one_user_db) = Inr (sample_user 1)"
    by (rule sql_first_one) (simp add: one_user_db_def sample_user_def)
  have "users_violation sample_lib [profile_set sample_lib calm_env rename ?u (sample_user 1)] = None"
    by (simp add: users_violation_def user_check_def profile_set_def rename_def sample_user_def varchar_def
        rune_count_ascii sample_lib_def Let_def)
  then obtain us where upd: "sql_update (users_violation sample_lib) (\<lambda>k. u_id k = 1)
      (profile_set sample_lib calm_env rename ?u) (users one_user_db) = Inr us"
    by (auto simp: sql_update_def one_user_db_def sample_user_def Let_def)
  obtain x r' where rot: "store_RotateProfile True calm_env (b64_encode token_bytes) (rt_hash ?t) (rt_hash ?n) 1
      ''m'' None 0 token_store = (x, r')" by fastforce
  have "(x, session_view r') = spec_rotate_profile (b64_encode token_bytes) (rt_hash ?t) (rt_hash ?n) 1 ''m'' None 0
      (session_view token_store)"
    using store_RotateProfile_spec [OF no_faults_calm token_store_view(1), of "b64_encode token_bytes" "rt_hash ?t"
        "rt_hash ?n" 1 "''m''" None 0] unfolding rot by simp
  then have "\<exists>ss. x = Inr ss"
    using token_store_view(2)
    by (auto simp: spec_rotate_profile_def token_session_def unix_def Let_def simp del: server_token_sel)
  then obtain ss where x: "x = Inr ss" by blast
  have "u_avatar_url ?u = None" by (simp add: sample_user_def)
  then have body: "auth_UpdateCurrentUser_tx sample_lib sample_conf calm_env 1 ?t ?n rename (one_user_db, token_store)
      = (Inr (?u, ss), (one_user_db\<lparr>users := fst us\<rparr>, r'))"
    using find rename_applies upd rot x
    by (cases us) (simp add: auth_UpdateCurrentUser_tx_def del: server_token_sel(1,3) token_lengths(3))
  moreover have "os_set (uu_nickname rename)" by (simp add: rename_def)
  moreover obtain a where "issueToken sample_lib (jwt_manager sample_conf) 0 ?u = Inr a"
    using issueToken_valid [OF sample_conf_ready(1)] by (metis sum.exhaust)
  ultimately show ?thesis using parse gen
    by (simp add: auth_UpdateCurrentUser_def auth_transaction_def tok del: server_token_sel(1,3) token_lengths(3))
qed

theorem auth_UpdateCurrentUser_consistent_witness:
  "\<exists>sess s' r' ss. auth_UpdateCurrentUser sample_lib sample_conf calm_env sample_random 1
      (rt_raw (server_token (al_crypto sample_lib) token_bytes token_bytes)) (Some rename) (one_user_db, token_store)
    = (Inr sess, (s', r'))
    \<and> session_view r' (b64_encode token_bytes)
      = Some (rt_hash (server_token (al_crypto sample_lib) token_bytes (sample_random 1)), ss)
    \<and> rs_nickname ss = ''m''"
proof -
  obtain sess s' r' where run: "auth_UpdateCurrentUser sample_lib sample_conf calm_env sample_random 1
      (rt_raw (server_token (al_crypto sample_lib) token_bytes token_bytes)) (Some rename) (one_user_db, token_store)
    = (Inr sess, (s', r'))" using sample_rename by blast
  from auth_UpdateCurrentUser_consistent [OF one_user_ok token_store_view(1) sample_lib_ok(2) token_lengths(1) token_lengths(1) run]
  obtain u u' ss where u: "u \<in> set (users one_user_db)" "apply_profile rename u = Inr u'"
    and ss: "session_view r' (b64_encode token_bytes)
      = Some (rt_hash (server_token (al_crypto sample_lib) token_bytes (sample_random 1)), ss)"
    "rs_nickname ss = u_nickname u'"
    by (auto simp del: server_token_sel token_lengths)
  have "u_nickname u' = ''m''" using u rename_applies by (auto simp: one_user_db_def)
  then show ?thesis using run ss by (intro exI conjI) simp_all
qed

end
