(* ===== verification/RateLimits.thy ===== *)
theory RateLimits
  imports Encoding Store "HOL-Library.Multiset"
begin

text \<open>
  \<open>pkg/cache/auth_rate_limiter.go\<close> and \<open>pkg/cache/ai_chat_guard.go\<close>: the sliding-window
  rate limits and the lock of the AI chat, each one Lua script. A sorted set is the list of
  its members with their scores, a key holds a value and the server time, in milliseconds,
  at which it expires; every script first sees the keys that are past their expiry gone.
\<close>

section \<open>Sorted sets\<close>

type_synonym zset = "(string \<times> int) list"

type_synonym 'v keys = "string \<rightharpoonup> 'v \<times> int"

definition alive :: "int \<Rightarrow> 'v keys \<Rightarrow> string \<Rightarrow> 'v option" where
  "alive clock ks key =
     (case ks key of None \<Rightarrow> None | Some (v, expiry) \<Rightarrow> if expiry \<le> clock then None else Some v)"

definition ZREMRANGEBYSCORE :: "int \<Rightarrow> zset \<Rightarrow> zset" where
  "ZREMRANGEBYSCORE hi z = filter (\<lambda>x. \<not> snd x \<le> hi) z"

definition ZADD :: "int \<Rightarrow> string \<Rightarrow> zset \<Rightarrow> zset" where
  "ZADD score member z = filter (\<lambda>x. fst x \<noteq> member) z @ [(member, score)]"

text \<open>The score of \<open>ZRANGE key 0 0 WITHSCORES\<close>.\<close>

definition lowest_score :: "zset \<Rightarrow> int option" where
  "lowest_score z = (if z = [] then None else Some (Min (snd ` set z)))"

definition retry_after :: "zset \<Rightarrow> int \<Rightarrow> int \<Rightarrow> int" where
  "retry_after z window t =
     (case lowest_score z of None \<Rightarrow> window | Some oldest \<Rightarrow> max 1 (oldest + window - t))"

section \<open>The rate limiter of the authentication endpoints\<close>

text \<open>Redis removes a sorted set that became empty.\<close>

definition store_zset :: "string \<Rightarrow> zset \<Rightarrow> int \<Rightarrow> zset keys \<Rightarrow> zset keys" where
  "store_zset key z expiry ks = (if z = [] then ks(key := None) else ks(key \<mapsto> (z, expiry)))"

definition old_expiry :: "zset keys \<Rightarrow> string \<Rightarrow> int" where
  "old_expiry ks key = (case ks key of None \<Rightarrow> 0 | Some (_, x) \<Rightarrow> x)"

definition authRateLimitScript ::
  "int \<Rightarrow> string \<Rightarrow> int \<Rightarrow> int \<Rightarrow> int \<Rightarrow> string \<Rightarrow> zset keys \<Rightarrow> int list \<times> zset keys" where
  "authRateLimitScript clock key t window limit member ks =
     (let z0 = (case alive clock ks key of None \<Rightarrow> [] | Some z \<Rightarrow> z);
          z = ZREMRANGEBYSCORE (t - window) z0 in
      if limit \<le> int (length z)
        then ([0, retry_after z window t], store_zset key z (old_expiry ks key) ks)
      else ([1, 0], ks(key \<mapsto> (ZADD t member z, clock + window))))"

text \<open>
  \<open>Allow\<close>: allowed or not, and after how many nanoseconds to retry. The member is drawn by
  the request; a window is in nanoseconds.
\<close>

definition limiter_Allow ::
  "bool \<Rightarrow> env \<Rightarrow> int \<Rightarrow> string \<Rightarrow> string \<Rightarrow> int \<Rightarrow> int \<Rightarrow> zset keys \<Rightarrow> (string + bool \<times> int) \<times> zset keys" where
  "limiter_Allow client e clock member key limit window ks =
     (if \<not> client then (Inl ''redis client is not configured'', ks)
      else if key = [] \<or> limit \<le> 0 \<or> window \<le> 0 then (Inl ''rate limiter is misconfigured'', ks)
      else if fault e ''rand'' 2 then (Inl ''generate rate limit member'', ks)
      else if fault e ''auth rate limit'' 0 then (Inl ''apply auth rate limit: connection refused'', ks)
      else
        (case authRateLimitScript clock (''taskpilot:auth:rate:'' @ key) (now e div 1000000)
                (window div 1000000) limit member ks of
           (result, ks') \<Rightarrow>
             if fault e ''auth rate limit'' 1 then (Inl ''apply auth rate limit: connection reset'', ks')
             else if length result \<noteq> 2
               then (Inl (''decode auth rate limit result: unexpected field count '' @ dec (length result)), ks')
             else (Inr (result ! 0 = 1, result ! 1 * 1000000), ks')))"

section \<open>The guard of the AI chat\<close>

record chat_keys =
  rates :: "zset keys"
  locks :: "string keys"

definition aiChatAcquireScript ::
  "int \<Rightarrow> string \<Rightarrow> string \<Rightarrow> int \<Rightarrow> int \<Rightarrow> int \<Rightarrow> string \<Rightarrow> int \<Rightarrow> chat_keys \<Rightarrow> int list \<times> chat_keys" where
  "aiChatAcquireScript clock rate_key lock_key t window limit owner lock_ttl g =
     (if alive clock (locks g) lock_key \<noteq> None then ([0, 1], g)
      else
        let z0 = (case alive clock (rates g) rate_key of None \<Rightarrow> [] | Some z \<Rightarrow> z);
            z = ZREMRANGEBYSCORE (t - window) z0 in
        if limit \<le> int (length z)
          then ([0, retry_after z window t],
                g\<lparr>rates := store_zset rate_key z (old_expiry (rates g) rate_key) (rates g)\<rparr>)
        else ([1, 0],
              g\<lparr>rates := (rates g)(rate_key \<mapsto> (ZADD t owner z, clock + window)),
                locks := (locks g)(lock_key \<mapsto> (owner, clock + lock_ttl))\<rparr>))"

definition aiChatReleaseScript :: "int \<Rightarrow> string \<Rightarrow> string \<Rightarrow> chat_keys \<Rightarrow> chat_keys" where
  "aiChatReleaseScript clock lock_key owner g =
     (if alive clock (locks g) lock_key = Some owner then g\<lparr>locks := (locks g)(lock_key := None)\<rparr> else g)"

definition rate_key :: "int \<Rightarrow> string" where
  "rate_key userID = ''taskpilot:ai:chat:rate:'' @ dec_int userID"

definition lock_key :: "int \<Rightarrow> string" where
  "lock_key userID = ''taskpilot:ai:chat:lock:'' @ dec_int userID"

definition guard_Acquire ::
  "bool \<Rightarrow> env \<Rightarrow> int \<Rightarrow> int \<Rightarrow> string \<Rightarrow> int \<Rightarrow> int \<Rightarrow> int \<Rightarrow> chat_keys \<Rightarrow> (string + bool \<times> int) \<times> chat_keys" where
  "guard_Acquire client e clock userID owner limit window lockTTL g =
     (if \<not> client then (Inl ''redis client is not configured'', g)
      else if userID \<le> 0 \<or> owner = [] \<or> limit \<le> 0 \<or> window \<le> 0 \<or> lockTTL \<le> 0
        then (Inl ''AI chat guard is misconfigured'', g)
      else if fault e ''chat acquire'' 0 then (Inl ''acquire AI chat guard: connection refused'', g)
      else
        (case aiChatAcquireScript clock (rate_key userID) (lock_key userID) (now e div 1000000)
                (window div 1000000) limit owner (lockTTL div 1000000) g of
           (result, g') \<Rightarrow>
             if fault e ''chat acquire'' 1 then (Inl ''acquire AI chat guard: connection reset'', g')
             else if length result \<noteq> 2
               then (Inl (''decode AI chat guard result: unexpected field count '' @ dec (length result)), g')
             else (Inr (result ! 0 = 1, result ! 1 * 1000000), g')))"

definition guard_Release ::
  "bool \<Rightarrow> env \<Rightarrow> int \<Rightarrow> int \<Rightarrow> string \<Rightarrow> chat_keys \<Rightarrow> (string + unit) \<times> chat_keys" where
  "guard_Release client e clock userID owner g =
     (if \<not> client \<or> userID \<le> 0 \<or> owner = [] then (Inr (), g)
      else if fault e ''chat release'' 0 then (Inl ''release AI chat guard: connection refused'', g)
      else
        let g' = aiChatReleaseScript clock (lock_key userID) owner g in
        if fault e ''chat release'' 1 then (Inl ''release AI chat guard: connection reset'', g') else (Inr (), g'))"

section \<open>The sliding window\<close>

text \<open>
  Requests on one key, each a time and a fresh member, the server's clock and the caller's
  being one. What the limiter should do: accept a request if fewer than \<open>limit\<close> were
  accepted in the window that ends with it.
\<close>

fun window_run :: "string \<Rightarrow> int \<Rightarrow> int \<Rightarrow> (int \<times> string) list \<Rightarrow> zset keys \<Rightarrow> bool list" where
  "window_run key window limit [] ks = []"
| "window_run key window limit ((t, m) # rs) ks =
     (case authRateLimitScript t key t window limit m ks of
        (result, ks') \<Rightarrow> (hd result = 1) # window_run key window limit rs ks')"

fun window_spec :: "int \<Rightarrow> int \<Rightarrow> int list \<Rightarrow> int list \<Rightarrow> bool list" where
  "window_spec window limit accepted [] = []"
| "window_spec window limit accepted (t # ts) =
     (let ok = int (length (filter (\<lambda>a. t - window < a) accepted)) < limit in
      ok # window_spec window limit (if ok then t # accepted else accepted) ts)"

definition accepted_times :: "bool list \<Rightarrow> int list \<Rightarrow> int list" where
  "accepted_times oks ts = map snd (filter fst (zip oks ts))"

text \<open>
  The script's set against the times accepted so far: the same scores above \<open>lo\<close>, and an
  expiry that no accepted time outlives.
\<close>

definition tracks :: "int \<Rightarrow> int \<Rightarrow> string \<Rightarrow> int list \<Rightarrow> zset keys \<Rightarrow> bool" where
  "tracks lo window key accepted ks \<longleftrightarrow>
     (case ks key of
        None \<Rightarrow> filter (\<lambda>a. lo < a) accepted = []
      | Some (z, expiry) \<Rightarrow>
          (\<forall>a\<in>set accepted. a + window \<le> expiry)
          \<and> mset (filter (\<lambda>a. lo < a) (map snd z)) = mset (filter (\<lambda>a. lo < a) accepted))"

definition members :: "string \<Rightarrow> zset keys \<Rightarrow> string set" where
  "members key ks = (case ks key of None \<Rightarrow> {} | Some (z, _) \<Rightarrow> fst ` set z)"

lemma filter_above: "lo \<le> lo' \<Longrightarrow> filter (\<lambda>a. lo' < a) xs = filter (\<lambda>a. lo' < a) (filter (\<lambda>a. (lo::int) < a) xs)"
  by (auto simp: filter_filter intro: filter_cong)

lemma mset_above:
  "lo \<le> lo' \<Longrightarrow> mset (filter (\<lambda>a. (lo::int) < a) xs) = mset (filter (\<lambda>a. lo < a) ys)
     \<Longrightarrow> mset (filter (\<lambda>a. lo' < a) xs) = mset (filter (\<lambda>a. lo' < a) ys)"
  using filter_above [of lo lo' xs] filter_above [of lo lo' ys] by (metis mset_filter)

text \<open>What the script reads: after its first command the set holds exactly the window.\<close>

lemma tracks_window:
  assumes tr: "tracks lo window key acc ks" and lo: "lo \<le> t - window"
  defines "z \<equiv> ZREMRANGEBYSCORE (t - window) (case alive t ks key of None \<Rightarrow> [] | Some z \<Rightarrow> z)"
  shows "mset (map snd z) = mset (filter (\<lambda>a. t - window < a) acc)" "fst ` set z \<subseteq> members key ks"
proof -
  show "fst ` set z \<subseteq> members key ks"
    by (auto simp: z_def ZREMRANGEBYSCORE_def members_def alive_def split: option.splits if_splits)
  show "mset (map snd z) = mset (filter (\<lambda>a. t - window < a) acc)"
  proof (cases "ks key")
    case None
    then have "filter (\<lambda>a. t - window < a) acc = []"
      using tr lo by (auto simp: tracks_def filter_empty_conv)
    then show ?thesis using None by (simp add: z_def alive_def ZREMRANGEBYSCORE_def)
  next
    case (Some zx)
    obtain z0 x where zx: "zx = (z0, x)" by fastforce
    have old: "\<forall>a\<in>set acc. a + window \<le> x"
      and eq: "mset (filter (\<lambda>a. lo < a) (map snd z0)) = mset (filter (\<lambda>a. lo < a) acc)"
      using tr Some zx by (simp_all add: tracks_def)
    show ?thesis
    proof (cases "x \<le> t")
      case True
      then have "filter (\<lambda>a. t - window < a) acc = []" using old by (force simp: filter_empty_conv)
      then show ?thesis using True Some zx by (simp add: z_def alive_def ZREMRANGEBYSCORE_def)
    next
      case False
      have "map snd z = filter (\<lambda>a. t - window < a) (map snd z0)"
        using False Some zx by (simp add: z_def alive_def ZREMRANGEBYSCORE_def filter_map comp_def not_le)
      then show ?thesis using mset_above [OF lo eq] by simp
    qed
  qed
qed

lemma filter_fresh: "m \<notin> fst ` set z \<Longrightarrow> filter (\<lambda>x. fst x \<noteq> m) z = z"
  by (induction z) auto

lemma authRateLimitScript_tracks:
  assumes tr: "tracks lo window key acc ks" and lo: "lo \<le> t - window" and acc: "\<forall>a\<in>set acc. a \<le> t"
    and pos: "0 < window" "0 < limit" and m: "m \<notin> members key ks"
  defines "ok \<equiv> int (length (filter (\<lambda>a. t - window < a) acc)) < limit"
  obtains result ks' where "authRateLimitScript t key t window limit m ks = (result, ks')"
    "hd result = 1 \<longleftrightarrow> ok" "tracks (t - window) window key (if ok then t # acc else acc) ks'"
    "members key ks' \<subseteq> insert m (members key ks)"
proof -
  let ?z = "ZREMRANGEBYSCORE (t - window) (case alive t ks key of None \<Rightarrow> [] | Some z \<Rightarrow> z)"
  note win = tracks_window [OF tr lo]
  have len: "length ?z = length (filter (\<lambda>a. t - window < a) acc)"
    using win(1) by (metis length_map mset_eq_length)
  have above: "filter (\<lambda>a. t - window < a) (map snd ?z) = map snd ?z"
    by (simp add: ZREMRANGEBYSCORE_def filter_map comp_def not_le)
  show ?thesis
  proof (cases ok)
    case True
    have "ZADD t m ?z = ?z @ [(m, t)]" using win(2) m by (auto simp: ZADD_def intro!: filter_fresh)
    then have "tracks (t - window) window key (t # acc) (ks(key \<mapsto> (ZADD t m ?z, t + window)))"
      using win(1) above acc pos by (auto simp: tracks_def filter_filter_mset)
    moreover have "members key (ks(key \<mapsto> (ZADD t m ?z, t + window))) \<subseteq> insert m (members key ks)"
      using win(2) by (auto simp: members_def ZADD_def)
    ultimately show ?thesis using that [of "[1, 0]" "ks(key \<mapsto> (ZADD t m ?z, t + window))"] True len
      by (simp add: authRateLimitScript_def Let_def ok_def)
  next
    case False
    then have ne: "?z \<noteq> []" using len pos by (auto simp: ok_def)
    then obtain z0 x where k: "ks key = Some (z0, x)" "\<not> x \<le> t"
      by (auto simp: alive_def ZREMRANGEBYSCORE_def split: option.splits if_splits)
    have "tracks (t - window) window key acc (store_zset key ?z (old_expiry ks key) ks)"
      using ne k win(1) above tr by (simp add: tracks_def store_zset_def old_expiry_def filter_filter_mset)
    moreover have "members key (store_zset key ?z (old_expiry ks key) ks) \<subseteq> insert m (members key ks)"
      using ne win(2) by (auto simp: members_def store_zset_def)
    ultimately show ?thesis
      using that [of "[0, retry_after ?z window t]" "store_zset key ?z (old_expiry ks key) ks"] False len
      by (simp add: authRateLimitScript_def Let_def ok_def)
  qed
qed

lemma window_run_spec:
  assumes "tracks (t0 - window) window key acc ks" "\<forall>a\<in>set acc. a \<le> t0" "0 < window" "0 < limit"
    and "sorted (t0 # map fst rs)" "distinct (map snd rs)" "set (map snd rs) \<inter> members key ks = {}"
  shows "window_run key window limit rs ks = window_spec window limit acc (map fst rs)"
  using assms
proof (induction rs arbitrary: t0 acc ks)
  case (Cons rq rs)
  obtain t m where rq: "rq = (t, m)" by fastforce
  let ?ok = "int (length (filter (\<lambda>a. t - window < a) acc)) < limit"
  have t: "t0 \<le> t" using Cons.prems(5) rq by simp
  have "t0 - window \<le> t - window" "\<forall>a\<in>set acc. a \<le> t" "m \<notin> members key ks"
    using t Cons.prems(2,7) rq by auto
  from authRateLimitScript_tracks [OF Cons.prems(1) this(1,2) Cons.prems(3,4) this(3)]
  obtain result ks' where run: "authRateLimitScript t key t window limit m ks = (result, ks')"
    "hd result = 1 \<longleftrightarrow> ?ok" "tracks (t - window) window key (if ?ok then t # acc else acc) ks'"
    "members key ks' \<subseteq> insert m (members key ks)" by metis
  have "s \<notin> members key ks'" if s: "s \<in> set (map snd rs)" for s
  proof -
    have "s \<noteq> m" "s \<notin> members key ks" using s Cons.prems(6,7) rq by auto
    then show ?thesis using run(4) by blast
  qed
  then have "set (map snd rs) \<inter> members key ks' = {}" by blast
  then have "window_run key window limit rs ks' = window_spec window limit (if ?ok then t # acc else acc) (map fst rs)"
    using run(3,4) Cons.prems rq t by (intro Cons.IH [of t]) auto
  then show ?case using run rq by (simp add: Let_def)
qed simp

lemma window_spec_length [simp]: "length (window_spec window limit acc ts) = length ts"
  by (induction ts arbitrary: acc) (auto simp: Let_def)

lemma window_spec_bound:
  assumes "\<forall>hi. int (length (filter (\<lambda>a. hi - window < a \<and> a \<le> hi) acc)) \<le> limit"
    and "sorted ts" "\<forall>a\<in>set acc. \<forall>t\<in>set ts. a \<le> t"
  shows "int (length (filter (\<lambda>a. hi - window < a \<and> a \<le> hi)
      (accepted_times (window_spec window limit acc ts) ts @ acc))) \<le> limit"
  using assms
proof (induction ts arbitrary: acc)
  case Nil
  then show ?case by (simp add: accepted_times_def)
next
  case (Cons t ts)
  let ?in = "\<lambda>hi a. hi - window < a \<and> a \<le> hi"
  define ok where "ok = (int (length (filter (\<lambda>a. t - window < a) acc)) < limit)"
  let ?acc = "if ok then t # acc else acc"
  have "int (length (filter (?in hi') ?acc)) \<le> limit" for hi'
  proof (cases "ok \<and> ?in hi' t")
    case True
    have "filter (?in hi') acc = filter (?in hi') (filter (\<lambda>a. t - window < a) acc)"
      using True by (auto simp: filter_filter intro: filter_cong)
    then have "length (filter (?in hi') acc) \<le> length (filter (\<lambda>a. t - window < a) acc)"
      by (metis length_filter_le)
    then show ?thesis using True by (simp add: ok_def)
  next
    case False
    then show ?thesis using Cons.prems(1) by auto
  qed
  moreover have "sorted ts" "\<forall>a\<in>set ?acc. \<forall>t\<in>set ts. a \<le> t" using Cons.prems(2,3) by auto
  ultimately have IH: "int (length (filter (?in hi) (accepted_times (window_spec window limit ?acc ts) ts @ ?acc))) \<le> limit"
    by (intro Cons.IH) blast+
  have "window_spec window limit acc (t # ts) = ok # window_spec window limit ?acc ts"
    by (simp add: ok_def Let_def)
  then have "length (filter (?in hi) (accepted_times (window_spec window limit acc (t # ts)) (t # ts) @ acc))
      = length (filter (?in hi) (accepted_times (window_spec window limit ?acc ts) ts @ ?acc))"
    by (auto simp: accepted_times_def)
  then show ?case using IH by simp
qed

text \<open>
  C28: The rate limit is a sliding window. Requests on one key, at times that do not go
  back, are accepted exactly when fewer than \<open>limit\<close> were accepted in the window that ends
  with them: the sorted set the script keeps, prunes and lets expire forgets nothing that
  counts and counts nothing twice. So no window of that length, wherever it lies, ever
  holds more than \<open>limit\<close> accepted requests.
\<close>

theorem rate_limit_sliding_window:
  assumes "ks key = None" "0 < window" "0 < limit" "sorted (map fst rs)" "distinct (map snd rs)"
  shows "window_run key window limit rs ks = window_spec window limit [] (map fst rs)
    \<and> int (length (filter (\<lambda>a. hi - window < a \<and> a \<le> hi)
        (accepted_times (window_run key window limit rs ks) (map fst rs)))) \<le> limit"
proof -
  have run: "window_run key window limit rs ks = window_spec window limit [] (map fst rs)"
  proof (cases rs)
    case (Cons rq rest)
    have "tracks (fst rq - window) window key [] ks" "members key ks = {}"
      using assms(1) by (simp_all add: tracks_def members_def)
    then show ?thesis using assms Cons by (intro window_run_spec [of "fst rq"]) auto
  qed simp
  then show ?thesis using window_spec_bound [of window "[]" limit "map fst rs" hi] assms by simp
qed

theorem rate_limit_sliding_window_witness:
  "window_run ''k'' 10 2 [(1, ''a''), (2, ''b''), (3, ''c''), (11, ''d''), (11, ''e'')] Map.empty
    = [True, True, False, True, False]"
  using rate_limit_sliding_window [of Map.empty "''k''" 10 2
      "[(1, ''a''), (2, ''b''), (3, ''c''), (11, ''d''), (11, ''e'')]" 11]
  by (simp add: Let_def)

section \<open>One chat at a time\<close>

datatype guard_op = Acquire int string int int int | Release int string

text \<open>One call, with the request's environment and the server's clock: was the lock granted?\<close>

definition guard_step :: "env \<times> int \<times> guard_op \<Rightarrow> chat_keys \<Rightarrow> bool \<times> chat_keys" where
  "guard_step call g =
     (case call of (e, clock, op) \<Rightarrow>
       (case op of
          Acquire userID owner limit window ttl \<Rightarrow>
            (case guard_Acquire True e clock userID owner limit window ttl g of
               (r, g') \<Rightarrow> (case r of Inl _ \<Rightarrow> False | Inr (allowed, _) \<Rightarrow> allowed, g'))
        | Release userID owner \<Rightarrow> (False, snd (guard_Release True e clock userID owner g))))"

fun guard_steps :: "(env \<times> int \<times> guard_op) list \<Rightarrow> chat_keys \<Rightarrow> bool list \<times> chat_keys" where
  "guard_steps [] g = ([], g)"
| "guard_steps (call # calls) g =
     (case guard_step call g of (granted, g') \<Rightarrow>
      (case guard_steps calls g' of (rest, g'') \<Rightarrow> (granted # rest, g'')))"

definition op_user :: "guard_op \<Rightarrow> int" where
  "op_user op = (case op of Acquire u _ _ _ _ \<Rightarrow> u | Release u _ \<Rightarrow> u)"

definition holds_lock :: "int \<Rightarrow> string \<Rightarrow> int \<Rightarrow> chat_keys \<Rightarrow> bool" where
  "holds_lock u owner until g \<longleftrightarrow> locks g (lock_key u) = Some (owner, until)"

lemma lock_key_inject [simp]: "lock_key a = lock_key b \<longleftrightarrow> a = b"
  by (simp add: lock_key_def)

lemma guard_Acquire_granted:
  assumes "guard_Acquire client e clock u owner limit window ttl g = (Inr (True, w), g')"
  shows "holds_lock u owner (clock + ttl div 1000000) g'" "alive clock (locks g) (lock_key u) = None"
  using assms
  by (auto simp: guard_Acquire_def aiChatAcquireScript_def holds_lock_def Let_def split: if_splits prod.splits)

lemma acquire_script_keeps:
  assumes "holds_lock u owner until g" "clock < until"
    and "aiChatAcquireScript clock rk (lock_key u') t window limit o' ttl g = (result, g')"
  shows "holds_lock u owner until g'" "u' = u \<Longrightarrow> result = [0, 1]" "length result = 2"
  using assms by (auto simp: aiChatAcquireScript_def holds_lock_def alive_def Let_def split: if_splits)

lemma guard_Acquire_keeps:
  assumes "holds_lock u owner until g" "clock < until"
    and "guard_Acquire client e clock u' o' limit window ttl g = (r, g')"
  shows "holds_lock u owner until g'" "r = Inr (True, w) \<Longrightarrow> u' \<noteq> u"
proof -
  obtain result g1 where script: "aiChatAcquireScript clock (rate_key u') (lock_key u') (now e div 1000000)
      (window div 1000000) limit o' (ttl div 1000000) g = (result, g1)" by fastforce
  note keeps = acquire_script_keeps [OF assms(1,2) script]
  show "holds_lock u owner until g'" "r = Inr (True, w) \<Longrightarrow> u' \<noteq> u"
    using assms(1,3) script keeps by (auto simp: guard_Acquire_def split: if_splits)
qed

lemma guard_Release_keeps:
  assumes "holds_lock u owner until g" "clock < until" "u' = u \<longrightarrow> o' \<noteq> owner"
  shows "holds_lock u owner until (snd (guard_Release client e clock u' o' g))"
  using assms by (auto simp: guard_Release_def aiChatReleaseScript_def holds_lock_def alive_def Let_def)

lemma guard_step_other:
  assumes "holds_lock u owner until g" "clock < until" "op \<noteq> Release u owner"
    and "guard_step (e, clock, op) g = (granted, g')"
  shows "holds_lock u owner until g' \<and> (granted \<longrightarrow> op_user op \<noteq> u)"
proof (cases op)
  case (Acquire u' o' limit window ttl)
  obtain r g1 where call: "guard_Acquire True e clock u' o' limit window ttl g = (r, g1)" by fastforce
  show ?thesis
    using guard_Acquire_keeps [OF assms(1,2) call] assms(4) Acquire call
    by (auto simp: guard_step_def op_user_def split: sum.splits)
next
  case (Release u' o')
  then show ?thesis
    using guard_Release_keeps [OF assms(1,2), of u' o' True e] assms(3,4)
    by (auto simp: guard_step_def op_user_def)
qed

lemma guard_steps_other:
  assumes "holds_lock u owner until g"
    and "\<forall>(e, clock, op)\<in>set calls. clock < until \<and> op \<noteq> Release u owner"
    and "guard_steps calls g = (granted, g')"
  shows "holds_lock u owner until g'
    \<and> list_all2 (\<lambda>(e, clock, op) ok. ok \<longrightarrow> op_user op \<noteq> u) calls granted"
  using assms
proof (induction calls arbitrary: g granted g')
  case (Cons call calls)
  obtain e clock op where c: "call = (e, clock, op)" by (cases call)
  obtain ok g1 where s1: "guard_step (e, clock, op) g = (ok, g1)" by fastforce
  obtain oks g2 where s2: "guard_steps calls g1 = (oks, g2)" by fastforce
  have "clock < until" "op \<noteq> Release u owner" using Cons.prems(2) c by auto
  note step = guard_step_other [OF Cons.prems(1) this s1]
  have "\<forall>(e, clock, op)\<in>set calls. clock < until \<and> op \<noteq> Release u owner" using Cons.prems(2) by simp
  from Cons.IH [OF _ this s2] step show ?case
    using Cons.prems(3) c s1 s2 by auto
qed simp

text \<open>
  A user has one AI chat at a time. From the moment a chat takes the user's lock until
  the lock's time is over, and as long as that very chat does not release it, no call of
  any request, in any order and with whatever faults, is granted that user's lock: neither
  another acquisition nor a release under another owner's name takes it away. When the
  owner releases it, the next acquisition within the rate limit succeeds.
\<close>

theorem chat_guard_exclusive:
  assumes acq: "guard_Acquire True e clock u owner limit window ttl g = (Inr (True, w), g1)"
    and others: "\<forall>(e, clock', op)\<in>set calls. clock' < clock + ttl div 1000000 \<and> op \<noteq> Release u owner"
    and run: "guard_steps calls g1 = (granted, g2)"
  shows "list_all2 (\<lambda>(e, clock', op) ok. ok \<longrightarrow> op_user op \<noteq> u) calls granted
    \<and> locks g2 (lock_key u) = Some (owner, clock + ttl div 1000000)
    \<and> (no_faults e' \<and> c' < clock + ttl div 1000000 \<longrightarrow>
        locks (snd (guard_Release True e' c' u owner g2)) (lock_key u) = None)"
proof -
  have "holds_lock u owner (clock + ttl div 1000000) g1" by (rule guard_Acquire_granted(1) [OF acq])
  from guard_steps_other [OF this others run]
  have held: "list_all2 (\<lambda>(e, clock', op) ok. ok \<longrightarrow> op_user op \<noteq> u) calls granted"
    "locks g2 (lock_key u) = Some (owner, clock + ttl div 1000000)" by (simp_all add: holds_lock_def)
  moreover have "0 < u" "owner \<noteq> []" using acq by (auto simp: guard_Acquire_def split: if_splits)
  ultimately show ?thesis
    by (auto simp: guard_Release_def aiChatReleaseScript_def alive_def no_faults_def Let_def)
qed

definition idle_keys :: chat_keys where
  "idle_keys = \<lparr>rates = Map.empty, locks = Map.empty\<rparr>"

definition quiet_env :: env where
  "quiet_env = \<lparr>db_up = True, now = 5000000, new_id = int, fault = (\<lambda>_ _. False)\<rparr>"

theorem chat_guard_exclusive_witness:
  "\<exists>w g1 g2. guard_Acquire True quiet_env 5 1 ''a'' 3 60000000 9000000 idle_keys = (Inr (True, w), g1)
    \<and> guard_steps [(quiet_env, 6, Acquire 1 ''b'' 3 60000000 9000000), (quiet_env, 7, Release 1 ''b'')] g1
      = ([False, False], g2)
    \<and> locks g2 (lock_key 1) = Some (''a'', 14)"
proof -
  let ?calls = "[(quiet_env, 6, Acquire 1 ''b'' 3 60000000 9000000), (quiet_env, 7, Release 1 ''b'')] :: (env \<times> int \<times> guard_op) list"
  obtain w g1 where acq: "guard_Acquire True quiet_env 5 1 ''a'' 3 60000000 9000000 idle_keys = (Inr (True, w), g1)"
    by (simp add: guard_Acquire_def aiChatAcquireScript_def idle_keys_def quiet_env_def alive_def
        ZREMRANGEBYSCORE_def Let_def)
  obtain granted g2 where run: "guard_steps ?calls g1 = (granted, g2)" by fastforce
  have "\<forall>(e, clock', op)\<in>set ?calls. clock' < 5 + (9000000 :: int) div 1000000 \<and> op \<noteq> Release 1 ''a''" by simp
  from chat_guard_exclusive [OF acq this run]
  have "list_all2 (\<lambda>(e, clock', op) ok. ok \<longrightarrow> op_user op \<noteq> 1) ?calls granted"
    "locks g2 (lock_key 1) = Some (''a'', 14)" by auto
  then have "granted = [False, False]" by (auto simp: list_all2_Cons1 op_user_def)
  then show ?thesis using acq run \<open>locks g2 (lock_key 1) = Some (''a'', 14)\<close> by blast
qed

end
