(* ===== verification/Integrity.thy ===== *)
theory Integrity
  imports AuthService DocumentService ProjectCreation TaskService ParseResultService Worker
begin

text \<open>
  What connects the tables, and how rows move. The references between rows say more than
  the foreign keys; a change of the database is lawful when it keeps them, keeps the schema
  and moves every row along its state machine. Each operation of the services and the worker
  is shown to be lawful from what its own theory says it did.
\<close>

section \<open>References between rows\<close>

text \<open>
  More than the foreign keys say: a row belongs to the user of the row it was made from, an
  active job has a document that is not deleted, a result comes from a successful job and a
  successful job has one, and a project comes from a confirmed result.
\<close>

definition job_linked :: "document list \<Rightarrow> parse_job \<Rightarrow> bool" where
  "job_linked ds j \<longleftrightarrow>
     (\<exists>d\<in>set ds. doc_id d = job_document_id j \<and> doc_user_id d = job_user_id j
        \<and> (active_status (job_status j) \<longrightarrow> doc_deleted_at d = None))"

definition result_linked :: "parse_job list \<Rightarrow> parse_result \<Rightarrow> bool" where
  "result_linked js r \<longleftrightarrow>
     (\<exists>j\<in>set js. job_id j = res_parse_job_id r \<and> job_user_id j = res_user_id r
        \<and> job_document_id j = res_document_id r \<and> job_status j = ''success'')"

definition success_linked :: "parse_result list \<Rightarrow> parse_job \<Rightarrow> bool" where
  "success_linked rs j \<longleftrightarrow>
     (job_status j = ''success'' \<longrightarrow> (\<exists>r\<in>set rs. res_parse_job_id r = job_id j))"

definition project_linked :: "parse_result list \<Rightarrow> project \<Rightarrow> bool" where
  "project_linked rs p \<longleftrightarrow>
     (\<exists>r\<in>set rs. res_id r = prj_parse_result_id p \<and> res_user_id r = prj_user_id p
        \<and> res_document_id r = prj_source_document_id p \<and> res_is_confirmed r)"

definition task_linked :: "project list \<Rightarrow> task \<Rightarrow> bool" where
  "task_linked ps t \<longleftrightarrow>
     (\<exists>p\<in>set ps. prj_id p = tsk_project_id t \<and> prj_user_id p = tsk_user_id t)"

definition linked :: "db \<Rightarrow> bool" where
  "linked s \<longleftrightarrow>
     (\<forall>j\<in>set (parse_jobs s). job_linked (documents s) j)
     \<and> (\<forall>j\<in>set (parse_jobs s). success_linked (parse_results s) j)
     \<and> (\<forall>r\<in>set (parse_results s). result_linked (parse_jobs s) r)
     \<and> (\<forall>p\<in>set (projects s). project_linked (parse_results s) p)
     \<and> (\<forall>t\<in>set (tasks s). task_linked (projects s) t)"

definition intact :: "auth_lib \<Rightarrow> db \<Rightarrow> bool" where
  "intact lib s \<longleftrightarrow> schema_ok s \<and> users_violation lib (users s) = None \<and> linked s"

lemma intactD:
  "intact lib s \<Longrightarrow> schema_ok s" "intact lib s \<Longrightarrow> users_violation lib (users s) = None"
  "intact lib s \<Longrightarrow> linked s"
  by (simp_all add: intact_def)

section \<open>How rows move\<close>

definition rows_follow :: "('r \<Rightarrow> 'r \<Rightarrow> bool) \<Rightarrow> 'r list \<Rightarrow> 'r list \<Rightarrow> bool" where
  "rows_follow R xs ys \<longleftrightarrow> (\<forall>x\<in>set xs. \<exists>y\<in>set ys. R x y)"

lemma rows_follow_refl: "(\<And>x. R x x) \<Longrightarrow> rows_follow R xs xs"
  by (auto simp: rows_follow_def)

lemma rows_follow_append: "(\<And>x. R x x) \<Longrightarrow> rows_follow R xs (xs @ ys)"
  by (auto simp: rows_follow_def)

lemma rows_follow_replace:
  assumes "\<And>x. R x x" "R x x'" "x \<in> set xs" "key x' = key x" "distinct (map key xs)"
  shows "rows_follow R xs (replace_row key x' xs)"
  unfolding rows_follow_def
proof
  fix y assume y: "y \<in> set xs"
  have S: "set (replace_row key x' xs) = insert x' {y \<in> set xs. key y \<noteq> key x'}"
    using set_replace_row [of x xs key x'] assms(3,4) by simp
  show "\<exists>z\<in>set (replace_row key x' xs). R y z"
  proof (cases "key y = key x'")
    case True
    then have "y = x" using distinct_map_unique [OF assms(5) y assms(3)] assms(4) by simp
    then show ?thesis using S assms(2) by auto
  next
    case False
    then show ?thesis using S y assms(1) by auto
  qed
qed

text \<open>The state machine of a job: \<open>reconcilePendingJobs\<close> touches a pending job in place.\<close>

definition job_moves :: "(string \<times> string) list" where
  "job_moves = [(''pending'', ''pending''), (''pending'', ''processing''), (''processing'', ''success''),
     (''processing'', ''failed''), (''processing'', ''pending''), (''failed'', ''pending'')]"

definition job_next :: "parse_job \<Rightarrow> parse_job \<Rightarrow> bool" where
  "job_next j j' \<longleftrightarrow>
     job_id j' = job_id j \<and> job_user_id j' = job_user_id j \<and> job_document_id j' = job_document_id j
     \<and> (j' = j \<or> (job_status j, job_status j') \<in> set job_moves)"

definition document_next :: "document \<Rightarrow> document \<Rightarrow> bool" where
  "document_next d d' \<longleftrightarrow>
     d' = d \<or> doc_deleted_at d = None \<and> (\<exists>t. d' = d\<lparr>doc_deleted_at := Some t\<rparr>)"

definition result_keys :: "parse_result \<Rightarrow> int \<times> int \<times> int \<times> int" where
  "result_keys r = (res_id r, res_user_id r, res_document_id r, res_parse_job_id r)"

definition result_next :: "parse_result \<Rightarrow> parse_result \<Rightarrow> bool" where
  "result_next r r' \<longleftrightarrow> result_keys r' = result_keys r \<and> (res_is_confirmed r \<longrightarrow> r' = r)"

definition project_next :: "project \<Rightarrow> project \<Rightarrow> bool" where
  "project_next p p' \<longleftrightarrow> p' = p \<or> next_row p p'"

lemma next_refl [simp]:
  "job_next j j" "document_next d d" "result_next r r" "project_next p p"
  by (simp_all add: job_next_def document_next_def result_next_def project_next_def)

definition follows :: "db \<Rightarrow> db \<Rightarrow> bool" where
  "follows s s' \<longleftrightarrow>
     u_id ` set (users s) \<subseteq> u_id ` set (users s')
     \<and> rows_follow document_next (documents s) (documents s')
     \<and> rows_follow job_next (parse_jobs s) (parse_jobs s')
     \<and> rows_follow result_next (parse_results s) (parse_results s')
     \<and> rows_follow project_next (projects s) (projects s')"

text \<open>Where the keys of the rows go, the references follow.\<close>

lemma result_linked_next:
  "result_linked js r \<Longrightarrow> rows_follow job_next js js' \<Longrightarrow> result_linked js' r"
  by (fastforce simp: result_linked_def rows_follow_def job_next_def job_moves_def)

lemma success_linked_next:
  "success_linked rs j \<Longrightarrow> rows_follow result_next rs rs' \<Longrightarrow> success_linked rs' j"
  by (fastforce simp: success_linked_def rows_follow_def result_next_def result_keys_def)

lemma project_linked_next:
  "project_linked rs p \<Longrightarrow> rows_follow result_next rs rs' \<Longrightarrow> project_linked rs' p"
  by (fastforce simp: project_linked_def rows_follow_def result_next_def result_keys_def)

lemma task_linked_next:
  "task_linked ps t \<Longrightarrow> rows_follow project_next ps ps' \<Longrightarrow> task_linked ps' t"
  by (fastforce simp: task_linked_def rows_follow_def project_next_def next_row_def)

lemma result_linked_keys: "result_keys r' = result_keys r \<Longrightarrow> result_linked js r' = result_linked js r"
  by (simp add: result_linked_def result_keys_def)

lemma linked_follows:
  assumes "linked s" "follows s s'"
    and j: "\<forall>j\<in>set (parse_jobs s'). job_linked (documents s') j"
    and suc: "\<forall>j\<in>set (parse_jobs s'). j \<in> set (parse_jobs s) \<or> success_linked (parse_results s') j"
    and r: "\<forall>r'\<in>set (parse_results s'). (\<exists>r\<in>set (parse_results s). result_keys r' = result_keys r)
              \<or> result_linked (parse_jobs s') r'"
    and p: "\<forall>p'\<in>set (projects s'). p' \<in> set (projects s) \<or> (\<exists>p\<in>set (projects s). project_next p p')
              \<or> project_linked (parse_results s') p'"
    and t: "\<forall>t'\<in>set (tasks s'). t' \<in> set (tasks s) \<or> task_linked (projects s') t'"
  shows "linked s'"
proof -
  note f = assms(2) [unfolded follows_def]
  have pk: "project_linked rs p' = project_linked rs p" if "project_next p p'" for rs p p'
    using that by (auto simp: project_linked_def project_next_def next_row_def)
  have old: "j \<in> set (parse_jobs s) \<Longrightarrow> success_linked (parse_results s) j"
    "r \<in> set (parse_results s) \<Longrightarrow> result_linked (parse_jobs s) r"
    "x \<in> set (projects s) \<Longrightarrow> project_linked (parse_results s) x"
    "y \<in> set (tasks s) \<Longrightarrow> task_linked (projects s) y" for j r x y
    using assms(1) by (simp_all add: linked_def)
  have "success_linked (parse_results s') j" if "j \<in> set (parse_jobs s')" for j
    using suc that old(1) success_linked_next f by blast
  moreover have "result_linked (parse_jobs s') r'" if "r' \<in> set (parse_results s')" for r'
    using r that old(2) result_linked_next result_linked_keys f by metis
  moreover have "project_linked (parse_results s') p'" if "p' \<in> set (projects s')" for p'
    using p that old(3) project_linked_next pk f by meson
  moreover have "task_linked (projects s') t'" if "t' \<in> set (tasks s')" for t'
    using t that old(4) task_linked_next f by blast
  ultimately show ?thesis using j by (simp add: linked_def)
qed


section \<open>Statements keep the data intact\<close>

definition lawful :: "auth_lib \<Rightarrow> db \<Rightarrow> db \<Rightarrow> bool" where
  "lawful lib s s' \<longleftrightarrow> intact lib s' \<and> follows s s'"

lemma follows_refl [simp]: "follows s s"
  by (simp add: follows_def rows_follow_refl)

lemma lawful_refl: "intact lib s \<Longrightarrow> lawful lib s s"
  by (simp add: lawful_def)

lemma lawful_users:
  assumes "intact lib s" "users_violation lib us = None" "u_id ` set (users s) \<subseteq> u_id ` set us"
  shows "lawful lib s (s\<lparr>users := us\<rparr>)"
proof -
  have "schema_ok (s\<lparr>users := us\<rparr>)"
    using assms(1,3) by (auto simp: intact_def schema_ok_def violation_defs refs_defs list_all_iff)
  moreover have "linked (s\<lparr>users := us\<rparr>)" using assms(1) by (simp add: intact_def linked_def)
  ultimately show ?thesis
    using assms by (simp add: lawful_def intact_def follows_def rows_follow_refl)
qed

lemma lawful_document_add:
  assumes "intact lib s" "documents_violation s (documents s @ [d]) = None"
  shows "lawful lib s (s\<lparr>documents := documents s @ [d]\<rparr>)"
proof -
  let ?s = "s\<lparr>documents := documents s @ [d]\<rparr>"
  have f: "follows s ?s" by (simp add: follows_def rows_follow_refl rows_follow_append)
  have "job_linked (documents s @ [d]) j" if "j \<in> set (parse_jobs s)" for j
    using that intactD(3) [OF assms(1)] by (auto simp: linked_def job_linked_def)
  then have "linked ?s"
    using intactD(3) [OF assms(1)] by (intro linked_follows [OF _ f]) (auto simp: linked_def)
  moreover have "schema_ok ?s" using assms by (intro schema_ok_documents) (auto simp: intact_def)
  ultimately show ?thesis using f assms(1) by (simp add: lawful_def intact_def)
qed

lemma lawful_document_delete:
  assumes ok: "intact lib s" and d: "d \<in> set (documents s)" "doc_deleted_at d = None"
    and idle: "\<forall>j\<in>set (parse_jobs s). job_document_id j = doc_id d \<longrightarrow> job_user_id j = doc_user_id d
                 \<longrightarrow> \<not> active_status (job_status j)"
    and ed: "document_edit s d (d\<lparr>doc_deleted_at := Some t\<rparr>) s'"
  shows "lawful lib s s'"
proof -
  let ?d = "d\<lparr>doc_deleted_at := Some t\<rparr>"
  note s' = ed [unfolded document_edit_def]
  have dist: "distinct (map doc_id (documents s))" using schema_ok_distinct(1) intactD(1) [OF ok] .
  have S: "set (replace_row doc_id ?d (documents s)) = insert ?d {x \<in> set (documents s). doc_id x \<noteq> doc_id d}"
    using set_replace_row [of d "documents s" doc_id ?d] d(1) by simp
  have f: "follows s s'"
    using s' d dist
    by (simp add: follows_def rows_follow_refl) (rule rows_follow_replace; auto simp: document_next_def)
  have "job_linked (documents s') j" if j: "j \<in> set (parse_jobs s)" for j
  proof -
    obtain x where x: "x \<in> set (documents s)" "doc_id x = job_document_id j" "doc_user_id x = job_user_id j"
        "active_status (job_status j) \<longrightarrow> doc_deleted_at x = None"
      using intactD(3) [OF ok] j unfolding linked_def job_linked_def by blast
    show ?thesis
    proof (cases "doc_id x = doc_id d")
      case True
      then have "x = d" using distinct_map_unique [OF dist x(1) d(1)] by simp
      then have "\<not> active_status (job_status j)" using idle j x(2,3) by simp
      then show ?thesis using s' S x \<open>x = d\<close> by (auto simp: job_linked_def)
    next
      case False
      then show ?thesis using s' S x by (auto simp: job_linked_def)
    qed
  qed
  then have "linked s'"
    using s' intactD(3) [OF ok] by (intro linked_follows [OF _ f]) (auto simp: linked_def)
  moreover have "schema_ok s'"
    using s' ok by (auto simp: intact_def intro!: schema_ok_documents)
  ultimately show ?thesis using f ok s' by (simp add: lawful_def intact_def)
qed

lemma lawful_job_add:
  assumes ok: "intact lib s" and j: "job_status j \<noteq> ''success''"
    and d: "live_document (job_user_id j) (job_document_id j) d s"
    and v: "parse_jobs_violation s (parse_jobs s @ [j]) = None"
  shows "lawful lib s (s\<lparr>parse_jobs := parse_jobs s @ [j]\<rparr>)"
proof -
  let ?s = "s\<lparr>parse_jobs := parse_jobs s @ [j]\<rparr>"
  have f: "follows s ?s" by (simp add: follows_def rows_follow_refl rows_follow_append)
  have "linked ?s"
    using intactD(3) [OF ok] j d
    by (intro linked_follows [OF _ f])
      (auto simp: linked_def job_linked_def live_document_def success_linked_def)
  moreover have "schema_ok ?s" using v ok by (intro schema_ok_parse_jobs) (auto simp: intact_def)
  ultimately show ?thesis using f ok by (simp add: lawful_def intact_def)
qed

lemma lawful_job_edit:
  assumes ok: "intact lib s" and ed: "job_edit s k k' s'" and nx: "job_next k k'"
    and st: "job_status k' \<noteq> ''success''"
    and live: "active_status (job_status k') \<Longrightarrow> \<not> active_status (job_status k)
                 \<Longrightarrow> \<exists>d. live_document (job_user_id k) (job_document_id k) d s"
  shows "lawful lib s s'"
proof -
  note s' = ed [unfolded job_edit_def]
  have keys: "job_id k' = job_id k" "job_user_id k' = job_user_id k" "job_document_id k' = job_document_id k"
    using nx by (simp_all add: job_next_def)
  have S: "set (parse_jobs s') = insert k' {x \<in> set (parse_jobs s). job_id x \<noteq> job_id k}"
    using s' set_replace_row [of k "parse_jobs s" job_id k'] keys by simp
  have f: "follows s s'"
    using s' keys nx schema_ok_distinct(2) [OF intactD(1) [OF ok]]
    by (simp add: follows_def rows_follow_refl) (rule rows_follow_replace; simp)
  have k: "job_linked (documents s) k" using s' intactD(3) [OF ok] by (simp add: linked_def)
  have "job_linked (documents s) k'"
  proof (cases "active_status (job_status k') \<and> \<not> active_status (job_status k)")
    case True
    then obtain d where "live_document (job_user_id k) (job_document_id k) d s" using live by blast
    then show ?thesis using keys by (auto simp: job_linked_def live_document_def)
  next
    case False
    then show ?thesis using k keys by (auto simp: job_linked_def)
  qed
  then have "linked s'"
    using s' S st intactD(3) [OF ok]
    by (intro linked_follows [OF _ f]) (auto simp: linked_def success_linked_def)
  moreover have "schema_ok s'" using job_edit_schema_ok [OF intactD(1) [OF ok] ed] keys by simp
  ultimately show ?thesis using f ok s' by (simp add: lawful_def intact_def)
qed

lemma lawful_complete:
  assumes ok: "intact lib s" and k: "k \<in> set (parse_jobs s)" "job_status k = ''processing''"
    and r: "res_parse_job_id r = job_id k" "res_user_id r = job_user_id k" "res_document_id r = job_document_id k"
    and v: "parse_results_violation s (parse_results s @ [r]) = None"
    and ed: "job_edit (s\<lparr>parse_results := parse_results s @ [r]\<rparr>) k (job_completed e k) s'"
  shows "lawful lib s s'"
proof -
  let ?s1 = "s\<lparr>parse_results := parse_results s @ [r]\<rparr>" and ?k = "job_completed e k"
  note s' = ed [unfolded job_edit_def]
  have nx: "job_next k ?k" using k(2) by (simp add: job_next_def job_completed_def job_moves_def)
  have keys: "job_id ?k = job_id k" "job_user_id ?k = job_user_id k" "job_document_id ?k = job_document_id k"
    "job_status ?k = ''success''" by (simp_all add: job_completed_def)
  have S: "set (parse_jobs s') = insert ?k {x \<in> set (parse_jobs s). job_id x \<noteq> job_id k}"
    using s' set_replace_row [of k "parse_jobs s" job_id ?k] keys by simp
  have f: "follows s s'"
    using s' keys nx schema_ok_distinct(2) [OF intactD(1) [OF ok]]
    by (simp add: follows_def rows_follow_refl rows_follow_append) (rule rows_follow_replace; simp)
  have jl: "\<forall>j\<in>set (parse_jobs s'). job_linked (documents s') j"
    using s' S k(1) intactD(3) [OF ok] keys
    by (auto simp: linked_def job_linked_def active_status_def)
  have "success_linked (parse_results s @ [r]) ?k" "result_linked (parse_jobs s') r"
    using S r keys by (auto simp: success_linked_def result_linked_def)
  then have "linked s'"
    using s' S intactD(3) [OF ok] by (intro linked_follows [OF _ f jl]) (auto simp: linked_def)
  moreover have "schema_ok s'"
    using schema_ok_parse_results [OF intactD(1) [OF ok] v] job_edit_schema_ok [OF _ ed] keys by auto
  ultimately show ?thesis using f ok s' by (simp add: lawful_def intact_def)
qed

lemma lawful_result_edit:
  assumes ok: "intact lib s" and ed: "result_edit s p p' s'" and nx: "result_next p p'"
  shows "lawful lib s s'"
proof -
  note s' = ed [unfolded result_edit_def]
  have key: "res_id p' = res_id p" using nx by (simp add: result_next_def result_keys_def)
  have S: "set (parse_results s') = insert p' {x \<in> set (parse_results s). res_id x \<noteq> res_id p}"
    using s' set_replace_row [of p "parse_results s" res_id p'] key by simp
  have f: "follows s s'"
    using s' key nx schema_ok_distinct(3) [OF intactD(1) [OF ok]]
    by (simp add: follows_def rows_follow_refl) (rule rows_follow_replace; simp)
  have "linked s'"
    using s' S nx intactD(3) [OF ok]
    by (intro linked_follows [OF _ f]) (auto simp: linked_def result_next_def)
  moreover have "schema_ok s'" using result_edit_schema_ok [OF intactD(1) [OF ok] ed key] .
  ultimately show ?thesis using f ok s' by (simp add: lawful_def intact_def)
qed

lemma lawful_project_edit:
  assumes ok: "intact lib s" and ed: "project_edit s p p' s'" and nx: "next_row p p'"
  shows "lawful lib s s'"
proof -
  note s' = ed [unfolded project_edit_def]
  have key: "prj_id p' = prj_id p" and pn: "project_next p p'"
    using nx by (simp_all add: next_row_def project_next_def)
  have S: "set (projects s') = insert p' {x \<in> set (projects s). prj_id x \<noteq> prj_id p}"
    using s' set_replace_row [of p "projects s" prj_id p'] key by simp
  have f: "follows s s'"
    using s' key pn schema_ok_distinct(4) [OF intactD(1) [OF ok]]
    by (simp add: follows_def rows_follow_refl) (rule rows_follow_replace; simp)
  have "linked s'"
    using s' S pn intactD(3) [OF ok] by (intro linked_follows [OF _ f]) (auto simp: linked_def)
  moreover have "schema_ok s'" using project_edit_schema_ok [OF intactD(1) [OF ok] ed key] .
  ultimately show ?thesis using f ok s' by (simp add: lawful_def intact_def)
qed

lemma new_project_tasks_keys:
  "t \<in> set (new_project_tasks e u pid rid gs) \<Longrightarrow> tsk_project_id t = pid \<and> tsk_user_id t = u"
  by (auto simp: new_project_tasks_def new_project_task_def)

lemma lawful_project_created:
  assumes ok: "intact lib s" and r: "r \<in> set (parse_results s)" "res_user_id r = u"
    and cr: "project_created c e u name r s p ts s'"
  shows "lawful lib s s'"
proof -
  note s' = cr [unfolded project_created_def]
  have f: "follows s s'" using s' by (auto simp: follows_def rows_follow_refl rows_follow_append)
  have p: "prj_user_id p = u" "prj_parse_result_id p = res_id r" "prj_source_document_id p = res_document_id r"
    using s' by (simp_all add: new_project_def)
  then have "project_linked (parse_results s') p" using s' r by (auto simp: project_linked_def)
  moreover have "\<forall>t\<in>set ts. task_linked (projects s') t"
    using s' p(1) by (auto simp: task_linked_def dest!: new_project_tasks_keys)
  ultimately have "linked s'"
    using s' intactD(3) [OF ok]
    by (intro linked_follows [OF _ f]) (auto simp: linked_def)
  moreover have "schema_ok s'" using project_created_schema_ok [OF intactD(1) [OF ok] cr] .
  ultimately show ?thesis using f ok s' by (auto simp: lawful_def intact_def)
qed

lemma lawful_tasks:
  assumes ok: "intact lib s" and td: "task_delta u s s'"
  shows "lawful lib s s'"
proof -
  obtain p where p: "p \<in> set (projects s)" "prj_user_id p = u"
    and t: "\<forall>t\<in>set (tasks s'). t \<in> set (tasks s) \<or> tsk_project_id t = prj_id p \<and> tsk_user_id t = u"
    using td unfolding task_delta_def by blast
  have eq: "s' = s\<lparr>tasks := tasks s'\<rparr>" and v: "tasks_violation s (tasks s') = None"
    using td unfolding task_delta_def by blast+
  have same: "users s' = users s" "documents s' = documents s" "parse_jobs s' = parse_jobs s"
    "parse_results s' = parse_results s" "projects s' = projects s"
    using arg_cong [OF eq, of users] arg_cong [OF eq, of documents] arg_cong [OF eq, of parse_jobs]
      arg_cong [OF eq, of parse_results] arg_cong [OF eq, of projects] by simp_all
  have f: "follows s s'" using same by (simp add: follows_def rows_follow_refl)
  have tl: "\<forall>t\<in>set (tasks s'). t \<in> set (tasks s) \<or> task_linked (projects s') t"
    using t p same(5) unfolding task_linked_def by metis
  have "linked s'"
    using same intactD(3) [OF ok]
    by (intro linked_follows [OF _ f _ _ _ _ tl]) (auto simp: linked_def)
  moreover have "schema_ok s'" using schema_ok_tasks [OF intactD(1) [OF ok] v] eq by simp
  ultimately show ?thesis using f ok same by (simp add: lawful_def intact_def)
qed

section \<open>Every operation is lawful\<close>

lemma doc_CreateText_lawful:
  assumes "doc_CreateText e u rq s = (x, s')" "intact lib s"
  shows "lawful lib s s'"
  using doc_CreateText_cases [OF assms(1)] lawful_refl lawful_document_add assms(2) by blast

lemma doc_CreatePDF_cases:
  assumes "doc_CreatePDF e rnd today svc u rq rs (s, fs) = (x, (s', fs'))"
  shows "s' = s \<or> (\<exists>d. s' = s\<lparr>documents := documents s @ [d]\<rparr>
    \<and> documents_violation s (documents s @ [d]) = None)"
  using assms
  by (auto simp: doc_CreatePDF_def Let_def sql_insert_Inr split: if_splits sum.splits option.splits prod.splits)

lemma doc_CreatePDF_lawful:
  assumes "doc_CreatePDF e rnd today svc u rq rs (s, fs) = (x, (s', fs'))" "intact lib s"
  shows "lawful lib s s'"
  using doc_CreatePDF_cases [OF assms(1)] lawful_refl lawful_document_add assms(2) by blast

lemma doc_Delete_lawful:
  assumes run: "doc_Delete e svc u i (s, fs) = (x, (s', fs'))" and ok: "intact lib s"
  shows "lawful lib s s'"
proof (cases "s' = s")
  case True
  then show ?thesis using ok by (simp add: lawful_refl)
next
  case False
  then obtain key where "doc_Delete_tx e u i s = Inr (key, s')" using doc_Delete_cases [OF run] by blast
  from doc_Delete_tx_Inr [OF this intactD(1) [OF ok]] obtain d where
    d: "d \<in> set (documents s)" "own_document u i d"
    and idle: "\<forall>j\<in>set (parse_jobs s). job_document_id j = i \<longrightarrow> job_user_id j = u \<longrightarrow> \<not> active_status (job_status j)"
    and ed: "document_edit s d (d\<lparr>doc_deleted_at := Some (now e)\<rparr>) s'" by blast
  show ?thesis
    using d idle by (intro lawful_document_delete [OF ok d(1) _ _ ed]) (simp_all add: own_document_def)
qed

lemma job_Create_lawful:
  assumes run: "job_Create e u i (s, q) = (x, (s', q'))" and ok: "intact lib s"
  shows "lawful lib s s'"
proof (cases x)
  case (Inl err)
  then show ?thesis using ok job_Create_Inl [OF run [unfolded Inl]] by (simp add: lawful_refl)
next
  case (Inr resp)
  from job_Create_Inr [OF run [unfolded Inr]] obtain j where "job_Create_tx e u i s = Inr (j, s')" by blast
  from job_Create_tx_Inr [OF this] obtain d where "live_document u i d s" "j = new_job e u i"
    "s' = s\<lparr>parse_jobs := parse_jobs s @ [j]\<rparr>" "parse_jobs_violation s (parse_jobs s @ [j]) = None" by blast
  then show ?thesis using lawful_job_add [OF ok, of j d] by (simp add: new_job_def)
qed

lemma job_Retry_lawful:
  assumes run: "job_Retry e u i (s, q) = (x, (s', q'))" and ok: "intact lib s"
  shows "lawful lib s s'"
proof (cases x)
  case (Inl err)
  then show ?thesis using ok job_Retry_Inl [OF run [unfolded Inl]] by (simp add: lawful_refl)
next
  case (Inr resp)
  from job_Retry_Inr [OF run [unfolded Inr] intactD(1) [OF ok]] obtain j d where
    j: "job_user_id j = u" "job_status j = ''failed''" "live_document u (job_document_id j) d s"
    and ed: "job_edit s j (job_reset e (job_retry_count j) j) s'" by blast
  show ?thesis using j
    by (intro lawful_job_edit [OF ok ed]) (auto simp: job_next_def job_moves_def)
qed

lemma worker_claimJob_lawful:
  assumes run: "worker_claimJob e i s = (x, s')" and ok: "intact lib s"
  shows "lawful lib s s'"
proof (cases "s' = s")
  case True
  then show ?thesis using ok by (simp add: lawful_refl)
next
  case False
  with worker_claimJob_Inr [OF run intactD(1) [OF ok]] obtain j where
    j: "job_status j = ''pending''" and ed: "job_edit s j (job_claimed e j) s'" by blast
  show ?thesis using j
    by (intro lawful_job_edit [OF ok ed])
      (auto simp: job_next_def job_moves_def job_claimed_def active_status_def)
qed

definition in_memory :: "parse_job list \<Rightarrow> parse_job \<Rightarrow> bool" where
  "in_memory js j \<longleftrightarrow>
     (\<exists>k\<in>set js. job_id k = job_id j \<and> job_user_id k = job_user_id j \<and> job_document_id k = job_document_id j)"

lemma in_memory_follows: "in_memory (parse_jobs s) j \<Longrightarrow> follows s s' \<Longrightarrow> in_memory (parse_jobs s') j"
  unfolding in_memory_def follows_def rows_follow_def job_next_def by metis

lemma worker_completeJob_lawful:
  assumes run: "worker_completeJob c e j p s = (x, s')" and ok: "intact lib s"
    and mem: "in_memory (parse_jobs s) j"
  shows "lawful lib s s'"
proof (cases x)
  case (Inl err)
  then show ?thesis using ok worker_completeJob_Inl [OF run [unfolded Inl]] by (simp add: lawful_refl)
next
  case (Inr y)
  from worker_completeJob_Inr [OF run [unfolded Inr] intactD(1) [OF ok]] obtain k where
    k: "k \<in> set (parse_jobs s)" "job_id k = job_id j" "job_status k = ''processing''"
    and v: "parse_results_violation s (parse_results s @ [new_result c e j p]) = None"
    and ed: "job_edit (s\<lparr>parse_results := parse_results s @ [new_result c e j p]\<rparr>) k (job_completed e k) s'"
    by blast
  obtain m where m: "m \<in> set (parse_jobs s)" "job_id m = job_id j" "job_user_id m = job_user_id j"
      "job_document_id m = job_document_id j"
    using mem unfolding in_memory_def by blast
  then have "m = k" using k distinct_map_unique [OF schema_ok_distinct(2) [OF intactD(1) [OF ok]]] by metis
  then show ?thesis using k m
    by (intro lawful_complete [OF ok k(1,3) _ _ _ v ed]) (simp_all add: new_result_def)
qed

lemma worker_failJob_lawful:
  assumes run: "worker_failJob e i m perr s = (x, s')" and ok: "intact lib s"
  shows "lawful lib s s'"
proof (cases "s' = s")
  case True
  then show ?thesis using ok by (simp add: lawful_refl)
next
  case False
  with worker_failJob_cases [OF run intactD(1) [OF ok]] obtain j where
    j: "job_status j = ''processing''" and ed: "job_edit s j (job_failed e m j) s'" by blast
  show ?thesis using j
    by (intro lawful_job_edit [OF ok ed])
      (auto simp: job_next_def job_moves_def job_failed_def active_status_def)
qed

lemma recover_one_lawful:
  assumes run: "recover_one e mx cutoff k j (s, q) = (x, (s', q'))" and ok: "intact lib s"
  shows "lawful lib s s'"
  using recover_one_cases [OF run intactD(1) [OF ok]]
proof (elim disjE exE conjE)
  assume "s' = s"
  then show ?thesis using ok by (simp add: lawful_refl)
next
  fix i
  assume i: "stale_job cutoff i"
    and e: "if mx \<le> job_retry_count j
      then job_edit s i (job_failed e ''parse worker recovery limit exceeded'' i) s' \<and> q' = q
      else job_edit s i (job_reset e (job_retry_count j) i) s' \<and> q' = job_publish e k (job_id j) q"
  have st: "job_status i = ''processing''" using i by (simp add: stale_job_def)
  show ?thesis
  proof (cases "mx \<le> job_retry_count j")
    case True
    then have ed: "job_edit s i (job_failed e ''parse worker recovery limit exceeded'' i) s'" using e by simp
    then show ?thesis using st
      by (intro lawful_job_edit [OF ok ed]) (auto simp: job_next_def job_moves_def job_failed_def active_status_def)
  next
    case False
    then have ed: "job_edit s i (job_reset e (job_retry_count j) i) s'" using e by simp
    then show ?thesis using st
      by (intro lawful_job_edit [OF ok ed]) (auto simp: job_next_def job_moves_def active_status_def)
  qed
qed

lemma reconcile_one_lawful:
  assumes run: "reconcile_one e cutoff k j (s, q) = (x, (s', q'))" and ok: "intact lib s"
  shows "lawful lib s s'"
proof (cases "s' = s")
  case True
  then show ?thesis using ok by (simp add: lawful_refl)
next
  case False
  with reconcile_one_cases [OF run intactD(1) [OF ok]] obtain i where i: "overdue_job cutoff i"
    and ed: "job_edit s i (i\<lparr>job_updated_at := now e\<rparr>) s'" by blast
  show ?thesis using i
    by (intro lawful_job_edit [OF ok ed]) (auto simp: job_next_def job_moves_def overdue_job_def)
qed

lemma result_Update_lawful:
  assumes run: "result_Update c e u i (Some r) s = (x, s')" and ok: "intact lib s"
  shows "lawful lib s s'"
proof (cases "s' = s")
  case True
  then show ?thesis using ok by (simp add: lawful_refl)
next
  case False
  with result_Update_cases [OF run intactD(1) [OF ok]] obtain n p where
    p: "\<not> res_is_confirmed p" and ed: "result_edit s p (result_Update_set c e n (res_version p) p) s'" by blast
  show ?thesis using p
    by (intro lawful_result_edit [OF ok ed]) (simp add: result_next_def result_keys_def)
qed

lemma result_Confirm_lawful:
  assumes run: "result_Confirm c e u i s = (x, s')" and ok: "intact lib s"
  shows "lawful lib s s'"
proof (cases "s' = s")
  case True
  then show ?thesis using ok by (simp add: lawful_refl)
next
  case False
  then obtain p' where "result_Confirm_tx e u i s = Inr (p', s')"
    using run by (auto simp: result_Confirm_def transaction_Inr dest: transaction_Inl
        split: if_splits sum.splits prod.splits)
  from result_Confirm_tx_Inr [OF this intactD(1) [OF ok]] False obtain p where
    p: "\<not> res_is_confirmed p" and ed: "result_edit s p (result_Confirm_set e p) s'" by metis
  show ?thesis using p
    by (intro lawful_result_edit [OF ok ed]) (simp add: result_next_def result_keys_def)
qed

lemma project_Create_lawful:
  assumes run: "project_Create c e u (Some rq) s = (x, s')" and ok: "intact lib s"
  shows "lawful lib s s'"
proof (cases "s' = s")
  case True
  then show ?thesis using ok by (simp add: lawful_refl)
next
  case False
  then obtain resp created where x: "x = Inr (resp, created)"
    using run project_Create_Inl by (cases x) auto
  from project_Create_Inr [OF run [unfolded x] intactD(1) [OF ok]] False obtain name p ts r where
    "r \<in> set (parse_results s)" "res_user_id r = u" "project_created c e u name r s p ts s'" by metis
  then show ?thesis by (intro lawful_project_created [OF ok])
qed

lemma project_act_lawful:
  assumes run: "project_act e u i a s = (x, s')" and ok: "intact lib s"
  shows "lawful lib s s'"
  using project_act_change [OF run intactD(1) [OF ok]] lawful_refl [OF ok] lawful_project_edit [OF ok]
  unfolding project_change_def by blast

lemma task_act_lawful:
  assumes run: "task_act e u a s = (b, s')" and ok: "intact lib s"
  shows "lawful lib s s'"
  using task_act_delta [OF run intactD(1) [OF ok]] lawful_refl [OF ok] lawful_tasks [OF ok] by blast

lemma auth_Register_lawful:
  assumes run: "auth_Register lib conf e rnd rq (s, r) = (x, (s', r'))" and rnd: "random_ok rnd"
    and ok: "intact lib s"
  shows "lawful lib s s'"
  using auth_Register_all_or_nothing' [OF rnd run] ok
  by (auto simp: lawful_refl intro!: lawful_users split: sum.splits)

lemma users_distinct: "users_violation lib us = None \<Longrightarrow> distinct (map u_id us)"
  by (simp add: users_violation_def)

lemma auth_UpdateCurrentUser_users:
  assumes run: "auth_UpdateCurrentUser lib conf e rnd u raw rq (s, r) = (x, (s', r'))"
    and d: "distinct (map u_id (users s))"
  shows "s' = s \<or> (\<exists>us. s' = s\<lparr>users := us\<rparr> \<and> users_violation lib us = None \<and> map u_id us = map u_id (users s))"
proof -
  { fix cur repl req y s1 r1
    assume "auth_UpdateCurrentUser_tx lib conf e u cur repl req (s, r) = (Inr y, (s1, r1))"
    then have "\<exists>us. s1 = s\<lparr>users := us\<rparr> \<and> users_violation lib us = None \<and> map u_id us = map u_id (users s)"
      using auth_UpdateCurrentUser_tx_Inr [OF _ d, of lib conf e u cur repl req r "fst y" "snd y" s1 r1] by force }
  note tx = this
  { fix cur repl req err done' s1 r1
    assume "auth_transaction e (auth_UpdateCurrentUser_tx lib conf e u cur repl req) (s, r) = ((err, done'), (s1, r1))"
    then have "s1 = s \<or> (\<exists>us. s1 = s\<lparr>users := us\<rparr> \<and> users_violation lib us = None \<and> map u_id us = map u_id (users s))"
      using tx by (auto simp: auth_transaction_def split: sum.splits prod.splits if_splits) }
  note run' = this
  from run show ?thesis
    unfolding auth_UpdateCurrentUser_def
    by (auto split: option.splits sum.splits prod.splits if_splits dest!: run')
qed

lemma auth_UpdateCurrentUser_lawful:
  assumes run: "auth_UpdateCurrentUser lib conf e rnd u raw rq (s, r) = (x, (s', r'))" and ok: "intact lib s"
  shows "lawful lib s s'"
  using auth_UpdateCurrentUser_users [OF run users_distinct [OF intactD(2) [OF ok]]]
    lawful_refl [OF ok] lawful_users [OF ok] by (metis list.set_map order_refl)

end
