(* ===== verification/System.thy ===== *)
theory System
  imports Integrity
begin

text \<open>
  The server as one transition system. Its state is the database, the stream of published
  jobs, the jobs the workers hold in memory, the Redis sessions and the upload directory. A
  step is one call of a service or one database round of a worker, by any caller, with any
  environment (clock, identifiers, faults), in any order; a transaction is one step, since
  it locks the rows it reads. A worker claims a job in one step and stores its outcome in
  another, and everything may happen between the two: its lease may run out, another worker
  may claim the job, the process may be killed.
\<close>

record app =
  app_db :: db
  app_stream :: stream
  app_work :: "parse_job list"
  app_sessions :: sessions
  app_files :: file_tree

inductive app_step :: "auth_lib \<Rightarrow> time_codec \<Rightarrow> app \<Rightarrow> app \<Rightarrow> bool" for lib c where
  create_text: "doc_CreateText e u rq (app_db a) = (x, s') \<Longrightarrow> app_step lib c a (a\<lparr>app_db := s'\<rparr>)"
| create_pdf: "doc_CreatePDF e rnd today svc u rq rd (app_db a, app_files a) = (x, (s', fs')) \<Longrightarrow>
    app_step lib c a (a\<lparr>app_db := s', app_files := fs'\<rparr>)"
| delete_document: "doc_Delete e svc u i (app_db a, app_files a) = (x, (s', fs')) \<Longrightarrow>
    app_step lib c a (a\<lparr>app_db := s', app_files := fs'\<rparr>)"
| create_job: "job_Create e u i (app_db a, app_stream a) = (x, (s', q')) \<Longrightarrow>
    app_step lib c a (a\<lparr>app_db := s', app_stream := q'\<rparr>)"
| retry_job: "job_Retry e u i (app_db a, app_stream a) = (x, (s', q')) \<Longrightarrow>
    app_step lib c a (a\<lparr>app_db := s', app_stream := q'\<rparr>)"
| claim: "worker_claimJob e i (app_db a) = (x, s') \<Longrightarrow>
    app_step lib c a (a\<lparr>app_db := s', app_work :=
      (case x of Inr (Some j, True) \<Rightarrow> j # app_work a | _ \<Rightarrow> app_work a)\<rparr>)"
| complete: "j \<in> set (app_work a) \<Longrightarrow> worker_completeJob c e j parsed (app_db a) = (x, s') \<Longrightarrow>
    app_step lib c a (a\<lparr>app_db := s', app_work := remove1 j (app_work a)\<rparr>)"
| fail: "j \<in> set (app_work a) \<Longrightarrow> worker_failJob e (job_id j) m err (app_db a) = (x, s') \<Longrightarrow>
    app_step lib c a (a\<lparr>app_db := s', app_work := remove1 j (app_work a)\<rparr>)"
| crash: "set work \<subseteq> set (app_work a) \<Longrightarrow> app_step lib c a (a\<lparr>app_work := work\<rparr>)"
| recover: "recover_one e mx cutoff k j (app_db a, app_stream a) = (x, (s', q')) \<Longrightarrow>
    app_step lib c a (a\<lparr>app_db := s', app_stream := q'\<rparr>)"
| reconcile: "reconcile_one e cutoff k j (app_db a, app_stream a) = (x, (s', q')) \<Longrightarrow>
    app_step lib c a (a\<lparr>app_db := s', app_stream := q'\<rparr>)"
| clean_up: "Cleanup (local_list e root) (local_del e root) refs at tg og (app_files a) = (st, errs, fs') \<Longrightarrow>
    app_step lib c a (a\<lparr>app_files := fs'\<rparr>)"
| review: "result_Update c e u i (Some r) (app_db a) = (x, s') \<Longrightarrow> app_step lib c a (a\<lparr>app_db := s'\<rparr>)"
| confirm: "result_Confirm c e u i (app_db a) = (x, s') \<Longrightarrow> app_step lib c a (a\<lparr>app_db := s'\<rparr>)"
| create_project: "project_Create c e u (Some r) (app_db a) = (x, s') \<Longrightarrow>
    app_step lib c a (a\<lparr>app_db := s'\<rparr>)"
| edit_project: "project_act e u i pa (app_db a) = (x, s') \<Longrightarrow> app_step lib c a (a\<lparr>app_db := s'\<rparr>)"
| edit_task: "task_act e u ta (app_db a) = (b, s') \<Longrightarrow> app_step lib c a (a\<lparr>app_db := s'\<rparr>)"
| register: "random_ok rnd \<Longrightarrow>
    auth_Register lib conf e rnd rq (app_db a, app_sessions a) = (y, (s', r')) \<Longrightarrow>
    app_step lib c a (a\<lparr>app_db := s', app_sessions := r'\<rparr>)"
| login: "auth_Login lib conf e rnd rl (app_db a, app_sessions a) = (y, (s', r')) \<Longrightarrow>
    app_step lib c a (a\<lparr>app_sessions := r'\<rparr>)"
| refresh: "auth_Refresh lib conf e rnd raw (app_sessions a) = (y, r') \<Longrightarrow>
    app_step lib c a (a\<lparr>app_sessions := r'\<rparr>)"
| logout: "auth_Logout lib conf e raw (app_sessions a) = (z, r') \<Longrightarrow>
    app_step lib c a (a\<lparr>app_sessions := r'\<rparr>)"
| edit_profile: "auth_UpdateCurrentUser lib conf e rnd u raw ru (app_db a, app_sessions a) = (y, (s', r')) \<Longrightarrow>
    app_step lib c a (a\<lparr>app_db := s', app_sessions := r'\<rparr>)"

definition start :: app where
  "start = \<lparr>app_db = empty_db, app_stream = [], app_work = [], app_sessions = Map.empty, app_files = []\<rparr>"

inductive reachable :: "auth_lib \<Rightarrow> time_codec \<Rightarrow> app \<Rightarrow> bool" for lib c where
  initially: "reachable lib c start"
| later: "reachable lib c a \<Longrightarrow> app_step lib c a a' \<Longrightarrow> reachable lib c a'"

section \<open>The invariant\<close>

definition app_ok :: "auth_lib \<Rightarrow> app \<Rightarrow> bool" where
  "app_ok lib a \<longleftrightarrow>
     intact lib (app_db a) \<and> (\<forall>j\<in>set (app_work a). in_memory (parse_jobs (app_db a)) j)"

lemma worker_claimJob_in_memory:
  assumes "worker_claimJob e i s = (Inr (Some j, True), s')" "schema_ok s"
  shows "in_memory (parse_jobs s') j"
proof -
  from worker_claimJob_Inr [OF assms] obtain k where "job_edit s k (job_claimed e k) s'" "j = job_claimed e k"
    by auto
  then have "job_claimed e k \<in> set (parse_jobs s')" "j = job_claimed e k"
    using set_replace_row [of k "parse_jobs s" job_id "job_claimed e k"]
    by (auto simp: job_edit_def job_claimed_def)
  then show ?thesis unfolding in_memory_def by (intro bexI [of _ "job_claimed e k"]) simp_all
qed

lemma app_step_ok:
  assumes "app_step lib c a a'" "app_ok lib a"
  shows "lawful lib (app_db a) (app_db a') \<and> app_ok lib a'"
proof -
  have ok: "intact lib (app_db a)" and mem: "\<And>j. j \<in> set (app_work a) \<Longrightarrow> in_memory (parse_jobs (app_db a)) j"
    using assms(2) by (simp_all add: app_ok_def)
  have keep: "lawful lib (app_db a) s' \<Longrightarrow> set w \<subseteq> set (app_work a)
      \<Longrightarrow> lawful lib (app_db a) s' \<and> intact lib s' \<and> (\<forall>j\<in>set w. in_memory (parse_jobs s') j)" for s' w
    using mem in_memory_follows unfolding lawful_def by blast
  from assms(1) show ?thesis
  proof cases
    case (claim e i x s')
    note law = worker_claimJob_lawful [OF claim(2) ok]
    let ?w = "case x of Inr (Some j, True) \<Rightarrow> j # app_work a | _ \<Rightarrow> app_work a"
    have "in_memory (parse_jobs s') j" if "j \<in> set ?w" for j
    proof (cases "\<exists>j. x = Inr (Some j, True)")
      case True
      then obtain k where "x = Inr (Some k, True)" by blast
      then show ?thesis
        using worker_claimJob_in_memory [of e i "app_db a" k s'] claim(2) intactD(1) [OF ok] that mem
          in_memory_follows law by (auto simp: lawful_def)
    next
      case False
      then have "?w = app_work a" by (auto split: sum.splits option.splits prod.splits bool.splits)
      then show ?thesis using that mem in_memory_follows law by (auto simp: lawful_def)
    qed
    then show ?thesis using claim(1) law by (simp add: app_ok_def lawful_def)
  next
    case (complete j e parsed x s')
    then show ?thesis
      using keep [OF worker_completeJob_lawful [OF complete(3) ok mem [OF complete(2)]] set_remove1_subset [of j]]
      by (simp add: app_ok_def)
  next
    case (fail j e m err x s')
    then show ?thesis
      using keep [OF worker_failJob_lawful [OF fail(3) ok] set_remove1_subset [of j]] by (simp add: app_ok_def)
  next
    case (crash work)
    then show ?thesis using keep [OF lawful_refl [OF ok] crash(2)] by (simp add: app_ok_def)
  qed (use keep [OF _ order_refl] lawful_refl [OF ok] in \<open>(simp add: app_ok_def;
      blast intro: doc_CreateText_lawful doc_CreatePDF_lawful doc_Delete_lawful job_Create_lawful
        job_Retry_lawful recover_one_lawful reconcile_one_lawful result_Update_lawful result_Confirm_lawful
        project_Create_lawful project_act_lawful task_act_lawful auth_Register_lawful
        auth_UpdateCurrentUser_lawful ok)\<close>)+
qed


lemma reachable_ok: "reachable lib c a \<Longrightarrow> app_ok lib a"
proof (induction rule: reachable.induct)
  case initially
  then show ?case
    by (simp add: app_ok_def start_def empty_db_def intact_def schema_ok_def violation_defs linked_def
        users_violation_def)
next
  case (later a a')
  then show ?case using app_step_ok by blast
qed

lemma reachable_steps: "(app_step lib c)\<^sup>*\<^sup>* a b \<Longrightarrow> reachable lib c a \<Longrightarrow> reachable lib c b"
  by (induction rule: rtranclp_induct) (auto intro: later)

text \<open>
  What does not change once it is settled, whatever happens afterwards.
\<close>

definition settled :: "db \<Rightarrow> db \<Rightarrow> bool" where
  "settled s s' \<longleftrightarrow>
     (\<forall>j\<in>set (parse_jobs s). job_status j = ''success'' \<longrightarrow> j \<in> set (parse_jobs s'))
     \<and> (\<forall>r\<in>set (parse_results s). res_is_confirmed r \<longrightarrow> r \<in> set (parse_results s'))
     \<and> (\<forall>r\<in>set (parse_results s). \<exists>r'\<in>set (parse_results s'). result_keys r' = result_keys r)
     \<and> (\<forall>d\<in>set (documents s). doc_deleted_at d \<noteq> None \<longrightarrow> d \<in> set (documents s'))
     \<and> (\<forall>p\<in>set (projects s). \<exists>p'\<in>set (projects s'). prj_id p' = prj_id p \<and> prj_user_id p' = prj_user_id p
          \<and> prj_parse_result_id p' = prj_parse_result_id p \<and> prj_version p \<le> prj_version p'
          \<and> (prj_status p = projectStatusDeleted \<longrightarrow> p' = p))"

lemma settled_refl: "settled s s"
  unfolding settled_def by auto

lemma rows_follow_obtain:
  assumes "rows_follow R xs ys" "x \<in> set xs"
  obtains y where "y \<in> set ys" "R x y"
  using assms unfolding rows_follow_def by blast

lemma deleted_project_stays: "project_next p p' \<Longrightarrow> prj_status p = projectStatusDeleted \<Longrightarrow> p' = p"
  by (auto simp: project_next_def next_row_def lifecycle_edge_def)

lemma settled_follows:
  assumes "settled s s'" "follows s' s''"
  shows "settled s s''"
proof -
  note f = assms(2) [unfolded follows_def]
  note results = assms(1) [unfolded settled_def, THEN conjunct2, THEN conjunct2, THEN conjunct1]
  note projects = assms(1) [unfolded settled_def, THEN conjunct2, THEN conjunct2, THEN conjunct2, THEN conjunct2]
  have "j \<in> set (parse_jobs s'')" if "j \<in> set (parse_jobs s)" "job_status j = ''success''" for j
  proof -
    have "j \<in> set (parse_jobs s')" using assms(1) that by (simp add: settled_def)
    then obtain j' where "j' \<in> set (parse_jobs s'')" "job_next j j'" using f by (blast elim: rows_follow_obtain)
    then show ?thesis using that by (auto simp: job_next_def job_moves_def)
  qed
  moreover have "r \<in> set (parse_results s'')" if "r \<in> set (parse_results s)" "res_is_confirmed r" for r
  proof -
    have "r \<in> set (parse_results s')" using assms(1) that by (simp add: settled_def)
    then obtain r' where "r' \<in> set (parse_results s'')" "result_next r r'" using f by (blast elim: rows_follow_obtain)
    then show ?thesis using that by (auto simp: result_next_def)
  qed
  moreover have "\<exists>r'\<in>set (parse_results s''). result_keys r' = result_keys r" if mem: "r \<in> set (parse_results s)" for r
  proof -
    obtain r1 where r1: "r1 \<in> set (parse_results s')" "result_keys r1 = result_keys r"
      using bspec [OF results mem] by blast
    then obtain r' where "r' \<in> set (parse_results s'')" "result_next r1 r'" using f by (blast elim: rows_follow_obtain)
    then show ?thesis using r1 by (auto simp: result_next_def)
  qed
  moreover have "d \<in> set (documents s'')" if "d \<in> set (documents s)" "doc_deleted_at d \<noteq> None" for d
  proof -
    have "d \<in> set (documents s')" using assms(1) that by (simp add: settled_def)
    then obtain d' where "d' \<in> set (documents s'')" "document_next d d'" using f by (blast elim: rows_follow_obtain)
    then show ?thesis using that by (auto simp: document_next_def)
  qed
  moreover have "\<exists>p'\<in>set (projects s''). prj_id p' = prj_id p \<and> prj_user_id p' = prj_user_id p
      \<and> prj_parse_result_id p' = prj_parse_result_id p \<and> prj_version p \<le> prj_version p'
      \<and> (prj_status p = projectStatusDeleted \<longrightarrow> p' = p)" if mem: "p \<in> set (projects s)" for p
  proof -
    obtain p1 where p1: "p1 \<in> set (projects s')" "prj_id p1 = prj_id p" "prj_user_id p1 = prj_user_id p"
        "prj_parse_result_id p1 = prj_parse_result_id p" "prj_version p \<le> prj_version p1"
        "prj_status p = projectStatusDeleted \<longrightarrow> p1 = p"
      using bspec [OF projects mem] by blast
    then obtain p' where p': "p' \<in> set (projects s'')" "project_next p1 p'" using f by (blast elim: rows_follow_obtain)
    have "prj_version p1 \<le> prj_version p'" "prj_id p' = prj_id p1" "prj_user_id p' = prj_user_id p1"
        "prj_parse_result_id p' = prj_parse_result_id p1"
      using p'(2) by (auto simp: project_next_def next_row_def)
    moreover have "prj_status p = projectStatusDeleted \<longrightarrow> p' = p"
      using p1(6) deleted_project_stays [OF p'(2)] by blast
    ultimately show ?thesis using p1(2-5) p'(1) by (intro bexI [of _ p']) simp_all
  qed
  ultimately show ?thesis unfolding settled_def by blast
qed

lemma steps_settled:
  assumes "(app_step lib c)\<^sup>*\<^sup>* a b" "reachable lib c a"
  shows "settled (app_db a) (app_db b)"
  using assms(1)
proof (induction rule: rtranclp_induct)
  case base
  show ?case by (rule settled_refl)
next
  case (step b d)
  have "app_ok lib b" using reachable_ok [OF reachable_steps [OF step(1) assms(2)]] .
  then have "follows (app_db b) (app_db d)" using app_step_ok [OF step(2)] by (simp add: lawful_def)
  then show ?case using settled_follows [OF step.IH] by blast
qed

text \<open>
  C13: In every reachable state of the server, with any interleaving of users, workers,
  crashes, lease recoveries and faults, the rows refer to each other as they should: a job
  belongs to the owner of its document, and while it is pending or processing the document
  is not deleted; a job is successful exactly if it has a result, and the result is of the
  job's user and document; a project comes from a confirmed result of the same user and
  document; a task belongs to the owner of its project. The schema's constraints hold, and
  what a worker holds in memory still names a row of the database.
\<close>

theorem reachable_integrity:
  assumes "reachable lib c a"
  shows "schema_ok (app_db a) \<and> users_violation lib (users (app_db a)) = None \<and> linked (app_db a)
    \<and> (\<forall>j\<in>set (app_work a). in_memory (parse_jobs (app_db a)) j)"
  using reachable_ok [OF assms] by (simp add: app_ok_def intact_def)

text \<open>
  C16: Nothing that is settled changes again. From a reachable state on, whatever steps
  follow, a successful job and a confirmed result keep every column, a result keeps its
  owner, document and job, a deleted document stays deleted, a project keeps its owner and
  its result, its version does not go back, and a deleted project is never written again.
  Each single step moves every job along the edges of its state machine.
\<close>

theorem settled_rows_stay:
  assumes "reachable lib c a" "(app_step lib c)\<^sup>*\<^sup>* a b" "app_step lib c b d"
  shows "settled (app_db a) (app_db b)
    \<and> rows_follow job_next (parse_jobs (app_db b)) (parse_jobs (app_db d))"
  using steps_settled [OF assms(2,1)]
    app_step_ok [OF assms(3) reachable_ok [OF reachable_steps [OF assms(2,1)]]]
  by (simp add: lawful_def follows_def)

section \<open>A run\<close>

text \<open>A user registers, stores a text, has it parsed; a worker holds the job, then completes it.\<close>

definition run_document :: document where
  "run_document = new_text_document calm_env 0 ''t'' ''t''"

definition run_job :: parse_job where
  "run_job = job_claimed calm_env (new_job calm_env 0 0)"

definition run_registered :: app where
  "run_registered = start\<lparr>app_db := empty_db\<lparr>users := [registered_user]\<rparr>,
     app_sessions := with_session sample_lib sample_conf calm_env sample_random registered_user Map.empty\<rparr>"

definition run_stored :: app where
  "run_stored = run_registered\<lparr>app_db := (app_db run_registered)\<lparr>documents := [run_document]\<rparr>\<rparr>"

definition run_queued :: app where
  "run_queued = run_stored\<lparr>app_db := (app_db run_stored)\<lparr>parse_jobs := [new_job calm_env 0 0]\<rparr>, app_stream := [0]\<rparr>"

definition run_working :: app where
  "run_working = run_queued\<lparr>app_db := (app_db run_queued)\<lparr>parse_jobs := [run_job]\<rparr>, app_work := [run_job]\<rparr>"

definition run_done :: app where
  "run_done = run_working\<lparr>app_db := (app_db run_working)
     \<lparr>parse_results := [new_result sample_codec calm_env run_job sample_answer],
      parse_jobs := [job_completed calm_env run_job]\<rparr>, app_work := []\<rparr>"

lemmas run_defs = run_document_def run_job_def run_registered_def run_stored_def run_queued_def
  run_working_def run_done_def start_def empty_db_def

lemma db_up_calm: "db_up calm_env"
  by (simp add: calm_env_def)

lemma registered_user_id [simp]: "u_id registered_user = 0"
  by (simp add: registered_user_def new_user_def)

lemma run_registers: "app_step sample_lib sample_codec start run_registered"
  using sample_registered app_step.register [OF sample_lib_ok(2), of sample_lib sample_conf calm_env sample_register start]
  by (force simp: run_registered_def start_def)

lemma run_document_ok:
  "users s = [registered_user] \<Longrightarrow> documents_violation s [run_document] = None"
  by (simp add: documents_violation_def document_check_def document_refs_def run_document_def
      new_text_document_def varchar_def rune_count_ascii ascii_simps)

lemma run_stores: "app_step sample_lib sample_codec run_registered run_stored"
proof -
  have "doc_CreateText calm_env 0 \<lparr>ctd_title = ''t'', ctd_text = ''t''\<rparr> (app_db run_registered)
    = (Inr (documentResponse run_document), app_db run_stored)"
    using run_document_ok [of "app_db run_registered"]
    by (simp add: doc_CreateText_def run_registered_def run_stored_def start_def empty_db_def run_document_def
        sql_insert_def ascii_simps rune_count_ascii MaxTextDocumentChars_def Let_def db_up_calm)
  from app_step.create_text [OF this] show ?thesis by (simp add: run_stored_def)
qed

lemma run_job_ok:
  assumes "users s = [registered_user]" "documents s = [run_document]"
  shows "parse_jobs_violation s [new_job calm_env 0 0] = None" "parse_jobs_violation s [run_job] = None"
    "parse_jobs_violation s [job_completed calm_env run_job] = None"
  using assms
  by (simp_all add: parse_jobs_violation_def parse_job_check_def parse_job_refs_def run_job_def run_document_def
      new_text_document_def new_job_def job_claimed_def job_completed_def active_status_def int4_def)

lemma run_queues: "app_step sample_lib sample_codec run_stored run_queued"
proof -
  have "sql_first doc_id (\<lambda>d. doc_id d = 0 \<and> doc_user_id d = 0 \<and> doc_deleted_at d = None) [run_document]
      = Inr run_document"
    by (intro sql_first_one) (simp add: run_document_def new_text_document_def)
  moreover have "doc_status run_document = ''ready''" by (simp add: run_document_def new_text_document_def)
  moreover have "app_db run_queued = (app_db run_stored)\<lparr>parse_jobs := [new_job calm_env 0 0]\<rparr>"
      "app_stream run_stored = []" "parse_jobs (app_db run_stored) = []" "documents (app_db run_stored) = [run_document]"
    by (simp_all add: run_queued_def run_stored_def run_registered_def start_def empty_db_def)
  moreover have "parse_jobs_violation (app_db run_stored) [new_job calm_env 0 0] = None"
    by (intro run_job_ok) (simp_all add: run_stored_def run_registered_def)
  ultimately have "job_Create calm_env 0 0 (app_db run_stored, app_stream run_stored)
      = (Inr (parseJobResponse (new_job calm_env 0 0)), (app_db run_queued, [0]))"
    by (simp add: job_Create_def job_Create_tx_def transaction_def sql_insert_def sql_count_def job_publish_def
        Let_def db_up_calm new_job_def)
  from app_step.create_job [OF this] show ?thesis by (simp add: run_queued_def)
qed

lemma run_claims: "app_step sample_lib sample_codec run_queued run_working"
proof -
  have db: "parse_jobs (app_db run_queued) = [new_job calm_env 0 0]"
      "app_db run_working = (app_db run_queued)\<lparr>parse_jobs := [run_job]\<rparr>" "app_work run_queued = []"
    by (simp_all add: run_working_def run_queued_def run_stored_def run_registered_def start_def)
  have "parse_jobs_violation (app_db run_queued) [run_job] = None"
    by (intro run_job_ok) (simp_all add: run_queued_def run_stored_def run_registered_def)
  moreover have "sql_first job_id (\<lambda>j. job_id j = 0) [run_job] = Inr run_job"
    by (intro sql_first_one) (simp add: run_job_def new_job_def job_claimed_def)
  ultimately have "worker_claimJob calm_env 0 (app_db run_queued) = (Inr (Some run_job, True), app_db run_working)"
    using db by (simp add: worker_claimJob_def sql_update_def sql_count_def new_job_def run_job_def Let_def)
  from app_step.claim [OF this] db(3) show ?thesis by (simp add: run_working_def)
qed

lemma run_completes: "app_step sample_lib sample_codec run_working run_done"
proof -
  let ?r = "new_result sample_codec calm_env run_job sample_answer"
  have db: "parse_jobs (app_db run_working) = [run_job]" "parse_results (app_db run_working) = []"
      "app_work run_working = [run_job]"
      "app_db run_done = (app_db run_working)\<lparr>parse_results := [?r], parse_jobs := [job_completed calm_env run_job]\<rparr>"
    by (simp_all add: run_done_def run_working_def run_queued_def run_stored_def run_registered_def start_def empty_db_def)
  have us: "users (app_db run_working) = [registered_user]" "documents (app_db run_working) = [run_document]"
    by (simp_all add: run_working_def run_queued_def run_stored_def run_registered_def)
  have "parse_results_violation (app_db run_working) [?r] = None"
    using db us by (simp add: parse_results_violation_def parse_result_check_def parse_result_refs_def new_result_def
        run_job_def new_job_def job_claimed_def run_document_def new_text_document_def sample_answer_def
        varchar_def rune_count_ascii int4_def)
  moreover have "parse_jobs_violation ((app_db run_working)\<lparr>parse_results := [?r]\<rparr>) [job_completed calm_env run_job] = None"
    using us by (intro run_job_ok) simp_all
  moreover have "job_status run_job = ''processing''" by (simp add: run_job_def job_claimed_def)
  ultimately have "worker_completeJob sample_codec calm_env run_job sample_answer (app_db run_working)
      = (Inr (), app_db run_done)"
    using db by (simp add: worker_completeJob_def worker_completeJob_tx_def transaction_def sql_insert_def sql_update_def
        sql_count_def Let_def)
  from app_step.complete [OF _ this] db(3) show ?thesis by (simp add: run_done_def)
qed

lemma run_queue_reachable: "reachable sample_lib sample_codec run_queued"
  using run_registers run_stores run_queues by (meson reachable.intros)

theorem reachable_integrity_witness:
  "in_memory (parse_jobs (app_db run_working)) run_job \<and> linked (app_db run_working)"
  using reachable_integrity [OF reachable.later [OF run_queue_reachable run_claims]]
  by (simp add: run_working_def)

theorem settled_rows_stay_witness:
  "settled (app_db run_queued) (app_db run_working)
    \<and> rows_follow job_next (parse_jobs (app_db run_working)) (parse_jobs (app_db run_done))"
  using settled_rows_stay [OF run_queue_reachable r_into_rtranclp run_completes, OF run_claims] .

section \<open>The worker's functions are runs\<close>

abbreviation app_steps :: "auth_lib \<Rightarrow> time_codec \<Rightarrow> app \<Rightarrow> app \<Rightarrow> bool" where
  "app_steps lib c \<equiv> (app_step lib c)\<^sup>*\<^sup>*"

lemma worker_run_step:
  assumes "worker_run c parser e j s = (x, s')" "app_db a = s" "j \<in> set (app_work a)"
  shows "app_step lib c a (a\<lparr>app_db := s', app_work := remove1 j (app_work a)\<rparr>)"
  using assms unfolding worker_run_def
  by (auto simp: Let_def split: sum.splits if_splits prod.splits intro: app_step.fail app_step.complete)

lemma worker_processJob_steps:
  assumes "worker_processJob c parser e i (app_db a) = (x, s')"
  shows "app_steps lib c a (a\<lparr>app_db := s'\<rparr>)"
proof (cases "worker_claimJob e i (app_db a)")
  case (Pair y s1)
  note cl = app_step.claim [OF Pair, of lib c]
  show ?thesis
  proof (cases "\<exists>k. y = Inr (Some k, True)")
    case True
    then obtain k where y: "y = Inr (Some k, True)" by blast
    let ?a = "a\<lparr>app_db := s1, app_work := k # app_work a\<rparr>"
    have "worker_run c parser e k s1 = (x, s')" using assms Pair y by (simp add: worker_processJob_def)
    from worker_run_step [OF this, of ?a lib] have "app_step lib c ?a (a\<lparr>app_db := s'\<rparr>)" by simp
    moreover have "app_step lib c a ?a" using cl y by simp
    ultimately show ?thesis
      using r_into_rtranclp converse_rtranclp_into_rtranclp by (metis (no_types))
  next
    case False
    then have "(case y of Inr (Some j, True) \<Rightarrow> j # app_work a | _ \<Rightarrow> app_work a) = app_work a"
      by (auto split: sum.splits option.splits prod.splits bool.splits)
    then have "app_step lib c a (a\<lparr>app_db := s1\<rparr>)" using cl by simp
    moreover have "s' = s1"
      using assms Pair False by (auto simp: worker_processJob_def split: sum.splits option.splits if_splits prod.splits)
    ultimately show ?thesis by auto
  qed
qed

lemma recover_loop_steps:
  "recover_loop e mx cutoff k js (app_db a, app_stream a) = (x, (s', q')) \<Longrightarrow>
   app_steps lib c a (a\<lparr>app_db := s', app_stream := q'\<rparr>)"
proof (induction js arbitrary: k a)
  case (Cons j js)
  obtain y s1 q1 where one: "recover_one e mx cutoff k j (app_db a, app_stream a) = (y, (s1, q1))"
    by (cases "recover_one e mx cutoff k j (app_db a, app_stream a)") auto
  let ?a = "a\<lparr>app_db := s1, app_stream := q1\<rparr>"
  have "app_step lib c a ?a" using app_step.recover [OF one] .
  moreover have "app_steps lib c ?a (?a\<lparr>app_db := s', app_stream := q'\<rparr>)"
    using Cons.prems one Cons.IH [of "Suc k" ?a] by (cases y) auto
  ultimately show ?case by (simp add: converse_rtranclp_into_rtranclp)
qed auto

lemma reconcile_loop_steps:
  "reconcile_loop e cutoff k js (app_db a, app_stream a) = (x, (s', q')) \<Longrightarrow>
   app_steps lib c a (a\<lparr>app_db := s', app_stream := q'\<rparr>)"
proof (induction js arbitrary: k a)
  case (Cons j js)
  obtain y s1 q1 where one: "reconcile_one e cutoff k j (app_db a, app_stream a) = (y, (s1, q1))"
    by (cases "reconcile_one e cutoff k j (app_db a, app_stream a)") auto
  let ?a = "a\<lparr>app_db := s1, app_stream := q1\<rparr>"
  have "app_step lib c a ?a" using app_step.reconcile [OF one] .
  moreover have "app_steps lib c ?a (?a\<lparr>app_db := s', app_stream := q'\<rparr>)"
    using Cons.prems one Cons.IH [of "Suc k" ?a] by (cases y) auto
  ultimately show ?case by (simp add: converse_rtranclp_into_rtranclp)
qed auto

lemma worker_recoverStaleJobs_steps:
  assumes "worker_recoverStaleJobs lt mx e (app_db a, app_stream a) = (x, (s', q'))"
  shows "app_steps lib c a (a\<lparr>app_db := s', app_stream := q'\<rparr>)"
  using assms recover_loop_steps
  by (auto simp: worker_recoverStaleJobs_def Let_def split: sum.splits)

lemma worker_reconcilePendingJobs_steps:
  assumes "worker_reconcilePendingJobs gr e (app_db a, app_stream a) = (x, (s', q'))"
  shows "app_steps lib c a (a\<lparr>app_db := s', app_stream := q'\<rparr>)"
  using assms reconcile_loop_steps
  by (auto simp: worker_reconcilePendingJobs_def Let_def split: sum.splits)

text \<open>
  The transition system covers the worker as written: \<open>processJob\<close> with any parser and
  any faults, \<open>recoverStaleJobs\<close> and \<open>reconcilePendingJobs\<close> with all turns of their loops
  each take the state where a run of single steps takes it, so what holds of all runs holds
  when other calls fall between their statements.
\<close>

theorem worker_refines_steps:
  "app_steps lib c a (a\<lparr>app_db := snd (worker_processJob c parser e i (app_db a))\<rparr>)
   \<and> (case snd (worker_recoverStaleJobs lt mx e (app_db a, app_stream a)) of
        (s, q) \<Rightarrow> app_steps lib c a (a\<lparr>app_db := s, app_stream := q\<rparr>))
   \<and> (case snd (worker_reconcilePendingJobs gr e (app_db a, app_stream a)) of
        (s, q) \<Rightarrow> app_steps lib c a (a\<lparr>app_db := s, app_stream := q\<rparr>))"
proof -
  obtain x s' where 1: "worker_processJob c parser e i (app_db a) = (x, s')" by fastforce
  obtain y s1 q1 where 2: "worker_recoverStaleJobs lt mx e (app_db a, app_stream a) = (y, (s1, q1))"
    by (cases "worker_recoverStaleJobs lt mx e (app_db a, app_stream a)") auto
  obtain z s2 q2 where 3: "worker_reconcilePendingJobs gr e (app_db a, app_stream a) = (z, (s2, q2))"
    by (cases "worker_reconcilePendingJobs gr e (app_db a, app_stream a)") auto
  show ?thesis
    using 1 2 3 worker_processJob_steps [OF 1] worker_recoverStaleJobs_steps [OF 2]
      worker_reconcilePendingJobs_steps [OF 3] by simp
qed

end
