(* ===== verification/Recovery.thy ===== *)
theory Recovery
  imports Worker
begin

text \<open>
  What happens to a job whose workers keep dying: the lease recovery hands it out again a
  bounded number of times and then fails it. And the pause of a worker that cannot reach
  Redis, which doubles up to half a minute.
\<close>

section \<open>A job that kills its workers\<close>

text \<open>
  A worker claims the job and is killed; when its lease is over, the recovery runs.
\<close>

definition crash_cycle :: "int \<Rightarrow> int \<Rightarrow> env \<Rightarrow> int \<Rightarrow> db \<times> stream \<Rightarrow> db \<times> stream" where
  "crash_cycle leaseTimeout maxRecoveries e jobID sq =
     snd (worker_recoverStaleJobs leaseTimeout maxRecoveries (e\<lparr>now := now e + leaseTimeout + 1\<rparr>)
       (snd (worker_claimJob e jobID (fst sq)), snd sq))"

definition job_row :: "int \<Rightarrow> db \<Rightarrow> parse_job option" where
  "job_row i s = table_map job_id (parse_jobs s) i"

text \<open>No other job is being processed.\<close>

definition alone :: "int \<Rightarrow> db \<Rightarrow> bool" where
  "alone i s \<longleftrightarrow> list_all (\<lambda>j. job_id j = i \<or> job_status j \<noteq> ''processing'') (parse_jobs s)"

lemma find_one:
  assumes "distinct (map key rows)" "r \<in> set rows" "\<And>x. x \<in> set rows \<Longrightarrow> P x \<longleftrightarrow> x = r"
  shows "sql_find ord P rows = [r]"
proof -
  have "filter P rows = filter (\<lambda>x. x = r) rows" using assms(3) by (intro filter_cong) auto
  also have "\<dots> = [r]"
    using assms(1,2) by (induction rows) (auto simp: filter_empty_conv)
  finally show ?thesis by (simp add: sql_find_def)
qed

lemma job_check_int4: "schema_ok s \<Longrightarrow> j \<in> set (parse_jobs s) \<Longrightarrow> parse_job_check j"
  by (auto simp: schema_ok_def parse_jobs_violation_def list_all_iff)

lemma reset_violation:
  assumes ok: "schema_ok s" and j: "j \<in> set (parse_jobs s)" "job_status j = ''processing''"
    and n: "0 \<le> n" "n < 2147483647"
  shows "parse_jobs_violation s (replace_row job_id (job_reset e n j) (parse_jobs s)) = None"
proof (rule jobs_violation_replace)
  show "parse_jobs_violation s (parse_jobs s) = None" using ok by (simp add: schema_ok_def)
  have "int32_wrap (n + 1) = n + 1" using n by (simp add: int32_wrap_def)
  then show "parse_job_check (job_reset e n j)"
    using job_check_int4 [OF ok j(1)] n by (simp add: parse_job_check_def int4_def)
qed (use j in \<open>auto simp: active_status_def\<close>)

lemma recover_one_job:
  assumes nf: "no_faults e" and ok: "schema_ok s"
    and j: "j \<in> set (parse_jobs s)" "job_status j = ''processing''" "job_started_at j = Some t"
    and t: "t < now e - lt" and al: "alone (job_id j) s"
    and mx: "0 \<le> job_retry_count j" "mx \<le> 2147483647"
  defines "j' \<equiv> (if mx \<le> job_retry_count j then job_failed e ''parse worker recovery limit exceeded'' j
                  else job_reset e (job_retry_count j) j)"
  shows "worker_recoverStaleJobs lt mx e (s, q) =
    (Inr (), (s\<lparr>parse_jobs := replace_row job_id j' (parse_jobs s)\<rparr>,
       if mx \<le> job_retry_count j then q else q @ [job_id j]))"
proof -
  note d = schema_ok_distinct(2) [OF ok]
  let ?cut = "now e - lt"
  have stale: "stale_job ?cut x \<longleftrightarrow> x = j" if "x \<in> set (parse_jobs s)" for x
    using that j t al distinct_map_unique [OF d that j(1)] by (auto simp: stale_job_def alone_def list_all_iff)
  have find: "sql_find started_order (stale_job ?cut) (parse_jobs s) = [j]"
    by (rule find_one [OF d j(1)]) (rule stale)
  have upd: "sql_update (parse_jobs_violation s) (\<lambda>i. job_id i = job_id j \<and> stale_job ?cut i) f (parse_jobs s) =
      (case parse_jobs_violation s (replace_row job_id (f j) (parse_jobs s)) of
         Some x \<Rightarrow> Inl x | None \<Rightarrow> Inr (replace_row job_id (f j) (parse_jobs s), 1))" if "job_id (f j) = job_id j" for f
    using that stale [OF j(1)] by (intro jt.update_keyed [OF d j(1)]) auto
  have "parse_jobs_violation s (replace_row job_id (job_reset e (job_retry_count j) j) (parse_jobs s)) = None"
    if "\<not> mx \<le> job_retry_count j"
    using reset_violation [OF ok j(1,2)] mx that by simp
  then have "recover_one e mx ?cut 0 j (s, q) = (Inr (), (s\<lparr>parse_jobs := replace_row job_id j' (parse_jobs s)\<rparr>,
       if mx \<le> job_retry_count j then q else q @ [job_id j]))"
    using nf finished_violation(2) [OF ok j(1,2)] upd
    by (simp add: recover_one_def j'_def job_publish_def no_faults_def)
  then show ?thesis
    using nf find by (simp add: worker_recoverStaleJobs_def Let_def sql_page_def reconciliationBatchSize_def)
qed

lemma alone_replace: "alone i s \<Longrightarrow> job_id j' = i \<Longrightarrow> alone i (s\<lparr>parse_jobs := replace_row job_id j' (parse_jobs s)\<rparr>)"
  by (auto simp: alone_def list_all_iff dest: in_replace_row)

lemma job_row_replace:
  assumes "j \<in> set (parse_jobs s)" "job_id j' = job_id j"
  shows "job_row (job_id j) (s\<lparr>parse_jobs := replace_row job_id j' (parse_jobs s)\<rparr>) = Some j'"
  using assms by (simp add: job_row_def table_map_replace_row)

lemma job_row_in: "job_row i s = Some j \<Longrightarrow> j \<in> set (parse_jobs s) \<and> job_id j = i"
  unfolding job_row_def by (rule table_map_Some)

lemma replace_replace_row:
  "key r = key r' \<Longrightarrow> replace_row key r' (replace_row key r rows) = replace_row key r' rows"
  by (simp add: replace_row_def comp_def)

lemma crash_cycle_pending:
  assumes nf: "no_faults e" and ok: "schema_ok s" and lt: "0 \<le> lt" and mx: "mx \<le> 2147483647"
    and row: "job_row i s = Some j" "job_status j = ''pending''" and al: "alone i s"
  shows "\<exists>s' q' j'. crash_cycle lt mx e i (s, q) = (s', q') \<and> schema_ok s' \<and> alone i s' \<and> job_row i s' = Some j'
    \<and> (if mx \<le> job_retry_count j then job_status j' = ''failed'' \<and> job_retry_count j' = job_retry_count j
       else job_status j' = ''pending'' \<and> job_retry_count j' = job_retry_count j + 1)"
proof -
  let ?e = "e\<lparr>now := now e + lt + 1\<rparr>"
  have j: "j \<in> set (parse_jobs s)" "job_id j = i" using job_row_in [OF row(1)] by simp_all
  let ?k = "job_claimed e j"
  let ?s1 = "s\<lparr>parse_jobs := replace_row job_id ?k (parse_jobs s)\<rparr>"
  have nf': "no_faults ?e" using nf by (simp add: no_faults_def)
  have ed: "job_edit s j ?k ?s1" using claimed_violation [OF ok j(1) row(2)] j(1) by (simp add: job_edit_def)
  have ok1: "schema_ok ?s1" using job_edit_schema_ok [OF ok ed] by simp
  have k: "?k \<in> set (parse_jobs ?s1)" using set_replace_row [of j "parse_jobs s" job_id ?k] j(1) by simp
  have ksel: "job_status ?k = ''processing''" "job_started_at ?k = Some (now e)" "job_retry_count ?k = job_retry_count j"
    by (simp_all add: job_claimed_def)
  have r: "0 \<le> job_retry_count j" "int4 (job_retry_count j)"
    using job_check_int4 [OF ok j(1)] by (simp_all add: parse_job_check_def)
  let ?k' = "if mx \<le> job_retry_count ?k then job_failed ?e ''parse worker recovery limit exceeded'' ?k
     else job_reset ?e (job_retry_count ?k) ?k"
  let ?s2 = "?s1\<lparr>parse_jobs := replace_row job_id ?k' (parse_jobs ?s1)\<rparr>"
  have "worker_recoverStaleJobs lt mx ?e (?s1, q) = (Inr (), (?s2, if mx \<le> job_retry_count ?k then q else q @ [job_id ?k]))"
    by (rule recover_one_job [OF nf' ok1 k ksel(1,2)])
      (use r mx ksel(3) alone_replace [OF al, of ?k] j(2) in simp_all)
  then have run: "crash_cycle lt mx e i (s, q) = (?s2, if mx \<le> job_retry_count j then q else q @ [job_id j])"
    using worker_claimJob_no_faults [OF nf ok j(1) row(2)] j(2) ksel(3) by (simp add: crash_cycle_def)
  have v: "parse_jobs_violation ?s1 (replace_row job_id ?k' (parse_jobs ?s1)) = None"
    using finished_violation(2) [OF ok1 k ksel(1)] reset_violation [OF ok1 k ksel(1), of "job_retry_count ?k"] ksel(3) r mx
    by auto
  have kid: "job_id ?k' = job_id ?k" by simp
  have "job_edit ?s1 ?k ?k' ?s2" using v k by (simp add: job_edit_def)
  from job_edit_schema_ok [OF ok1 this kid] have ok2: "schema_ok ?s2" .
  have al2: "alone i ?s2" using alone_replace [OF alone_replace [OF al, of ?k], of ?k'] j(2) kid by simp
  have row2: "job_row i ?s2 = Some ?k'" using job_row_replace [OF k kid] j(2) by simp
  have "if mx \<le> job_retry_count j then job_status ?k' = ''failed'' \<and> job_retry_count ?k' = job_retry_count j
     else job_status ?k' = ''pending'' \<and> job_retry_count ?k' = job_retry_count j + 1"
    using ksel(3) r mx by (simp add: int32_wrap_def int4_def)
  then show ?thesis using run ok2 al2 row2 by blast
qed

lemma crash_cycle_failed:
  assumes nf: "no_faults e" and ok: "schema_ok s"
    and row: "job_row i s = Some j" "job_status j = ''failed''" and al: "alone i s"
  shows "crash_cycle lt mx e i (s, q) = (s, q)"
proof -
  let ?e = "e\<lparr>now := now e + lt + 1\<rparr>"
  have nf': "no_faults ?e" using nf by (simp add: no_faults_def)
  have j: "j \<in> set (parse_jobs s)" "job_id j = i" using job_row_in [OF row(1)] by simp_all
  have other: "x = j" if "x \<in> set (parse_jobs s)" "job_id x = i" for x
    using distinct_map_unique [OF schema_ok_distinct(2) [OF ok] that(1) j(1)] that(2) j(2) by simp
  have "\<not> (job_id x = i \<and> job_status x = ''pending'')" if "x \<in> set (parse_jobs s)" for x
    using other [OF that] row(2) by auto
  then have "sql_update (parse_jobs_violation s) (\<lambda>j. job_id j = i \<and> job_status j = ''pending'')
      (job_claimed e) (parse_jobs s) = Inr (js, n) \<Longrightarrow> js = parse_jobs s" for js n
    using jt.update_cases [OF _ schema_ok_distinct(2) [OF ok], of s
        "\<lambda>j. job_id j = i \<and> job_status j = ''pending''" "job_claimed e" js n i] by auto
  then have claim: "snd (worker_claimJob e i s) = s"
    by (auto simp: worker_claimJob_def Let_def split: sum.splits db_error.splits)
  have "\<not> stale_job (now ?e - lt) x" if "x \<in> set (parse_jobs s)" for x
    using other [OF that] row(2) al that by (auto simp: stale_job_def alone_def list_all_iff)
  then have "sql_find started_order (stale_job (now ?e - lt)) (parse_jobs s) = []"
    by (simp add: sql_find_def filter_empty_conv)
  then have "worker_recoverStaleJobs lt mx ?e (s, q) = (Inr (), (s, q))"
    using nf' by (simp add: worker_recoverStaleJobs_def Let_def sql_page_def)
  then show ?thesis using claim by (simp add: crash_cycle_def)
qed


text \<open>
  C17: A job that kills every worker that touches it does not circulate for ever. Whatever
  its retry count, repeated claims and lease recoveries (nothing else being processed and
  no statement failing) put it back to pending at most up to \<open>maxRecoveries\<close>, counting
  each recovery, and the next recovery marks it failed; from then on it is not claimed
  again. The count does not wrap.
\<close>

theorem crashing_job_ends:
  assumes "no_faults e" "schema_ok s" "0 \<le> lt" "mx \<le> 2147483647"
    and "job_row i s = Some j" "job_status j = ''pending''" "alone i s"
  shows "\<exists>j'. job_row i (fst ((crash_cycle lt mx e i ^^ n) (s, q))) = Some j'
    \<and> (if n \<le> nat (mx - job_retry_count j)
       then job_status j' = ''pending'' \<and> job_retry_count j' = job_retry_count j + int n
       else job_status j' = ''failed'' \<and> job_retry_count j' = job_retry_count j + int (nat (mx - job_retry_count j)))"
proof -
  let ?m = "nat (mx - job_retry_count j)"
  let ?G = "\<lambda>n s'. schema_ok s' \<and> alone i s' \<and> (\<exists>j'. job_row i s' = Some j'
    \<and> (if n \<le> ?m then job_status j' = ''pending'' \<and> job_retry_count j' = job_retry_count j + int n
       else job_status j' = ''failed'' \<and> job_retry_count j' = job_retry_count j + int ?m))"
  have "\<exists>s' q'. (crash_cycle lt mx e i ^^ n) (s, q) = (s', q') \<and> ?G n s'"
  proof (induction n)
    case 0
    then show ?case using assms by simp
  next
    case (Suc n)
    then obtain s1 q1 j1 where s1: "(crash_cycle lt mx e i ^^ n) (s, q) = (s1, q1)" "schema_ok s1" "alone i s1"
        "job_row i s1 = Some j1"
      and j1: "if n \<le> ?m then job_status j1 = ''pending'' \<and> job_retry_count j1 = job_retry_count j + int n
         else job_status j1 = ''failed'' \<and> job_retry_count j1 = job_retry_count j + int ?m"
      by blast
    show ?case
    proof (cases "n \<le> ?m")
      case True
      then have p: "job_status j1 = ''pending''" "job_retry_count j1 = job_retry_count j + int n" using j1 by simp_all
      have le: "mx \<le> job_retry_count j1 \<longleftrightarrow> \<not> Suc n \<le> ?m" using p(2) True by auto
      have "job_retry_count j1 = job_retry_count j + int ?m" if "\<not> Suc n \<le> ?m"
      proof -
        have "n = ?m" using True that by linarith
        then show ?thesis using p(2) by simp
      qed
      with crash_cycle_pending [OF assms(1) s1(2) assms(3,4) s1(4) p(1) s1(3), of q1] s1(1) p(2) le
      show ?thesis by (cases "Suc n \<le> ?m") (auto simp del: of_nat_Suc simp add: of_nat_Suc [symmetric])
    next
      case False
      then show ?thesis
        using crash_cycle_failed [OF assms(1) s1(2,4) _ s1(3), of lt mx q1] j1 s1 by auto
    qed
  qed
  then show ?thesis by (metis fst_conv)
qed

lemma pending_alone: "alone 5 pending_db"
  by (simp add: alone_def pending_db_def pending_job_def replace_row_def sample_defs)

lemma pending_row: "job_row 5 pending_db = Some pending_job"
  by (simp add: job_row_def pending_db_def pending_job_def replace_row_def sample_defs)

theorem crashing_job_ends_witness:
  "\<exists>j'. job_row 5 (fst ((crash_cycle 10 3 sample_env 5 ^^ 4) (pending_db, []))) = Some j'
    \<and> job_status j' = ''failed''"
proof -
  have "job_retry_count pending_job = 0" by (simp add: pending_job_def sample_defs)
  with crashing_job_ends [OF no_faults_sample_env schema_ok_pending _ _ pending_row _ pending_alone,
      of 10 3 4 "[]"] show ?thesis by auto
qed

section \<open>The pause of a worker\<close>

text \<open>
  The pause after failed reads starts at one second, doubles with every failure and
  never exceeds thirty seconds, without overflowing the 64 bits of a duration.
\<close>

theorem backoff_doubles_to_cap:
  "(nextBackoff ^^ n) 1000000000 = min 30000000000 (1000000000 * 2 ^ n)"
proof (induction n)
  case (Suc n)
  have "int64_wrap (x * 2) = x * 2" if "0 \<le> x" "x \<le> 30000000000" for x
    using that by (simp add: int64_wrap_def)
  then have "nextBackoff x = min 30000000000 (x * 2)" if "0 \<le> x" "x \<le> 30000000000" for x
    using that by (simp add: nextBackoff_def Let_def)
  then have "nextBackoff (min 30000000000 (1000000000 * 2 ^ n)) = min 30000000000 (min 30000000000 (1000000000 * 2 ^ n) * 2)"
    by simp
  then show ?case using Suc by simp
qed simp

end
