(* ===== verification/AiStream.thy ===== *)
theory AiStream
  imports AiParser Tokens Paths
begin

text \<open>
  The streaming client of the AI service: \<open>responses_stream.go\<close> (server-sent events),
  \<open>chat.go\<close> (the chat) and the exchange of \<open>parser.go\<close> (\<open>parseOnce\<close>). The HTTP client
  is a parameter: what comes back is a failure, or a status and a body that ends or breaks
  off. The text of JSON values is the parameter \<open>json_text\<close>. Texts of the source that are
  not ASCII are written as their UTF-8 bytes.
\<close>

definition bytes :: "nat list \<Rightarrow> string" where
  "bytes ns = map char_of ns"

section \<open>Reading a body\<close>

text \<open>A body is its bytes and how it ends: \<open>None\<close> is EOF, \<open>Some\<close> a read error.\<close>

type_synonym body_stream = "string \<times> string option"

definition maxResponseBytes :: nat where
  "maxResponseBytes = 2097152"

definition newline :: char where
  "newline = CHR 0x0A"

definition drop_cr :: "string \<Rightarrow> string" where
  "drop_cr l = (if l \<noteq> [] \<and> last l = CHR 0x0D then butlast l else l)"

text \<open>
  \<open>bufio.Scanner\<close> with a buffer of at most \<open>limit\<close> bytes: the lines it delivers and its
  \<open>Err()\<close>. A line that does not fit ends the scan.
\<close>

fun fitting :: "nat \<Rightarrow> string list \<Rightarrow> string list \<times> bool" where
  "fitting limit [] = ([], True)"
| "fitting limit (l # ls) =
     (if limit \<le> length l then ([], False)
      else case fitting limit ls of (xs, ok) \<Rightarrow> (l # xs, ok))"

definition scan_lines :: "nat \<Rightarrow> body_stream \<Rightarrow> string list \<times> string option" where
  "scan_lines limit body =
     (let pieces = split_on newline (fst body);
          raw = (if last pieces = [] then butlast pieces else pieces) in
      case fitting limit raw of
        (ls, ok) \<Rightarrow> (map drop_cr ls, if ok then snd body else Some ''bufio.Scanner: token too long''))"

text \<open>\<open>strings.Join(dataLines, newline)\<close>.\<close>

fun join_lines :: "string list \<Rightarrow> string" where
  "join_lines [] = []"
| "join_lines [l] = l"
| "join_lines (l # ls) = l @ newline # join_lines ls"

section \<open>Events\<close>

record response_part =
  rp_status :: string
  rp_error :: "string option"
  rp_incomplete :: "string option"

record stream_event =
  se_type :: string
  se_delta :: string
  se_message :: string
  se_error :: "string option"
  se_response :: "response_part option"

text \<open>A pointer to a struct: null is nil, an object is read into what it points to.\<close>

definition unmarshal_ptr ::
  "(string \<Rightarrow> json \<Rightarrow> 'a \<Rightarrow> 'a option) \<Rightarrow> 'a \<Rightarrow> 'a option \<Rightarrow> json \<Rightarrow> 'a option option" where
  "unmarshal_ptr f zero old j =
     (case j of JNull \<Rightarrow> Some None
      | _ \<Rightarrow> map_option Some (unmarshal_struct f (case old of None \<Rightarrow> zero | Some x \<Rightarrow> x) j))"

definition text_field :: "string \<Rightarrow> string \<Rightarrow> json \<Rightarrow> string \<Rightarrow> string option" where
  "text_field name k v x = (if k = name then unmarshal_text x v else Some x)"

definition response_field :: "string \<Rightarrow> json \<Rightarrow> response_part \<Rightarrow> response_part option" where
  "response_field k v p =
     (if k = ''status'' then map_option (\<lambda>s. p\<lparr>rp_status := s\<rparr>) (unmarshal_text (rp_status p) v)
      else if k = ''error'' then
        map_option (\<lambda>m. p\<lparr>rp_error := m\<rparr>) (unmarshal_ptr (text_field ''message'') [] (rp_error p) v)
      else if k = ''incomplete_details'' then
        map_option (\<lambda>m. p\<lparr>rp_incomplete := m\<rparr>) (unmarshal_ptr (text_field ''reason'') [] (rp_incomplete p) v)
      else Some p)"

definition event_field :: "string \<Rightarrow> json \<Rightarrow> stream_event \<Rightarrow> stream_event option" where
  "event_field k v x =
     (if k = ''type'' then map_option (\<lambda>s. x\<lparr>se_type := s\<rparr>) (unmarshal_text (se_type x) v)
      else if k = ''delta'' then map_option (\<lambda>s. x\<lparr>se_delta := s\<rparr>) (unmarshal_text (se_delta x) v)
      else if k = ''message'' then map_option (\<lambda>s. x\<lparr>se_message := s\<rparr>) (unmarshal_text (se_message x) v)
      else if k = ''error'' then
        map_option (\<lambda>m. x\<lparr>se_error := m\<rparr>) (unmarshal_ptr (text_field ''message'') [] (se_error x) v)
      else if k = ''response'' then
        map_option (\<lambda>m. x\<lparr>se_response := m\<rparr>)
          (unmarshal_ptr response_field \<lparr>rp_status = [], rp_error = None, rp_incomplete = None\<rparr> (se_response x) v)
      else Some x)"

definition zero_event :: stream_event where
  "zero_event = \<lparr>se_type = [], se_delta = [], se_message = [], se_error = None, se_response = None\<rparr>"

definition decode_event :: "json_text \<Rightarrow> string \<Rightarrow> stream_event option" where
  "decode_event jt data = Option.bind (parse_json jt data) (unmarshal_struct event_field zero_event)"

definition responsesStreamFailureMessage :: "stream_event \<Rightarrow> string" where
  "responsesStreamFailureMessage event =
     (let nonempty = (\<lambda>m. case m of None \<Rightarrow> [] | Some s \<Rightarrow> trim_space s);
          a = nonempty (Option.bind (se_response event) rp_error);
          b = nonempty (Option.bind (se_response event) rp_incomplete);
          c = nonempty (se_error event);
          d = trim_space (se_message event) in
      if a \<noteq> [] then a else if b \<noteq> [] then b else if c \<noteq> [] then c else if d \<noteq> [] then d
      else ''AI streaming response failed'')"

section \<open>The stream\<close>

text \<open>
  \<open>dispatch\<close>: the delta it passed to \<open>onDelta\<close>, and an error, the finish reason of a
  completed response, or nothing. \<open>refuse k\<close> is the error \<open>onDelta\<close> answers the \<open>k\<close>-th
  delta with, if any.
\<close>

definition dispatch ::
  "json_text \<Rightarrow> (nat \<Rightarrow> ai_error option) \<Rightarrow> nat \<Rightarrow> string list \<Rightarrow> string list \<times> (ai_error + string option)" where
  "dispatch jt refuse count dataLines =
     (if dataLines = [] then ([], Inr None)
      else
        let data = join_lines dataLines in
        if trim_space data = ''[DONE]'' then ([], Inr None)
        else case decode_event jt data of
          None \<Rightarrow> ([], Inl (DetailAi InvalidResponse ''decode streaming event''))
        | Some event \<Rightarrow>
            if se_type event \<in> {''response.output_text.delta'', ''output_text.delta''} then
              (if se_delta event \<noteq> [] then
                 (case refuse count of None \<Rightarrow> ([se_delta event], Inr None) | Some err \<Rightarrow> ([], Inl err))
               else ([], Inr None))
            else if se_type event \<in> {''response.completed'', ''response.done''} then
              ([], Inr (Some (case se_response event of
                  None \<Rightarrow> ''completed''
                | Some r \<Rightarrow> if trim_space (rp_status r) \<noteq> [] then rp_status r else ''completed'')))
            else if se_type event \<in> {''response.failed'', ''response.incomplete'', ''response.error'', ''error''} then
              ([], Inl (DetailAi InvalidResponse (responsesStreamFailureMessage event)))
            else if se_type event \<in> {''response.refusal.delta'', ''response.refusal.done''} then
              (let refusal = trim_space (se_delta event) in
               ([], Inl (DetailAi InvalidResponse (if refusal = [] then ''AI response was refused'' else refusal))))
            else ([], Inr None))"

record stream_ctx =
  call_ctx :: "ai_error option"
  line_ctx :: "nat \<Rightarrow> ai_error option"
  end_ctx :: "ai_error option"

text \<open>
  The loop of \<open>consumeResponsesStream\<close> at line \<open>index\<close>: the deltas passed on and the
  result. \<open>sctx\<close> says when the context is found done, and with which error.
\<close>

definition data_line :: "string \<Rightarrow> string option" where
  "data_line l =
     (if take 5 l = ''data:'' then
        Some (let v = drop 5 l in if v \<noteq> [] \<and> hd v = CHR '' '' then tl v else v)
      else None)"

fun consume_lines ::
  "json_text \<Rightarrow> (nat \<Rightarrow> ai_error option) \<Rightarrow> stream_ctx \<Rightarrow> string option \<Rightarrow> nat \<Rightarrow> nat \<Rightarrow> string list \<Rightarrow> nat
     \<Rightarrow> string list \<Rightarrow> string list \<times> (ai_error + string)" where
  "consume_lines jt refuse sctx scan_err index read_bytes dataLines count [] =
     (case scan_err of
        Some m \<Rightarrow> ([], Inl (case end_ctx sctx of Some err \<Rightarrow> err
                               | None \<Rightarrow> WrapAi ''read AI response stream'' (OtherError m)))
      | None \<Rightarrow>
          (case dispatch jt refuse count dataLines of
             (ds, Inl err) \<Rightarrow> (ds, Inl err)
           | (ds, Inr (Some finish)) \<Rightarrow> (ds, Inr finish)
           | (ds, Inr None) \<Rightarrow>
               (ds, Inl (DetailAi InvalidResponse ''streaming response ended before completion''))))"
| "consume_lines jt refuse sctx scan_err index read_bytes dataLines count (line # ls) =
     (case line_ctx sctx index of
        Some err \<Rightarrow> ([], Inl err)
      | None \<Rightarrow>
          let read_bytes' = read_bytes + length line + 1 in
          if read_bytes' > maxResponseBytes
            then ([], Inl (DetailAi InvalidResponse ''streaming response exceeds size limit''))
          else if line = [] then
            (case dispatch jt refuse count dataLines of
               (ds, Inl err) \<Rightarrow> (ds, Inl err)
             | (ds, Inr (Some finish)) \<Rightarrow> (ds, Inr finish)
             | (ds, Inr None) \<Rightarrow>
                 map_prod ((@) ds) id
                   (consume_lines jt refuse sctx scan_err (Suc index) read_bytes' [] (count + length ds) ls))
          else
            (case data_line line of
               None \<Rightarrow> consume_lines jt refuse sctx scan_err (Suc index) read_bytes' dataLines count ls
             | Some v \<Rightarrow> consume_lines jt refuse sctx scan_err (Suc index) read_bytes' (dataLines @ [v]) count ls))"

definition consumeResponsesStream ::
  "json_text \<Rightarrow> (nat \<Rightarrow> ai_error option) \<Rightarrow> stream_ctx \<Rightarrow> body_stream \<Rightarrow> string list \<times> (ai_error + string)" where
  "consumeResponsesStream jt refuse sctx body =
     (case scan_lines (maxResponseBytes + 65536) body of
        (ls, scan_err) \<Rightarrow> consume_lines jt refuse sctx scan_err 0 0 [] 0 ls)"

section \<open>Errors of the service\<close>

definition ai_truncateRunes :: "string \<Rightarrow> nat \<Rightarrow> string" where
  "ai_truncateRunes value limit =
     (if rune_count value \<le> limit then value else take_runes limit value @ ''...'')"

text \<open>\<open>readAPIErrorMessage\<close> reads at most 4096 bytes; a read error loses the message.\<close>

definition envelope_field :: "string \<Rightarrow> json \<Rightarrow> string \<times> string \<Rightarrow> (string \<times> string) option" where
  "envelope_field k v x =
     (if k = ''message'' then map_option (\<lambda>s. (s, snd x)) (unmarshal_text (fst x) v)
      else if k = ''error'' then
        map_option (\<lambda>s. (fst x, s)) (unmarshal_struct (text_field ''message'') (snd x) v)
      else Some x)"

definition readAPIErrorMessage :: "json_text \<Rightarrow> body_stream \<Rightarrow> string" where
  "readAPIErrorMessage jt body =
     (let raw = take 4096 (fst body) in
      if snd body \<noteq> None \<and> length (fst body) < 4096 \<or> raw = [] then []
      else
        (let fallback = ai_truncateRunes (trim_space raw) 300 in
         case Option.bind (parse_json jt raw) (unmarshal_struct envelope_field ([], [])) of
           None \<Rightarrow> fallback
         | Some (msg, error_message) \<Rightarrow>
             if trim_space error_message \<noteq> [] then ai_truncateRunes (trim_space error_message) 300
             else if trim_space msg \<noteq> [] then ai_truncateRunes (trim_space msg) 300
             else fallback))"

text \<open>What \<open>http.Client.Do\<close> comes back with.\<close>

datatype http_outcome =
    CallFailed string
  | Answered int body_stream

section \<open>The parser's exchange\<close>

record ai_client =
  ac_base_url :: string
  ac_api_key :: string
  ac_model :: string
  ac_request_timeout :: int
  ac_max_output_tokens :: int

text \<open>\<open>NewResponsesParser\<close> and \<open>NewResponsesChatClient\<close>; \<open>url.ParseRequestURI\<close> is a parameter.\<close>

definition NewResponsesParser ::
  "(string \<Rightarrow> bool) \<Rightarrow> string \<Rightarrow> string \<Rightarrow> string \<Rightarrow> int \<Rightarrow> int \<Rightarrow> string + ai_client" where
  "NewResponsesParser valid_uri baseURL apiKey model requestTimeout maxOutputTokens =
     (let base = strip_slashes (trim_space baseURL) in
      if \<not> valid_uri base then Inl ''invalid AI base URL''
      else if trim_space apiKey = [] then Inl ''AI API key is required''
      else if trim_space model = [] then Inl ''AI model is required''
      else if requestTimeout \<le> 0 then Inl ''AI request timeout must be positive''
      else if maxOutputTokens \<le> 0 then Inl ''AI max output tokens must be positive''
      else Inr \<lparr>ac_base_url = base, ac_api_key = apiKey, ac_model = trim_space model,
                ac_request_timeout = requestTimeout, ac_max_output_tokens = maxOutputTokens\<rparr>)"

definition NewResponsesChatClient ::
  "(string \<Rightarrow> bool) \<Rightarrow> string \<Rightarrow> string \<Rightarrow> string \<Rightarrow> int \<Rightarrow> int \<Rightarrow> string + ai_client" where
  "NewResponsesChatClient valid_uri baseURL apiKey model requestTimeout maxOutputTokens =
     (let base = strip_slashes (trim_space baseURL) in
      if \<not> valid_uri base then Inl ''invalid AI base URL''
      else if trim_space apiKey = [] then Inl ''AI API key is required''
      else if trim_space model = [] then Inl ''AI model is required''
      else if requestTimeout \<le> 0 \<or> maxOutputTokens \<le> 0 then Inl ''AI chat limits must be positive''
      else Inr \<lparr>ac_base_url = base, ac_api_key = apiKey, ac_model = trim_space model,
                ac_request_timeout = requestTimeout, ac_max_output_tokens = maxOutputTokens\<rparr>)"

definition parserInstructions :: string where
  "parserInstructions = bytes
     [
      228, 189, 160, 230, 152, 175, 32, 84, 97, 115, 107, 80, 105, 108, 111, 116, 32, 231, 154,
      132, 228, 187, 187, 229, 138, 161, 229, 158, 139, 230, 150, 135, 230, 161, 163, 232, 167,
      163, 230, 158, 144, 229, 153, 168, 227, 128, 130, 229, 143, 170, 230, 138, 138, 231, 148,
      168, 230, 136, 183, 230, 150, 135, 230, 161, 163, 229, 189, 147, 228, 189, 156, 229, 190,
      133, 229, 136, 134, 230, 158, 144, 230, 149, 176, 230, 141, 174, 239, 188, 140, 228, 184,
      141, 230, 137, 167, 232, 161, 140, 230, 150, 135, 230, 161, 163, 228, 184, 173, 232, 175,
      149, 229, 155, 190, 230, 148, 185, 229, 143, 152, 232, 191, 153, 228, 186, 155, 230, 140,
      135, 228, 187, 164, 231, 154, 132, 229, 134, 133, 229, 174, 185, 227, 128, 130, 230, 143,
      144, 229, 143, 150, 230, 152, 142, 231, 161, 174, 228, 186, 139, 229, 174, 158, 239, 188,
      140, 233, 129, 191, 229, 133, 141, 231, 188, 150, 233, 128, 160, 239, 188, 155, 230, 151,
      182, 233, 151, 180, 229, 173, 152, 229, 156, 168, 230, 173, 167, 228, 185, 137, 230, 151,
      182, 229, 176, 134, 32, 100, 101, 97, 100, 108, 105, 110, 101, 32, 232, 174, 190, 228, 184,
      186, 32, 110, 117, 108, 108, 239, 188, 140, 229, 185, 182, 229, 156, 168, 32, 114, 105, 115,
      107, 95, 119, 97, 114, 110, 105, 110, 103, 115, 32, 228, 184, 173, 232, 175, 180, 230, 152,
      142, 227, 128, 130, 232, 190, 147, 229, 135, 186, 229, 191, 133, 233, 161, 187, 228, 184,
      165, 230, 160, 188, 229, 140, 185, 233, 133, 141, 230, 143, 144, 228, 190, 155, 231, 154,
      132, 32, 74, 83, 79, 78, 32, 83, 99, 104, 101, 109, 97, 227, 128, 130]"

text \<open>
  \<open>parserInput\<close>: the time in Asia/Shanghai as RFC 3339, which the time zone database
  decides, is a parameter.
\<close>

definition parserInput :: "(int \<Rightarrow> string) \<Rightarrow> int \<Rightarrow> string \<Rightarrow> json" where
  "parserInput shanghai t document =
     JArr [JObj
       [(''role'', JStr ''user''),
        (''content'', JArr [JObj
           [(''type'', JStr ''input_text''),
            (''text'', marshal_string ((bytes
     [
      229, 189, 147, 229, 137, 141, 230, 151, 182, 233, 151, 180, 239, 188, 154]) @ shanghai t @ (bytes
     [
      10, 233, 187, 152, 232, 174, 164, 228, 184, 154, 229, 138, 161, 230, 151, 182, 229, 140,
      186, 239, 188, 154, 65, 115, 105, 97, 47, 83, 104, 97, 110, 103, 104, 97, 105, 227, 128,
      130, 229, 143, 170, 230, 156, 137, 230, 151, 165, 230, 156, 159, 230, 178, 161, 230, 156,
      137, 230, 151, 182, 233, 151, 180, 230, 151, 182, 228, 189, 191, 231, 148, 168, 229, 189,
      147, 229, 164, 169, 32, 50, 51, 58, 53, 57, 58, 53, 57, 227, 128, 130, 228, 187, 165, 228,
      184, 139, 230, 152, 175, 229, 190, 133, 232, 167, 163, 230, 158, 144, 230, 150, 135, 230,
      161, 163, 239, 188, 154, 10, 60, 100, 111, 99, 117, 109, 101, 110, 116, 62, 10]) @ document @ (newline # ''</document>'')))]])]]"

text \<open>\<open>parseResultSchema\<close>, its maps in the order \<open>json.Marshal\<close> prints them.\<close>

definition string_array_schema :: "nat \<Rightarrow> json" where
  "string_array_schema maxItems =
     JObj [(''items'', JObj [(''maxLength'', JNum ''1000''), (''minLength'', JNum ''1''), (''type'', JStr ''string'')]),
           (''maxItems'', JNum (dec maxItems)), (''type'', JStr ''array'')]"

definition nullable_schema :: "json \<Rightarrow> json" where
  "nullable_schema s = JObj [(''anyOf'', JArr [s, JObj [(''type'', JStr ''null'')]])]"

definition text_schema :: "nat \<Rightarrow> json" where
  "text_schema n = JObj [(''maxLength'', JNum (dec n)), (''minLength'', JNum ''1''), (''type'', JStr ''string'')]"

definition parseResultSchema :: json where
  "parseResultSchema =
     (let deadline = nullable_schema (JObj [(''format'', JStr ''date-time''), (''type'', JStr ''string'')]);
          names = (\<lambda>ns. JArr (map JStr ns)) in
      JObj
       [(''additionalProperties'', JBool False),
        (''properties'', JObj
          [(''deadline'', deadline),
           (''deliverables'', string_array_schema 50),
           (''generated_tasks'', JObj
             [(''items'', JObj
                [(''additionalProperties'', JBool False),
                 (''properties'', JObj
                   [(''deadline'', deadline),
                    (''description'', nullable_schema (text_schema 2000)),
                    (''priority'', JObj [(''enum'', names [''low'', ''medium'', ''high'']), (''type'', JStr ''string'')]),
                    (''title'', text_schema 255)]),
                 (''required'', names [''title'', ''description'', ''priority'', ''deadline'']),
                 (''type'', JStr ''object'')]),
              (''maxItems'', JNum ''100''),
              (''type'', JStr ''array'')]),
           (''key_requirements'', string_array_schema 100),
           (''risk_warnings'', string_array_schema 50),
           (''summary'', text_schema 5000),
           (''title'', text_schema 255)]),
        (''required'', names [''title'', ''summary'', ''deadline'', ''deliverables'', ''key_requirements'',
            ''risk_warnings'', ''generated_tasks'']),
        (''type'', JStr ''object'')])"

definition parse_request :: "(int \<Rightarrow> string) \<Rightarrow> ai_client \<Rightarrow> int \<Rightarrow> string \<Rightarrow> json" where
  "parse_request shanghai p t document =
     JObj
      [(''model'', marshal_string (ac_model p)), (''instructions'', JStr parserInstructions),
       (''input'', parserInput shanghai t document),
       (''max_output_tokens'', JNum (dec_int (ac_max_output_tokens p))), (''stream'', JBool True),
       (''text'', JObj [(''format'', JObj
          [(''type'', JStr ''json_schema''), (''name'', JStr ''taskpilot_parse_result''),
           (''strict'', JBool True), (''schema'', parseResultSchema)])])]"

text \<open>
  The structured output: one JSON object with no unknown fields and nothing after it.
  \<open>decode_one\<close> splits the text into its first JSON value and the rest.
\<close>

definition parsed_field :: "time_codec \<Rightarrow> string \<Rightarrow> json \<Rightarrow> parsed_document \<Rightarrow> parsed_document option" where
  "parsed_field c k v p =
     (if k = ''title'' then map_option (\<lambda>s. p\<lparr>pd_title := s\<rparr>) (unmarshal_text (pd_title p) v)
      else if k = ''summary'' then map_option (\<lambda>s. p\<lparr>pd_summary := s\<rparr>) (unmarshal_text (pd_summary p) v)
      else if k = ''deadline'' then map_option (\<lambda>d. p\<lparr>pd_deadline := d\<rparr>) (unmarshal_time_ptr c v)
      else if k = ''deliverables'' then map_option (\<lambda>x. p\<lparr>pd_deliverables := x\<rparr>) (unmarshal_strings v)
      else if k = ''key_requirements'' then map_option (\<lambda>x. p\<lparr>pd_key_requirements := x\<rparr>) (unmarshal_strings v)
      else if k = ''risk_warnings'' then map_option (\<lambda>x. p\<lparr>pd_risk_warnings := x\<rparr>) (unmarshal_strings v)
      else if k = ''generated_tasks'' then map_option (\<lambda>x. p\<lparr>pd_generated_tasks := x\<rparr>) (unmarshal_tasks c True v)
      else None)"

definition zero_parsed :: parsed_document where
  "zero_parsed = \<lparr>pd_title = [], pd_summary = [], pd_deadline = None, pd_deliverables = None,
     pd_key_requirements = None, pd_risk_warnings = None, pd_generated_tasks = None, pd_model = []\<rparr>"

definition json_space :: "char \<Rightarrow> bool" where
  "json_space ch \<longleftrightarrow> ch \<in> {CHR 0x20, CHR 0x09, CHR 0x0A, CHR 0x0D}"

definition decode_parsed ::
  "time_codec \<Rightarrow> (string \<Rightarrow> (json \<times> string) option) \<Rightarrow> string \<Rightarrow> ai_error + parsed_document" where
  "decode_parsed c decode_one output =
     (case decode_one output of
        None \<Rightarrow> Inl (DetailAi InvalidResponse ''decode structured output'')
      | Some (j, rest) \<Rightarrow>
          (case unmarshal_struct (parsed_field c) zero_parsed j of
             None \<Rightarrow> Inl (DetailAi InvalidResponse ''decode structured output'')
           | Some parsed \<Rightarrow>
               if \<not> list_all json_space rest
                 then Inl (DetailAi InvalidResponse ''structured output contains trailing data'')
               else case normalizeAndValidate parsed of
                 Inl m \<Rightarrow> Inl (DetailAi InvalidResponse m)
               | Inr normalized \<Rightarrow> Inr normalized))"

text \<open>\<open>parseOnce\<close>: an error and whether it is worth a retry, or the document.\<close>

definition parseOnce ::
  "time_codec \<Rightarrow> json_text \<Rightarrow> (string \<Rightarrow> (json \<times> string) option) \<Rightarrow> (int \<Rightarrow> string)
     \<Rightarrow> (string \<Rightarrow> http_outcome) \<Rightarrow> stream_ctx \<Rightarrow> ai_client \<Rightarrow> int \<Rightarrow> string
     \<Rightarrow> (bool \<times> ai_error) + parsed_document" where
  "parseOnce c jt decode_one shanghai send sctx p t document =
     (case send (print_json jt (parse_request shanghai p t document)) of
        CallFailed m \<Rightarrow>
          (case call_ctx sctx of Some err \<Rightarrow> Inl (False, err)
           | None \<Rightarrow> Inl (True, WrapAi ''call AI responses API'' (OtherError m)))
      | Answered status body \<Rightarrow>
          if status < 200 \<or> 300 \<le> status then
            Inl (status = 429 \<or> 500 \<le> status, ResponseError status (readAPIErrorMessage jt body))
          else
            (case consumeResponsesStream jt (\<lambda>_. None) sctx body of
               (_, Inl err) \<Rightarrow> Inl (True, WrapAi ''read AI parse stream'' err)
             | (deltas, Inr _) \<Rightarrow>
                 let output = concat deltas in
                 if output = [] then Inl (True, DetailAi InvalidResponse ''output text is empty'')
                 else case decode_parsed c decode_one output of
                   Inl err \<Rightarrow> Inl (True, err)
                 | Inr parsed \<Rightarrow> Inr (parsed\<lparr>pd_model := ac_model p\<rparr>)))"

section \<open>The chat's exchange\<close>

record chat_message =
  cm_role :: string
  cm_content :: string

record chat_request =
  cr_instructions :: string
  cr_messages :: "chat_message list"

definition chat_payload :: "ai_client \<Rightarrow> chat_request \<Rightarrow> json" where
  "chat_payload p r =
     JObj
      [(''model'', marshal_string (ac_model p)), (''instructions'', marshal_string (cr_instructions r)),
       (''input'', JArr (map (\<lambda>m. JObj [(''role'', marshal_string (cm_role m)),
                                         (''content'', marshal_string (cm_content m))]) (cr_messages r))),
       (''max_output_tokens'', JNum (dec_int (ac_max_output_tokens p))), (''stream'', JBool True)]"

definition chat_Stream ::
  "json_text \<Rightarrow> (string \<Rightarrow> http_outcome) \<Rightarrow> (nat \<Rightarrow> ai_error option) \<Rightarrow> stream_ctx \<Rightarrow> ai_client \<Rightarrow> chat_request
     \<Rightarrow> string list \<times> (ai_error + string)" where
  "chat_Stream jt send refuse sctx p r =
     (case send (print_json jt (chat_payload p r)) of
        CallFailed m \<Rightarrow>
          ([], Inl (case call_ctx sctx of Some err \<Rightarrow> err
                    | None \<Rightarrow> WrapAi ''call AI chat API'' (OtherError m)))
      | Answered status body \<Rightarrow>
          if status < 200 \<or> 300 \<le> status then ([], Inl (ResponseError status (readAPIErrorMessage jt body)))
          else consumeResponsesStream jt refuse sctx body)"

text \<open>The messages say that the assistant timed out, answered with something invalid, is
  unavailable, refused the request, or failed.\<close>

definition PublicChatErrorMessage :: "ai_error \<Rightarrow> string" where
  "PublicChatErrorMessage err =
     (case ai_root err of
        DeadlineExceeded \<Rightarrow> bytes
     [
      65, 73, 32, 229, 138, 169, 230, 137, 139, 229, 147, 141, 229, 186, 148, 232, 182, 133, 230,
      151, 182]
      | InvalidResponse \<Rightarrow> bytes
     [
      65, 73, 32, 229, 138, 169, 230, 137, 139, 232, 191, 148, 229, 155, 158, 228, 186, 134, 230,
      151, 160, 230, 149, 136, 229, 147, 141, 229, 186, 148]
      | ResponseError code _ \<Rightarrow>
          if code = 429 \<or> 500 \<le> code then bytes
     [
      65, 73, 32, 229, 138, 169, 230, 137, 139, 230, 154, 130, 230, 151, 182, 228, 184, 141, 229,
      143, 175, 231, 148, 168]
          else bytes
     [
      65, 73, 32, 229, 138, 169, 230, 137, 139, 230, 139, 146, 231, 187, 157, 228, 186, 134, 230,
      156, 172, 230, 172, 161, 232, 175, 183, 230, 177, 130]
      | _ \<Rightarrow> bytes
     [
      65, 73, 32, 229, 138, 169, 230, 137, 139, 232, 175, 183, 230, 177, 130, 229, 164, 177, 232,
      180, 165])"

section \<open>What a well-behaved service sends is read back\<close>

text \<open>The server-sent events of a response: one event per delta, and the completion.\<close>

definition sse_lines :: "json_text \<Rightarrow> (string \<times> json) list \<Rightarrow> string list" where
  "sse_lines jt kvs = [''data: '' @ print_json jt (JObj kvs), []]"

definition delta_event :: "string \<Rightarrow> (string \<times> json) list" where
  "delta_event d = [(''type'', JStr ''response.output_text.delta''), (''delta'', JStr d)]"

definition completed_event :: "(string \<times> json) list" where
  "completed_event = [(''type'', JStr ''response.completed'')]"

definition response_lines :: "json_text \<Rightarrow> string list \<Rightarrow> string list" where
  "response_lines jt ds = concat (map (\<lambda>d. sse_lines jt (delta_event d)) ds) @ sse_lines jt completed_event"

definition response_body :: "json_text \<Rightarrow> string list \<Rightarrow> string" where
  "response_body jt ds = concat (map (\<lambda>l. l @ [newline]) (response_lines jt ds))"

text \<open>The printer writes an object on one line.\<close>

definition one_line :: "json_text \<Rightarrow> bool" where
  "one_line jt \<longleftrightarrow> (\<forall>kvs. newline \<notin> set (print_json jt (JObj kvs)) \<and> CHR 0x0D \<notin> set (print_json jt (JObj kvs)))"

lemma split_on_lines:
  "list_all (\<lambda>l. newline \<notin> set l) ls \<Longrightarrow>
   split_on newline (concat (map (\<lambda>l. l @ [newline]) ls)) = ls @ [[]]"
  by (induction ls) (simp_all add: split_on_append)

lemma fitting_all: "list_all (\<lambda>l. length l < n) ls \<Longrightarrow> fitting n ls = (ls, True)"
  by (induction ls) auto

lemma drop_cr_id: "CHR 0x0D \<notin> set l \<Longrightarrow> drop_cr l = l"
  by (auto simp: drop_cr_def dest: last_in_set)

lemma length_concat_lines:
  "l \<in> set ls \<Longrightarrow> length l < length (concat (map (\<lambda>l. l @ [newline]) ls))"
  by (induction ls) auto

lemma map_drop_cr: "list_all (\<lambda>l. CHR 0x0D \<notin> set l) ls \<Longrightarrow> map drop_cr ls = ls"
  by (induction ls) (simp_all add: drop_cr_id)

lemma scan_whole_lines:
  assumes "list_all (\<lambda>l. newline \<notin> set l \<and> CHR 0x0D \<notin> set l) ls"
    and "length (concat (map (\<lambda>l. l @ [newline]) ls)) \<le> n"
  shows "scan_lines n (concat (map (\<lambda>l. l @ [newline]) ls), e) = (ls, e)"
proof -
  have "list_all (\<lambda>l. length l < n) ls"
    using length_concat_lines [of _ ls] assms(2) by (force simp: list_all_iff)
  moreover have "split_on newline (concat (map (\<lambda>l. l @ [newline]) ls)) = ls @ [[]]"
    using assms(1) by (intro split_on_lines) (simp add: list_all_iff)
  moreover have "map drop_cr ls = ls" using assms(1) by (intro map_drop_cr) (simp add: list_all_iff)
  ultimately show ?thesis by (simp add: scan_lines_def fitting_all)
qed

lemma response_lines_plain:
  "one_line jt \<Longrightarrow> list_all (\<lambda>l. newline \<notin> set l \<and> CHR 0x0D \<notin> set l) (response_lines jt ds)"
  by (auto simp: response_lines_def sse_lines_def one_line_def list_all_iff newline_def)

lemma stream_keys [simp]: "fold_key ''type'' = ''type''" "fold_key ''delta'' = ''delta''"
  by (simp_all add: fold_key_ascii lower_char_def byte_in_def)

lemma decode_delta_event:
  assumes "json_text_ok jt" "valid_utf8 d"
  shows "decode_event jt (print_json jt (JObj (delta_event d)))
    = Some (zero_event\<lparr>se_type := ''response.output_text.delta'', se_delta := d\<rparr>)"
proof -
  have "valid_utf8 ''response.output_text.delta''" "valid_utf8 ''type''" "valid_utf8 ''delta''"
    by (simp_all add: valid_utf8_ascii)
  then have "parse_json jt (print_json jt (JObj (delta_event d))) = Some (JObj (delta_event d))"
    using assms by (intro json_text_flat) (simp_all add: delta_event_def flat_value_def)
  then show ?thesis
    by (simp add: decode_event_def delta_event_def unmarshal_struct_def event_field_def unmarshal_text_def)
qed

lemma decode_completed_event:
  assumes "json_text_ok jt"
  shows "decode_event jt (print_json jt (JObj completed_event)) = Some (zero_event\<lparr>se_type := ''response.completed''\<rparr>)"
proof -
  have "valid_utf8 ''response.completed''" "valid_utf8 ''type''" by (simp_all add: valid_utf8_ascii)
  then have "parse_json jt (print_json jt (JObj completed_event)) = Some (JObj completed_event)"
    using assms by (intro json_text_flat) (simp_all add: completed_event_def flat_value_def)
  then show ?thesis
    by (simp add: decode_event_def completed_event_def unmarshal_struct_def event_field_def unmarshal_text_def)
qed

text \<open>No printed object is the end marker of the stream.\<close>

definition no_marker :: "json_text \<Rightarrow> bool" where
  "no_marker jt \<longleftrightarrow> (\<forall>kvs. trim_space (print_json jt (JObj kvs)) \<noteq> ''[DONE]'')"

definition lines_size :: "string list \<Rightarrow> nat" where
  "lines_size ls = length (concat (map (\<lambda>l. l @ [newline]) ls))"

lemma lines_size_simps [simp]: "lines_size [] = 0" "lines_size (l # ls) = Suc (length l) + lines_size ls"
  by (simp_all add: lines_size_def)

lemma consume_event:
  assumes "\<And>i. line_ctx sctx i = None" "n + lines_size (sse_lines jt kvs @ ls) \<le> maxResponseBytes"
  shows "consume_lines jt rf sctx se i n [] k (sse_lines jt kvs @ ls) =
    (case dispatch jt rf k [print_json jt (JObj kvs)] of
       (ds, Inl err) \<Rightarrow> (ds, Inl err)
     | (ds, Inr (Some finish)) \<Rightarrow> (ds, Inr finish)
     | (ds, Inr None) \<Rightarrow> map_prod ((@) ds) id
         (consume_lines jt rf sctx se (i + 2) (n + lines_size (sse_lines jt kvs)) [] (k + length ds) ls))"
  using assms by (auto simp: sse_lines_def data_line_def Let_def split: prod.splits sum.splits option.splits)

lemma dispatch_delta:
  assumes "json_text_ok jt" "no_marker jt" "valid_utf8 d" "d \<noteq> []"
  shows "dispatch jt (\<lambda>_. None) k [print_json jt (JObj (delta_event d))] = ([d], Inr None)"
  using assms decode_delta_event [of jt d] by (simp add: dispatch_def no_marker_def)

lemma dispatch_completed:
  assumes "json_text_ok jt" "no_marker jt"
  shows "dispatch jt rf k [print_json jt (JObj completed_event)] = ([], Inr (Some ''completed''))"
  using assms decode_completed_event [of jt] by (simp add: dispatch_def no_marker_def zero_event_def)

lemma consume_response:
  assumes jt: "json_text_ok jt" "no_marker jt" and sctx: "\<And>i. line_ctx sctx i = None"
    and ds: "list_all (\<lambda>d. valid_utf8 d \<and> d \<noteq> []) ds"
    and size: "n + lines_size (response_lines jt ds) \<le> maxResponseBytes"
  shows "consume_lines jt (\<lambda>_. None) sctx se i n [] k (response_lines jt ds) = (ds, Inr ''completed'')"
  using ds size
proof (induction ds arbitrary: i n k)
  case Nil
  then show ?case
    using consume_event [OF sctx, of n jt completed_event "[]" "\<lambda>_. None" se i k] dispatch_completed [OF jt]
    by (simp add: response_lines_def)
next
  case (Cons d ds)
  have eq: "response_lines jt (d # ds) = sse_lines jt (delta_event d) @ response_lines jt ds"
    by (simp add: response_lines_def)
  have "lines_size (response_lines jt (d # ds)) = lines_size (sse_lines jt (delta_event d)) + lines_size (response_lines jt ds)"
    unfolding eq by (simp add: lines_size_def)
  then have rest: "n + lines_size (sse_lines jt (delta_event d)) + lines_size (response_lines jt ds) \<le> maxResponseBytes"
    using Cons.prems(2) by simp
  show ?case
    using consume_event [OF sctx, of n jt "delta_event d" "response_lines jt ds" "\<lambda>_. None" se i k]
      dispatch_delta [OF jt, of d k] Cons.IH [OF _ rest, of "i + 2" "k + 1"] Cons.prems
    by (simp add: eq)
qed

text \<open>
  C39: What a well-behaved AI service streams is read back exactly. For every list of
  nonempty pieces of text whose events fit in two megabytes, the reader of server-sent
  events hands out those pieces in order, no more and no less, and finishes with
  \<open>completed\<close>, even if the connection breaks right after the completion event.
\<close>

theorem response_stream_roundtrip:
  assumes "json_text_ok jt" "one_line jt" "no_marker jt" "\<And>i. line_ctx sctx i = None"
    and "list_all (\<lambda>d. valid_utf8 d \<and> d \<noteq> []) ds" "length (response_body jt ds) \<le> maxResponseBytes"
  shows "consumeResponsesStream jt (\<lambda>_. None) sctx (response_body jt ds, e) = (ds, Inr ''completed'')"
proof -
  have "scan_lines (maxResponseBytes + 65536) (response_body jt ds, e) = (response_lines jt ds, e)"
    unfolding response_body_def
    by (rule scan_whole_lines [OF response_lines_plain [OF assms(2)]])
      (use assms(6) in \<open>simp add: response_body_def\<close>)
  then show ?thesis
    using consume_response [OF assms(1,3-5), of 0 e 0 0] assms(6)
    by (simp add: consumeResponsesStream_def lines_size_def response_body_def)
qed

lemma set_trim_space: "set (trim_space s) \<subseteq> set s"
proof -
  obtain ps qs where "segments s = ps @ strip (\<lambda>x. is_space (fst x)) (segments s) @ qs"
    using strip_infix by blast
  then have "s = concat (map snd ps) @ trim_space s @ concat (map snd qs)"
    unfolding trim_space_def by (metis concat_segments concat_append map_append)
  then show ?thesis by (metis Un_iff set_append subsetI)
qed

lemma sample_print_plain:
  "set (print_json sample_json_text (JObj kvs)) \<subseteq> {c. of_char c \<in> ({45, 46, 95} \<union> {48..57} \<union> {65..90} \<union> {97..122} :: nat set)}"
  (is "_ \<subseteq> ?S")
proof -
  have b: "b64_char n \<in> ?S" if "n < 64" for n
    using that by (auto simp: b64_char_def)
  have e: "set (b64_encode s) \<subseteq> ?S" for s
    using b64_sextets_bound [OF bytes_bound, of s] b by (auto simp: b64_encode_def list_all_iff)
  have "set (sample_pair kv) \<subseteq> ?S" for kv
    using e [of "fst kv"] e [of "case snd kv of JStr s \<Rightarrow> s | JNum s \<Rightarrow> s | _ \<Rightarrow> []"]
    by (cases "snd kv") (simp_all add: sample_pair_def)
  then show ?thesis by (auto simp: sample_json_text_def sample_print_def)
qed

lemma sample_text_plain: "one_line sample_json_text" "no_marker sample_json_text"
proof -
  have out: "CHR 0x0A \<notin> set (print_json sample_json_text (JObj kvs))"
    "CHR 0x0D \<notin> set (print_json sample_json_text (JObj kvs))"
    "CHR ''['' \<notin> set (print_json sample_json_text (JObj kvs))" for kvs
    using sample_print_plain [of kvs] by auto
  then show "one_line sample_json_text" by (simp add: one_line_def newline_def)
  have "CHR ''['' \<notin> set (trim_space (print_json sample_json_text (JObj kvs)))" for kvs
    using out(3) set_trim_space by blast
  moreover have "CHR ''['' \<in> set ''[DONE]''" by simp
  ultimately show "no_marker sample_json_text" unfolding no_marker_def by metis
qed

definition open_ctx :: stream_ctx where
  "open_ctx = \<lparr>call_ctx = None, line_ctx = (\<lambda>_. None), end_ctx = None\<rparr>"

theorem response_stream_roundtrip_witness:
  "consumeResponsesStream sample_json_text (\<lambda>_. None) open_ctx (response_body sample_json_text [''a'', ''b''], Some ''reset'')
    = ([''a'', ''b''], Inr ''completed'')"
proof (rule response_stream_roundtrip [OF json_text_ok_sample sample_text_plain])
  show "list_all (\<lambda>d. valid_utf8 d \<and> d \<noteq> []) [''a'', ''b'']" by (simp add: valid_utf8_ascii)
  show "length (response_body sample_json_text [''a'', ''b'']) \<le> maxResponseBytes"
    by (simp add: response_body_def response_lines_def sse_lines_def delta_event_def completed_event_def
        sample_json_text_def sample_print_def sample_pair_def b64_encode_def maxResponseBytes_def)
qed (simp add: open_ctx_def)

end
