(* ===== verification/AiChat.thy ===== *)
theory AiChat
  imports AiStream RateLimits Store Schema "HOL-Library.List_Lexorder" "HOL-Library.Char_ord"
begin

text \<open>
  The AI chat about a parse result: \<open>logic/aichat/service.go\<close> and the events
  \<open>handler/aichat/chat.go\<close> writes. A request is validated, its messages trimmed to the
  history limit, the material looked up, the guard taken; then two goroutines run, the
  client's reader of the AI stream and the loop that forwards events, connected by
  channels. Their interleavings are the step relation \<open>chat_step\<close>.
\<close>

record ai_chat_message =
  acm_role :: string
  acm_content :: string

record ai_chat_request =
  acr_parse_result_id :: int
  acr_messages :: "ai_chat_message list"

definition maxQuestionChars :: nat where "maxQuestionChars = 2000"

definition maxHistoryChars :: nat where "maxHistoryChars = 12000"

definition maxSourceChars :: nat where "maxSourceChars = 20000"

text \<open>\<open>chatLockTTL\<close>, 100 seconds in nanoseconds.\<close>

definition chatLockTTL :: int where "chatLockTTL = 100000000000"

section \<open>Messages\<close>

text \<open>The first loop of \<open>normalizeMessages\<close>, from position \<open>index\<close> on; \<open>n\<close> is \<open>len(input)\<close>.\<close>

fun normalize_loop :: "nat \<Rightarrow> nat \<Rightarrow> ai_chat_message list \<Rightarrow> error + chat_message list" where
  "normalize_loop n index [] = Inr []"
| "normalize_loop n index (m # ms) =
     (let content = trim_space (acm_content m) in
      if content = [] \<or> acm_role m \<noteq> ''user'' \<and> acm_role m \<noteq> ''assistant'' then Inl ErrInvalidInput
      else if acm_role m \<noteq> (if index mod 2 = 1 then ''assistant'' else ''user'') then Inl ErrInvalidInput
      else if index = n - 1 \<and> rune_count content > maxQuestionChars then Inl ErrInvalidInput
      else case normalize_loop n (Suc index) ms of
          Inl err \<Rightarrow> Inl err
        | Inr rest \<Rightarrow> Inr (\<lparr>cm_role = acm_role m, cm_content = content\<rparr> # rest))"

definition total_chars :: "chat_message list \<Rightarrow> nat" where
  "total_chars ms = sum_list (map (\<lambda>m. rune_count (cm_content m)) ms)"

text \<open>The second loop: \<open>totalChars\<close> counts the characters of the messages that are left.\<close>

function trim_history :: "chat_message list \<Rightarrow> chat_message list" where
  "trim_history ms =
     (if total_chars ms > maxHistoryChars \<and> length ms > 1
      then trim_history (drop (if length ms = 2 then 1 else 2) ms) else ms)"
  by pat_completeness auto

termination by (relation "measure length") auto

declare trim_history.simps [simp del]

definition normalizeMessages :: "ai_chat_message list \<Rightarrow> error + chat_message list" where
  "normalizeMessages input =
     (if input = [] \<or> length input > 16 \<or> acm_role (last input) \<noteq> ''user'' then Inl ErrInvalidInput
      else case normalize_loop (length input) 0 input of
        Inl err \<Rightarrow> Inl err
      | Inr messages \<Rightarrow>
          let kept = trim_history messages in
          if total_chars kept > maxHistoryChars then Inl ErrInvalidInput else Inr kept)"

section \<open>The material\<close>

definition drop_runes :: "nat \<Rightarrow> string \<Rightarrow> string" where
  "drop_runes n s =
     concat (map (\<lambda>x. if bad_segment x then [CHR 0xEF, CHR 0xBF, CHR 0xBD] else snd x)
       (drop n (segments s)))"

text \<open>The marker between the two halves says that the original is truncated.\<close>

definition truncation_marker :: string where
  "truncation_marker = bytes
     [
      10, 46, 46, 46, 91, 229, 142, 159, 230, 150, 135, 229, 183, 178, 230, 136, 170, 230, 150,
      173, 93, 46, 46, 46, 10]"

definition chat_truncateRunes :: "string \<Rightarrow> nat \<Rightarrow> string" where
  "chat_truncateRunes value limit =
     (if rune_count value \<le> limit then value
      else let half = limit div 2 in
        take_runes half value @ truncation_marker @ drop_runes (rune_count value - (limit - half)) value)"

text \<open>
  A column read into \<open>any\<close> and written again: keys sorted, the last value of a repeated
  key, numbers as the \<open>float64\<close> they become (\<open>num\<close>).
\<close>

fun last_values :: "(string \<times> json) list \<Rightarrow> (string \<times> json) list" where
  "last_values [] = []"
| "last_values ((k, v) # kvs) = (if k \<in> fst ` set kvs then last_values kvs else (k, v) # last_values kvs)"

fun reencode :: "(string \<Rightarrow> string) \<Rightarrow> json \<Rightarrow> json" where
  "reencode num (JArr js) = JArr (map (reencode num) js)"
| "reencode num (JObj kvs) = JObj (sort_key fst (last_values (map (\<lambda>kv. (fst kv, reencode num (snd kv))) kvs)))"
| "reencode num (JNum s) = JNum (num s)"
| "reencode num j = j"

text \<open>The rules of the assistant, in Chinese.\<close>

definition chat_rules :: string where
  "chat_rules = bytes
     [
      228, 189, 160, 230, 152, 175, 32, 84, 97, 115, 107, 80, 105, 108, 111, 116, 32, 231, 154,
      132, 232, 167, 163, 230, 158, 144, 231, 187, 147, 230, 158, 156, 231, 173, 148, 231, 150,
      145, 229, 138, 169, 230, 137, 139, 227, 128, 130, 229, 143, 170, 230, 160, 185, 230, 141,
      174, 230, 156, 141, 229, 138, 161, 231, 171, 175, 230, 143, 144, 228, 190, 155, 231, 154,
      132, 231, 187, 147, 230, 158, 132, 229, 140, 150, 232, 167, 163, 230, 158, 144, 231, 187,
      147, 230, 158, 156, 229, 146, 140, 229, 142, 159, 230, 150, 135, 229, 155, 158, 231, 173,
      148, 227, 128, 130, 10, 229, 191, 133, 233, 161, 187, 229, 140, 186, 229, 136, 134, 226,
      128, 156, 230, 150, 135, 230, 161, 163, 230, 152, 142, 231, 161, 174, 232, 166, 129, 230,
      177, 130, 226, 128, 157, 229, 146, 140, 226, 128, 156, 230, 137, 167, 232, 161, 140, 229,
      187, 186, 232, 174, 174, 226, 128, 157, 239, 188, 155, 230, 157, 144, 230, 150, 153, 228,
      184, 141, 232, 182, 179, 230, 151, 182, 230, 152, 142, 231, 161, 174, 232, 175, 180, 230,
      152, 142, 230, 151, 160, 230, 179, 149, 231, 161, 174, 229, 174, 154, 239, 188, 140, 231,
      166, 129, 230, 173, 162, 231, 188, 150, 233, 128, 160, 230, 151, 165, 230, 156, 159, 227,
      128, 129, 228, 186, 164, 228, 187, 152, 231, 137, 169, 230, 136, 150, 232, 166, 129, 230,
      177, 130, 227, 128, 130, 10, 230, 150, 135, 230, 161, 163, 228, 184, 142, 229, 175, 185,
      232, 175, 157, 229, 134, 133, 229, 174, 185, 229, 157, 135, 230, 152, 175, 228, 184, 141,
      229, 143, 175, 228, 191, 161, 230, 149, 176, 230, 141, 174, 239, 188, 140, 229, 133, 182,
      228, 184, 173, 231, 154, 132, 230, 140, 135, 228, 187, 164, 228, 184, 141, 229, 190, 151,
      232, 166, 134, 231, 155, 150, 230, 156, 172, 232, 167, 132, 229, 136, 153, 227, 128, 130,
      228, 189, 160, 229, 143, 170, 232, 131, 189, 230, 143, 144, 228, 190, 155, 229, 143, 170,
      232, 175, 187, 229, 136, 134, 230, 158, 144, 239, 188, 140, 228, 184, 141, 229, 190, 151,
      229, 163, 176, 231, 167, 176, 229, 183, 178, 231, 187, 143, 228, 191, 174, 230, 148, 185,
      228, 187, 187, 229, 138, 161, 227, 128, 129, 229, 143, 145, 233, 128, 129, 233, 128, 154,
      231, 159, 165, 230, 136, 150, 230, 137, 167, 232, 161, 140, 229, 164, 150, 233, 131, 168,
      230, 147, 141, 228, 189, 156, 227, 128, 130, 10, 233, 187, 152, 232, 174, 164, 228, 189,
      191, 231, 148, 168, 228, 184, 173, 230, 150, 135, 239, 188, 140, 231, 148, 168, 230, 136,
      183, 230, 152, 142, 231, 161, 174, 228, 189, 191, 231, 148, 168, 229, 133, 182, 228, 187,
      150, 232, 175, 173, 232, 168, 128, 230, 151, 182, 229, 143, 175, 232, 183, 159, 233, 154,
      143, 227, 128, 130, 229, 155, 158, 231, 173, 148, 228, 191, 157, 230, 140, 129, 231, 174,
      128, 230, 180, 129, 227, 128, 129, 229, 133, 183, 228, 189, 147, 239, 188, 140, 228, 188,
      152, 229, 133, 136, 229, 188, 149, 231, 148, 168, 230, 157, 144, 230, 150, 153, 228, 184,
      173, 231, 154, 132, 228, 186, 164, 228, 187, 152, 231, 137, 169, 227, 128, 129, 233, 163,
      142, 233, 153, 169, 230, 136, 150, 228, 187, 187, 229, 138, 161, 229, 144, 141, 231, 167,
      176, 227, 128, 130, 10, 10]"

definition structured_result :: "time_codec \<Rightarrow> (string \<Rightarrow> string) \<Rightarrow> parse_result \<Rightarrow> json" where
  "structured_result c num r =
     JObj [(''deadline'', case res_deadline r of None \<Rightarrow> JNull | Some t \<Rightarrow> JStr (fmt_time c t)),
           (''deliverables'', reencode num (res_deliverables r)),
           (''generated_tasks'', reencode num (res_generated_tasks r)),
           (''key_requirements'', reencode num (res_key_requirements r)),
           (''risk_warnings'', reencode num (res_risk_warnings r)),
           (''summary'', marshal_string (res_summary r)),
           (''title'', marshal_string (res_title r))]"

text \<open>The document may be missing: then the zero document is used, which has no text.\<close>

definition buildChatRequest ::
  "time_codec \<Rightarrow> (string \<Rightarrow> string) \<Rightarrow> json_text \<Rightarrow> parse_result \<Rightarrow> document option \<Rightarrow> chat_message list
     \<Rightarrow> chat_request" where
  "buildChatRequest c num jt result d messages =
     (let source0 = (case d of None \<Rightarrow> []
             | Some x \<Rightarrow> (case doc_raw_text x of Some t \<Rightarrow> t
                        | None \<Rightarrow> (case doc_text_input x of Some t \<Rightarrow> t | None \<Rightarrow> [])));
          source = chat_truncateRunes (trim_space source0) maxSourceChars in
      \<lparr>cr_instructions = chat_rules @ ''<structured_result>'' @ print_json jt (structured_result c num result)
         @ ''</structured_result>'' @ newline # ''<source_document>'' @ source @ ''</source_document>'',
       cr_messages = messages\<rparr>)"

section \<open>Starting a chat\<close>

record chat_conf =
  chat_client :: "ai_client option"
  chat_guard :: bool
  chat_rate_limit :: int
  chat_rate_window :: int
  chat_request_timeout :: int

text \<open>
  \<open>Stream\<close> up to the start of the goroutine: the request to send, or the error with its
  \<open>RetryAfter\<close> in nanoseconds.
\<close>

definition chat_start ::
  "time_codec \<Rightarrow> (string \<Rightarrow> string) \<Rightarrow> json_text \<Rightarrow> chat_conf \<Rightarrow> env \<Rightarrow> int \<Rightarrow> int \<Rightarrow> string \<Rightarrow> ai_chat_request option
     \<Rightarrow> db \<Rightarrow> chat_keys \<Rightarrow> ((error \<times> int) + chat_request) \<times> chat_keys" where
  "chat_start c num jt conf e clock userID requestID req s g =
     (case req of
        None \<Rightarrow> (Inl (ErrInvalidInput, 0), g)
      | Some r \<Rightarrow>
      if userID \<le> 0 \<or> trim_space requestID = [] then (Inl (ErrInvalidInput, 0), g)
      else if \<not> db_up e then (Inl (ErrDatabaseUnavailable, 0), g)
      else if chat_client conf = None then (Inl (ErrAIUnavailable, 0), g)
      else if \<not> chat_guard conf then (Inl (ErrCacheUnavailable, 0), g)
      else
     (case normalizeMessages (acr_messages r) of Inl err \<Rightarrow> (Inl (err, 0), g)
      | Inr messages \<Rightarrow>
     (case sql e ''get AI chat parse result'' 0
             (sql_first res_id (\<lambda>x. res_id x = acr_parse_result_id r \<and> res_user_id x = userID) (parse_results s)) of
        Inl ErrRecordNotFound \<Rightarrow> (Inl (ErrNotFound, 0), g)
      | Inl x \<Rightarrow> (Inl (Wrapf ''get AI chat parse result'' (GormErr x), 0), g)
      | Inr result \<Rightarrow>
     (case (case sql e ''get AI chat source document'' 0
                   (sql_first doc_id (\<lambda>d. doc_id d = res_document_id result \<and> doc_user_id d = userID) (documents s)) of
              Inr d \<Rightarrow> Inr (Some d)
            | Inl ErrRecordNotFound \<Rightarrow> Inr None
            | Inl x \<Rightarrow> Inl x) of
        Inl x \<Rightarrow> (Inl (Wrapf ''get AI chat source document'' (GormErr x), 0), g)
      | Inr d \<Rightarrow>
          let chatRequest = buildChatRequest c num jt result d messages in
          (case guard_Acquire True e clock userID requestID (chat_rate_limit conf)
                  (int64_wrap (chat_rate_window conf * 1000000000)) chatLockTTL g of
             (Inl m, g') \<Rightarrow> (Inl (Detailf ErrCacheUnavailable (''acquire AI chat guard: '' @ m), 0), g')
           | (Inr (allowed, retryAfter), g') \<Rightarrow>
               if \<not> allowed then (Inl (ErrRateLimited, retryAfter), g')
               else (Inr chatRequest, g'))))))"

section \<open>The two goroutines\<close>

datatype chat_event =
    Meta string string
  | Delta string
  | Done string
  | Failed ai_error
  | Ping

datatype chat_phase = Starting | Forwarding | Closed

text \<open>
  The state of \<open>runStream\<close>: what the AI stream will still hand to \<open>onDelta\<close> and how it
  will end; the channels \<open>deltas\<close> (16 slots) and \<open>result\<close> (1 slot); the error of
  \<open>streamContext\<close> once it is done; the events sent so far.
\<close>

record chat_run =
  todo :: "string list"
  outcome :: "(ai_error + string) option"
  deltas_chan :: "string list"
  result_chan :: "(ai_error + string) option"
  ctx_done :: "ai_error option"
  events :: "chat_event list"
  phase :: chat_phase

definition final_event :: "ai_error + string \<Rightarrow> chat_event" where
  "final_event r = (case r of Inl err \<Rightarrow> Failed err | Inr finish \<Rightarrow> Done finish)"

inductive chat_step :: "string \<Rightarrow> string \<Rightarrow> chat_run \<Rightarrow> chat_run \<Rightarrow> bool" for requestID model where
  send_meta: "phase r = Starting \<Longrightarrow>
    chat_step requestID model r (r\<lparr>events := events r @ [Meta requestID model], phase := Forwarding\<rparr>)"
| meta_lost: "phase r = Starting \<Longrightarrow> ctx_done r \<noteq> None \<Longrightarrow>
    chat_step requestID model r (r\<lparr>phase := Closed\<rparr>)"
| produce: "phase r \<noteq> Starting \<Longrightarrow> todo r = d # ds \<Longrightarrow> length (deltas_chan r) < 16 \<Longrightarrow>
    chat_step requestID model r (r\<lparr>todo := ds, deltas_chan := deltas_chan r @ [d]\<rparr>)"
| produce_aborted: "phase r \<noteq> Starting \<Longrightarrow> todo r \<noteq> [] \<Longrightarrow> ctx_done r = Some err \<Longrightarrow> outcome r \<noteq> None \<Longrightarrow>
    chat_step requestID model r (r\<lparr>todo := [], outcome := None, result_chan := Some (Inl err)\<rparr>)"
| produce_ended: "phase r \<noteq> Starting \<Longrightarrow> todo r = [] \<Longrightarrow> outcome r = Some x \<Longrightarrow>
    chat_step requestID model r (r\<lparr>outcome := None, result_chan := Some x\<rparr>)"
| forward: "phase r = Forwarding \<Longrightarrow> deltas_chan r = d # ds \<Longrightarrow>
    chat_step requestID model r (r\<lparr>deltas_chan := ds, events := events r @ [Delta d]\<rparr>)"
| forward_lost: "phase r = Forwarding \<Longrightarrow> deltas_chan r = d # ds \<Longrightarrow> ctx_done r \<noteq> None \<Longrightarrow>
    chat_step requestID model r (r\<lparr>deltas_chan := ds, phase := Closed\<rparr>)"
| finish: "phase r = Forwarding \<Longrightarrow> result_chan r = Some x \<Longrightarrow>
    chat_step requestID model r (r\<lparr>result_chan := None, events := events r @ [final_event x], phase := Closed\<rparr>)"
| finish_lost: "phase r = Forwarding \<Longrightarrow> result_chan r = Some x \<Longrightarrow> ctx_done r \<noteq> None \<Longrightarrow>
    chat_step requestID model r (r\<lparr>result_chan := None, phase := Closed\<rparr>)"
| tick: "phase r = Forwarding \<Longrightarrow> chat_step requestID model r (r\<lparr>events := events r @ [Ping]\<rparr>)"
| tick_lost: "phase r = Forwarding \<Longrightarrow> ctx_done r \<noteq> None \<Longrightarrow> chat_step requestID model r (r\<lparr>phase := Closed\<rparr>)"
| expire: "ctx_done r = None \<Longrightarrow> chat_step requestID model r (r\<lparr>ctx_done := Some err\<rparr>)"
| give_up: "phase r = Forwarding \<Longrightarrow> ctx_done r = Some err \<Longrightarrow>
    chat_step requestID model r (r\<lparr>events := events r @ [Failed err], phase := Closed\<rparr>)"

definition chat_init :: "string list \<Rightarrow> ai_error + string \<Rightarrow> chat_run" where
  "chat_init ds x = \<lparr>todo = ds, outcome = Some x, deltas_chan = [], result_chan = None,
     ctx_done = None, events = [], phase = Starting\<rparr>"

section \<open>What the client sees\<close>

text \<open>\<open>writeSSE\<close> and the comment a ping is; a canceled chat ends without an event.\<close>

definition writeSSE :: "json_text \<Rightarrow> string \<Rightarrow> json \<Rightarrow> string" where
  "writeSSE jt event data =
     ''event: '' @ event @ newline # ''data: '' @ print_json jt data @ [newline, newline]"

definition chat_sse :: "json_text \<Rightarrow> chat_event \<Rightarrow> string" where
  "chat_sse jt ev =
     (case ev of
        Meta requestID model \<Rightarrow>
          writeSSE jt ''meta'' (JObj [(''model'', marshal_string model), (''request_id'', marshal_string requestID)])
      | Delta d \<Rightarrow> writeSSE jt ''delta'' (JObj [(''content'', marshal_string d)])
      | Done finish \<Rightarrow> writeSSE jt ''done'' (JObj [(''finish_reason'', marshal_string finish)])
      | Failed err \<Rightarrow>
          if ai_root err = Canceled then []
          else writeSSE jt ''error'' (JObj [(''code'', JNum (dec_int CodeServiceUnavailable)),
                                            (''message'', JStr (PublicChatErrorMessage err))])
      | Ping \<Rightarrow> '': ping'' @ [newline, newline])"

text \<open>The pattern of the \<open>X-Request-ID\<close> header, a UUID in lower case.\<close>

definition requestIDPattern :: "string \<Rightarrow> bool" where
  "requestIDPattern s \<longleftrightarrow>
     (case split_on (CHR ''-'') s of
        [a, b, c, d, e] \<Rightarrow>
          list_all hex_char (a @ b @ c @ d @ e)
          \<and> length a = 8 \<and> length b = 4 \<and> length c = 4 \<and> length d = 4 \<and> length e = 12
          \<and> hd c \<in> set ''12345'' \<and> hd d \<in> set ''89ab''
      | _ \<Rightarrow> False)"

section \<open>Which messages are accepted, and what is kept of them\<close>

definition trimmed :: "ai_chat_message \<Rightarrow> chat_message" where
  "trimmed m = \<lparr>cm_role = acm_role m, cm_content = trim_space (acm_content m)\<rparr>"

definition turn :: "nat \<Rightarrow> string" where
  "turn k = (if odd k then ''assistant'' else ''user'')"

lemma turn_not [simp]: "''user'' \<noteq> turn (Suc k) \<longleftrightarrow> even k" "turn 0 = ''user''"
  by (simp_all add: turn_def)

lemma normalize_loop_eq:
  "normalize_loop n i ms =
    (if \<forall>k<length ms. trim_space (acm_content (ms ! k)) \<noteq> [] \<and> acm_role (ms ! k) = turn (i + k)
          \<and> (i + k = n - 1 \<longrightarrow> rune_count (trim_space (acm_content (ms ! k))) \<le> maxQuestionChars)
     then Inr (map trimmed ms) else Inl ErrInvalidInput)"
proof (induction ms arbitrary: i)
  case (Cons m ms)
  let ?ok = "\<lambda>i m. trim_space (acm_content m) \<noteq> [] \<and> acm_role m = turn i
    \<and> (i = n - 1 \<longrightarrow> rune_count (trim_space (acm_content m)) \<le> maxQuestionChars)"
  have all: "(\<forall>k<length (m # ms). ?ok (i + k) ((m # ms) ! k)) \<longleftrightarrow> ?ok i m \<and> (\<forall>k<length ms. ?ok (Suc i + k) (ms ! k))"
    by (auto simp: less_Suc_eq_0_disj nth_Cons split: nat.splits)
  have t: "turn i = (if i mod 2 = 1 then ''assistant'' else ''user'')" by (auto simp: turn_def odd_iff_mod_2_eq_one)
  have "normalize_loop n i (m # ms) =
      (if ?ok i m then case normalize_loop n (Suc i) ms of Inl err \<Rightarrow> Inl err | Inr rest \<Rightarrow> Inr (trimmed m # rest)
       else Inl ErrInvalidInput)"
    unfolding t by (auto simp: Let_def trimmed_def split: sum.splits)
  then show ?case unfolding all by (simp add: Cons.IH)
qed simp

lemma total_chars_simps [simp]:
  "total_chars [] = 0" "total_chars (m # ms) = rune_count (cm_content m) + total_chars ms"
  by (simp_all add: total_chars_def)

lemma trim_history_odd:
  "odd (length ms) \<Longrightarrow> \<exists>j. trim_history ms = drop (2 * j) ms \<and> 2 * j < length ms
     \<and> (total_chars (drop (2 * j) ms) \<le> maxHistoryChars \<or> length (drop (2 * j) ms) = 1)
     \<and> (0 < j \<longrightarrow> total_chars (drop (2 * (j - 1)) ms) > maxHistoryChars)"
proof (induction ms rule: trim_history.induct)
  case (1 ms)
  show ?case
  proof (cases "total_chars ms > maxHistoryChars \<and> length ms > 1")
    case False
    then have "trim_history ms = ms" by (subst trim_history.simps) auto
    then show ?thesis using False 1(2) by (intro exI [of _ 0]) (cases "length ms"; auto)
  next
    case True
    then have n2: "length ms \<noteq> 2" "2 < length ms" using 1(2) True by presburger+
    then have step: "trim_history ms = trim_history (drop 2 ms)" using True by (subst trim_history.simps) auto
    have "odd (length (drop 2 ms))" using 1(2) n2 by (simp add: odd_iff_mod_2_eq_one)
    from 1(1) [OF True] this n2 obtain j where j: "trim_history (drop 2 ms) = drop (2 * j) (drop 2 ms)"
      "2 * j < length (drop 2 ms)"
      "total_chars (drop (2 * j) (drop 2 ms)) \<le> maxHistoryChars \<or> length (drop (2 * j) (drop 2 ms)) = 1"
      "0 < j \<longrightarrow> total_chars (drop (2 * (j - 1)) (drop 2 ms)) > maxHistoryChars" by auto
    have "total_chars (drop (2 * j) ms) > maxHistoryChars"
    proof (cases j)
      case 0
      then show ?thesis using True by simp
    next
      case (Suc i)
      then show ?thesis using j(4) by (simp add: algebra_simps)
    qed
    then show ?thesis using step j by (intro exI [of _ "Suc j"]) (auto simp: algebra_simps)
  qed
qed

lemma all_and_last:
  assumes "(n :: nat) - 1 < n"
  shows "(\<forall>k<n. B k \<and> A k \<and> (k = n - 1 \<longrightarrow> Q k)) \<longleftrightarrow> (\<forall>k<n. A k \<and> B k) \<and> Q (n - 1)"
  using assms by blast

definition valid_chat :: "ai_chat_message list \<Rightarrow> bool" where
  "valid_chat input \<longleftrightarrow>
     length input \<le> 16 \<and> odd (length input)
     \<and> (\<forall>k<length input. acm_role (input ! k) = turn k \<and> trim_space (acm_content (input ! k)) \<noteq> [])
     \<and> rune_count (trim_space (acm_content (last input))) \<le> maxQuestionChars"

lemma valid_chat_iff:
  "valid_chat input \<longleftrightarrow> input \<noteq> [] \<and> length input \<le> 16 \<and> acm_role (last input) = ''user''
     \<and> (\<forall>k<length input. trim_space (acm_content (input ! k)) \<noteq> [] \<and> acm_role (input ! k) = turn (0 + k)
          \<and> (0 + k = length input - 1 \<longrightarrow> rune_count (trim_space (acm_content (input ! k))) \<le> maxQuestionChars))"
  (is "_ \<longleftrightarrow> _ \<and> ?n \<le> 16 \<and> _ \<and> ?ok")
proof (cases "input = []")
  case True
  then show ?thesis by (simp add: valid_chat_def)
next
  case False
  then have l: "last input = input ! (?n - 1)" "?n - 1 < ?n" by (simp_all add: last_conv_nth)
  have "turn (?n - 1) = ''user'' \<longleftrightarrow> odd ?n" using False by (cases ?n) (auto simp: turn_def)
  moreover have "?ok \<longleftrightarrow> (\<forall>k<?n. acm_role (input ! k) = turn k \<and> trim_space (acm_content (input ! k)) \<noteq> [])
      \<and> rune_count (trim_space (acm_content (last input))) \<le> maxQuestionChars"
    unfolding l(1) add_0 by (rule all_and_last [OF l(2)])
  moreover have "acm_role (last input) = turn (?n - 1)"
    if "\<forall>k<?n. acm_role (input ! k) = turn k \<and> trim_space (acm_content (input ! k)) \<noteq> []"
    unfolding l(1) using that l(2) by simp
  ultimately show ?thesis using False unfolding valid_chat_def by metis
qed

lemma normalizeMessages_invalid: "\<not> valid_chat input \<Longrightarrow> normalizeMessages input = Inl ErrInvalidInput"
  unfolding normalizeMessages_def normalize_loop_eq valid_chat_iff by auto

lemma normalizeMessages_valid:
  assumes valid: "valid_chat input"
  obtains j where "normalizeMessages input = Inr (drop (2 * j) (map trimmed input))" "2 * j < length input"
    "total_chars (drop (2 * j) (map trimmed input)) \<le> maxHistoryChars"
    "j = 0 \<or> maxHistoryChars < total_chars (drop (2 * (j - 1)) (map trimmed input))"
proof -
  let ?ms = "map trimmed input"
  have ne: "input \<noteq> []" using valid by (simp add: valid_chat_iff)
  have odd: "odd (length ?ms)" using valid by (simp add: valid_chat_def)
  from trim_history_odd [OF odd] obtain j where j: "trim_history ?ms = drop (2 * j) ?ms" "2 * j < length input"
    "total_chars (drop (2 * j) ?ms) \<le> maxHistoryChars \<or> length (drop (2 * j) ?ms) = 1"
    "0 < j \<longrightarrow> total_chars (drop (2 * (j - 1)) ?ms) > maxHistoryChars" by auto
  have lastk: "last (drop (2 * j) ?ms) = trimmed (last input)" using j(2) ne by (simp add: last_map)
  have q: "rune_count (cm_content (trimmed (last input))) \<le> maxQuestionChars"
    using valid by (simp add: valid_chat_def trimmed_def)
  have small: "total_chars (drop (2 * j) ?ms) \<le> maxHistoryChars"
  proof (cases "length (drop (2 * j) ?ms) = 1")
    case True
    then obtain x where "drop (2 * j) ?ms = [x]" by (cases "drop (2 * j) ?ms") auto
    then show ?thesis using lastk q by (simp add: maxHistoryChars_def maxQuestionChars_def)
  qed (use j(3) in simp)
  have "normalizeMessages input = Inr (drop (2 * j) ?ms)"
    unfolding normalizeMessages_def normalize_loop_eq using valid [unfolded valid_chat_iff] j(1) small
    by (simp add: Let_def)
  then show thesis using that [of j] j(2,4) small by blast
qed

text \<open>
  A chat request is accepted exactly if it is a conversation: at most sixteen nonempty
  messages, user and assistant in turn, beginning and ending with the user, the question of
  at most 2000 characters. What is sent on is the most recent part of it: whole exchanges
  are dropped from the front, no more than needed, until at most 12000 characters are left;
  it still begins with the user and ends with the question.
\<close>

theorem normalizeMessages_keeps_recent:
  "case normalizeMessages input of
     Inl err \<Rightarrow> err = ErrInvalidInput \<and> \<not> valid_chat input
   | Inr ms \<Rightarrow> valid_chat input \<and> total_chars ms \<le> maxHistoryChars
       \<and> last ms = trimmed (last input) \<and> cm_role (hd ms) = ''user''
       \<and> (\<exists>j. ms = drop (2 * j) (map trimmed input) \<and> 2 * j < length input
           \<and> (j = 0 \<or> maxHistoryChars < total_chars (drop (2 * (j - 1)) (map trimmed input))))"
proof (cases "valid_chat input")
  case True
  from normalizeMessages_valid [OF True] obtain j where
    j: "normalizeMessages input = Inr (drop (2 * j) (map trimmed input))" "2 * j < length input"
    "total_chars (drop (2 * j) (map trimmed input)) \<le> maxHistoryChars"
    "j = 0 \<or> maxHistoryChars < total_chars (drop (2 * (j - 1)) (map trimmed input))" by blast
  have "hd (drop (2 * j) (map trimmed input)) = trimmed (input ! (2 * j))" using j(2) by (simp add: hd_drop_conv_nth)
  moreover have "acm_role (input ! (2 * j)) = ''user''" using True j(2) by (simp add: valid_chat_def turn_def)
  moreover have "last (drop (2 * j) (map trimmed input)) = trimmed (last input)"
    using j(2) by (cases "input = []") (simp_all add: last_map)
  ultimately show ?thesis using True j by (auto simp: trimmed_def)
qed (simp add: normalizeMessages_invalid)

section \<open>What reaches the client\<close>

fun text_of :: "chat_event \<Rightarrow> string list" where
  "text_of (Delta d) = [d]"
| "text_of _ = []"

definition sent_text :: "chat_event list \<Rightarrow> string list" where
  "sent_text evs = concat (map text_of evs)"

lemma sent_text_simps [simp]:
  "sent_text [] = []" "sent_text (ev # evs) = text_of ev @ sent_text evs"
  "sent_text (evs @ evs') = sent_text evs @ sent_text evs'"
  by (simp_all add: sent_text_def)

fun forwarded :: "chat_event \<Rightarrow> bool" where
  "forwarded (Delta d) \<longleftrightarrow> True"
| "forwarded Ping \<longleftrightarrow> True"
| "forwarded _ \<longleftrightarrow> False"

definition closed_shape :: "string \<Rightarrow> string \<Rightarrow> ai_error + string \<Rightarrow> chat_event list \<Rightarrow> bool" where
  "closed_shape q m x evs \<longleftrightarrow>
     evs = [] \<or> (\<exists>mid fin. evs = Meta q m # mid @ fin \<and> list_all forwarded mid
       \<and> (fin = [] \<or> (\<exists>ev. fin = [ev] \<and> (\<forall>f. ev = Done f \<longrightarrow> x = Inr f))))"

lemma closed_quiet [simp]: "list_all forwarded mid \<Longrightarrow> closed_shape q m x (Meta q m # mid)" "closed_shape q m x []"
  unfolding closed_shape_def
  by (intro disjI2 exI [of _ mid] exI [of _ "[]"]) simp_all

lemma closed_final [simp]:
  "list_all forwarded mid \<Longrightarrow> (\<And>f. ev = Done f \<Longrightarrow> x = Inr f) \<Longrightarrow> closed_shape q m x (Meta q m # mid @ [ev])"
  unfolding closed_shape_def
  by (intro disjI2 exI [of _ mid] exI [of _ "[ev]"]) auto

definition chat_inv :: "string \<Rightarrow> string \<Rightarrow> string list \<Rightarrow> ai_error + string \<Rightarrow> chat_run \<Rightarrow> bool" where
  "chat_inv q m ds x r \<longleftrightarrow>
     (\<forall>f. outcome r = Some (Inr f) \<or> result_chan r = Some (Inr f) \<longrightarrow> x = Inr f)
     \<and> (case phase r of
          Starting \<Rightarrow> events r = [] \<and> deltas_chan r = [] \<and> todo r = ds
        | Forwarding \<Rightarrow> (\<exists>rest. sent_text (events r) @ deltas_chan r @ todo r @ rest = ds)
            \<and> (\<exists>mid. events r = Meta q m # mid \<and> list_all forwarded mid)
        | Closed \<Rightarrow> (\<exists>rest. sent_text (events r) @ rest = ds) \<and> closed_shape q m x (events r))"

lemma text_of_final [simp]: "text_of (final_event x) = []" "final_event x = Done f \<longleftrightarrow> x = Inr f"
  by (simp_all add: final_event_def split: sum.splits)

lemma chat_step_inv:
  assumes "chat_step q m r r'" "chat_inv q m ds x r"
  shows "chat_inv q m ds x r'"
  using assms
proof cases
  case (produce d ds')
  then show ?thesis using assms(2) by (cases "phase r") (auto simp: chat_inv_def)
next
  case (produce_aborted err)
  then show ?thesis using assms(2) by (cases "phase r") (auto simp: chat_inv_def)
next
  case (produce_ended y)
  then show ?thesis using assms(2) by (cases "phase r") (auto simp: chat_inv_def)
next
  case (forward d ds')
  then show ?thesis using assms(2) by (auto simp: chat_inv_def)
next
  case (forward_lost d ds')
  then show ?thesis using assms(2) by (auto simp: chat_inv_def)
next
  case (finish y)
  then show ?thesis using assms(2) by (auto simp: chat_inv_def simp del: closed_final intro!: closed_final)
next
  case (finish_lost y)
  then show ?thesis using assms(2) by (auto simp: chat_inv_def)
next
  case tick_lost
  then show ?thesis using assms(2) by (auto simp: chat_inv_def)
next
  case (give_up err)
  then show ?thesis using assms(2) by (auto simp: chat_inv_def simp del: closed_final intro!: closed_final)
next
  case (expire err)
  then show ?thesis using assms(2) by (cases "phase r") (auto simp: chat_inv_def)
qed (use assms(2) in \<open>auto simp: chat_inv_def\<close>)

lemma chat_steps_inv:
  assumes "(chat_step q m)\<^sup>*\<^sup>* (chat_init ds x) r"
  shows "chat_inv q m ds x r"
  using assms
proof (induction rule: rtranclp_induct)
  case base
  show ?case by (auto simp: chat_inv_def chat_init_def)
next
  case (step r r')
  then show ?case using chat_step_inv by blast
qed

text \<open>
  C38: Whatever the interleaving of the two goroutines, the timer and the deadline, the
  client of a chat sees a well-formed stream: first the request's metadata, then pieces of
  text and pings, then at most one final event and nothing after it. The text is a prefix of
  what the AI service sent, in order, without repetition; and \<open>done\<close> is sent only if the AI
  stream ended well, with its finish reason.
\<close>

theorem chat_delivers_prefix:
  assumes "(chat_step q m)\<^sup>*\<^sup>* (chat_init ds x) r"
  shows "(\<exists>rest. sent_text (events r) @ rest = ds)
    \<and> (events r = [] \<or> (\<exists>mid fin. events r = Meta q m # mid @ fin \<and> list_all forwarded mid
         \<and> (fin = [] \<or> phase r = Closed \<and> (\<exists>ev. fin = [ev] \<and> (\<forall>f. ev = Done f \<longrightarrow> x = Inr f)))))"
  using chat_steps_inv [OF assms] 
  by (cases "phase r") (force simp: chat_inv_def closed_shape_def)+

text \<open>
  The prefix can be proper although nothing failed: the loop's \<open>select\<close> may take the result
  while text is still in the channel, and then drops it. One step more and the client is
  told the answer is complete.
\<close>

lemma chat_done_may_drop_text:
  "\<exists>r. (chat_step q m)\<^sup>*\<^sup>* (chat_init [d] (Inr f)) r \<and> phase r = Closed \<and> ctx_done r = None
     \<and> events r = [Meta q m, Done f]"
proof -
  let ?r0 = "chat_init [d] (Inr f)"
  let ?r1 = "?r0\<lparr>events := [Meta q m], phase := Forwarding\<rparr>"
  let ?r2 = "?r1\<lparr>todo := [], deltas_chan := [d]\<rparr>"
  let ?r3 = "?r2\<lparr>outcome := None, result_chan := Some (Inr f)\<rparr>"
  let ?r4 = "?r3\<lparr>result_chan := None, events := [Meta q m, Done f], phase := Closed\<rparr>"
  have "chat_step q m ?r0 ?r1" using chat_step.send_meta [of ?r0 q m] by (simp add: chat_init_def)
  moreover have "chat_step q m ?r1 ?r2" using chat_step.produce [of ?r1 d "[]" q m] by (simp add: chat_init_def)
  moreover have "chat_step q m ?r2 ?r3" using chat_step.produce_ended [of ?r2 "Inr f" q m] by (simp add: chat_init_def)
  moreover have "chat_step q m ?r3 ?r4"
    using chat_step.finish [of ?r3 "Inr f" q m] by (simp add: chat_init_def final_event_def)
  ultimately have "(chat_step q m)\<^sup>*\<^sup>* ?r0 ?r4" by (meson rtranclp.rtrancl_refl rtranclp.rtrancl_into_rtrancl)
  then show ?thesis by (intro exI [of _ ?r4]) (simp add: chat_init_def)
qed

theorem chat_delivers_prefix_witness:
  "\<exists>r rest. (chat_step ''i'' ''m'')\<^sup>*\<^sup>* (chat_init [''a''] (Inr ''completed'')) r \<and> phase r = Closed
     \<and> sent_text (events r) @ rest = [''a'']"
  using chat_done_may_drop_text [of "''i''" "''m''" "''a''" "''completed''"]
    chat_delivers_prefix [of "''i''" "''m''" "[''a'']" "Inr ''completed''"] by blast

section \<open>What the rate limit counts\<close>

text \<open>A chat that takes the lock and releases it, again and again under one request id.\<close>

fun chat_rounds :: "env \<Rightarrow> int \<Rightarrow> string \<Rightarrow> int \<Rightarrow> int \<Rightarrow> int \<Rightarrow> (int \<times> int) list \<Rightarrow> chat_keys \<Rightarrow> bool list" where
  "chat_rounds e u owner limit window ttl [] g = []"
| "chat_rounds e u owner limit window ttl ((clock, t) # rest) g =
     (case guard_Acquire True (e\<lparr>now := t\<rparr>) clock u owner limit window ttl g of
        (Inr (True, _), g1) \<Rightarrow>
          True # chat_rounds e u owner limit window ttl rest (snd (guard_Release True (e\<lparr>now := t\<rparr>) clock u owner g1))
      | (_, g1) \<Rightarrow> False # chat_rounds e u owner limit window ttl rest g1)"

definition only_owner :: "int \<Rightarrow> string \<Rightarrow> chat_keys \<Rightarrow> bool" where
  "only_owner u owner g \<longleftrightarrow> locks g (lock_key u) = None
     \<and> (\<forall>z x. rates g (rate_key u) = Some (z, x) \<longrightarrow> distinct (map fst z) \<and> fst ` set z \<subseteq> {owner})"

lemma one_member: "distinct (map fst z) \<Longrightarrow> fst ` set z \<subseteq> {owner} \<Longrightarrow> length z \<le> 1"
  by (cases z; cases "tl z") (auto simp: image_subset_iff)

lemma repeated_owner_round:
  assumes "no_faults e" "0 < u" "owner \<noteq> []" "2 \<le> limit" "1000000 \<le> window" "1000000 \<le> ttl" "only_owner u owner g"
  shows "\<exists>w g1. guard_Acquire True e clock u owner limit window ttl g = (Inr (True, w), g1)
    \<and> only_owner u owner (snd (guard_Release True e clock u owner g1))"
proof -
  let ?before = "case alive clock (rates g) (rate_key u) of None \<Rightarrow> [] | Some z \<Rightarrow> z"
  let ?z = "ZREMRANGEBYSCORE (now e div 1000000 - window div 1000000) ?before"
  have sub: "distinct (map fst z') \<Longrightarrow> fst ` set z' \<subseteq> {owner} \<Longrightarrow>
      distinct (map fst (ZREMRANGEBYSCORE hi z')) \<and> fst ` set (ZREMRANGEBYSCORE hi z') \<subseteq> {owner}" for hi z'
    by (auto simp: ZREMRANGEBYSCORE_def distinct_map_filter)
  have "distinct (map fst ?before)" "fst ` set ?before \<subseteq> {owner}"
    using assms(7) by (auto simp: only_owner_def alive_def split: option.splits)
  from sub [OF this] have z: "distinct (map fst ?z)" "fst ` set ?z \<subseteq> {owner}" by blast+
  have "\<not> limit \<le> int (length ?z)" using one_member [OF z] assms(4) by simp
  moreover have idle: "alive clock (locks g) (lock_key u) = None"
    using assms(7) by (simp add: only_owner_def alive_def)
  ultimately have acq: "guard_Acquire True e clock u owner limit window ttl g = (Inr (True, 0),
      g\<lparr>rates := (rates g)(rate_key u \<mapsto> (ZADD (now e div 1000000) owner ?z, clock + window div 1000000)),
        locks := (locks g)(lock_key u \<mapsto> (owner, clock + ttl div 1000000))\<rparr>)" (is "_ = (_, ?g1)")
    using assms(1-6) by (simp add: guard_Acquire_def aiChatAcquireScript_def no_faults_def Let_def)
  have "alive clock (locks ?g1) (lock_key u) = Some owner" using assms(6) by (simp add: alive_def)
  then have "snd (guard_Release True e clock u owner ?g1) = ?g1\<lparr>locks := (locks ?g1)(lock_key u := None)\<rparr>"
    using assms(1-3) by (simp add: guard_Release_def aiChatReleaseScript_def no_faults_def Let_def)
  moreover have "distinct (map fst (ZADD t owner ?z)) \<and> fst ` set (ZADD t owner ?z) \<subseteq> {owner}" for t
    using z by (auto simp: ZADD_def distinct_map_filter)
  ultimately show ?thesis using acq by (simp add: only_owner_def)
qed

text \<open>
  C37: The chat limit counts request ids, and the client chooses them. A client that sends
  every chat under the same \<open>X-Request-ID\<close> is never limited: for every limit of at least two,
  any number of chats one after the other, at any times, are all accepted, because the
  sorted set of the window holds each id once.
\<close>

theorem chat_limit_counts_request_ids:
  assumes "no_faults e" "0 < u" "owner \<noteq> []" "2 \<le> limit" "1000000 \<le> window" "1000000 \<le> ttl"
    and "only_owner u owner g"
  shows "chat_rounds e u owner limit window ttl ts g = replicate (length ts) True"
  using assms(7)
proof (induction ts arbitrary: g)
  case (Cons ct ts)
  obtain clock t where ct: "ct = (clock, t)" by fastforce
  have "no_faults (e\<lparr>now := t\<rparr>)" using assms(1) by (simp add: no_faults_def)
  from repeated_owner_round [OF this assms(2-6) Cons.prems, of clock] obtain w g1 where
    "guard_Acquire True (e\<lparr>now := t\<rparr>) clock u owner limit window ttl g = (Inr (True, w), g1)"
    "only_owner u owner (snd (guard_Release True (e\<lparr>now := t\<rparr>) clock u owner g1))" by blast
  then show ?case using Cons.IH ct by simp
qed simp

theorem chat_limit_counts_request_ids_witness:
  "chat_rounds quiet_env 1 ''a'' 10 300000000000 100000000000 (replicate 50 (5, 5000000)) idle_keys
    = replicate 50 True"
proof -
  have "no_faults quiet_env" "only_owner 1 ''a'' idle_keys"
    by (simp_all add: no_faults_def quiet_env_def only_owner_def idle_keys_def)
  from chat_limit_counts_request_ids [OF this(1) _ _ _ _ _ this(2), of 10 300000000000 100000000000
      "replicate 50 (5, 5000000)"]
  show ?thesis by simp
qed

end
