(* ===== verification/Dashboard.thy ===== *)
theory Dashboard
  imports Store Schema Sample
begin

text \<open>
  \<open>logic/dashboard/service.go\<close>: the counters and the reminders of a user, each one raw
  query over the tables, written here as comprehensions over their rows.
\<close>

record stats_response =
  st_documents :: int
  st_parse_jobs :: int
  st_active_projects :: int
  st_open_tasks :: int

record reminder_response =
  rem_id :: int
  rem_project_id :: int
  rem_title :: string
  rem_project :: string
  rem_deadline :: int
  rem_days_left :: int

definition reminderLimit :: int where "reminderLimit = 10"

text \<open>Seven days, and one day, in nanoseconds.\<close>

definition reminderWindow :: int where "reminderWindow = 604800000000000"

definition day :: int where "day = 86400000000000"

definition dash_validate :: "env \<Rightarrow> int \<Rightarrow> error option" where
  "dash_validate e userID =
     (if userID \<le> 0 then Some ErrInvalidInput
      else if \<not> db_up e then Some ErrDatabaseUnavailable else None)"

text \<open>The join of \<open>tasks\<close> and \<open>projects\<close> both queries restrict to what is still to do.\<close>

definition open_tasks :: "int \<Rightarrow> db \<Rightarrow> (task \<times> project) list" where
  "open_tasks userID s =
     [(t, p). t \<leftarrow> tasks s, p \<leftarrow> projects s,
        prj_id p = tsk_project_id t \<and> tsk_user_id t = userID \<and> prj_user_id p = tsk_user_id t
        \<and> prj_status p = ''active'' \<and> (tsk_status t = ''todo'' \<or> tsk_status t = ''doing'')]"

definition dash_Stats :: "env \<Rightarrow> int \<Rightarrow> db \<Rightarrow> error + stats_response" where
  "dash_Stats e userID s =
     (case dash_validate e userID of Some err \<Rightarrow> Inl err | None \<Rightarrow>
     (case sql e ''query dashboard stats'' 0
             (Inr \<lparr>st_documents = sql_count (\<lambda>d. doc_user_id d = userID \<and> doc_deleted_at d = None) (documents s),
                   st_parse_jobs = sql_count (\<lambda>j. job_user_id j = userID) (parse_jobs s),
                   st_active_projects = sql_count (\<lambda>p. prj_user_id p = userID \<and> prj_status p = ''active'') (projects s),
                   st_open_tasks = int (length (open_tasks userID s))\<rparr>) of
        Inl x \<Rightarrow> Inl (Wrapf ''query dashboard stats'' (GormErr x))
      | Inr row \<Rightarrow> Inr row))"

text \<open>
  \<open>daysLeft\<close> rounds up. The code divides as \<open>float64\<close>; the deadlines it is called with are
  within seven days, where the quotient is exact enough not to cross an integer, so the
  division is the one of the integers.
\<close>

definition daysLeft :: "int \<Rightarrow> int \<Rightarrow> int" where
  "daysLeft t deadline = (if deadline - t \<le> 0 then 0 else (deadline - t + day - 1) div day)"

definition reminder_row :: "int \<Rightarrow> task \<times> project \<Rightarrow> reminder_response option" where
  "reminder_row t tp =
     (case tsk_deadline (fst tp) of
        None \<Rightarrow> None
      | Some d \<Rightarrow>
          if t \<le> d \<and> d < t + reminderWindow then
            Some \<lparr>rem_id = tsk_id (fst tp), rem_project_id = tsk_project_id (fst tp), rem_title = tsk_title (fst tp),
                  rem_project = prj_name (snd tp), rem_deadline = d, rem_days_left = daysLeft t d\<rparr>
          else None)"

definition reminder_order :: "reminder_response \<Rightarrow> order_key" where
  "reminder_order r = asc_key (rem_deadline r) (rem_id r)"

definition dash_Reminders :: "env \<Rightarrow> int \<Rightarrow> db \<Rightarrow> error + reminder_response list" where
  "dash_Reminders e userID s =
     (case dash_validate e userID of Some err \<Rightarrow> Inl err | None \<Rightarrow>
     (case sql e ''query dashboard reminders'' 0
             (Inr (sql_page 0 reminderLimit
               (sort_key reminder_order (List.map_filter (reminder_row (now e)) (open_tasks userID s))))) of
        Inl x \<Rightarrow> Inl (Wrapf ''query dashboard reminders'' (GormErr x))
      | Inr rows \<Rightarrow> Inr rows))"

section \<open>What the user is reminded of\<close>

lemma daysLeft_bounds: "t \<le> d \<Longrightarrow> d < t + reminderWindow \<Longrightarrow> 0 \<le> daysLeft t d \<and> daysLeft t d \<le> 7"
  by (auto simp: daysLeft_def reminderWindow_def day_def)

lemma daysLeft_exact: "t < d \<Longrightarrow> (daysLeft t d - 1) * day < d - t \<and> d - t \<le> daysLeft t d * day"
  by (auto simp: daysLeft_def day_def)

lemma in_open_tasks:
  "(t, p) \<in> set (open_tasks u s) \<longleftrightarrow> t \<in> set (tasks s) \<and> p \<in> set (projects s) \<and> prj_id p = tsk_project_id t
     \<and> tsk_user_id t = u \<and> prj_user_id p = tsk_user_id t \<and> prj_status p = ''active''
     \<and> (tsk_status t = ''todo'' \<or> tsk_status t = ''doing'')"
  by (auto simp: open_tasks_def)

text \<open>An open task the user should hear of at time \<open>t\<close>.\<close>

definition due_soon :: "int \<Rightarrow> int \<Rightarrow> db \<Rightarrow> task \<Rightarrow> bool" where
  "due_soon t u s k \<longleftrightarrow> k \<in> set (tasks s) \<and> tsk_user_id k = u \<and> (tsk_status k = ''todo'' \<or> tsk_status k = ''doing'')
     \<and> (\<exists>p\<in>set (projects s). prj_id p = tsk_project_id k \<and> prj_user_id p = u \<and> prj_status p = ''active'')
     \<and> (\<exists>d. tsk_deadline k = Some d \<and> t \<le> d \<and> d < t + reminderWindow)"

lemma set_map_filter_eq: "set (List.map_filter f xs) = {y. \<exists>x\<in>set xs. f x = Some y}"
  by (induction xs) (auto simp: List.map_filter_simps split: option.splits)

lemma due_soon_row:
  assumes "r \<in> set (List.map_filter (reminder_row t) (open_tasks u s))"
  shows "\<exists>k p d. due_soon t u s k \<and> p \<in> set (projects s) \<and> prj_id p = tsk_project_id k \<and> prj_user_id p = u
    \<and> tsk_deadline k = Some d
    \<and> r = \<lparr>rem_id = tsk_id k, rem_project_id = tsk_project_id k, rem_title = tsk_title k,
           rem_project = prj_name p, rem_deadline = d, rem_days_left = daysLeft t d\<rparr>"
proof -
  obtain k p where kp: "(k, p) \<in> set (open_tasks u s)" "reminder_row t (k, p) = Some r"
    using assms unfolding set_map_filter_eq by auto
  then obtain d where d: "tsk_deadline k = Some d" "t \<le> d" "d < t + reminderWindow"
    "r = \<lparr>rem_id = tsk_id k, rem_project_id = tsk_project_id k, rem_title = tsk_title k,
           rem_project = prj_name p, rem_deadline = d, rem_days_left = daysLeft t d\<rparr>"
    by (auto simp: reminder_row_def split: option.splits if_splits)
  have "due_soon t u s k" using kp(1) d(1-3) unfolding in_open_tasks due_soon_def by auto
  then show ?thesis using kp(1) d unfolding in_open_tasks by auto
qed

lemma row_of_due_soon:
  assumes "due_soon t u s k"
  shows "\<exists>r\<in>set (List.map_filter (reminder_row t) (open_tasks u s)). rem_id r = tsk_id k
    \<and> Some (rem_deadline r) = tsk_deadline k"
proof -
  obtain p d where p: "(k, p) \<in> set (open_tasks u s)" and d: "tsk_deadline k = Some d" "t \<le> d" "d < t + reminderWindow"
    using assms unfolding due_soon_def in_open_tasks by auto
  then have "reminder_row t (k, p) = Some \<lparr>rem_id = tsk_id k, rem_project_id = tsk_project_id k, rem_title = tsk_title k,
           rem_project = prj_name p, rem_deadline = d, rem_days_left = daysLeft t d\<rparr>"
    by (simp add: reminder_row_def)
  then show ?thesis using p d(1) unfolding set_map_filter_eq by force
qed

lemma take_sorted_first:
  assumes "x \<in> set (take n (sort_key f xs))" "y \<in> set xs" "y \<notin> set (take n (sort_key f xs))"
  shows "f x \<le> f y"
proof -
  have "y \<in> set (drop n (sort_key f xs))"
    using assms(2,3) by (metis Un_iff append_take_drop_id set_append set_sort)
  moreover have "sorted (map f (take n (sort_key f xs) @ drop n (sort_key f xs)))" by simp
  ultimately show ?thesis using assms(1) unfolding map_append sorted_append by auto
qed




definition due_db :: db where
  "due_db = sample_db\<lparr>tasks := [(sample_task 1 1 0)\<lparr>tsk_deadline := Some 60\<rparr>, sample_task 2 1 1]\<rparr>"

lemma due_db_reminders:
  "dash_Reminders sample_env 1 due_db = Inr [\<lparr>rem_id = 1, rem_project_id = 1, rem_title = ''w'',
     rem_project = prj_name (sample_project 1 1 ''active''), rem_deadline = 60, rem_days_left = 1\<rparr>]"
  by (simp add: dash_Reminders_def dash_validate_def open_tasks_def due_db_def sample_defs sample_env_def
      sql_def no_faults_def List.map_filter_simps reminder_row_def reminderWindow_def daysLeft_def day_def
      sql_page_def reminderLimit_def Let_def)


end
