(* ===== verification/Http.thy ===== *)
theory Http
  imports AuthService AiStream
begin

text \<open>
  The HTTP side that every route shares: the request and the reply as gin presents them, the
  envelope of \<open>pkg/response\<close>, the helpers of \<open>internal/handler/common\<close> and the middleware of
  \<open>internal/handler/middleware\<close>. A handler maps the request's context and the state of the
  server to a reply and a new state; a middleware maps a handler to a handler. gin matches the
  path, parses query and cookies and validates the binding tags; what it found is part of the
  request, what it decides is a parameter (\<open>request_binder\<close>).
\<close>

section \<open>Requests\<close>

text \<open>
  \<open>rq_route\<close> is the pattern gin matched (\<open>c.FullPath()\<close>), empty if none; a header that is
  missing is empty. The body is the bytes that arrive, with the error that ended them if they
  did not simply end.
\<close>

record http_request =
  rq_method :: string
  rq_route :: string
  rq_param :: "string \<Rightarrow> string"
  rq_header :: "string \<Rightarrow> string"
  rq_cookie :: "string \<Rightarrow> string option"
  rq_query :: "string \<Rightarrow> string"
  rq_body :: body_stream
  rq_client_ip :: string
  rq_tls :: bool
  rq_host :: string
  rq_uri :: string

record principal =
  p_user_id :: int
  p_email :: string
  p_nickname :: string

datatype auth_source = AuthSourceBearer | AuthSourceCookie

text \<open>\<open>gin.Context\<close>: the request, what the middleware stored, and the limit set on the body.\<close>

record gin_context =
  gc_request :: http_request
  gc_principal :: "principal option"
  gc_source :: "auth_source option"
  gc_body_limit :: "int option"

section \<open>Replies\<close>

text \<open>An entry of \<open>Set-Cookie\<close>; all cookies are \<open>SameSite=Lax\<close> and have no domain.\<close>

record set_cookie =
  sc_name :: string
  sc_value :: string
  sc_max_age :: int
  sc_path :: string
  sc_secure :: bool
  sc_http_only :: bool

datatype 'd reply_body =
    Envelope int string "'d option"
  | EventStream chat_request
  | NoBody

record 'd http_reply =
  reply_status :: int
  reply_body :: "'d reply_body"
  reply_headers :: "string \<rightharpoonup> string"
  reply_cookies :: "set_cookie list"

type_synonym ('d, 'w) handler = "gin_context \<Rightarrow> 'w \<Rightarrow> 'd http_reply \<times> 'w"

definition plain_reply :: "int \<Rightarrow> 'd reply_body \<Rightarrow> 'd http_reply" where
  "plain_reply st b = \<lparr>reply_status = st, reply_body = b, reply_headers = Map.empty, reply_cookies = []\<rparr>"

definition Success :: "int \<Rightarrow> 'd option \<Rightarrow> 'd http_reply" where
  "Success st d = plain_reply st (Envelope 0 ''ok'' d)"

definition Error_reply :: "int \<Rightarrow> int \<Rightarrow> string \<Rightarrow> 'd http_reply" where
  "Error_reply st code msg = plain_reply st (Envelope code msg None)"

definition envelope :: "error_response \<Rightarrow> 'd http_reply" where
  "envelope r = Error_reply (http_status r) (biz_code r) (message r)"

definition WriteError :: "error \<Rightarrow> 'd http_reply" where
  "WriteError err = envelope (write_error err)"

definition writeAuthError :: "error \<Rightarrow> 'd http_reply" where
  "writeAuthError err = envelope (write_auth_error err)"

text \<open>\<open>c.Header\<close> before the rest of the chain runs: what runs later may set it again.\<close>

definition with_header :: "string \<Rightarrow> string \<Rightarrow> 'd http_reply \<Rightarrow> 'd http_reply" where
  "with_header n v rp = rp\<lparr>reply_headers := [n \<mapsto> v] ++ reply_headers rp\<rparr>"

definition add_cookies :: "set_cookie list \<Rightarrow> 'd http_reply \<Rightarrow> 'd http_reply" where
  "add_cookies cs rp = rp\<lparr>reply_cookies := cs @ reply_cookies rp\<rparr>"

section \<open>Binding\<close>

text \<open>
  What a JSON decoder finds at the front of a stream: a value and what follows it, bytes that
  end before the value does, or bytes that are no JSON.
\<close>

datatype next_value = Value json string | Incomplete | NoJson

datatype binding_error =
    BodyTooLarge
  | UnreadableBody
  | SecondValue
  | TrailingBytes
  | InvalidRequest

text \<open>
  The tags of the validator, by the type they stand at; \<open>omitempty\<close>, which skips the others
  on a zero value, is written out where it is used.
\<close>

record validator =
  v_required_text :: "string \<Rightarrow> bool"
  v_required_int :: "int \<Rightarrow> bool"
  v_required_list :: "nat option \<Rightarrow> bool"
  v_min_text :: "nat \<Rightarrow> string \<Rightarrow> bool"
  v_max_text :: "nat \<Rightarrow> string \<Rightarrow> bool"
  v_min_int :: "int \<Rightarrow> int \<Rightarrow> bool"
  v_max_int :: "int \<Rightarrow> int \<Rightarrow> bool"
  v_gt_int :: "int \<Rightarrow> int \<Rightarrow> bool"
  v_min_list :: "nat \<Rightarrow> nat \<Rightarrow> bool"
  v_max_list :: "nat \<Rightarrow> nat \<Rightarrow> bool"
  v_oneof :: "string list \<Rightarrow> string \<Rightarrow> bool"
  v_email :: "string \<Rightarrow> bool"

text \<open>
  The form binding of one integer, the first JSON value of a stream, and the text of an error
  the libraries report.
\<close>

record request_binder =
  b_tags :: validator
  b_int :: "string \<Rightarrow> int option"
  b_next :: "string \<Rightarrow> next_value"
  b_text :: "binding_error \<Rightarrow> string"

text \<open>\<open>http.MaxBytesReader\<close>: the bytes up to the limit, and whether it cut them.\<close>

definition limited_body :: "gin_context \<Rightarrow> string \<times> bool" where
  "limited_body c =
     (let b = fst (rq_body (gc_request c)) in
      case gc_body_limit c of
        None \<Rightarrow> (b, False)
      | Some n \<Rightarrow> if int (length b) \<le> n then (b, False) else (take (nat n) b, True))"

text \<open>\<open>decoder.Decode\<close> of the first value, with what follows it.\<close>

definition decode_first ::
  "request_binder \<Rightarrow> (string \<Rightarrow> json \<Rightarrow> 'a \<Rightarrow> 'a option) \<Rightarrow> 'a \<Rightarrow> gin_context \<Rightarrow> binding_error + 'a \<times> string" where
  "decode_first bi f zero c =
     (let (bytes, cut) = limited_body c in
      case b_next bi bytes of
        Value j rest \<Rightarrow>
          (case unmarshal_struct f zero j of None \<Rightarrow> Inl UnreadableBody | Some x \<Rightarrow> Inr (x, rest))
      | Incomplete \<Rightarrow> Inl (if cut then BodyTooLarge else UnreadableBody)
      | NoJson \<Rightarrow> Inl UnreadableBody)"

text \<open>\<open>c.ShouldBindJSON\<close>: what follows the first value is not looked at.\<close>

definition ShouldBindJSON ::
  "request_binder \<Rightarrow> (string \<Rightarrow> json \<Rightarrow> 'a \<Rightarrow> 'a option) \<Rightarrow> 'a \<Rightarrow> (validator \<Rightarrow> 'a \<Rightarrow> bool) \<Rightarrow> gin_context
     \<Rightarrow> binding_error + 'a" where
  "ShouldBindJSON bi f zero valid c =
     (case decode_first bi f zero c of
        Inl err \<Rightarrow> Inl err
      | Inr (x, _) \<Rightarrow> if valid (b_tags bi) x then Inr x else Inl InvalidRequest)"

text \<open>
  \<open>BindJSONStrict\<close>: a second \<open>Decode\<close>, into a struct without fields, has to find the end of
  the body; it succeeds on an empty object and on \<open>null\<close>.
\<close>

definition BindJSONStrict ::
  "request_binder \<Rightarrow> (string \<Rightarrow> json \<Rightarrow> 'a \<Rightarrow> 'a option) \<Rightarrow> 'a \<Rightarrow> (validator \<Rightarrow> 'a \<Rightarrow> bool) \<Rightarrow> gin_context
     \<Rightarrow> binding_error + 'a" where
  "BindJSONStrict bi f zero valid c =
     (case decode_first bi f zero c of
        Inl err \<Rightarrow> Inl err
      | Inr (x, rest) \<Rightarrow>
          if list_all json_space rest then
            (if snd (limited_body c) then Inl BodyTooLarge
             else if snd (rq_body (gc_request c)) \<noteq> None then Inl TrailingBytes
             else if valid (b_tags bi) x then Inr x else Inl InvalidRequest)
          else
            (case b_next bi rest of
               Value j _ \<Rightarrow> Inl (if j = JObj [] \<or> j = JNull then SecondValue else TrailingBytes)
             | Incomplete \<Rightarrow> Inl (if snd (limited_body c) then BodyTooLarge else TrailingBytes)
             | NoJson \<Rightarrow> Inl TrailingBytes))"

definition WriteBindingError :: "request_binder \<Rightarrow> binding_error \<Rightarrow> 'd http_reply" where
  "WriteBindingError bi err =
     (case err of
        BodyTooLarge \<Rightarrow> Error_reply 413 CodePayloadTooLarge ''request body too large''
      | SecondValue \<Rightarrow> Error_reply 400 CodeBadRequest ''request body must contain a single JSON object''
      | _ \<Rightarrow> Error_reply 400 CodeBadRequest (b_text bi err))"

text \<open>The same error where the handler answers 400 whatever it is.\<close>

definition bad_request :: "request_binder \<Rightarrow> binding_error \<Rightarrow> 'd http_reply" where
  "bad_request bi err = Error_reply 400 CodeBadRequest (b_text bi err)"

definition PathID :: "gin_context \<Rightarrow> string \<Rightarrow> error + int" where
  "PathID c name =
     (case parse_int64 (rq_param (gc_request c) name) of
        None \<Rightarrow> Inl ErrInvalidInput
      | Some i \<Rightarrow> if i \<le> 0 then Inl ErrInvalidInput else Inr i)"

section \<open>Who is asking\<close>

fun fields_loop :: "string \<Rightarrow> (nat \<times> string) list \<Rightarrow> string list" where
  "fields_loop cur [] = (if cur = [] then [] else [cur])"
| "fields_loop cur (x # xs) =
     (if is_space (fst x) then (if cur = [] then fields_loop [] xs else cur # fields_loop [] xs)
      else fields_loop (cur @ snd x) xs)"

text \<open>\<open>strings.Fields\<close>.\<close>

definition Fields :: "string \<Rightarrow> string list" where
  "Fields s = fields_loop [] (segments s)"

definition bearerToken :: "string \<Rightarrow> string option" where
  "bearerToken header =
     (case Fields header of
        [scheme, token] \<Rightarrow> if fold_key scheme = ''bearer'' then Some token else None
      | _ \<Rightarrow> None)"

definition AccessCookieName :: string where "AccessCookieName = ''access_token''"

definition RefreshCookieName :: string where "RefreshCookieName = ''refresh_token''"

definition CSRFCookieName :: string where "CSRFCookieName = ''csrf_token''"

definition CSRFHeaderName :: string where "CSRFHeaderName = ''X-CSRF-Token''"

definition writeUnauthorizedMessage :: "string \<Rightarrow> 'd http_reply" where
  "writeUnauthorizedMessage m = Error_reply 401 CodeUnauthorized m"

definition writeUnauthorized :: "'d http_reply" where
  "writeUnauthorized = writeUnauthorizedMessage ''invalid or missing access token''"

definition writeCSRFForbidden :: "'d http_reply" where
  "writeCSRFForbidden = Error_reply 403 CodeForbidden ''invalid or missing csrf token''"

text \<open>The token of a request and where it came from; a header of only blanks counts as none.\<close>

definition request_token :: "http_request \<Rightarrow> auth_source \<times> string option" where
  "request_token rq =
     (let authorization = trim_space (rq_header rq ''Authorization'') in
      if authorization \<noteq> [] then (AuthSourceBearer, bearerToken authorization)
      else (AuthSourceCookie, rq_cookie rq AccessCookieName))"

definition authenticate :: "auth_lib \<Rightarrow> auth_conf \<Rightarrow> int \<Rightarrow> http_request \<Rightarrow> (principal \<times> auth_source) option" where
  "authenticate lib conf t rq =
     (case request_token rq of
        (source, None) \<Rightarrow> None
      | (source, Some token) \<Rightarrow>
          if trim_space token = [] \<or> jwt_manager conf = None then None
          else
            (case ParseToken (al_crypto lib) (al_json lib) (jwt_manager conf) t token of
               Inl err \<Rightarrow> None
             | Inr cl \<Rightarrow>
                 if cl_user_id cl \<le> 0 then None
                 else Some (\<lparr>p_user_id = cl_user_id cl, p_email = cl_email cl, p_nickname = cl_nickname cl\<rparr>,
                            source)))"

definition RequireAuth :: "auth_lib \<Rightarrow> auth_conf \<Rightarrow> int \<Rightarrow> ('d, 'w) handler \<Rightarrow> ('d, 'w) handler" where
  "RequireAuth lib conf t next c w =
     (case authenticate lib conf t (gc_request c) of
        None \<Rightarrow> (writeUnauthorized, w)
      | Some (p, source) \<Rightarrow> next (c\<lparr>gc_principal := Some p, gc_source := Some source\<rparr>) w)"

definition PrincipalFrom :: "gin_context \<Rightarrow> principal option" where
  "PrincipalFrom c =
     (case gc_principal c of Some p \<Rightarrow> if 0 < p_user_id p then Some p else None | None \<Rightarrow> None)"

definition RequireCookieAccess :: "('d, 'w) handler \<Rightarrow> ('d, 'w) handler" where
  "RequireCookieAccess next c w =
     (if gc_source c \<noteq> Some AuthSourceCookie
        then (writeUnauthorizedMessage ''access cookie required'', w)
      else next c w)"

definition csrfSafeMethod :: "string \<Rightarrow> bool" where
  "csrfSafeMethod m \<longleftrightarrow> m = ''GET'' \<or> m = ''HEAD'' \<or> m = ''OPTIONS''"

text \<open>The comparison takes the same time whatever the header is; its result is that of \<open>=\<close>.\<close>

definition validCSRF :: "http_request \<Rightarrow> bool" where
  "validCSRF rq \<longleftrightarrow>
     (case rq_cookie rq CSRFCookieName of
        None \<Rightarrow> False
      | Some cookieToken \<Rightarrow>
          cookieToken \<noteq> []
          \<and> (let headerToken = rq_header rq CSRFHeaderName in
               headerToken \<noteq> [] \<and> length cookieToken = length headerToken \<and> cookieToken = headerToken))"

definition RequireCSRFForCookieAuth :: "('d, 'w) handler \<Rightarrow> ('d, 'w) handler" where
  "RequireCSRFForCookieAuth next c w =
     (if gc_source c \<noteq> Some AuthSourceCookie \<or> csrfSafeMethod (rq_method (gc_request c)) then next c w
      else if \<not> validCSRF (gc_request c) then (writeCSRFForbidden, w)
      else next c w)"

definition RequireCookieCSRF :: "string \<Rightarrow> ('d, 'w) handler \<Rightarrow> ('d, 'w) handler" where
  "RequireCookieCSRF cookieName next c w =
     (if rq_cookie (gc_request c) cookieName = None
        then (writeUnauthorizedMessage ''invalid or missing refresh token'', w)
      else if \<not> csrfSafeMethod (rq_method (gc_request c)) \<and> \<not> validCSRF (gc_request c)
        then (writeCSRFForbidden, w)
      else next c w)"

section \<open>Headers and limits\<close>

definition LimitRequestBody :: "int \<Rightarrow> ('d, 'w) handler \<Rightarrow> ('d, 'w) handler" where
  "LimitRequestBody maxBytes next c w = next (c\<lparr>gc_body_limit := Some maxBytes\<rparr>) w"

definition allowed_origins :: "string list \<Rightarrow> string set" where
  "allowed_origins origins = set (filter (\<lambda>x. x \<noteq> []) (map trim_space origins))"

definition CORS :: "string list \<Rightarrow> ('d, 'w) handler \<Rightarrow> ('d, 'w) handler" where
  "CORS origins next c w =
     (let origin = rq_header (gc_request c) ''Origin'';
          (rp, w') = (if rq_method (gc_request c) = ''OPTIONS'' then (plain_reply 204 NoBody, w) else next c w);
          rp1 = with_header ''Access-Control-Allow-Methods'' ''GET, POST, PUT, DELETE, PATCH, OPTIONS''
                 (with_header ''Access-Control-Allow-Headers''
                    ''Authorization, Content-Type, X-CSRF-Token, X-Request-ID'' rp) in
      (if origin \<noteq> [] \<and> origin \<in> allowed_origins origins
         then with_header ''Access-Control-Allow-Origin'' origin
                (with_header ''Access-Control-Allow-Credentials'' ''true'' rp1)
       else rp1, w'))"

definition requestIsHTTPS :: "http_request \<Rightarrow> bool" where
  "requestIsHTTPS rq \<longleftrightarrow> rq_tls rq
     \<or> fold_key (trim_space (takeWhile (\<lambda>ch. ch \<noteq> CHR '','') (rq_header rq ''X-Forwarded-Proto''))) = ''https''"

definition Secure :: "bool \<Rightarrow> ('d, 'w) handler \<Rightarrow> ('d, 'w) handler" where
  "Secure enabled next c w =
     (let rq = gc_request c in
      if \<not> enabled then next c w
      else if requestIsHTTPS rq then
        (case next c w of
           (rp, w') \<Rightarrow> (with_header ''Strict-Transport-Security'' ''max-age=31536000; includeSubDomains'' rp, w'))
      else (with_header ''Location'' (''https://'' @ rq_host rq @ rq_uri rq) (plain_reply 308 NoBody), w))"

definition NoCache :: "('d, 'w) handler \<Rightarrow> ('d, 'w) handler" where
  "NoCache next c w =
     (case next c w of
        (rp, w') \<Rightarrow> (with_header ''Cache-Control'' ''no-store, no-cache, must-revalidate, private''
                      (with_header ''Pragma'' ''no-cache'' (with_header ''Expires'' ''0'' rp)), w'))"

end
