(* ===== verification/Requests.thy ===== *)
theory Requests
  imports Http AiChat Dashboard DocumentService ProjectService TaskService ParseResultService
begin

text \<open>
  The request types of \<open>internal/types\<close> as they arrive: how \<open>encoding/json\<close> fills each
  struct from an object (a field at a time, unknown names refused where the decoder is strict)
  and the binding tags it then has to pass; for the lists, the form values of the query.
\<close>

section \<open>Fields\<close>

definition unknown_field :: "bool \<Rightarrow> 'a \<Rightarrow> 'a option" where
  "unknown_field strict x = (if strict then None else Some x)"

definition unmarshal_int32 :: "int \<Rightarrow> json \<Rightarrow> int option" where
  "unmarshal_int32 old j =
     (case unmarshal_int64 old j of
        None \<Rightarrow> None
      | Some n \<Rightarrow> if - 2147483648 \<le> n \<and> n < 2147483648 then Some n else None)"

text \<open>\<open>OptionalString.UnmarshalJSON\<close>: a field that is there is set, \<open>null\<close> or not.\<close>

definition unmarshal_optional :: "json \<Rightarrow> optional_string option" where
  "unmarshal_optional j =
     (case j of
        JNull \<Rightarrow> Some \<lparr>os_set = True, os_value = None\<rparr>
      | JStr s \<Rightarrow> Some \<lparr>os_set = True, os_value = Some s\<rparr>
      | _ \<Rightarrow> None)"

definition optional_max :: "validator \<Rightarrow> nat \<Rightarrow> string option \<Rightarrow> bool" where
  "optional_max v n x = (case x of None \<Rightarrow> True | Some s \<Rightarrow> v_max_text v n s)"

section \<open>Accounts\<close>

definition register_field :: "string \<Rightarrow> json \<Rightarrow> register_request \<Rightarrow> register_request option" where
  "register_field k v r =
     (if k = ''email'' then map_option (\<lambda>s. r\<lparr>rr_email := s\<rparr>) (unmarshal_text (rr_email r) v)
      else if k = ''password'' then map_option (\<lambda>s. r\<lparr>rr_password := s\<rparr>) (unmarshal_text (rr_password r) v)
      else if k = ''nickname'' then map_option (\<lambda>s. r\<lparr>rr_nickname := s\<rparr>) (unmarshal_text (rr_nickname r) v)
      else unknown_field False r)"

definition zero_register :: register_request where
  "zero_register = \<lparr>rr_email = [], rr_password = [], rr_nickname = []\<rparr>"

definition register_valid :: "validator \<Rightarrow> register_request \<Rightarrow> bool" where
  "register_valid v r \<longleftrightarrow>
     v_required_text v (rr_email r) \<and> v_email v (rr_email r)
     \<and> v_required_text v (rr_password r) \<and> v_min_text v 8 (rr_password r)
     \<and> v_required_text v (rr_nickname r) \<and> v_min_text v 1 (rr_nickname r) \<and> v_max_text v 64 (rr_nickname r)"

definition login_field :: "string \<Rightarrow> json \<Rightarrow> login_request \<Rightarrow> login_request option" where
  "login_field k v r =
     (if k = ''email'' then map_option (\<lambda>s. r\<lparr>lr_email := s\<rparr>) (unmarshal_text (lr_email r) v)
      else if k = ''password'' then map_option (\<lambda>s. r\<lparr>lr_password := s\<rparr>) (unmarshal_text (lr_password r) v)
      else unknown_field False r)"

definition zero_login :: login_request where
  "zero_login = \<lparr>lr_email = [], lr_password = []\<rparr>"

definition login_valid :: "validator \<Rightarrow> login_request \<Rightarrow> bool" where
  "login_valid v r \<longleftrightarrow>
     v_required_text v (lr_email r) \<and> v_email v (lr_email r)
     \<and> v_required_text v (lr_password r) \<and> v_min_text v 8 (lr_password r)"

definition update_user_field :: "string \<Rightarrow> json \<Rightarrow> update_user_request \<Rightarrow> update_user_request option" where
  "update_user_field k v r =
     (if k = ''nickname'' then map_option (\<lambda>x. r\<lparr>uu_nickname := x\<rparr>) (unmarshal_optional v)
      else if k = ''avatar_url'' then map_option (\<lambda>x. r\<lparr>uu_avatar_url := x\<rparr>) (unmarshal_optional v)
      else unknown_field True r)"

definition zero_update_user :: update_user_request where
  "zero_update_user =
     \<lparr>uu_nickname = \<lparr>os_set = False, os_value = None\<rparr>, uu_avatar_url = \<lparr>os_set = False, os_value = None\<rparr>\<rparr>"

section \<open>Documents, jobs and results\<close>

definition create_text_field :: "string \<Rightarrow> json \<Rightarrow> create_text_request \<Rightarrow> create_text_request option" where
  "create_text_field k v r =
     (if k = ''title'' then map_option (\<lambda>s. r\<lparr>ctd_title := s\<rparr>) (unmarshal_text (ctd_title r) v)
      else if k = ''text'' then map_option (\<lambda>s. r\<lparr>ctd_text := s\<rparr>) (unmarshal_text (ctd_text r) v)
      else unknown_field False r)"

definition zero_create_text :: create_text_request where
  "zero_create_text = \<lparr>ctd_title = [], ctd_text = []\<rparr>"

definition create_text_valid :: "validator \<Rightarrow> create_text_request \<Rightarrow> bool" where
  "create_text_valid v r \<longleftrightarrow>
     v_required_text v (ctd_title r) \<and> v_max_text v 255 (ctd_title r)
     \<and> v_required_text v (ctd_text r) \<and> v_max_text v 50000 (ctd_text r)"

definition page_valid :: "validator \<Rightarrow> int \<Rightarrow> int \<Rightarrow> bool" where
  "page_valid v page size' \<longleftrightarrow>
     (page = 0 \<or> v_min_int v 1 page \<and> v_max_int v 1000000 page)
     \<and> (size' = 0 \<or> v_min_int v 1 size' \<and> v_max_int v 100 size')"

text \<open>A form value of type \<open>int\<close>; a missing one is zero.\<close>

definition query_int :: "request_binder \<Rightarrow> gin_context \<Rightarrow> string \<Rightarrow> int option" where
  "query_int bi c name =
     (let x = rq_query (gc_request c) name in if x = [] then Some 0 else b_int bi x)"

definition bind_page :: "request_binder \<Rightarrow> gin_context \<Rightarrow> binding_error + int \<times> int" where
  "bind_page bi c =
     (case (query_int bi c ''page'', query_int bi c ''page_size'') of
        (Some p, Some n) \<Rightarrow> if page_valid (b_tags bi) p n then Inr (p, n) else Inl InvalidRequest
      | _ \<Rightarrow> Inl UnreadableBody)"

definition create_job_field :: "string \<Rightarrow> json \<Rightarrow> int \<Rightarrow> int option" where
  "create_job_field k v i = (if k = ''document_id'' then unmarshal_int64 i v else unknown_field False i)"

definition create_job_valid :: "validator \<Rightarrow> int \<Rightarrow> bool" where
  "create_job_valid v i \<longleftrightarrow> v_required_int v i \<and> v_gt_int v 0 i"

definition review_field ::
  "time_codec \<Rightarrow> string \<Rightarrow> json \<Rightarrow> update_parse_result_request \<Rightarrow> update_parse_result_request option" where
  "review_field c k v r =
     (if k = ''version'' then map_option (\<lambda>x. r\<lparr>urr_version := x\<rparr>) (unmarshal_int32 (urr_version r) v)
      else if k = ''title'' then map_option (\<lambda>x. r\<lparr>urr_title := x\<rparr>) (unmarshal_text (urr_title r) v)
      else if k = ''summary'' then map_option (\<lambda>x. r\<lparr>urr_summary := x\<rparr>) (unmarshal_text (urr_summary r) v)
      else if k = ''deadline'' then map_option (\<lambda>x. r\<lparr>urr_deadline := x\<rparr>) (unmarshal_time_ptr c v)
      else if k = ''deliverables'' then map_option (\<lambda>x. r\<lparr>urr_deliverables := x\<rparr>) (unmarshal_strings v)
      else if k = ''key_requirements'' then map_option (\<lambda>x. r\<lparr>urr_key_requirements := x\<rparr>) (unmarshal_strings v)
      else if k = ''risk_warnings'' then map_option (\<lambda>x. r\<lparr>urr_risk_warnings := x\<rparr>) (unmarshal_strings v)
      else if k = ''generated_tasks'' then map_option (\<lambda>x. r\<lparr>urr_generated_tasks := x\<rparr>) (unmarshal_tasks c False v)
      else unknown_field False r)"

definition zero_review :: update_parse_result_request where
  "zero_review = \<lparr>urr_version = 0, urr_title = [], urr_summary = [], urr_deadline = None, urr_deliverables = None,
     urr_key_requirements = None, urr_risk_warnings = None, urr_generated_tasks = None\<rparr>"

definition strings_valid :: "validator \<Rightarrow> nat \<Rightarrow> string list option \<Rightarrow> bool" where
  "strings_valid v n xs \<longleftrightarrow>
     v_required_list v (map_option length xs) \<and> v_max_list v n (length (or_empty xs))
     \<and> list_all (\<lambda>s. v_required_text v s \<and> v_max_text v 1000 s) (or_empty xs)"

definition generated_task_valid :: "validator \<Rightarrow> generated_task \<Rightarrow> bool" where
  "generated_task_valid v t \<longleftrightarrow>
     v_required_text v (gt_title t) \<and> v_max_text v 255 (gt_title t)
     \<and> (gt_priority t = [] \<or> v_oneof v [''low'', ''medium'', ''high''] (gt_priority t))"

definition review_valid :: "validator \<Rightarrow> update_parse_result_request \<Rightarrow> bool" where
  "review_valid v r \<longleftrightarrow>
     v_required_int v (urr_version r) \<and> v_min_int v 1 (urr_version r)
     \<and> v_required_text v (urr_title r) \<and> v_max_text v 255 (urr_title r)
     \<and> v_required_text v (urr_summary r) \<and> v_max_text v 5000 (urr_summary r)
     \<and> strings_valid v 50 (urr_deliverables r) \<and> strings_valid v 100 (urr_key_requirements r)
     \<and> strings_valid v 50 (urr_risk_warnings r)
     \<and> v_required_list v (map_option length (urr_generated_tasks r))
     \<and> v_max_list v 100 (length (or_empty (urr_generated_tasks r)))
     \<and> list_all (generated_task_valid v) (or_empty (urr_generated_tasks r))"

section \<open>Projects and tasks\<close>

definition create_project_field :: "string \<Rightarrow> json \<Rightarrow> create_project_request \<Rightarrow> create_project_request option" where
  "create_project_field k v r =
     (if k = ''parse_result_id''
        then map_option (\<lambda>x. r\<lparr>cpr_parse_result_id := x\<rparr>) (unmarshal_int64 (cpr_parse_result_id r) v)
      else if k = ''name'' then map_option (\<lambda>x. r\<lparr>cpr_name := x\<rparr>) (unmarshal_text (cpr_name r) v)
      else unknown_field True r)"

definition zero_create_project :: create_project_request where
  "zero_create_project = \<lparr>cpr_parse_result_id = 0, cpr_name = []\<rparr>"

definition create_project_valid :: "validator \<Rightarrow> create_project_request \<Rightarrow> bool" where
  "create_project_valid v r \<longleftrightarrow>
     v_required_int v (cpr_parse_result_id r) \<and> v_min_int v 1 (cpr_parse_result_id r)
     \<and> v_required_text v (cpr_name r) \<and> v_max_text v 255 (cpr_name r)"

definition update_project_field ::
  "time_codec \<Rightarrow> string \<Rightarrow> json \<Rightarrow> update_project_request \<Rightarrow> update_project_request option" where
  "update_project_field c k v r =
     (if k = ''version'' then map_option (\<lambda>x. r\<lparr>upr_version := x\<rparr>) (unmarshal_int32 (upr_version r) v)
      else if k = ''name'' then map_option (\<lambda>x. r\<lparr>upr_name := x\<rparr>) (unmarshal_text (upr_name r) v)
      else if k = ''description'' then map_option (\<lambda>x. r\<lparr>upr_description := x\<rparr>) (unmarshal_text_ptr v)
      else if k = ''deadline'' then map_option (\<lambda>x. r\<lparr>upr_deadline := x\<rparr>) (unmarshal_time_ptr c v)
      else unknown_field True r)"

definition zero_update_project :: update_project_request where
  "zero_update_project = \<lparr>upr_version = 0, upr_name = [], upr_description = None, upr_deadline = None\<rparr>"

definition update_project_valid :: "validator \<Rightarrow> update_project_request \<Rightarrow> bool" where
  "update_project_valid v r \<longleftrightarrow>
     v_required_int v (upr_version r) \<and> v_min_int v 1 (upr_version r)
     \<and> v_required_text v (upr_name r) \<and> v_max_text v 255 (upr_name r) \<and> optional_max v 5000 (upr_description r)"

text \<open>The list requests; the third argument of \<open>bind_list\<close> is the \<open>oneof\<close> of the status.\<close>

definition bind_list :: "request_binder \<Rightarrow> gin_context \<Rightarrow> string list \<Rightarrow> binding_error + project_list_request" where
  "bind_list bi c statuses =
     (let status = rq_query (gc_request c) ''status'' in
      case (query_int bi c ''page'', query_int bi c ''page_size'') of
        (Some p, Some n) \<Rightarrow>
          if page_valid (b_tags bi) p n \<and> (status = [] \<or> v_oneof (b_tags bi) statuses status)
            then Inr \<lparr>plr_page = p, plr_page_size = n, plr_status = status\<rparr>
          else Inl InvalidRequest
      | _ \<Rightarrow> Inl UnreadableBody)"

definition bind_task_list :: "request_binder \<Rightarrow> gin_context \<Rightarrow> binding_error + task_list_request" where
  "bind_task_list bi c =
     (let status = rq_query (gc_request c) ''status'' in
      if status = [] \<or> v_oneof (b_tags bi) [''todo'', ''doing'', ''done''] status
        then Inr \<lparr>tlr_status = status\<rparr> else Inl InvalidRequest)"

definition create_task_field ::
  "time_codec \<Rightarrow> string \<Rightarrow> json \<Rightarrow> create_task_request \<Rightarrow> create_task_request option" where
  "create_task_field c k v r =
     (if k = ''title'' then map_option (\<lambda>x. r\<lparr>ctr_title := x\<rparr>) (unmarshal_text (ctr_title r) v)
      else if k = ''description'' then map_option (\<lambda>x. r\<lparr>ctr_description := x\<rparr>) (unmarshal_text_ptr v)
      else if k = ''priority'' then map_option (\<lambda>x. r\<lparr>ctr_priority := x\<rparr>) (unmarshal_text (ctr_priority r) v)
      else if k = ''deadline'' then map_option (\<lambda>x. r\<lparr>ctr_deadline := x\<rparr>) (unmarshal_time_ptr c v)
      else unknown_field True r)"

definition zero_create_task :: create_task_request where
  "zero_create_task = \<lparr>ctr_title = [], ctr_description = None, ctr_priority = [], ctr_deadline = None\<rparr>"

definition task_fields_valid :: "validator \<Rightarrow> string \<Rightarrow> string option \<Rightarrow> string \<Rightarrow> bool" where
  "task_fields_valid v title description priority \<longleftrightarrow>
     v_required_text v title \<and> v_max_text v 255 title \<and> optional_max v 2000 description
     \<and> v_required_text v priority \<and> v_oneof v [''low'', ''medium'', ''high''] priority"

definition create_task_valid :: "validator \<Rightarrow> create_task_request \<Rightarrow> bool" where
  "create_task_valid v r \<longleftrightarrow> task_fields_valid v (ctr_title r) (ctr_description r) (ctr_priority r)"

definition update_task_field ::
  "time_codec \<Rightarrow> string \<Rightarrow> json \<Rightarrow> update_task_request \<Rightarrow> update_task_request option" where
  "update_task_field c k v r =
     (if k = ''version'' then map_option (\<lambda>x. r\<lparr>utr_version := x\<rparr>) (unmarshal_int32 (utr_version r) v)
      else if k = ''title'' then map_option (\<lambda>x. r\<lparr>utr_title := x\<rparr>) (unmarshal_text (utr_title r) v)
      else if k = ''description'' then map_option (\<lambda>x. r\<lparr>utr_description := x\<rparr>) (unmarshal_text_ptr v)
      else if k = ''priority'' then map_option (\<lambda>x. r\<lparr>utr_priority := x\<rparr>) (unmarshal_text (utr_priority r) v)
      else if k = ''deadline'' then map_option (\<lambda>x. r\<lparr>utr_deadline := x\<rparr>) (unmarshal_time_ptr c v)
      else unknown_field True r)"

definition zero_update_task :: update_task_request where
  "zero_update_task = \<lparr>utr_version = 0, utr_title = [], utr_description = None, utr_priority = [], utr_deadline = None\<rparr>"

definition update_task_valid :: "validator \<Rightarrow> update_task_request \<Rightarrow> bool" where
  "update_task_valid v r \<longleftrightarrow>
     v_required_int v (utr_version r) \<and> v_min_int v 1 (utr_version r)
     \<and> task_fields_valid v (utr_title r) (utr_description r) (utr_priority r)"

definition task_status_field :: "string \<Rightarrow> json \<Rightarrow> update_task_status_request \<Rightarrow> update_task_status_request option" where
  "task_status_field k v r =
     (if k = ''status'' then map_option (\<lambda>x. r\<lparr>uts_status := x\<rparr>) (unmarshal_text (uts_status r) v)
      else unknown_field True r)"

definition task_status_valid :: "validator \<Rightarrow> update_task_status_request \<Rightarrow> bool" where
  "task_status_valid v r \<longleftrightarrow>
     v_required_text v (uts_status r) \<and> v_oneof v [''todo'', ''doing'', ''done''] (uts_status r)"

definition reorder_field :: "string \<Rightarrow> json \<Rightarrow> reorder_tasks_request \<Rightarrow> reorder_tasks_request option" where
  "reorder_field k v r =
     (if k = ''project_id'' then map_option (\<lambda>x. r\<lparr>rtr_project_id := x\<rparr>) (unmarshal_int64 (rtr_project_id r) v)
      else if k = ''task_ids'' then map_option (\<lambda>x. r\<lparr>rtr_task_ids := x\<rparr>) (unmarshal_slice (unmarshal_int64 0) v)
      else unknown_field True r)"

definition reorder_valid :: "validator \<Rightarrow> reorder_tasks_request \<Rightarrow> bool" where
  "reorder_valid v r \<longleftrightarrow> v_required_int v (rtr_project_id r) \<and> v_min_int v 1 (rtr_project_id r)"

section \<open>Chat\<close>

definition chat_message_field :: "string \<Rightarrow> json \<Rightarrow> ai_chat_message \<Rightarrow> ai_chat_message option" where
  "chat_message_field k v m =
     (if k = ''role'' then map_option (\<lambda>x. m\<lparr>acm_role := x\<rparr>) (unmarshal_text (acm_role m) v)
      else if k = ''content'' then map_option (\<lambda>x. m\<lparr>acm_content := x\<rparr>) (unmarshal_text (acm_content m) v)
      else unknown_field True m)"

definition chat_field :: "string \<Rightarrow> json \<Rightarrow> int \<times> ai_chat_message list option \<Rightarrow> (int \<times> ai_chat_message list option) option" where
  "chat_field k v r =
     (if k = ''parse_result_id'' then map_option (\<lambda>x. (x, snd r)) (unmarshal_int64 (fst r) v)
      else if k = ''messages''
        then map_option (\<lambda>x. (fst r, x))
               (unmarshal_slice (unmarshal_struct chat_message_field \<lparr>acm_role = [], acm_content = []\<rparr>) v)
      else unknown_field True r)"

definition chat_valid :: "validator \<Rightarrow> int \<times> ai_chat_message list option \<Rightarrow> bool" where
  "chat_valid v r \<longleftrightarrow>
     v_required_int v (fst r) \<and> v_gt_int v 0 (fst r)
     \<and> v_required_list v (map_option length (snd r))
     \<and> v_min_list v 1 (length (or_empty (snd r))) \<and> v_max_list v 16 (length (or_empty (snd r)))
     \<and> list_all (\<lambda>m. v_required_text v (acm_role m) \<and> v_oneof v [''user'', ''assistant''] (acm_role m)
                     \<and> v_required_text v (acm_content m)) (or_empty (snd r))"

definition chat_request_of :: "int \<times> ai_chat_message list option \<Rightarrow> ai_chat_request" where
  "chat_request_of r = \<lparr>acr_parse_result_id = fst r, acr_messages = or_empty (snd r)\<rparr>"

end
