(* ===== verification/Handlers.thy ===== *)
theory Handlers
  imports Requests System
begin

text \<open>
  The handlers of \<open>internal/handler\<close>: what each binds, in which order it checks, which
  service it calls and how it answers. The state of the server is the one of the transition
  system (\<open>app\<close>) with the keys of the two limiters.
\<close>

section \<open>The server\<close>

record world =
  w_app :: app
  w_limits :: "zset keys"
  w_chat :: chat_keys

record health_response =
  hr_status :: string
  hr_db :: bool
  hr_redis :: bool
  hr_worker :: bool

text \<open>What the \<open>data\<close> of an envelope can be.\<close>

datatype payload =
    EmptyObject
  | Health health_response
  | Auth auth_response
  | Profile user_profile
  | Stats stats_response
  | Reminders "reminder_response list"
  | Document document_response
  | Documents document_list_response
  | Job parse_job_response
  | Result parse_result_response
  | Results parse_result_history_list_response
  | NewProject create_project_response
  | Project project_response
  | Projects project_list_response
  | Task task_response
  | Tasks task_list_response

text \<open>
  \<open>svc.ServiceContext\<close> with the libraries behind it. A limit is a count, a window or a lifetime
  in seconds.
\<close>

record server =
  sv_lib :: auth_lib
  sv_auth :: auth_conf
  sv_codec :: time_codec
  sv_num :: "string \<Rightarrow> string"
  sv_files :: upload_service
  sv_chat :: chat_conf
  sv_binder :: request_binder
  sv_form :: "http_request \<Rightarrow> string \<times> bool \<Rightarrow> binding_error + (string \<times> reads) \<times> string"
  sv_cookie_secure :: bool
  sv_origins :: "string list"
  sv_limiter :: bool
  sv_register_limit :: int
  sv_register_window :: int
  sv_login_limit :: int
  sv_login_window :: int
  sv_redis :: bool
  sv_queue :: bool

text \<open>
  What a request finds outside: the environment of its statements, its random bytes, the clock
  of Redis, the member it adds to a rate limit, the date and the bytes of a file name, and
  whether a worker has left a heartbeat.
\<close>

record moment =
  m_env :: env
  m_random :: "nat \<Rightarrow> string"
  m_clock :: int
  m_member :: string
  m_today :: "nat \<times> nat"
  m_file_bytes :: "nat \<Rightarrow> nat list"
  m_heartbeat :: bool

type_synonym server_handler = "(payload, world) handler"

section \<open>Answers\<close>

text \<open>A handler that only reads, and one that changes one part of the state.\<close>

definition answer :: "int \<Rightarrow> ('a \<Rightarrow> payload) \<Rightarrow> error + 'a \<Rightarrow> payload http_reply" where
  "answer st wrap x = (case x of Inl err \<Rightarrow> WriteError err | Inr a \<Rightarrow> Success st (Some (wrap a)))"

definition on_db :: "(db \<Rightarrow> 'a \<times> db) \<Rightarrow> ('a \<Rightarrow> payload http_reply) \<Rightarrow> world \<Rightarrow> payload http_reply \<times> world" where
  "on_db f reply w =
     (case f (app_db (w_app w)) of (x, s) \<Rightarrow> (reply x, w\<lparr>w_app := (w_app w)\<lparr>app_db := s\<rparr>\<rparr>))"

definition on_queue ::
  "(db \<times> stream \<Rightarrow> 'a \<times> db \<times> stream) \<Rightarrow> ('a \<Rightarrow> payload http_reply) \<Rightarrow> world \<Rightarrow> payload http_reply \<times> world" where
  "on_queue f reply w =
     (case f (app_db (w_app w), app_stream (w_app w)) of
        (x, s, q) \<Rightarrow> (reply x, w\<lparr>w_app := (w_app w)\<lparr>app_db := s, app_stream := q\<rparr>\<rparr>))"

definition on_files ::
  "(db \<times> file_tree \<Rightarrow> 'a \<times> db \<times> file_tree) \<Rightarrow> ('a \<Rightarrow> payload http_reply) \<Rightarrow> world \<Rightarrow> payload http_reply \<times> world" where
  "on_files f reply w =
     (case f (app_db (w_app w), app_files (w_app w)) of
        (x, s, fs) \<Rightarrow> (reply x, w\<lparr>w_app := (w_app w)\<lparr>app_db := s, app_files := fs\<rparr>\<rparr>))"

definition on_accounts ::
  "(db \<times> sessions \<Rightarrow> 'a \<times> db \<times> sessions) \<Rightarrow> ('a \<Rightarrow> payload http_reply) \<Rightarrow> world \<Rightarrow> payload http_reply \<times> world" where
  "on_accounts f reply w =
     (case f (app_db (w_app w), app_sessions (w_app w)) of
        (x, s, r) \<Rightarrow> (reply x, w\<lparr>w_app := (w_app w)\<lparr>app_db := s, app_sessions := r\<rparr>\<rparr>))"

definition on_sessions ::
  "(sessions \<Rightarrow> 'a \<times> sessions) \<Rightarrow> ('a \<Rightarrow> payload http_reply) \<Rightarrow> world \<Rightarrow> payload http_reply \<times> world" where
  "on_sessions f reply w =
     (case f (app_sessions (w_app w)) of (x, r) \<Rightarrow> (reply x, w\<lparr>w_app := (w_app w)\<lparr>app_sessions := r\<rparr>\<rparr>))"

text \<open>The steps that open most handlers: the path's id, the body, the principal.\<close>

definition with_id :: "string \<Rightarrow> (int \<Rightarrow> server_handler) \<Rightarrow> server_handler" where
  "with_id name h c w = (case PathID c name of Inl err \<Rightarrow> (WriteError err, w) | Inr i \<Rightarrow> h i c w)"

definition with_request ::
  "(gin_context \<Rightarrow> binding_error + 'a) \<Rightarrow> (binding_error \<Rightarrow> payload http_reply) \<Rightarrow> ('a \<Rightarrow> server_handler)
     \<Rightarrow> server_handler" where
  "with_request bind refuse h c w = (case bind c of Inl err \<Rightarrow> (refuse err, w) | Inr r \<Rightarrow> h r c w)"

definition with_principal :: "(int \<Rightarrow> server_handler) \<Rightarrow> server_handler" where
  "with_principal h c w =
     (case PrincipalFrom c of
        None \<Rightarrow> (Error_reply 401 CodeUnauthorized ''invalid access token context'', w)
      | Some p \<Rightarrow> h (p_user_id p) c w)"

section \<open>Sessions\<close>

text \<open>
  \<open>time.Until(expiresAt).Seconds()\<close> is a float; it is exact to the nanosecond for the
  lifetimes in question, and its conversion to \<open>int\<close> truncates.
\<close>

definition refreshCookieMaxAge :: "int \<Rightarrow> int \<Rightarrow> int" where
  "refreshCookieMaxAge t expiresAt =
     (let seconds = (if t \<le> expiresAt then (expiresAt - t) div 1000000000
                     else - ((t - expiresAt) div 1000000000)) in
      if seconds < 1 then 1 else seconds)"

definition cookie :: "string \<Rightarrow> string \<Rightarrow> int \<Rightarrow> string \<Rightarrow> bool \<Rightarrow> bool \<Rightarrow> set_cookie" where
  "cookie n v age path secure http_only =
     \<lparr>sc_name = n, sc_value = v, sc_max_age = age, sc_path = path, sc_secure = secure,
      sc_http_only = http_only\<rparr>"

definition refreshCookiePath :: string where "refreshCookiePath = ''/api/v1''"

definition legacyRefreshCookiePath :: string where "legacyRefreshCookiePath = ''/api/v1/auth''"

definition setSessionCookies :: "server \<Rightarrow> moment \<Rightarrow> auth_session \<Rightarrow> error + set_cookie list" where
  "setSessionCookies sv m x =
     (case randomSegment (m_env m) (m_random m) 3 of
        Inl err \<Rightarrow> Inl err
      | Inr csrfToken \<Rightarrow>
          let secure = sv_cookie_secure sv;
              age = refreshCookieMaxAge (now (m_env m)) (as_refresh_expires_at x) in
          Inr [cookie RefreshCookieName [] (-1) legacyRefreshCookiePath secure True,
               cookie AccessCookieName (ar_access_token (as_response x)) (access_expire (sv_auth sv)) ''/'' secure True,
               cookie RefreshCookieName (as_refresh_token x) age refreshCookiePath secure True,
               cookie CSRFCookieName csrfToken age ''/'' secure False])"

definition clearSessionCookies :: "server \<Rightarrow> set_cookie list" where
  "clearSessionCookies sv =
     (let secure = sv_cookie_secure sv in
      [cookie AccessCookieName [] (-1) ''/'' secure True,
       cookie RefreshCookieName [] (-1) refreshCookiePath secure True,
       cookie RefreshCookieName [] (-1) legacyRefreshCookiePath secure True,
       cookie CSRFCookieName [] (-1) ''/'' secure False])"

text \<open>The end of every handler that opens or continues a session.\<close>

definition session_reply :: "server \<Rightarrow> moment \<Rightarrow> int \<Rightarrow> error + auth_session \<Rightarrow> payload http_reply" where
  "session_reply sv m st x =
     (case x of
        Inl err \<Rightarrow> writeAuthError err
      | Inr session \<Rightarrow>
          (case setSessionCookies sv m session of
             Inl err \<Rightarrow> WriteError err
           | Inr cookies \<Rightarrow> add_cookies cookies (Success st (Some (Auth (as_response session))))))"

definition rateLimitDigest :: "server \<Rightarrow> string \<Rightarrow> string" where
  "rateLimitDigest sv value' = hex_encode (map of_char (sha256 (al_crypto (sv_lib sv)) value'))"

definition enforceAuthRateLimit ::
  "server \<Rightarrow> moment \<Rightarrow> string \<Rightarrow> int \<Rightarrow> int \<Rightarrow> zset keys \<Rightarrow> (int \<times> error option) \<times> zset keys" where
  "enforceAuthRateLimit sv m key limit window ks =
     (if \<not> sv_limiter sv then ((0, Some ErrCacheUnavailable), ks)
      else
        (case limiter_Allow True (m_env m) (m_clock m) (m_member m) key limit window ks of
           (Inl d, ks') \<Rightarrow> ((0, Some (Detailf ErrCacheUnavailable (''enforce auth rate limit: '' @ d))), ks')
         | (Inr (allowed, retryAfter), ks') \<Rightarrow>
             if \<not> allowed then ((retryAfter, Some ErrRateLimited), ks') else ((0, None), ks')))"

definition enforceRegisterRateLimit ::
  "server \<Rightarrow> moment \<Rightarrow> string \<Rightarrow> zset keys \<Rightarrow> (int \<times> error option) \<times> zset keys" where
  "enforceRegisterRateLimit sv m clientIP =
     enforceAuthRateLimit sv m (''register:'' @ rateLimitDigest sv (trim_space clientIP))
       (sv_register_limit sv) (int64_wrap (sv_register_window sv * 1000000000))"

definition enforceLoginRateLimit ::
  "server \<Rightarrow> moment \<Rightarrow> string \<Rightarrow> string \<Rightarrow> zset keys \<Rightarrow> (int \<times> error option) \<times> zset keys" where
  "enforceLoginRateLimit sv m clientIP email =
     (let identity = trim_space clientIP @ CHR 0x00 # to_lower (sv_lib sv) (trim_space email) in
      enforceAuthRateLimit sv m (''login:'' @ rateLimitDigest sv identity)
        (sv_login_limit sv) (int64_wrap (sv_login_window sv * 1000000000)))"

definition setRetryAfterHeader :: "int \<Rightarrow> 'd http_reply \<Rightarrow> 'd http_reply" where
  "setRetryAfterHeader retryAfter rp =
     (if retryAfter \<le> 0 then rp
      else with_header ''Retry-After'' (dec_int ((retryAfter + 1000000000 - 1) div 1000000000)) rp)"

text \<open>A handler behind a rate limit.\<close>

definition rate_limited ::
  "(zset keys \<Rightarrow> (int \<times> error option) \<times> zset keys) \<Rightarrow> server_handler \<Rightarrow> server_handler" where
  "rate_limited enforce h c w =
     (case enforce (w_limits w) of
        ((retryAfter, Some err), ks) \<Rightarrow> (setRetryAfterHeader retryAfter (writeAuthError err), w\<lparr>w_limits := ks\<rparr>)
      | ((_, None), ks) \<Rightarrow> h c (w\<lparr>w_limits := ks\<rparr>))"

section \<open>Accounts\<close>

definition RegisterHandler :: "server \<Rightarrow> moment \<Rightarrow> server_handler" where
  "RegisterHandler sv m =
     with_request (ShouldBindJSON (sv_binder sv) register_field zero_register register_valid)
       (bad_request (sv_binder sv))
       (\<lambda>req c. rate_limited (enforceRegisterRateLimit sv m (rq_client_ip (gc_request c)))
          (\<lambda>c. on_accounts (auth_Register (sv_lib sv) (sv_auth sv) (m_env m) (m_random m) req)
             (session_reply sv m 201)) c)"

definition LoginHandler :: "server \<Rightarrow> moment \<Rightarrow> server_handler" where
  "LoginHandler sv m =
     with_request (ShouldBindJSON (sv_binder sv) login_field zero_login login_valid)
       (bad_request (sv_binder sv))
       (\<lambda>req c. rate_limited (enforceLoginRateLimit sv m (rq_client_ip (gc_request c)) (lr_email req))
          (\<lambda>c. on_accounts (auth_Login (sv_lib sv) (sv_auth sv) (m_env m) (m_random m) req)
             (session_reply sv m 200)) c)"

text \<open>The refresh cookie, if it is there and not empty.\<close>

definition refresh_cookie :: "gin_context \<Rightarrow> string option" where
  "refresh_cookie c =
     (case rq_cookie (gc_request c) RefreshCookieName of
        None \<Rightarrow> None | Some t \<Rightarrow> if t = [] then None else Some t)"

definition RefreshHandler :: "server \<Rightarrow> moment \<Rightarrow> server_handler" where
  "RefreshHandler sv m c w =
     (case refresh_cookie c of
        None \<Rightarrow> (writeAuthError ErrInvalidRefreshToken, w)
      | Some raw \<Rightarrow>
          on_sessions (auth_Refresh (sv_lib sv) (sv_auth sv) (m_env m) (m_random m) raw)
            (session_reply sv m 200) w)"

definition LogoutHandler :: "server \<Rightarrow> moment \<Rightarrow> server_handler" where
  "LogoutHandler sv m c w =
     (case refresh_cookie c of
        None \<Rightarrow> (add_cookies (clearSessionCookies sv) (writeAuthError ErrInvalidRefreshToken), w)
      | Some raw \<Rightarrow>
          on_sessions (auth_Logout (sv_lib sv) (sv_auth sv) (m_env m) raw)
            (\<lambda>x. add_cookies (clearSessionCookies sv)
               (case x of Inl err \<Rightarrow> writeAuthError err | Inr _ \<Rightarrow> Success 200 None)) w)"

definition MeHandler :: "server \<Rightarrow> moment \<Rightarrow> server_handler" where
  "MeHandler sv m =
     with_principal (\<lambda>u c w.
       (case auth_CurrentUserByID (m_env m) u (app_db (w_app w)) of
          Inl err \<Rightarrow> writeAuthError err | Inr x \<Rightarrow> Success 200 (Some (Profile x)), w))"

definition UpdateMeHandler :: "server \<Rightarrow> moment \<Rightarrow> server_handler" where
  "UpdateMeHandler sv m =
     with_principal (\<lambda>u c w.
       case refresh_cookie c of
         None \<Rightarrow> (writeAuthError ErrInvalidRefreshToken, w)
       | Some raw \<Rightarrow>
           with_request (BindJSONStrict (sv_binder sv) update_user_field zero_update_user (\<lambda>_ _. True))
             (WriteBindingError (sv_binder sv))
             (\<lambda>req c. on_accounts
                (auth_UpdateCurrentUser (sv_lib sv) (sv_auth sv) (m_env m) (m_random m) u raw (Some req))
                (session_reply sv m 200)) c w)"

section \<open>The dashboard\<close>

definition StatsHandler :: "server \<Rightarrow> moment \<Rightarrow> server_handler" where
  "StatsHandler sv m =
     with_principal (\<lambda>u c w. (answer 200 Stats (dash_Stats (m_env m) u (app_db (w_app w))), w))"

definition RemindersHandler :: "server \<Rightarrow> moment \<Rightarrow> server_handler" where
  "RemindersHandler sv m =
     with_principal (\<lambda>u c w. (answer 200 Reminders (dash_Reminders (m_env m) u (app_db (w_app w))), w))"

section \<open>Documents\<close>

definition MaxTextDocumentBodyBytes :: int where "MaxTextDocumentBodyBytes = 262144"

definition multipartOverheadAllowance :: int where "multipartOverheadAllowance = 1048576"

definition MaxPDFRequestBodyBytes :: "server \<Rightarrow> int" where
  "MaxPDFRequestBodyBytes sv =
     (let maxFileBytes = us_max_file_bytes (sv_files sv) in
      int64_wrap ((if maxFileBytes = 0 then 10485760 else maxFileBytes) + multipartOverheadAllowance))"

definition document_CreateTextHandler :: "server \<Rightarrow> moment \<Rightarrow> server_handler" where
  "document_CreateTextHandler sv m =
     with_request (ShouldBindJSON (sv_binder sv) create_text_field zero_create_text create_text_valid)
       (WriteBindingError (sv_binder sv))
       (\<lambda>req. with_principal (\<lambda>u c. on_db (doc_CreateText (m_env m) u req) (answer 201 Document)))"

definition bind_pdf :: "server \<Rightarrow> gin_context \<Rightarrow> binding_error + create_pdf_request \<times> reads" where
  "bind_pdf sv c =
     (case sv_form sv (gc_request c) (limited_body c) of
        Inl err \<Rightarrow> Inl err
      | Inr ((file_name, content), title) \<Rightarrow>
          Inr (\<lparr>cpd_title = title, cpd_file_name = file_name\<rparr>, content))"

definition document_CreatePDFHandler :: "server \<Rightarrow> moment \<Rightarrow> server_handler" where
  "document_CreatePDFHandler sv m =
     with_request (bind_pdf sv) (WriteBindingError (sv_binder sv))
       (\<lambda>(req, content). with_principal (\<lambda>u c.
          on_files (doc_CreatePDF (m_env m) (m_file_bytes m) (m_today m) (sv_files sv) u req content)
            (answer 201 Document)))"

definition document_GetHandler :: "server \<Rightarrow> moment \<Rightarrow> server_handler" where
  "document_GetHandler sv m =
     with_id ''documentId'' (\<lambda>i. with_principal (\<lambda>u c w.
       (answer 200 Document (doc_Get (m_env m) u i (app_db (w_app w))), w)))"

definition document_ListHandler :: "server \<Rightarrow> moment \<Rightarrow> server_handler" where
  "document_ListHandler sv m =
     with_request (bind_page (sv_binder sv)) (bad_request (sv_binder sv))
       (\<lambda>req. with_principal (\<lambda>u c w.
          (answer 200 Documents
             (doc_List (m_env m) u \<lparr>dlr_page = fst req, dlr_page_size = snd req\<rparr> (app_db (w_app w))), w)))"

definition document_DeleteHandler :: "server \<Rightarrow> moment \<Rightarrow> server_handler" where
  "document_DeleteHandler sv m =
     with_id ''documentId'' (\<lambda>i. with_principal (\<lambda>u c.
       on_files (doc_Delete (m_env m) (sv_files sv) u i) (answer 200 (\<lambda>_. EmptyObject))))"

section \<open>Parse jobs\<close>

definition job_CreateHandler :: "server \<Rightarrow> moment \<Rightarrow> server_handler" where
  "job_CreateHandler sv m =
     with_request (ShouldBindJSON (sv_binder sv) create_job_field 0 create_job_valid)
       (bad_request (sv_binder sv))
       (\<lambda>i. with_principal (\<lambda>u c. on_queue (job_Create (m_env m) u i) (answer 201 Job)))"

definition job_GetHandler :: "server \<Rightarrow> moment \<Rightarrow> server_handler" where
  "job_GetHandler sv m =
     with_id ''jobId'' (\<lambda>i. with_principal (\<lambda>u c w.
       (answer 200 Job (job_Get (m_env m) u i (app_db (w_app w))), w)))"

definition job_LatestHandler :: "server \<Rightarrow> moment \<Rightarrow> server_handler" where
  "job_LatestHandler sv m =
     with_id ''documentId'' (\<lambda>i. with_principal (\<lambda>u c w.
       (answer 200 Job (job_Latest (m_env m) u i (app_db (w_app w))), w)))"

definition job_RetryHandler :: "server \<Rightarrow> moment \<Rightarrow> server_handler" where
  "job_RetryHandler sv m =
     with_id ''jobId'' (\<lambda>i. with_principal (\<lambda>u c. on_queue (job_Retry (m_env m) u i) (answer 200 Job)))"

section \<open>Parse results\<close>

definition result_GetByJobHandler :: "server \<Rightarrow> moment \<Rightarrow> server_handler" where
  "result_GetByJobHandler sv m =
     with_id ''jobId'' (\<lambda>i. with_principal (\<lambda>u c w.
       (answer 200 Result (result_GetByJob (sv_codec sv) (m_env m) u i (app_db (w_app w))), w)))"

definition result_GetHandler :: "server \<Rightarrow> moment \<Rightarrow> server_handler" where
  "result_GetHandler sv m =
     with_id ''resultId'' (\<lambda>i. with_principal (\<lambda>u c w.
       (answer 200 Result (result_Get (sv_codec sv) (m_env m) u i (app_db (w_app w))), w)))"

definition result_UpdateHandler :: "server \<Rightarrow> moment \<Rightarrow> server_handler" where
  "result_UpdateHandler sv m =
     with_id ''resultId'' (\<lambda>i.
       with_request (ShouldBindJSON (sv_binder sv) (review_field (sv_codec sv)) zero_review review_valid)
         (WriteBindingError (sv_binder sv))
         (\<lambda>req. with_principal (\<lambda>u c.
            on_db (result_Update (sv_codec sv) (m_env m) u i (Some req)) (answer 200 Result))))"

definition result_ConfirmHandler :: "server \<Rightarrow> moment \<Rightarrow> server_handler" where
  "result_ConfirmHandler sv m =
     with_id ''resultId'' (\<lambda>i. with_principal (\<lambda>u c.
       on_db (result_Confirm (sv_codec sv) (m_env m) u i) (answer 200 Result)))"

definition result_HistoryListHandler :: "server \<Rightarrow> moment \<Rightarrow> server_handler" where
  "result_HistoryListHandler sv m =
     with_request (bind_page (sv_binder sv)) (WriteBindingError (sv_binder sv))
       (\<lambda>req. with_principal (\<lambda>u c w.
          (answer 200 Results
             (result_HistoryList (sv_codec sv) (m_env m) u
                (Some \<lparr>rlr_page = fst req, rlr_page_size = snd req\<rparr>) (app_db (w_app w))), w)))"

section \<open>Projects\<close>

definition project_CreateHandler :: "server \<Rightarrow> moment \<Rightarrow> server_handler" where
  "project_CreateHandler sv m =
     with_request (BindJSONStrict (sv_binder sv) create_project_field zero_create_project create_project_valid)
       (WriteBindingError (sv_binder sv))
       (\<lambda>req. with_principal (\<lambda>u c.
          on_db (project_Create (sv_codec sv) (m_env m) u (Some req))
            (\<lambda>x. case x of
               Inl err \<Rightarrow> WriteError err
             | Inr (p, created) \<Rightarrow> Success (if created then 201 else 200) (Some (NewProject p)))))"

definition project_ListHandler :: "server \<Rightarrow> moment \<Rightarrow> server_handler" where
  "project_ListHandler sv m =
     with_request (\<lambda>c. bind_list (sv_binder sv) c [''active'', ''archived'']) (WriteBindingError (sv_binder sv))
       (\<lambda>req. with_principal (\<lambda>u c w.
          (answer 200 Projects (project_List (m_env m) u (Some req) (app_db (w_app w))), w)))"

definition project_HistoryListHandler :: "server \<Rightarrow> moment \<Rightarrow> server_handler" where
  "project_HistoryListHandler sv m =
     with_request (\<lambda>c. bind_list (sv_binder sv) c [''active'', ''archived'', ''deleted''])
       (WriteBindingError (sv_binder sv))
       (\<lambda>req. with_principal (\<lambda>u c w.
          (answer 200 Projects (project_HistoryList (m_env m) u (Some req) (app_db (w_app w))), w)))"

definition project_getHandler :: "server \<Rightarrow> moment \<Rightarrow> bool \<Rightarrow> server_handler" where
  "project_getHandler sv m history =
     with_id ''projectId'' (\<lambda>i. with_principal (\<lambda>u c w.
       (answer 200 Project
          (if history then project_HistoryGet (m_env m) u i (app_db (w_app w))
           else project_Get (m_env m) u i (app_db (w_app w))), w)))"

definition project_UpdateHandler :: "server \<Rightarrow> moment \<Rightarrow> server_handler" where
  "project_UpdateHandler sv m =
     with_id ''projectId'' (\<lambda>i.
       with_request
         (BindJSONStrict (sv_binder sv) (update_project_field (sv_codec sv)) zero_update_project update_project_valid)
         (WriteBindingError (sv_binder sv))
         (\<lambda>req. with_principal (\<lambda>u c. on_db (project_Update (m_env m) u i (Some req)) (answer 200 Project))))"

definition project_transitionHandler :: "server \<Rightarrow> moment \<Rightarrow> bool \<Rightarrow> server_handler" where
  "project_transitionHandler sv m archive =
     with_id ''projectId'' (\<lambda>i. with_principal (\<lambda>u c.
       on_db (if archive then project_Archive (m_env m) u i else project_Unarchive (m_env m) u i)
         (answer 200 Project)))"

definition project_DeleteHandler :: "server \<Rightarrow> moment \<Rightarrow> server_handler" where
  "project_DeleteHandler sv m =
     with_id ''projectId'' (\<lambda>i. with_principal (\<lambda>u c.
       on_db (project_Delete (m_env m) u i) (answer 200 (\<lambda>_. EmptyObject))))"

section \<open>Tasks\<close>

definition task_listHandler :: "server \<Rightarrow> moment \<Rightarrow> bool \<Rightarrow> server_handler" where
  "task_listHandler sv m history =
     with_id ''projectId'' (\<lambda>i.
       with_request (bind_task_list (sv_binder sv)) (WriteBindingError (sv_binder sv))
         (\<lambda>req. with_principal (\<lambda>u c w.
            (answer 200 Tasks
               (if history then task_HistoryList (m_env m) u i (Some req) (app_db (w_app w))
                else task_List (m_env m) u i (Some req) (app_db (w_app w))), w))))"

definition task_CreateHandler :: "server \<Rightarrow> moment \<Rightarrow> server_handler" where
  "task_CreateHandler sv m =
     with_id ''projectId'' (\<lambda>i.
       with_request
         (BindJSONStrict (sv_binder sv) (create_task_field (sv_codec sv)) zero_create_task create_task_valid)
         (WriteBindingError (sv_binder sv))
         (\<lambda>req. with_principal (\<lambda>u c. on_db (task_Create (m_env m) u i (Some req)) (answer 201 Task))))"

definition task_UpdateHandler :: "server \<Rightarrow> moment \<Rightarrow> server_handler" where
  "task_UpdateHandler sv m =
     with_id ''taskId'' (\<lambda>i.
       with_request
         (BindJSONStrict (sv_binder sv) (update_task_field (sv_codec sv)) zero_update_task update_task_valid)
         (WriteBindingError (sv_binder sv))
         (\<lambda>req. with_principal (\<lambda>u c. on_db (task_Update (m_env m) u i (Some req)) (answer 200 Task))))"

definition task_UpdateStatusHandler :: "server \<Rightarrow> moment \<Rightarrow> server_handler" where
  "task_UpdateStatusHandler sv m =
     with_id ''taskId'' (\<lambda>i.
       with_request (BindJSONStrict (sv_binder sv) task_status_field \<lparr>uts_status = []\<rparr> task_status_valid)
         (WriteBindingError (sv_binder sv))
         (\<lambda>req. with_principal (\<lambda>u c. on_db (task_UpdateStatus (m_env m) u i (Some req)) (answer 200 Task))))"

definition task_DeleteHandler :: "server \<Rightarrow> moment \<Rightarrow> server_handler" where
  "task_DeleteHandler sv m =
     with_id ''taskId'' (\<lambda>i. with_principal (\<lambda>u c.
       on_db (task_Delete (m_env m) u i) (answer 200 (\<lambda>_. EmptyObject))))"

definition task_ReorderHandler :: "server \<Rightarrow> moment \<Rightarrow> server_handler" where
  "task_ReorderHandler sv m =
     with_request
       (BindJSONStrict (sv_binder sv) reorder_field \<lparr>rtr_project_id = 0, rtr_task_ids = None\<rparr> reorder_valid)
       (WriteBindingError (sv_binder sv))
       (\<lambda>req. with_principal (\<lambda>u c. on_db (task_Reorder (m_env m) u (Some req)) (answer 200 Tasks)))"

section \<open>The chat\<close>

definition ai_MaxRequestBodyBytes :: int where "ai_MaxRequestBodyBytes = 65536"

text \<open>
  The reply of an accepted chat is a stream: its body stands for the goroutines that run once
  the headers are out, with the request they send to the AI service. gin's writer can flush.
\<close>

definition ChatHandler :: "server \<Rightarrow> moment \<Rightarrow> server_handler" where
  "ChatHandler sv m c w =
     (case PrincipalFrom c of
        None \<Rightarrow> (WriteError (ErrNew ''missing authenticated principal''), w)
      | Some p \<Rightarrow>
          let requestID = rq_header (gc_request c) ''X-Request-ID'' in
          if \<not> requestIDPattern requestID then (WriteError ErrInvalidInput, w)
          else
            (case BindJSONStrict (sv_binder sv) chat_field (0, None) chat_valid c of
               Inl err \<Rightarrow> (WriteBindingError (sv_binder sv) err, w)
             | Inr req \<Rightarrow>
                 (case chat_start (sv_codec sv) (sv_num sv) (al_json (sv_lib sv)) (sv_chat sv) (m_env m) (m_clock m)
                         (p_user_id p) requestID (Some (chat_request_of req)) (app_db (w_app w)) (w_chat w) of
                    (Inl (err, retryAfter), g) \<Rightarrow>
                      (setRetryAfterHeader retryAfter (WriteError err), w\<lparr>w_chat := g\<rparr>)
                  | (Inr chatRequest, g) \<Rightarrow>
                      ((plain_reply 200 (EventStream chatRequest))
                         \<lparr>reply_headers := [''Content-Type'' \<mapsto> ''text/event-stream; charset=utf-8'',
                            ''Cache-Control'' \<mapsto> ''no-cache, no-transform'', ''Connection'' \<mapsto> ''keep-alive'',
                            ''X-Accel-Buffering'' \<mapsto> ''no'', ''Content-Encoding'' \<mapsto> ''identity'']\<rparr>,
                       w\<lparr>w_chat := g\<rparr>))))"

section \<open>Health\<close>

definition dependencyStatus :: "server \<Rightarrow> moment \<Rightarrow> health_response" where
  "dependencyStatus sv m =
     (let e = m_env m;
          redis = sv_redis sv \<and> \<not> fault e ''ping redis'' 0 in
      \<lparr>hr_status = [], hr_db = db_up e \<and> \<not> fault e ''ping database'' 0, hr_redis = redis,
       hr_worker = redis \<and> sv_queue sv \<and> \<not> fault e ''worker heartbeat'' 0 \<and> m_heartbeat m\<rparr>)"

definition HealthHandler :: "server \<Rightarrow> moment \<Rightarrow> server_handler" where
  "HealthHandler sv m c w = (Success 200 (Some (Health ((dependencyStatus sv m)\<lparr>hr_status := ''ok''\<rparr>))), w)"

definition ReadinessHandler :: "server \<Rightarrow> moment \<Rightarrow> server_handler" where
  "ReadinessHandler sv m c w =
     (let status = dependencyStatus sv m in
      if hr_db status \<and> hr_redis status \<and> hr_worker status
        then (Success 200 (Some (Health (status\<lparr>hr_status := ''ready''\<rparr>))), w)
      else (Error_reply 503 CodeServiceUnavailable ''service not ready'', w))"

end
