(* ===== verification/Routes.thy ===== *)
theory Routes
  imports Handlers
begin

text \<open>
  \<open>RegisterRoutes\<close>: the table of routes with the middleware in front of each, and what the
  server does with a request. A request is one call of \<open>serve\<close>; the goroutines of a chat, the
  worker and the passing of time are steps of their own (\<open>System\<close>, \<open>AiChat\<close>).
\<close>

section \<open>The table\<close>

definition api_v1 :: "server \<Rightarrow> server_handler \<Rightarrow> server_handler" where
  "api_v1 sv h = Secure (sv_cookie_secure sv) (NoCache h)"

definition protected_route :: "server \<Rightarrow> moment \<Rightarrow> server_handler \<Rightarrow> server_handler" where
  "protected_route sv m h = RequireAuth (sv_lib sv) (sv_auth sv) (now (m_env m)) (RequireCSRFForCookieAuth h)"

definition open_routes :: "server \<Rightarrow> moment \<Rightarrow> ((string \<times> string) \<times> server_handler) list" where
  "open_routes sv m =
     [((''GET'', ''/healthz''), HealthHandler sv m),
      ((''GET'', ''/readyz''), ReadinessHandler sv m),
      ((''POST'', ''/api/v1/auth/register''), api_v1 sv (RegisterHandler sv m)),
      ((''POST'', ''/api/v1/auth/login''), api_v1 sv (LoginHandler sv m)),
      ((''POST'', ''/api/v1/auth/refresh''), api_v1 sv (RequireCookieCSRF RefreshCookieName (RefreshHandler sv m))),
      ((''POST'', ''/api/v1/auth/logout''), api_v1 sv (RequireCookieCSRF RefreshCookieName (LogoutHandler sv m)))]"

definition user_routes :: "server \<Rightarrow> moment \<Rightarrow> ((string \<times> string) \<times> server_handler) list" where
  "user_routes sv m =
     [((''POST'', ''/api/v1/ai/chat''), LimitRequestBody ai_MaxRequestBodyBytes (ChatHandler sv m)),
      ((''GET'', ''/api/v1/users/me''), MeHandler sv m),
      ((''PUT'', ''/api/v1/users/me''),
         RequireCookieAccess (RequireCookieCSRF RefreshCookieName (UpdateMeHandler sv m))),
      ((''GET'', ''/api/v1/dashboard/stats''), StatsHandler sv m),
      ((''GET'', ''/api/v1/dashboard/reminders''), RemindersHandler sv m),
      ((''POST'', ''/api/v1/documents/text''),
         LimitRequestBody MaxTextDocumentBodyBytes (document_CreateTextHandler sv m)),
      ((''POST'', ''/api/v1/documents/pdf''),
         LimitRequestBody (MaxPDFRequestBodyBytes sv) (document_CreatePDFHandler sv m)),
      ((''GET'', ''/api/v1/documents''), document_ListHandler sv m),
      ((''GET'', ''/api/v1/documents/:documentId''), document_GetHandler sv m),
      ((''DELETE'', ''/api/v1/documents/:documentId''), document_DeleteHandler sv m),
      ((''POST'', ''/api/v1/parse-jobs''), job_CreateHandler sv m),
      ((''GET'', ''/api/v1/parse-jobs/:jobId''), job_GetHandler sv m),
      ((''POST'', ''/api/v1/parse-jobs/:jobId/retry''), job_RetryHandler sv m),
      ((''GET'', ''/api/v1/documents/:documentId/latest-job''), job_LatestHandler sv m),
      ((''GET'', ''/api/v1/parse-jobs/:jobId/result''), result_GetByJobHandler sv m),
      ((''GET'', ''/api/v1/parse-results/:resultId''), result_GetHandler sv m),
      ((''PUT'', ''/api/v1/parse-results/:resultId''), result_UpdateHandler sv m),
      ((''POST'', ''/api/v1/parse-results/:resultId/confirm''), result_ConfirmHandler sv m),
      ((''POST'', ''/api/v1/projects''), project_CreateHandler sv m),
      ((''GET'', ''/api/v1/projects''), project_ListHandler sv m),
      ((''GET'', ''/api/v1/projects/:projectId''), project_getHandler sv m False),
      ((''PUT'', ''/api/v1/projects/:projectId''), project_UpdateHandler sv m),
      ((''POST'', ''/api/v1/projects/:projectId/archive''), project_transitionHandler sv m True),
      ((''POST'', ''/api/v1/projects/:projectId/unarchive''), project_transitionHandler sv m False),
      ((''DELETE'', ''/api/v1/projects/:projectId''), project_DeleteHandler sv m),
      ((''GET'', ''/api/v1/projects/:projectId/tasks''), task_listHandler sv m False),
      ((''POST'', ''/api/v1/projects/:projectId/tasks''), task_CreateHandler sv m),
      ((''PUT'', ''/api/v1/tasks/:taskId''), task_UpdateHandler sv m),
      ((''PATCH'', ''/api/v1/tasks/:taskId/status''), task_UpdateStatusHandler sv m),
      ((''DELETE'', ''/api/v1/tasks/:taskId''), task_DeleteHandler sv m),
      ((''POST'', ''/api/v1/tasks/reorder''), task_ReorderHandler sv m),
      ((''GET'', ''/api/v1/history/projects''), project_HistoryListHandler sv m),
      ((''GET'', ''/api/v1/history/projects/:projectId''), project_getHandler sv m True),
      ((''GET'', ''/api/v1/history/projects/:projectId/tasks''), task_listHandler sv m True),
      ((''GET'', ''/api/v1/history/parse-results''), result_HistoryListHandler sv m)]"

text \<open>
  The handler of a method and a pattern. A request that matches no route gets gin's own 404,
  behind the middleware of the engine.
\<close>

definition route_handler :: "server \<Rightarrow> moment \<Rightarrow> string \<times> string \<Rightarrow> server_handler" where
  "route_handler sv m r =
     (case map_of (open_routes sv m) r of
        Some h \<Rightarrow> h
      | None \<Rightarrow>
          (case map_of (user_routes sv m) r of
             Some h \<Rightarrow> api_v1 sv (protected_route sv m h)
           | None \<Rightarrow> Secure (sv_cookie_secure sv) (\<lambda>c w. (plain_reply 404 NoBody, w))))"

definition serve :: "server \<Rightarrow> moment \<Rightarrow> http_request \<Rightarrow> world \<Rightarrow> payload http_reply \<times> world" where
  "serve sv m rq w =
     CORS (sv_origins sv) (route_handler sv m (rq_method rq, rq_route rq))
       \<lparr>gc_request = rq, gc_principal = None, gc_source = None, gc_body_limit = None\<rparr> w"

end
