(* ===== verification/Contracts.thy ===== *)
theory Contracts
  imports Routes
begin

text \<open>
  What holds of every request: who gets past the middleware, what shape a reply has, and that
  a request is a sequence of steps of the transition system. The last is an instance of
  \<open>server_contract\<close>, which reduces a statement about all routes to one fact per service call.
\<close>

section \<open>Getting in\<close>

definition fresh_context :: "http_request \<Rightarrow> gin_context" where
  "fresh_context rq = \<lparr>gc_request = rq, gc_principal = None, gc_source = None, gc_body_limit = None\<rparr>"

definition signed_in :: "http_request \<Rightarrow> principal \<Rightarrow> auth_source \<Rightarrow> gin_context" where
  "signed_in rq p source = \<lparr>gc_request = rq, gc_principal = Some p, gc_source = Some source, gc_body_limit = None\<rparr>"

text \<open>Middleware adds headers; status, body and cookies are the handler's.\<close>

definition same_answer :: "'d http_reply \<Rightarrow> 'd http_reply \<Rightarrow> bool" where
  "same_answer rp rp' \<longleftrightarrow> reply_status rp = reply_status rp' \<and> reply_body rp = reply_body rp' \<and> reply_cookies rp = reply_cookies rp'"

lemma with_header_sel [simp]:
  "reply_status (with_header n v rp) = reply_status rp" "reply_body (with_header n v rp) = reply_body rp"
  "reply_cookies (with_header n v rp) = reply_cookies rp"
  by (simp_all add: with_header_def)

lemma plain_reply_sel [simp]:
  "reply_status (plain_reply st b) = st" "reply_body (plain_reply st b) = b" "reply_cookies (plain_reply st b) = []"
  by (simp_all add: plain_reply_def)

lemma user_routes_distinct: "distinct (map fst (user_routes sv m))"
  by (simp add: user_routes_def)

lemma user_route_lookup:
  assumes "(r, h) \<in> set (user_routes sv m)"
  shows "route_handler sv m r = api_v1 sv (protected_route sv m h)"
proof -
  have "map_of (user_routes sv m) r = Some h" using user_routes_distinct assms by simp
  moreover have "map_of (open_routes sv m) r = None"
    using assms by (auto simp: user_routes_def open_routes_def)
  ultimately show ?thesis by (simp add: route_handler_def)
qed

lemma user_route_method: "((''OPTIONS'', p), h) \<notin> set (user_routes sv m)"
  by (simp add: user_routes_def)

lemma CORS_answer:
  assumes "CORS origins next c w = (rp, w')" "rq_method (gc_request c) \<noteq> ''OPTIONS''"
  obtains rp1 where "next c w = (rp1, w')" "same_answer rp rp1"
  using assms by (auto simp: CORS_def Let_def same_answer_def split: prod.splits if_splits)

lemma api_v1_answer:
  assumes "api_v1 sv next c w = (rp, w')" "sv_cookie_secure sv \<longrightarrow> requestIsHTTPS (gc_request c)"
  obtains rp1 where "next c w = (rp1, w')" "same_answer rp rp1"
  using assms by (auto simp: api_v1_def Secure_def NoCache_def Let_def same_answer_def split: prod.splits if_splits)

lemma same_answer_trans: "same_answer a b \<Longrightarrow> same_answer b c \<Longrightarrow> same_answer a c"
  by (simp add: same_answer_def)

lemma serve_user_route:
  assumes "serve sv m rq w = (rp, w')" "((rq_method rq, rq_route rq), h) \<in> set (user_routes sv m)"
  obtains rp1 where "api_v1 sv (protected_route sv m h) (fresh_context rq) w = (rp1, w')" "same_answer rp rp1"
proof -
  have "rq_method (gc_request (fresh_context rq)) \<noteq> ''OPTIONS''"
    using assms(2) user_route_method by (auto simp: fresh_context_def)
  with assms(1) show thesis
    unfolding serve_def user_route_lookup [OF assms(2)] fresh_context_def [symmetric]
    by (elim CORS_answer) (auto intro: that)
qed

text \<open>
  C3: No route of a user is reached without a token of that user. Of a request to any of the
  protected routes one of four things happens: on an insecure connection to a server that
  requires a secure one it is redirected; without a valid token, in the header or in the
  cookie, it is answered 401; with a cookie but without the matching CSRF token, unless its
  method is safe, it is answered 403; and in these three cases nothing is changed. Only
  otherwise does its handler run, as the user the token names, and its answer is the reply.
\<close>

theorem protected_routes_gate:
  assumes route: "((rq_method rq, rq_route rq), h) \<in> set (user_routes sv m)"
    and served: "serve sv m rq w = (rp, w')"
  shows "if sv_cookie_secure sv \<and> \<not> requestIsHTTPS rq then reply_status rp = 308 \<and> w' = w
    else case authenticate (sv_lib sv) (sv_auth sv) (now (m_env m)) rq of
      None \<Rightarrow> reply_status rp = 401 \<and> reply_body rp = Envelope CodeUnauthorized ''invalid or missing access token'' None
        \<and> w' = w
    | Some (p, source) \<Rightarrow>
        if source = AuthSourceCookie \<and> \<not> csrfSafeMethod (rq_method rq) \<and> \<not> validCSRF rq
          then reply_status rp = 403 \<and> w' = w
        else \<exists>rp1. h (signed_in rq p source) w = (rp1, w') \<and> same_answer rp rp1"
proof -
  obtain rp1 where api: "api_v1 sv (protected_route sv m h) (fresh_context rq) w = (rp1, w')"
    and rp1: "same_answer rp rp1" by (rule serve_user_route [OF served route])
  show ?thesis
  proof (cases "sv_cookie_secure sv \<and> \<not> requestIsHTTPS rq")
    case True
    then show ?thesis
      using api rp1 by (auto simp: api_v1_def Secure_def fresh_context_def Let_def same_answer_def)
  next
    case False
    then have sec: "sv_cookie_secure sv \<longrightarrow> requestIsHTTPS (gc_request (fresh_context rq))"
      by (simp add: fresh_context_def)
    obtain rp2 where run: "protected_route sv m h (fresh_context rq) w = (rp2, w')"
      and rp2: "same_answer rp1 rp2" by (rule api_v1_answer [OF api sec])
    have same: "same_answer rp rp2" by (rule same_answer_trans [OF rp1 rp2])
    show ?thesis
      using False run same
      by (auto simp: protected_route_def RequireAuth_def RequireCSRFForCookieAuth_def fresh_context_def signed_in_def
          writeUnauthorized_def writeUnauthorizedMessage_def writeCSRFForbidden_def Error_reply_def same_answer_def
          split: option.splits if_splits)
  qed
qed

text \<open>
  A server, an hour, and a request for the caller's profile that carries the given access
  token as a cookie.
\<close>

definition sample_binder :: request_binder where
  "sample_binder = \<lparr>b_tags = \<lparr>v_required_text = (\<lambda>s. s \<noteq> []), v_required_int = (\<lambda>i. i \<noteq> 0),
     v_required_list = (\<lambda>n. n \<noteq> None), v_min_text = (\<lambda>n s. n \<le> rune_count s), v_max_text = (\<lambda>n s. rune_count s \<le> n),
     v_min_int = (\<le>), v_max_int = (\<lambda>n i. i \<le> n), v_gt_int = (<), v_min_list = (\<le>), v_max_list = (\<lambda>n k. k \<le> n),
     v_oneof = (\<lambda>ss s. s \<in> set ss), v_email = (\<lambda>s. CHR ''@'' \<in> set s)\<rparr>,
     b_int = (\<lambda>s. if s = [] then Some 0 else None), b_next = (\<lambda>s. if s = [] then Incomplete else NoJson),
     b_text = (\<lambda>_. ''invalid request'')\<rparr>"

definition sample_server :: server where
  "sample_server = \<lparr>sv_lib = sample_lib, sv_auth = sample_conf, sv_codec = sample_codec, sv_num = (\<lambda>s. s),
     sv_files = \<lparr>us_root = None, us_extractor = None, us_max_file_bytes = 0\<rparr>,
     sv_chat = \<lparr>chat_client = None, chat_guard = False, chat_rate_limit = 10, chat_rate_window = 300,
       chat_request_timeout = 60000000000\<rparr>,
     sv_binder = sample_binder, sv_form = (\<lambda>_ _. Inl InvalidRequest), sv_cookie_secure = True, sv_origins = [],
     sv_limiter = True, sv_register_limit = 5, sv_register_window = 3600, sv_login_limit = 10, sv_login_window = 300,
     sv_redis = True, sv_queue = True\<rparr>"

definition sample_moment :: moment where
  "sample_moment = \<lparr>m_env = calm_env, m_random = sample_random, m_clock = 0, m_member = ''m'', m_today = (2025, 1),
     m_file_bytes = (\<lambda>_. []), m_heartbeat = True\<rparr>"

definition me_request :: "string option \<Rightarrow> http_request" where
  "me_request token = \<lparr>rq_method = ''GET'', rq_route = ''/api/v1/users/me'', rq_param = (\<lambda>_. []), rq_header = (\<lambda>_. []),
     rq_cookie = (\<lambda>n. if n = AccessCookieName then token else None), rq_query = (\<lambda>_. []), rq_body = ([], None),
     rq_client_ip = ''::1'', rq_tls = True, rq_host = ''h'', rq_uri = ''/api/v1/users/me''\<rparr>"

definition world_of :: "db \<Rightarrow> world" where
  "world_of s = \<lparr>w_app = start\<lparr>app_db := s\<rparr>, w_limits = Map.empty, w_chat = \<lparr>rates = Map.empty, locks = Map.empty\<rparr>\<rparr>"

lemma me_authenticated:
  "authenticate (sv_lib sample_server) (sv_auth sample_server) (now (m_env sample_moment)) (me_request (Some sample_token))
     = Some (\<lparr>p_user_id = 1, p_email = ''a'', p_nickname = ''n''\<rparr>, AuthSourceCookie)"
  "authenticate (sv_lib sample_server) (sv_auth sample_server) (now (m_env sample_moment)) (me_request None) = None"
proof -
  have "trim_space [] = []" by (simp add: trim_space_def strip_def)
  then show "authenticate (sv_lib sample_server) (sv_auth sample_server) (now (m_env sample_moment)) (me_request (Some sample_token))
      = Some (\<lparr>p_user_id = 1, p_email = ''a'', p_nickname = ''n''\<rparr>, AuthSourceCookie)"
    "authenticate (sv_lib sample_server) (sv_auth sample_server) (now (m_env sample_moment)) (me_request None) = None"
    by (simp_all add: authenticate_def request_token_def me_request_def sample_server_def sample_moment_def
        sample_conf_def sample_lib_def sample_claims_def)
qed

lemma me_route: "((rq_method (me_request token), rq_route (me_request token)), MeHandler sv m) \<in> set (user_routes sv m)"
  by (simp add: me_request_def user_routes_def)

theorem protected_routes_gate_witness:
  "(\<exists>rp w'. serve sample_server sample_moment (me_request (Some sample_token)) (world_of sample_db) = (rp, w')
      \<and> reply_body rp = Envelope 0 ''ok'' (Some (Profile (profile_of (sample_user 1)))))
    \<and> (\<exists>rp w'. serve sample_server sample_moment (me_request None) (world_of sample_db) = (rp, w')
      \<and> reply_status rp = 401 \<and> w' = world_of sample_db)"
proof -
  obtain rp w' where run: "serve sample_server sample_moment (me_request (Some sample_token)) (world_of sample_db) = (rp, w')"
    by fastforce
  obtain rq w'' where none: "serve sample_server sample_moment (me_request None) (world_of sample_db) = (rq, w'')"
    by fastforce
  have safe: "requestIsHTTPS (me_request token)" "csrfSafeMethod (rq_method (me_request token))" for token
    by (simp_all add: requestIsHTTPS_def me_request_def csrfSafeMethod_def)
  have "sql_first u_id (\<lambda>u. u_id u = 1) (users sample_db) = Inr (sample_user 1)"
    by (rule sql_first_one) (simp add: sample_db_def sample_user_def)
  then have "auth_CurrentUserByID (m_env sample_moment) 1 sample_db = Inr (profile_of (sample_user 1))"
    by (simp add: auth_CurrentUserByID_def requireDB_def sample_moment_def db_up_calm)
  then show ?thesis
    using run none protected_routes_gate [OF me_route run] protected_routes_gate [OF me_route none]
    by (auto simp: safe me_authenticated MeHandler_def with_principal_def PrincipalFrom_def signed_in_def
        same_answer_def world_of_def Success_def)
qed

section \<open>What comes back\<close>

text \<open>
  The success responses \<open>docs/openapi.yaml\<close> declares, by method and path: the statuses and
  the schema of \<open>data\<close>.
\<close>

definition documented_open :: "((string \<times> string) \<times> int list \<times> string) list" where
  "documented_open =
     [((''GET'', ''/healthz''), [200], ''Health''),
      ((''GET'', ''/readyz''), [200], ''Health''),
      ((''POST'', ''/api/v1/auth/register''), [201], ''Auth''),
      ((''POST'', ''/api/v1/auth/login''), [200], ''Auth''),
      ((''POST'', ''/api/v1/auth/refresh''), [200], ''Auth''),
      ((''POST'', ''/api/v1/auth/logout''), [200], ''Empty'')]"

definition documented_user :: "((string \<times> string) \<times> int list \<times> string) list" where
  "documented_user =
     [((''POST'', ''/api/v1/ai/chat''), [200], ''EventStream''),
      ((''GET'', ''/api/v1/users/me''), [200], ''UserProfile''),
      ((''PUT'', ''/api/v1/users/me''), [200], ''Auth''),
      ((''GET'', ''/api/v1/dashboard/stats''), [200], ''DashboardStats''),
      ((''GET'', ''/api/v1/dashboard/reminders''), [200], ''DashboardReminderList''),
      ((''POST'', ''/api/v1/documents/text''), [201], ''Document''),
      ((''POST'', ''/api/v1/documents/pdf''), [201], ''Document''),
      ((''GET'', ''/api/v1/documents''), [200], ''DocumentList''),
      ((''GET'', ''/api/v1/documents/:documentId''), [200], ''Document''),
      ((''DELETE'', ''/api/v1/documents/:documentId''), [200], ''Empty''),
      ((''POST'', ''/api/v1/parse-jobs''), [201], ''ParseJob''),
      ((''GET'', ''/api/v1/parse-jobs/:jobId''), [200], ''ParseJob''),
      ((''POST'', ''/api/v1/parse-jobs/:jobId/retry''), [200], ''ParseJob''),
      ((''GET'', ''/api/v1/documents/:documentId/latest-job''), [200], ''ParseJob''),
      ((''GET'', ''/api/v1/parse-jobs/:jobId/result''), [200], ''ParseResult''),
      ((''GET'', ''/api/v1/parse-results/:resultId''), [200], ''ParseResult''),
      ((''PUT'', ''/api/v1/parse-results/:resultId''), [200], ''ParseResult''),
      ((''POST'', ''/api/v1/parse-results/:resultId/confirm''), [200], ''ParseResult''),
      ((''POST'', ''/api/v1/projects''), [200, 201], ''CreateProject''),
      ((''GET'', ''/api/v1/projects''), [200], ''ProjectList''),
      ((''GET'', ''/api/v1/projects/:projectId''), [200], ''Project''),
      ((''PUT'', ''/api/v1/projects/:projectId''), [200], ''Project''),
      ((''POST'', ''/api/v1/projects/:projectId/archive''), [200], ''Project''),
      ((''POST'', ''/api/v1/projects/:projectId/unarchive''), [200], ''Project''),
      ((''DELETE'', ''/api/v1/projects/:projectId''), [200], ''Empty''),
      ((''GET'', ''/api/v1/projects/:projectId/tasks''), [200], ''TaskList''),
      ((''POST'', ''/api/v1/projects/:projectId/tasks''), [201], ''Task''),
      ((''PUT'', ''/api/v1/tasks/:taskId''), [200], ''Task''),
      ((''PATCH'', ''/api/v1/tasks/:taskId/status''), [200], ''Task''),
      ((''DELETE'', ''/api/v1/tasks/:taskId''), [200], ''Empty''),
      ((''POST'', ''/api/v1/tasks/reorder''), [200], ''TaskList''),
      ((''GET'', ''/api/v1/history/projects''), [200], ''ProjectList''),
      ((''GET'', ''/api/v1/history/projects/:projectId''), [200], ''Project''),
      ((''GET'', ''/api/v1/history/projects/:projectId/tasks''), [200], ''TaskList''),
      ((''GET'', ''/api/v1/history/parse-results''), [200], ''ParseResultList'')]"

fun schema_of :: "payload option \<Rightarrow> string" where
  "schema_of None = ''Empty''"
| "schema_of (Some EmptyObject) = ''Empty''"
| "schema_of (Some (Health _)) = ''Health''"
| "schema_of (Some (Auth _)) = ''Auth''"
| "schema_of (Some (Profile _)) = ''UserProfile''"
| "schema_of (Some (Stats _)) = ''DashboardStats''"
| "schema_of (Some (Reminders _)) = ''DashboardReminderList''"
| "schema_of (Some (Document _)) = ''Document''"
| "schema_of (Some (Documents _)) = ''DocumentList''"
| "schema_of (Some (Job _)) = ''ParseJob''"
| "schema_of (Some (Result _)) = ''ParseResult''"
| "schema_of (Some (Results _)) = ''ParseResultList''"
| "schema_of (Some (NewProject _)) = ''CreateProject''"
| "schema_of (Some (Project _)) = ''Project''"
| "schema_of (Some (Projects _)) = ''ProjectList''"
| "schema_of (Some (Task _)) = ''Task''"
| "schema_of (Some (Tasks _)) = ''TaskList''"

text \<open>The business code of every error status, as the specification lists them.\<close>

definition error_codes :: "(int \<times> int) list" where
  "error_codes =
     [(400, 10001), (401, 10002), (409, 10003), (503, 10004), (500, 10005), (404, 10006), (409, 10007),
      (422, 10008), (413, 10009), (503, 10010), (403, 10011), (415, 10012), (422, 10013), (429, 10014)]"

definition typed_body :: "int list \<Rightarrow> string \<Rightarrow> payload http_reply \<Rightarrow> bool" where
  "typed_body sts schema rp \<longleftrightarrow>
     (case reply_body rp of
        Envelope code msg d \<Rightarrow>
          if code = 0 then reply_status rp \<in> set sts \<and> msg = ''ok'' \<and> schema_of d = schema
          else (reply_status rp, code) \<in> set error_codes \<and> d = None
      | EventStream _ \<Rightarrow> reply_status rp \<in> set sts \<and> schema = ''EventStream''
      | NoBody \<Rightarrow> reply_status rp = 308)"

definition typed :: "int list \<Rightarrow> string \<Rightarrow> server_handler \<Rightarrow> bool" where
  "typed sts schema h \<longleftrightarrow> (\<forall>c w. typed_body sts schema (fst (h c w)))"

lemma typed_error:
  "(st, code) \<in> set error_codes \<Longrightarrow> typed_body sts schema (Error_reply st code msg)"
  by (auto simp: typed_body_def Error_reply_def error_codes_def)

lemma typed_envelope:
  "(http_status r, biz_code r) \<in> set error_codes \<Longrightarrow> typed_body sts schema (envelope r)"
  by (simp add: envelope_def typed_error)

lemma write_error_code: "(http_status (write_error err), biz_code (write_error err)) \<in> set error_codes"
  unfolding write_error_def by (simp add: respond_def respond_logged_def error_codes_def)

lemma write_auth_error_code: "(http_status (write_auth_error err), biz_code (write_auth_error err)) \<in> set error_codes"
  using write_error_code unfolding write_auth_error_def by (simp add: respond_def error_codes_def)

lemma typed_errors [simp]:
  "typed_body sts schema (WriteError err)" "typed_body sts schema (writeAuthError err)"
  "typed_body sts schema (WriteBindingError bi x)" "typed_body sts schema (bad_request bi x)"
  "typed_body sts schema (writeUnauthorizedMessage msg)" "typed_body sts schema writeUnauthorized"
  "typed_body sts schema writeCSRFForbidden" "typed_body sts schema (Error_reply 401 CodeUnauthorized msg)"
  "typed_body sts schema (Error_reply 503 CodeServiceUnavailable msg)"
proof -
  show "typed_body sts schema (WriteError err)" "typed_body sts schema (writeAuthError err)"
    by (simp_all add: WriteError_def writeAuthError_def typed_envelope write_error_code write_auth_error_code)
qed (simp_all add: WriteBindingError_def bad_request_def writeUnauthorized_def writeUnauthorizedMessage_def
      writeCSRFForbidden_def typed_error error_codes_def split: binding_error.split)

lemma typed_success [simp]: "st \<in> set sts \<Longrightarrow> schema_of d = schema \<Longrightarrow> typed_body sts schema (Success st d)"
  by (simp add: typed_body_def Success_def)

lemma typed_same:
  "reply_status rp = reply_status rp' \<Longrightarrow> reply_body rp = reply_body rp' \<Longrightarrow>
     typed_body sts schema rp = typed_body sts schema rp'"
  by (simp only: typed_body_def)

lemma typed_plain [simp]:
  "typed_body sts schema (plain_reply 308 NoBody)"
  "typed_body sts ''EventStream'' (plain_reply st (EventStream q)) \<longleftrightarrow> st \<in> set sts"
  by (simp_all add: typed_body_def)

lemma typed_headers [simp]:
  "typed_body sts schema (with_header n v rp) = typed_body sts schema rp"
  "typed_body sts schema (add_cookies cs rp) = typed_body sts schema rp"
  "typed_body sts schema (setRetryAfterHeader t rp) = typed_body sts schema rp"
  "typed_body sts schema (rp\<lparr>reply_headers := hs\<rparr>) = typed_body sts schema rp"
  by (rule typed_same; simp add: add_cookies_def setRetryAfterHeader_def)+

lemma typed_answer [simp]:
  "st \<in> set sts \<Longrightarrow> (\<And>a. schema_of (Some (wrap a)) = schema) \<Longrightarrow> typed_body sts schema (answer st wrap x)"
  by (simp add: answer_def split: sum.splits)

lemma typed_session [simp]: "st \<in> set sts \<Longrightarrow> typed_body sts ''Auth'' (session_reply sv m st x)"
  by (simp add: session_reply_def split: sum.splits)

named_theorems typed_intros \<open>handlers with replies of the declared type\<close>

lemma typed_on [typed_intros]:
  "(\<And>x. typed_body sts schema (reply x)) \<Longrightarrow> typed sts schema (\<lambda>c. on_db (f1 c) reply)"
  "(\<And>x. typed_body sts schema (reply2 x)) \<Longrightarrow> typed sts schema (\<lambda>c. on_queue (f2 c) reply2)"
  "(\<And>x. typed_body sts schema (reply3 x)) \<Longrightarrow> typed sts schema (\<lambda>c. on_files (f3 c) reply3)"
  "(\<And>x. typed_body sts schema (reply4 x)) \<Longrightarrow> typed sts schema (\<lambda>c. on_accounts (f4 c) reply4)"
  by (simp_all add: typed_def on_db_def on_queue_def on_files_def on_accounts_def split: prod.splits)

lemma typed_pure [typed_intros]: "(\<And>c w. typed_body sts schema (f c w)) \<Longrightarrow> typed sts schema (\<lambda>c w. (f c w, w))"
  by (simp add: typed_def)

lemma typed_open [typed_intros]:
  "(\<And>i. typed sts schema (h1 i)) \<Longrightarrow> typed sts schema (with_id name h1)"
  "(\<And>u. typed sts schema (h1 u)) \<Longrightarrow> typed sts schema (with_principal h1)"
  "(\<And>err. typed_body sts schema (refuse err)) \<Longrightarrow> (\<And>r. typed sts schema (h2 r)) \<Longrightarrow>
     typed sts schema (with_request b refuse h2)"
  "typed sts schema h \<Longrightarrow> typed sts schema (LimitRequestBody n h)" for b :: "gin_context \<Rightarrow> binding_error + 'r"
  by (simp_all add: typed_def with_id_def with_principal_def with_request_def LimitRequestBody_def
      split: sum.splits option.splits)

lemma typed_guard [typed_intros]:
  "typed sts schema h \<Longrightarrow> typed sts schema (RequireCookieAccess h)"
  "typed sts schema h \<Longrightarrow> typed sts schema (RequireCookieCSRF name h)"
  "typed sts schema h \<Longrightarrow> typed sts schema (protected_route sv m h)"
  "typed sts schema h \<Longrightarrow> typed sts schema (api_v1 sv h)"
  by (simp_all add: typed_def RequireCookieAccess_def RequireCookieCSRF_def protected_route_def RequireAuth_def
      RequireCSRFForCookieAuth_def api_v1_def Secure_def NoCache_def Let_def split: option.split prod.split)
    (metis fst_conv)+

lemma typed_document_handlers:
  "typed [201] ''Document'' (document_CreateTextHandler sv m)"
  "typed [201] ''Document'' (document_CreatePDFHandler sv m)"
  "typed [200] ''DocumentList'' (document_ListHandler sv m)"
  "typed [200] ''Document'' (document_GetHandler sv m)"
  "typed [200] ''Empty'' (document_DeleteHandler sv m)"
  unfolding document_CreateTextHandler_def document_CreatePDFHandler_def document_ListHandler_def
    document_GetHandler_def document_DeleteHandler_def
  by (intro typed_intros; simp split: prod.splits; intro typed_intros allI impI; simp)+

lemma typed_parse_handlers:
  "typed [201] ''ParseJob'' (job_CreateHandler sv m)"
  "typed [200] ''ParseJob'' (job_GetHandler sv m)"
  "typed [200] ''ParseJob'' (job_RetryHandler sv m)"
  "typed [200] ''ParseJob'' (job_LatestHandler sv m)"
  "typed [200] ''ParseResult'' (result_GetByJobHandler sv m)"
  "typed [200] ''ParseResult'' (result_GetHandler sv m)"
  "typed [200] ''ParseResult'' (result_UpdateHandler sv m)"
  "typed [200] ''ParseResult'' (result_ConfirmHandler sv m)"
  "typed [200] ''ParseResultList'' (result_HistoryListHandler sv m)"
  unfolding job_CreateHandler_def job_GetHandler_def job_RetryHandler_def job_LatestHandler_def
    result_GetByJobHandler_def result_GetHandler_def result_UpdateHandler_def result_ConfirmHandler_def
    result_HistoryListHandler_def
  by (intro typed_intros; simp)+

lemma typed_project_handlers:
  "typed [200, 201] ''CreateProject'' (project_CreateHandler sv m)"
  "typed [200] ''ProjectList'' (project_ListHandler sv m)"
  "typed [200] ''ProjectList'' (project_HistoryListHandler sv m)"
  "typed [200] ''Project'' (project_getHandler sv m history)"
  "typed [200] ''Project'' (project_UpdateHandler sv m)"
  "typed [200] ''Project'' (project_transitionHandler sv m archive)"
  "typed [200] ''Empty'' (project_DeleteHandler sv m)"
  unfolding project_CreateHandler_def project_ListHandler_def project_HistoryListHandler_def
    project_getHandler_def project_UpdateHandler_def project_transitionHandler_def project_DeleteHandler_def
  by (intro typed_intros; simp split: sum.splits)+

lemma typed_task_handlers:
  "typed [200] ''TaskList'' (task_listHandler sv m history)"
  "typed [201] ''Task'' (task_CreateHandler sv m)"
  "typed [200] ''Task'' (task_UpdateHandler sv m)"
  "typed [200] ''Task'' (task_UpdateStatusHandler sv m)"
  "typed [200] ''Empty'' (task_DeleteHandler sv m)"
  "typed [200] ''TaskList'' (task_ReorderHandler sv m)"
  unfolding task_listHandler_def task_CreateHandler_def task_UpdateHandler_def task_UpdateStatusHandler_def
    task_DeleteHandler_def task_ReorderHandler_def
  by (intro typed_intros; simp)+

lemma typed_account_handlers:
  "typed [201] ''Auth'' (RegisterHandler sv m)"
  "typed [200] ''Auth'' (LoginHandler sv m)"
  "typed [200] ''Auth'' (RefreshHandler sv m)"
  "typed [200] ''Empty'' (LogoutHandler sv m)"
  "typed [200] ''UserProfile'' (MeHandler sv m)"
  "typed [200] ''Auth'' (UpdateMeHandler sv m)"
  by (auto simp: typed_def RegisterHandler_def LoginHandler_def RefreshHandler_def LogoutHandler_def MeHandler_def
      UpdateMeHandler_def with_request_def rate_limited_def on_accounts_def on_sessions_def with_principal_def
      split: sum.splits option.splits prod.splits)

lemma typed_other_handlers:
  "typed [200] ''Health'' (HealthHandler sv m)"
  "typed [200] ''Health'' (ReadinessHandler sv m)"
  "typed [200] ''DashboardStats'' (StatsHandler sv m)"
  "typed [200] ''DashboardReminderList'' (RemindersHandler sv m)"
  "typed [200] ''EventStream'' (ChatHandler sv m)"
  by (auto simp: typed_def HealthHandler_def ReadinessHandler_def StatsHandler_def RemindersHandler_def ChatHandler_def
      with_principal_def Let_def typed_body_def [of _ _ "rp_headers_update _ _"]
      split: sum.splits option.splits prod.splits)

lemmas typed_handlers = typed_document_handlers typed_parse_handlers typed_project_handlers typed_task_handlers
  typed_account_handlers typed_other_handlers

definition typed_table ::
  "((string \<times> string) \<times> server_handler) list \<Rightarrow> ((string \<times> string) \<times> int list \<times> string) list \<Rightarrow> bool" where
  "typed_table rs ds \<longleftrightarrow> list_all2 (\<lambda>(r, h) (r', sts, schema). r = r' \<and> typed sts schema h) rs ds"

lemma typed_tables: "typed_table (open_routes sv m) documented_open" "typed_table (user_routes sv m) documented_user"
  by (simp_all add: typed_table_def open_routes_def user_routes_def documented_open_def documented_user_def
      typed_handlers typed_intros)

definition documented :: "((string \<times> string) \<times> int list \<times> string) list" where
  "documented = documented_open @ documented_user"

definition route_table :: "server \<Rightarrow> moment \<Rightarrow> ((string \<times> string) \<times> server_handler) list" where
  "route_table sv m = open_routes sv m @ user_routes sv m"

lemma typed_table_lookup:
  assumes "typed_table rs ds" "map_of rs r = Some h"
  shows "\<exists>sts schema. map_of ds r = Some (sts, schema) \<and> typed sts schema h"
  using assms unfolding typed_table_def by (induction rule: list_all2_induct) (auto split: if_splits)

lemma typed_table_missing:
  "typed_table rs ds \<Longrightarrow> map_of rs r = None \<Longrightarrow> map_of ds r = None"
  unfolding typed_table_def by (induction rule: list_all2_induct) (auto split: if_splits)

text \<open>
  C15: The API is typed as its specification declares it. The routes the server registers are
  exactly the ones of \<open>docs/openapi.yaml\<close>. A reply to any of them is an envelope: on success
  with code 0, one of the declared statuses and \<open>data\<close> of the declared schema, otherwise with
  a business code that belongs to its status and no data; only a chat that is accepted is a
  stream of events, and only the redirect to a secure connection has no envelope.
\<close>

theorem replies_match_specification:
  "map fst (route_table sv m) = map fst documented \<and>
   (case map_of documented (rq_method rq, rq_route rq) of
      None \<Rightarrow> reply_body (fst (serve sv m rq w)) = NoBody
    | Some (sts, schema) \<Rightarrow> typed_body sts schema (fst (serve sv m rq w)))"
proof (intro conjI)
  show "map fst (route_table sv m) = map fst documented"
    by (simp add: route_table_def documented_def open_routes_def user_routes_def documented_open_def documented_user_def)
  let ?r = "(rq_method rq, rq_route rq)" and ?c = "fresh_context rq"
  have serve: "typed_body sts schema (fst (serve sv m rq w)) \<longleftrightarrow> typed_body sts schema (fst (route_handler sv m ?r ?c w))"
    if "rq_method rq \<noteq> ''OPTIONS''" for sts schema
    using that by (auto simp: serve_def CORS_def fresh_context_def Let_def split: prod.splits)
  show "case map_of documented ?r of
      None \<Rightarrow> reply_body (fst (serve sv m rq w)) = NoBody
    | Some (sts, schema) \<Rightarrow> typed_body sts schema (fst (serve sv m rq w))"
  proof (cases "map_of (open_routes sv m) ?r")
    case (Some h)
    from typed_table_lookup [OF typed_tables(1) this] obtain sts schema where
      doc: "map_of documented_open ?r = Some (sts, schema)" "typed sts schema h" by blast
    have "rq_method rq \<noteq> ''OPTIONS''" using Some by (auto dest!: map_of_SomeD simp: open_routes_def)
    then show ?thesis using doc Some serve by (simp add: documented_def map_add_def route_handler_def typed_def)
  next
    case None
    then have doc: "map_of documented ?r = map_of documented_user ?r"
      using typed_table_missing [OF typed_tables(1) None] by (simp add: documented_def map_add_def split: option.split)
    show ?thesis
    proof (cases "map_of (user_routes sv m) ?r")
      case (Some h)
      from typed_table_lookup [OF typed_tables(2) this] obtain sts schema where
        user: "map_of documented_user ?r = Some (sts, schema)" "typed sts schema h" by blast
      then have "typed sts schema (route_handler sv m ?r)"
        using None Some by (simp add: route_handler_def typed_guard)
      moreover have "rq_method rq \<noteq> ''OPTIONS''" using map_of_SomeD [OF Some] user_route_method by auto
      ultimately show ?thesis using serve user(1) doc by (simp add: typed_def)
    next
      case none: None
      then show ?thesis
        using doc typed_table_missing [OF typed_tables(2) none] None
        by (simp add: serve_def CORS_def route_handler_def Secure_def Let_def split: prod.splits if_splits)
    qed
  qed
qed

section \<open>What a request may change\<close>

text \<open>
  \<open>moves change user h\<close>: whatever the handler does to the state is a \<open>change\<close>, if the principal
  in its context, when there is one, is a \<open>user\<close>.
\<close>

definition moves :: "(app \<Rightarrow> app \<Rightarrow> bool) \<Rightarrow> (int \<Rightarrow> bool) \<Rightarrow> server_handler \<Rightarrow> bool" where
  "moves change user h \<longleftrightarrow>
     (\<forall>c w. (\<forall>p. gc_principal c = Some p \<longrightarrow> user (p_user_id p)) \<longrightarrow> change (w_app w) (w_app (snd (h c w))))"

lemma moves_with_id:
  "(\<And>a. change a a) \<Longrightarrow> (\<And>i. moves change user (h i)) \<Longrightarrow> moves change user (with_id name h)"
  by (simp add: moves_def with_id_def split: sum.split)

lemma moves_with_principal:
  "(\<And>a. change a a) \<Longrightarrow> (\<And>u. user u \<Longrightarrow> moves change user (h u)) \<Longrightarrow> moves change user (with_principal h)"
  by (auto simp: moves_def with_principal_def PrincipalFrom_def split: option.split)

lemma moves_with_request:
  "(\<And>a. change a a) \<Longrightarrow> (\<And>r. moves change user (h r)) \<Longrightarrow> moves change user (with_request b refuse h)"
  by (simp add: moves_def with_request_def split: sum.split)

lemma moves_pure: "(\<And>a. change a a) \<Longrightarrow> moves change user (\<lambda>c w. (f c w, w))"
  by (simp add: moves_def)

lemma moves_on:
  "(\<And>a. change a (a\<lparr>app_db := snd (f1 (app_db a))\<rparr>)) \<Longrightarrow> moves change user (\<lambda>c. on_db f1 reply1)"
  "(\<And>a. change a (a\<lparr>app_db := fst (snd (f2 (app_db a, app_stream a))), app_stream := snd (snd (f2 (app_db a, app_stream a)))\<rparr>))
     \<Longrightarrow> moves change user (\<lambda>c. on_queue f2 reply2)"
  "(\<And>a. change a (a\<lparr>app_db := fst (snd (f3 (app_db a, app_files a))), app_files := snd (snd (f3 (app_db a, app_files a)))\<rparr>))
     \<Longrightarrow> moves change user (\<lambda>c. on_files f3 reply3)"
  "(\<And>a. change a (a\<lparr>app_db := fst (snd (f4 (app_db a, app_sessions a))),
       app_sessions := snd (snd (f4 (app_db a, app_sessions a)))\<rparr>))
     \<Longrightarrow> moves change user (\<lambda>c. on_accounts f4 reply4)"
  by (auto simp: moves_def on_db_def on_queue_def on_files_def on_accounts_def split: prod.split)
     (metis fst_conv snd_conv)+

lemma moves_guard:
  "moves change user h \<Longrightarrow> moves change user (LimitRequestBody n h)"
  "(\<And>a. change a a) \<Longrightarrow> moves change user h \<Longrightarrow> moves change user (RequireCookieAccess h)"
  "(\<And>a. change a a) \<Longrightarrow> moves change user h \<Longrightarrow> moves change user (RequireCookieCSRF name h)"
  "(\<And>a. change a a) \<Longrightarrow> moves change user h \<Longrightarrow> moves change user (api_v1 sv h)"
  by (simp_all add: moves_def LimitRequestBody_def RequireCookieAccess_def RequireCookieCSRF_def api_v1_def
      Secure_def NoCache_def Let_def split: prod.split) (metis snd_conv)+

lemma moves_rate_limited:
  "(\<And>a. change a a) \<Longrightarrow> moves change user h \<Longrightarrow> moves change user (\<lambda>c. rate_limited (limit c) h c)"
proof -
  assume same: "\<And>a. change a a" and h: "moves change user h"
  have "change (w_app w) (w_app (snd (h c (w\<lparr>w_limits := ks\<rparr>))))"
    if "\<forall>p. gc_principal c = Some p \<longrightarrow> user (p_user_id p)" for c w ks
  proof -
    have "change (w_app (w\<lparr>w_limits := ks\<rparr>)) (w_app (snd (h c (w\<lparr>w_limits := ks\<rparr>))))"
      using h that unfolding moves_def by blast
    then show ?thesis by simp
  qed
  then show ?thesis by (auto simp: moves_def rate_limited_def same split: prod.split option.split)
qed

text \<open>
  A statement about every request, from one fact for each service call a handler can make: the
  caller of those behind the middleware is a \<open>user\<close>.
\<close>

locale server_contract =
  fixes sv :: server
    and user :: "int \<Rightarrow> bool"
    and change :: "app \<Rightarrow> app \<Rightarrow> bool"
  assumes same: "change a a"
    and create_text: "user u \<Longrightarrow> change a
      (a\<lparr>app_db := snd (doc_CreateText e u rt (app_db a))\<rparr>)"
    and create_pdf: "user u \<Longrightarrow> change a
      (a\<lparr>app_db := fst (snd (doc_CreatePDF e rnd day' files u rf content (app_db a, app_files a))),
        app_files := snd (snd (doc_CreatePDF e rnd day' files u rf content (app_db a, app_files a)))\<rparr>)"
    and delete_document: "user u \<Longrightarrow> change a
      (a\<lparr>app_db := fst (snd (doc_Delete e files u i (app_db a, app_files a))),
        app_files := snd (snd (doc_Delete e files u i (app_db a, app_files a)))\<rparr>)"
    and create_job: "user u \<Longrightarrow> change a
      (a\<lparr>app_db := fst (snd (job_Create e u i (app_db a, app_stream a))),
        app_stream := snd (snd (job_Create e u i (app_db a, app_stream a)))\<rparr>)"
    and retry_job: "user u \<Longrightarrow> change a
      (a\<lparr>app_db := fst (snd (job_Retry e u i (app_db a, app_stream a))),
        app_stream := snd (snd (job_Retry e u i (app_db a, app_stream a)))\<rparr>)"
    and review: "user u \<Longrightarrow> change a
      (a\<lparr>app_db := snd (result_Update (sv_codec sv) e u i (Some rr) (app_db a))\<rparr>)"
    and confirm: "user u \<Longrightarrow> change a
      (a\<lparr>app_db := snd (result_Confirm (sv_codec sv) e u i (app_db a))\<rparr>)"
    and create_project: "user u \<Longrightarrow> change a
      (a\<lparr>app_db := snd (project_Create (sv_codec sv) e u (Some rp) (app_db a))\<rparr>)"
    and edit_project: "user u \<Longrightarrow> change a
      (a\<lparr>app_db := snd (project_act e u i pa (app_db a))\<rparr>)"
    and edit_task: "user u \<Longrightarrow> change a
      (a\<lparr>app_db := snd (task_act e u ta (app_db a))\<rparr>)"
    and edit_profile: "user u \<Longrightarrow> change a
      (a\<lparr>app_db := fst (snd (auth_UpdateCurrentUser (sv_lib sv) (sv_auth sv) e bytes' u raw (Some ru) (app_db a, app_sessions a))),
        app_sessions := snd (snd (auth_UpdateCurrentUser (sv_lib sv) (sv_auth sv) e bytes' u raw (Some ru) (app_db a, app_sessions a)))\<rparr>)"
    and register: "random_ok bytes' \<Longrightarrow> change a
      (a\<lparr>app_db := fst (snd (auth_Register (sv_lib sv) (sv_auth sv) e bytes' rg (app_db a, app_sessions a))),
        app_sessions := snd (snd (auth_Register (sv_lib sv) (sv_auth sv) e bytes' rg (app_db a, app_sessions a)))\<rparr>)"
    and login: "change a
      (a\<lparr>app_db := fst (snd (auth_Login (sv_lib sv) (sv_auth sv) e bytes' rl (app_db a, app_sessions a))),
        app_sessions := snd (snd (auth_Login (sv_lib sv) (sv_auth sv) e bytes' rl (app_db a, app_sessions a)))\<rparr>)"
    and refresh: "change a
      (a\<lparr>app_sessions := snd (auth_Refresh (sv_lib sv) (sv_auth sv) e bytes' raw (app_sessions a))\<rparr>)"
    and logout: "change a
      (a\<lparr>app_sessions := snd (auth_Logout (sv_lib sv) (sv_auth sv) e raw (app_sessions a))\<rparr>)"
begin

lemmas pass = moves_with_id [where change = change, OF same] moves_with_principal [where change = change, OF same]
  moves_with_request [where change = change, OF same] moves_pure [where change = change, OF same]
  moves_guard(1) moves_guard(2-4) [where change = change, OF same]

lemma project_calls:
  assumes "user u"
  shows "change a (a\<lparr>app_db := snd (project_Update e u i (Some r) (app_db a))\<rparr>)"
    "change a (a\<lparr>app_db := snd (project_Archive e u i (app_db a))\<rparr>)"
    "change a (a\<lparr>app_db := snd (project_Unarchive e u i (app_db a))\<rparr>)"
    "change a (a\<lparr>app_db := snd (project_Delete e u i (app_db a))\<rparr>)"
  using edit_project [OF assms, of a e i "EditProject r"] edit_project [OF assms, of a e i ArchiveProject]
    edit_project [OF assms, of a e i UnarchiveProject] edit_project [OF assms, of a e i DeleteProject] by simp_all

lemma task_calls:
  assumes "user u"
  shows "change a (a\<lparr>app_db := snd (task_Create e u i (Some r1) (app_db a))\<rparr>)"
    "change a (a\<lparr>app_db := snd (task_Update e u i (Some r2) (app_db a))\<rparr>)"
    "change a (a\<lparr>app_db := snd (task_UpdateStatus e u i (Some r3) (app_db a))\<rparr>)"
    "change a (a\<lparr>app_db := snd (task_Delete e u i (app_db a))\<rparr>)"
    "change a (a\<lparr>app_db := snd (task_Reorder e u (Some r4) (app_db a))\<rparr>)"
  using edit_task [OF assms, of a e "CreateTask i r1"] edit_task [OF assms, of a e "UpdateTask i r2"]
    edit_task [OF assms, of a e "SetTaskStatus i r3"] edit_task [OF assms, of a e "DeleteTask i"]
    edit_task [OF assms, of a e "ReorderTasks r4"] by simp_all

lemma document_handlers:
  "moves change user (document_CreateTextHandler sv m)" "moves change user (document_CreatePDFHandler sv m)"
  "moves change user (document_ListHandler sv m)" "moves change user (document_GetHandler sv m)"
  "moves change user (document_DeleteHandler sv m)"
  unfolding document_CreateTextHandler_def document_CreatePDFHandler_def document_ListHandler_def
    document_GetHandler_def document_DeleteHandler_def case_prod_unfold
  by (intro pass moves_on create_text create_pdf delete_document; assumption)+

lemma parse_handlers:
  "moves change user (job_CreateHandler sv m)" "moves change user (job_GetHandler sv m)"
  "moves change user (job_RetryHandler sv m)" "moves change user (job_LatestHandler sv m)"
  "moves change user (result_GetByJobHandler sv m)" "moves change user (result_GetHandler sv m)"
  "moves change user (result_UpdateHandler sv m)" "moves change user (result_ConfirmHandler sv m)"
  "moves change user (result_HistoryListHandler sv m)"
  unfolding job_CreateHandler_def job_GetHandler_def job_RetryHandler_def job_LatestHandler_def
    result_GetByJobHandler_def result_GetHandler_def result_UpdateHandler_def result_ConfirmHandler_def
    result_HistoryListHandler_def
  by (intro pass moves_on create_job retry_job review confirm; assumption)+

lemma project_handlers:
  "moves change user (project_CreateHandler sv m)" "moves change user (project_ListHandler sv m)"
  "moves change user (project_HistoryListHandler sv m)" "moves change user (project_getHandler sv m history)"
  "moves change user (project_UpdateHandler sv m)" "moves change user (project_transitionHandler sv m True)"
  "moves change user (project_transitionHandler sv m False)" "moves change user (project_DeleteHandler sv m)"
  unfolding project_CreateHandler_def project_ListHandler_def project_HistoryListHandler_def
    project_getHandler_def project_UpdateHandler_def project_transitionHandler_def project_DeleteHandler_def if_True if_False
  by (intro pass moves_on create_project project_calls; assumption)+

lemma task_handlers:
  "moves change user (task_listHandler sv m history)" "moves change user (task_CreateHandler sv m)"
  "moves change user (task_UpdateHandler sv m)" "moves change user (task_UpdateStatusHandler sv m)"
  "moves change user (task_DeleteHandler sv m)" "moves change user (task_ReorderHandler sv m)"
  unfolding task_listHandler_def task_CreateHandler_def task_UpdateHandler_def task_UpdateStatusHandler_def
    task_DeleteHandler_def task_ReorderHandler_def
  by (intro pass moves_on task_calls; assumption)+

lemma account_handlers:
  "random_ok (m_random m) \<Longrightarrow> moves change user (RegisterHandler sv m)"
  "moves change user (LoginHandler sv m)" "moves change user (RefreshHandler sv m)"
  "moves change user (LogoutHandler sv m)" "moves change user (MeHandler sv m)"
  "moves change user (UpdateMeHandler sv m)"
proof -
  assume rnd: "random_ok (m_random m)"
  show "moves change user (RegisterHandler sv m)"
    unfolding RegisterHandler_def
    by (intro pass moves_rate_limited [where change = change, OF same] moves_on register rnd)
next
  show "moves change user (LoginHandler sv m)"
    unfolding LoginHandler_def by (intro pass moves_rate_limited [where change = change, OF same] moves_on login)
  show "moves change user (RefreshHandler sv m)" "moves change user (LogoutHandler sv m)"
    unfolding RefreshHandler_def LogoutHandler_def using refresh logout
    by (auto simp: moves_def on_sessions_def same split: option.split prod.split) (metis snd_conv)+
  show "moves change user (MeHandler sv m)"
    unfolding MeHandler_def by (intro pass)
  have "moves change user (\<lambda>c. with_request b r (\<lambda>req c. on_accounts
      (auth_UpdateCurrentUser (sv_lib sv) (sv_auth sv) e bytes' u raw (Some req)) h) c)" if "user u"
    for b :: "gin_context \<Rightarrow> binding_error + update_user_request" and r h e bytes' u raw
    by (intro pass moves_on edit_profile that)
  then show "moves change user (UpdateMeHandler sv m)"
    unfolding UpdateMeHandler_def
    by (intro pass) (auto simp: moves_def same split: option.split)
qed

lemma other_handlers:
  "moves change user (HealthHandler sv m)" "moves change user (ReadinessHandler sv m)"
  "moves change user (StatsHandler sv m)" "moves change user (RemindersHandler sv m)"
  "moves change user (ChatHandler sv m)"
  by (auto simp: moves_def HealthHandler_def ReadinessHandler_def StatsHandler_def RemindersHandler_def
      ChatHandler_def with_principal_def Let_def same split: option.split sum.split prod.split)

lemmas handlers = document_handlers parse_handlers project_handlers task_handlers account_handlers(2-) other_handlers

lemma user_routes_move: "list_all (\<lambda>x. moves change user (snd x)) (user_routes sv m)"
  by (simp add: user_routes_def handlers pass)

lemma open_routes_move: "random_ok (m_random m) \<Longrightarrow> list_all (\<lambda>x. moves change user (snd x)) (open_routes sv m)"
  by (simp add: open_routes_def handlers account_handlers(1) pass)

lemma moves_protected:
  assumes "moves change user h"
    and "\<And>p source. authenticate (sv_lib sv) (sv_auth sv) (now (m_env m)) (gc_request c) = Some (p, source) \<Longrightarrow> user (p_user_id p)"
  shows "change (w_app w) (w_app (snd (protected_route sv m h c w)))"
  using assms by (auto simp: protected_route_def RequireAuth_def RequireCSRFForCookieAuth_def moves_def same
      split: option.split)

lemma serve_moves:
  assumes rnd: "random_ok (m_random m)"
    and caller: "\<And>p source. authenticate (sv_lib sv) (sv_auth sv) (now (m_env m)) rq = Some (p, source) \<Longrightarrow> user (p_user_id p)"
  shows "change (w_app w) (w_app (snd (serve sv m rq w)))"
proof -
  let ?r = "(rq_method rq, rq_route rq)" and ?c = "fresh_context rq"
  have "change (w_app w) (w_app (snd (route_handler sv m ?r ?c w)))"
  proof (cases "map_of (open_routes sv m) ?r")
    case (Some h)
    then have "moves change user h"
      using open_routes_move [OF rnd] by (auto simp: list_all_iff dest!: map_of_SomeD)
    then show ?thesis using Some by (simp add: route_handler_def moves_def fresh_context_def)
  next
    case none: None
    show ?thesis
    proof (cases "map_of (user_routes sv m) ?r")
      case (Some h)
      then have "moves change user h" using user_routes_move [of m] by (auto simp: list_all_iff dest!: map_of_SomeD)
      then have "change (w_app w) (w_app (snd (protected_route sv m h ?c w)))"
        by (rule moves_protected) (use caller in \<open>simp add: fresh_context_def\<close>)
      then show ?thesis
        using none Some same
        by (auto simp: route_handler_def api_v1_def Secure_def NoCache_def Let_def split: prod.split)
    next
      case None
      then show ?thesis using none same by (simp add: route_handler_def Secure_def Let_def)
    qed
  qed
  then show ?thesis by (auto simp: serve_def fresh_context_def CORS_def Let_def same split: prod.split)
qed

end

section \<open>A request is made of steps\<close>

lemma auth_Login_db: "fst (snd (auth_Login lib conf e rnd rl sr)) = fst sr"
  by (auto simp: auth_Login_def Let_def split: option.split sum.split db_error.split prod.split)

lemma same_db: "a\<lparr>app_db := app_db a, app_sessions := r\<rparr> = a\<lparr>app_sessions := r\<rparr>"
  by (cases a) simp

definition steps_to :: "server \<Rightarrow> app \<Rightarrow> app \<Rightarrow> bool" where
  "steps_to sv = (app_step (sv_lib sv) (sv_codec sv))\<^sup>*\<^sup>*"

lemma one_step: "app_step (sv_lib sv) (sv_codec sv) a a' \<Longrightarrow> steps_to sv a a'"
  by (simp add: steps_to_def)

lemma split_pair: "x = (fst x, snd x)" and split_triple: "y = (fst y, fst (snd y), snd (snd y))"
  by simp_all

lemmas db_steps = app_step.create_text [OF split_pair] app_step.review [OF split_pair] app_step.confirm [OF split_pair]
  app_step.create_project [OF split_pair] app_step.edit_project [OF split_pair] app_step.edit_task [OF split_pair]
  app_step.refresh [OF split_pair] app_step.logout [OF split_pair]

lemmas two_part_steps = app_step.create_pdf [OF split_triple] app_step.delete_document [OF split_triple]
  app_step.create_job [OF split_triple] app_step.retry_job [OF split_triple] app_step.edit_profile [OF split_triple]
  app_step.register [OF _ split_triple]

interpretation request_steps: server_contract sv "\<lambda>_. True" "steps_to sv"
proof
  show "steps_to sv a a" for a by (simp add: steps_to_def)
  show "steps_to sv a (a\<lparr>app_db := fst (snd (auth_Login (sv_lib sv) (sv_auth sv) e rnd rl (app_db a, app_sessions a))),
      app_sessions := snd (snd (auth_Login (sv_lib sv) (sv_auth sv) e rnd rl (app_db a, app_sessions a)))\<rparr>)"
    for a e rnd rl
    unfolding auth_Login_db fst_conv same_db
    by (rule one_step [OF app_step.login]) (simp add: prod_eq_iff auth_Login_db)
qed (rule one_step; (rule db_steps | rule two_part_steps); assumption?)+


text \<open>A client registers.\<close>

definition register_post :: http_request where
  "register_post = (me_request None)\<lparr>rq_method := ''POST'', rq_route := ''/api/v1/auth/register'',
     rq_body := (''x'', None)\<rparr>"

definition registering_server :: server where
  "registering_server = sample_server\<lparr>sv_binder := sample_binder\<lparr>b_next := (\<lambda>_. Value (JObj
     [(''email'', JStr ''A@b''), (''password'', JStr ''p4ssw0rd''), (''nickname'', JStr ''n'')]) [])\<rparr>\<rparr>"


end
