(* ===== verification/Access.thy ===== *)
theory Access
  imports Contracts
begin

text \<open>
  Who sees and who changes what. \<open>own u s\<close> is the part of the database that belongs to user
  \<open>u\<close>. Every query of the services is restricted to the caller's rows, so its answer is the
  one on \<open>own u s\<close>; every change is to rows of the caller, so \<open>own v s\<close> stays for everybody
  else.
\<close>

section \<open>The rows of a user\<close>

definition own :: "int \<Rightarrow> db \<Rightarrow> db" where
  "own u s =
     \<lparr>users = filter (\<lambda>x. u_id x = u) (users s),
      documents = filter (\<lambda>x. doc_user_id x = u) (documents s),
      parse_jobs = filter (\<lambda>x. job_user_id x = u) (parse_jobs s),
      parse_results = filter (\<lambda>x. res_user_id x = u) (parse_results s),
      projects = filter (\<lambda>x. prj_user_id x = u) (projects s),
      tasks = filter (\<lambda>x. tsk_user_id x = u) (tasks s)\<rparr>"

lemma own_sel:
  "users (own u s) = filter (\<lambda>x. u_id x = u) (users s)"
  "documents (own u s) = filter (\<lambda>x. doc_user_id x = u) (documents s)"
  "parse_jobs (own u s) = filter (\<lambda>x. job_user_id x = u) (parse_jobs s)"
  "parse_results (own u s) = filter (\<lambda>x. res_user_id x = u) (parse_results s)"
  "projects (own u s) = filter (\<lambda>x. prj_user_id x = u) (projects s)"
  "tasks (own u s) = filter (\<lambda>x. tsk_user_id x = u) (tasks s)"
  by (simp_all add: own_def)

text \<open>
  A table whose rows have an owner, and queries that ask for one owner's rows, in the shapes
  the \<open>Where\<close> clauses have.
\<close>

locale owner_column =
  fixes owner :: "'r \<Rightarrow> int"
    and table :: "db \<Rightarrow> 'r list"
  assumes own_table: "table (own u s) = filter (\<lambda>r. owner r = u) (table s)"
begin

lemma filter_own:
  "filter (\<lambda>r. owner r = u) (table (own u s)) = filter (\<lambda>r. owner r = u) (table s)"
  "filter (\<lambda>r. owner r = u \<and> Q r) (table (own u s)) = filter (\<lambda>r. owner r = u \<and> Q r) (table s)"
  "filter (\<lambda>r. A r \<and> owner r = u) (table (own u s)) = filter (\<lambda>r. A r \<and> owner r = u) (table s)"
  "filter (\<lambda>r. A r \<and> owner r = u \<and> Q r) (table (own u s)) = filter (\<lambda>r. A r \<and> owner r = u \<and> Q r) (table s)"
  unfolding own_table filter_filter by (auto intro: filter_cong)

lemma query_own:
  "sql_first key (\<lambda>r. owner r = u) (table (own u s)) = sql_first key (\<lambda>r. owner r = u) (table s)"
  "sql_first key (\<lambda>r. owner r = u \<and> Q r) (table (own u s)) = sql_first key (\<lambda>r. owner r = u \<and> Q r) (table s)"
  "sql_first key (\<lambda>r. A r \<and> owner r = u) (table (own u s)) = sql_first key (\<lambda>r. A r \<and> owner r = u) (table s)"
  "sql_first key (\<lambda>r. A r \<and> owner r = u \<and> Q r) (table (own u s)) = sql_first key (\<lambda>r. A r \<and> owner r = u \<and> Q r) (table s)"
  "sql_find order (\<lambda>r. owner r = u) (table (own u s)) = sql_find order (\<lambda>r. owner r = u) (table s)"
  "sql_find order (\<lambda>r. owner r = u \<and> Q r) (table (own u s)) = sql_find order (\<lambda>r. owner r = u \<and> Q r) (table s)"
  "sql_find order (\<lambda>r. A r \<and> owner r = u) (table (own u s)) = sql_find order (\<lambda>r. A r \<and> owner r = u) (table s)"
  "sql_find order (\<lambda>r. A r \<and> owner r = u \<and> Q r) (table (own u s)) = sql_find order (\<lambda>r. A r \<and> owner r = u \<and> Q r) (table s)"
  "sql_count (\<lambda>r. owner r = u) (table (own u s)) = sql_count (\<lambda>r. owner r = u) (table s)"
  "sql_count (\<lambda>r. owner r = u \<and> Q r) (table (own u s)) = sql_count (\<lambda>r. owner r = u \<and> Q r) (table s)"
  "sql_count (\<lambda>r. A r \<and> owner r = u) (table (own u s)) = sql_count (\<lambda>r. A r \<and> owner r = u) (table s)"
  "sql_count (\<lambda>r. A r \<and> owner r = u \<and> Q r) (table (own u s)) = sql_count (\<lambda>r. A r \<and> owner r = u \<and> Q r) (table s)"
  unfolding sql_first_def sql_find_def sql_count_def filter_own by (rule refl)+

end

interpretation users_own: owner_column u_id users by unfold_locales (simp add: own_sel)

interpretation documents_own: owner_column doc_user_id documents by unfold_locales (simp add: own_sel)

interpretation jobs_own: owner_column job_user_id parse_jobs by unfold_locales (simp add: own_sel)

interpretation results_own: owner_column res_user_id parse_results by unfold_locales (simp add: own_sel)

interpretation projects_own: owner_column prj_user_id projects by unfold_locales (simp add: own_sel)

interpretation tasks_own: owner_column tsk_user_id tasks by unfold_locales (simp add: own_sel)

section \<open>What a user reads\<close>

named_theorems own_simps \<open>reading operations on the caller's rows alone\<close>

lemma documents_read_own [own_simps]:
  "doc_Get e u i (own u s) = doc_Get e u i s"
  "doc_List e u rq (own u s) = doc_List e u rq s"
  unfolding doc_Get_def doc_List_def own_document_def Let_def documents_own.query_own by (rule refl)+

lemma jobs_read_own [own_simps]:
  "job_Get e u i (own u s) = job_Get e u i s"
  "job_Latest e u i (own u s) = job_Latest e u i s"
  unfolding job_Get_def job_find_def job_Latest_def jobs_own.query_own by (rule refl)+

lemma results_read_own [own_simps]:
  "result_GetByJob c e u i (own u s) = result_GetByJob c e u i s"
  "result_Get c e u i (own u s) = result_Get c e u i s"
  "result_HistoryList c e u rl (own u s) = result_HistoryList c e u rl s"
  unfolding result_GetByJob_def result_Get_def result_find_def result_HistoryList_def results_own.query_own
  by (rule refl)+

lemma projects_read_own [own_simps]:
  "project_Get e u i (own u s) = project_Get e u i s"
  "project_HistoryGet e u i (own u s) = project_HistoryGet e u i s"
  "project_List e u rp (own u s) = project_List e u rp s"
  "project_HistoryList e u rp (own u s) = project_HistoryList e u rp s"
  unfolding project_Get_def project_HistoryGet_def project_get_def project_List_def project_HistoryList_def
    project_list_def Let_def projects_own.query_own by (rule refl)+

lemma tasks_read_own [own_simps]:
  "task_List e u i rt (own u s) = task_List e u i rt s"
  "task_HistoryList e u i rt (own u s) = task_HistoryList e u i rt s"
  unfolding task_List_def task_HistoryList_def task_list_def task_findProject_def
    projects_own.query_own tasks_own.query_own by (rule refl)+

lemma account_read_own [own_simps]:
  "auth_CurrentUserByID e u (own u s) = auth_CurrentUserByID e u s"
  unfolding auth_CurrentUserByID_def users_own.query_own by (rule refl)

lemma concat_filter_empty: "(\<And>x. x \<in> set xs \<Longrightarrow> \<not> P x \<Longrightarrow> f x = []) \<Longrightarrow> concat (map f (filter P xs)) = concat (map f xs)"
  by (induction xs) auto

lemma open_tasks_own: "open_tasks u (own u s) = open_tasks u s"
  unfolding open_tasks_def own_sel
  by (subst concat_filter_empty) (auto intro!: arg_cong [of _ _ concat] map_cong concat_filter_empty)

lemma dashboard_read_own [own_simps]:
  "dash_Stats e u (own u s) = dash_Stats e u s"
  "dash_Reminders e u (own u s) = dash_Reminders e u s"
  unfolding dash_Stats_def dash_Reminders_def open_tasks_own documents_own.query_own jobs_own.query_own
    projects_own.query_own by (rule refl)+

lemma chat_read_own [own_simps]:
  "chat_start c num jt conf e clock u q rc (own u s) g = chat_start c num jt conf e clock u q rc s g"
  unfolding chat_start_def results_own.query_own documents_own.query_own by (rule refl)

section \<open>What a user changes\<close>

text \<open>Tables with an owner and a primary key: a row of one owner replaced is none of the others'.\<close>

locale owned_rows = owner_column owner table
  for owner :: "'r \<Rightarrow> int" and table :: "db \<Rightarrow> 'r list" +
  fixes key :: "'r \<Rightarrow> int"
  assumes unique: "schema_ok s \<Longrightarrow> distinct (map key (table s))"
begin

lemma edit_leaves:
  assumes "schema_ok s" "r \<in> set (table s)" "owner r \<noteq> v" "owner r' \<noteq> v" "key r' = key r"
  shows "filter (\<lambda>x. owner x = v) (replace_row key r' (table s)) = filter (\<lambda>x. owner x = v) (table s)"
proof (rule filter_replace_row)
  fix x assume x: "x \<in> set (table s)" "key x = key r'"
  then have "x = r" using distinct_map_unique [OF unique [OF assms(1)] x(1) assms(2)] assms(5) by simp
  then show "owner x \<noteq> v" using assms(3) by simp
qed (rule assms(4))

end

interpretation documents_of: owned_rows doc_user_id documents doc_id
  by unfold_locales (rule schema_ok_distinct(1))

interpretation jobs_of: owned_rows job_user_id parse_jobs job_id
  by unfold_locales (rule schema_ok_distinct(2))

interpretation results_of: owned_rows res_user_id parse_results res_id
  by unfold_locales (rule schema_ok_distinct(3))

interpretation projects_of: owned_rows prj_user_id projects prj_id
  by unfold_locales (rule schema_ok_distinct(4))

text \<open>The rows of \<open>v\<close>, a registered user, are the same before and after.\<close>

definition leaves :: "auth_lib \<Rightarrow> int \<Rightarrow> db \<Rightarrow> db \<Rightarrow> bool" where
  "leaves lib v s s' \<longleftrightarrow> intact lib s \<longrightarrow> v \<in> u_id ` set (users s) \<longrightarrow> own v s' = own v s"

lemma leaves_refl [simp]: "leaves lib v s s"
  by (simp add: leaves_def)

lemma doc_CreateText_leaves:
  "doc_CreateText e u rq s = (x, s') \<Longrightarrow> u \<noteq> v \<Longrightarrow> leaves lib v s s'"
  using doc_CreateText_cases [of e u rq s x s'] by (auto simp: leaves_def own_def new_text_document_def)

lemma doc_CreatePDF_leaves:
  "doc_CreatePDF e rnd today svc u rq rs (s, fs) = (x, (s', fs')) \<Longrightarrow> u \<noteq> v \<Longrightarrow> leaves lib v s s'"
  by (auto simp: leaves_def own_def doc_CreatePDF_def Let_def sql_insert_Inr new_pdf_document_def
      split: if_splits sum.splits option.splits prod.splits)

lemma doc_Delete_leaves:
  assumes run: "doc_Delete e svc u i (s, fs) = (x, (s', fs'))" and "u \<noteq> v"
  shows "leaves lib v s s'"
proof (cases "s' = s")
  case False
  then obtain k where tx: "doc_Delete_tx e u i s = Inr (k, s')" using doc_Delete_cases [OF run] by blast
  show ?thesis
    unfolding leaves_def
  proof (intro impI)
    assume "intact lib s"
    then have ok: "schema_ok s" by (rule intactD(1))
    from doc_Delete_tx_Inr [OF tx ok] obtain d where
      "d \<in> set (documents s)" "own_document u i d" "document_edit s d (d\<lparr>doc_deleted_at := Some (now e)\<rparr>) s'" by blast
    then show "own v s' = own v s"
      using documents_of.edit_leaves [OF ok] assms(2) by (simp add: own_def document_edit_def own_document_def)
  qed
qed simp

lemma job_Create_leaves:
  assumes run: "job_Create e u i (s, q) = (x, (s', q'))" and "u \<noteq> v"
  shows "leaves lib v s s'"
proof (cases x)
  case (Inl err)
  then show ?thesis using job_Create_Inl [OF run [unfolded Inl]] by simp
next
  case (Inr resp)
  from job_Create_Inr [OF run [unfolded Inr]] obtain j where "job_Create_tx e u i s = Inr (j, s')" by blast
  from job_Create_tx_Inr [OF this] show ?thesis using assms(2) by (auto simp: leaves_def own_def new_job_def)
qed

lemma job_Retry_leaves:
  assumes run: "job_Retry e u i (s, q) = (x, (s', q'))" and "u \<noteq> v"
  shows "leaves lib v s s'"
proof (cases x)
  case (Inl err)
  then show ?thesis using job_Retry_Inl [OF run [unfolded Inl]] by simp
next
  case (Inr resp)
  show ?thesis
    unfolding leaves_def
  proof (intro impI)
    assume "intact lib s"
    then have ok: "schema_ok s" by (rule intactD(1))
    from job_Retry_Inr [OF run [unfolded Inr] ok] obtain j where "j \<in> set (parse_jobs s)" "job_user_id j = u"
      "job_edit s j (job_reset e (job_retry_count j) j) s'" by blast
    then show "own v s' = own v s"
      using jobs_of.edit_leaves [OF ok] assms(2) by (simp add: own_def job_edit_def)
  qed
qed

lemma result_edit_leaves:
  assumes "schema_ok s" "own_result u i p s" "u \<noteq> v" "result_edit s p p' s'" "res_id p' = res_id p" "res_user_id p' = u"
  shows "own v s' = own v s"
  using assms results_of.edit_leaves [OF assms(1), of p v p'] by (simp add: own_def result_edit_def own_result_def)

lemma result_Update_leaves:
  assumes run: "result_Update c e u i (Some r) s = (x, s')" and "u \<noteq> v"
  shows "leaves lib v s s'"
  unfolding leaves_def
proof (intro impI)
  assume "intact lib s"
  then have ok: "schema_ok s" by (rule intactD(1))
  from result_Update_cases [OF run ok] show "own v s' = own v s"
    using result_edit_leaves [OF ok _ assms(2)] by (auto simp: own_result_def)
qed

lemma result_Confirm_leaves:
  assumes run: "result_Confirm c e u i s = (x, s')" and "u \<noteq> v"
  shows "leaves lib v s s'"
proof (cases "s' = s")
  case False
  then obtain p' where tx: "result_Confirm_tx e u i s = Inr (p', s')"
    using run by (auto simp: result_Confirm_def transaction_Inr dest: transaction_Inl
        split: if_splits sum.splits prod.splits)
  show ?thesis
    unfolding leaves_def
  proof (intro impI)
    assume "intact lib s"
    then have ok: "schema_ok s" by (rule intactD(1))
    from result_Confirm_tx_Inr [OF tx ok] False obtain p where
      "own_result u i p s" "result_edit s p (result_Confirm_set e p) s'" by metis
    then show "own v s' = own v s"
      by (intro result_edit_leaves [OF ok _ assms(2), of i p "result_Confirm_set e p"])
        (simp_all add: own_result_def result_Confirm_set_def)
  qed
qed simp

lemma project_Create_leaves:
  assumes run: "project_Create c e u (Some rq) s = (x, s')" and "u \<noteq> v"
  shows "leaves lib v s s'"
proof (cases "s' = s")
  case False
  then obtain resp created where x: "x = Inr (resp, created)" using run project_Create_Inl by (cases x) auto
  show ?thesis
    unfolding leaves_def
  proof (intro impI)
    assume "intact lib s"
    then have ok: "schema_ok s" by (rule intactD(1))
    from project_Create_Inr [OF run [unfolded x] ok] False obtain name p ts r where
      "project_created c e u name r s p ts s'" by metis
    then show "own v s' = own v s"
      using assms(2) by (auto simp: own_def project_created_def new_project_def filter_empty_conv
          dest: new_project_tasks_keys)
  qed
qed simp

lemma project_act_leaves:
  assumes run: "project_act e u i a s = (x, s')" and "u \<noteq> v"
  shows "leaves lib v s s'"
  unfolding leaves_def
proof (intro impI)
  assume "intact lib s"
  then have ok: "schema_ok s" by (rule intactD(1))
  from project_act_change [OF run ok] show "own v s' = own v s"
    using projects_of.edit_leaves [OF ok] assms(2)
    by (auto simp: own_def project_change_def project_edit_def next_row_def)
qed

lemma task_act_leaves:
  assumes run: "task_act e u a s = (b, s')" and "u \<noteq> v"
  shows "leaves lib v s s'"
  unfolding leaves_def
proof (intro impI)
  assume "intact lib s"
  then have ok: "schema_ok s" by (rule intactD(1))
  show "own v s' = own v s"
  proof (cases "s' = s")
    case False
    with task_act_delta [OF run ok] have eq: "s' = s\<lparr>tasks := tasks s'\<rparr>"
      and others: "filter (\<lambda>t. tsk_user_id t \<noteq> u) (tasks s') = filter (\<lambda>t. tsk_user_id t \<noteq> u) (tasks s)"
      unfolding task_delta_def by blast+
    have mine: "filter (\<lambda>t. tsk_user_id t = v) xs = filter (\<lambda>t. tsk_user_id t = v) (filter (\<lambda>t. tsk_user_id t \<noteq> u) xs)" for xs
      using assms(2) by (auto simp: filter_filter intro: filter_cong)
    have "filter (\<lambda>t. tsk_user_id t = v) (tasks s') = filter (\<lambda>t. tsk_user_id t = v) (tasks s)"
      unfolding mine [of "tasks s'"] others by (rule mine [symmetric])
    then show ?thesis by (subst eq) (simp add: own_def)
  qed simp
qed

lemma auth_UpdateCurrentUser_row:
  assumes run: "auth_UpdateCurrentUser lib conf e rnd u raw rq (s, r) = (x, (s', r'))"
    and d: "distinct (map u_id (users s))"
  shows "s' = s \<or> (\<exists>k. s' = s\<lparr>users := replace_row u_id k (users s)\<rparr> \<and> u_id k = u)"
proof -
  let ?edited = "\<lambda>s1. s1 = s \<or> (\<exists>k. s1 = s\<lparr>users := replace_row u_id k (users s)\<rparr> \<and> u_id k = u)"
  { fix cur repl req y s1 r1
    assume "auth_UpdateCurrentUser_tx lib conf e u cur repl req (s, r) = (Inr y, (s1, r1))"
    then have "?edited s1"
      using auth_UpdateCurrentUser_tx_Inr [OF _ d, of lib conf e u cur repl req r "fst y" "snd y" s1 r1]
      by (force simp: profile_set_def) }
  note tx = this
  { fix cur repl req err done' s1 r1
    assume "auth_transaction e (auth_UpdateCurrentUser_tx lib conf e u cur repl req) (s, r) = ((err, done'), (s1, r1))"
    then have "?edited s1" using tx by (auto simp: auth_transaction_def split: sum.splits prod.splits if_splits) }
  note run' = this
  from run show ?thesis
    unfolding auth_UpdateCurrentUser_def
    by (auto split: option.splits sum.splits prod.splits if_splits dest!: run')
qed

lemma auth_UpdateCurrentUser_leaves:
  assumes run: "auth_UpdateCurrentUser lib conf e rnd u raw rq (s, r) = (x, (s', r'))" and "u \<noteq> v"
  shows "leaves lib v s s'"
  unfolding leaves_def
proof (intro impI)
  assume "intact lib s"
  then have "distinct (map u_id (users s))" by (intro users_distinct [OF intactD(2)])
  from auth_UpdateCurrentUser_row [OF run this] show "own v s' = own v s"
    using assms(2) filter_replace_row [of "\<lambda>x. u_id x = v" _ "users s" u_id] by (auto simp: own_def)
qed

lemma auth_Register_leaves:
  assumes rnd: "random_ok rnd" and run: "auth_Register lib conf e rnd rq (s, r) = (x, (s', r'))"
  shows "leaves lib v s s'"
  unfolding leaves_def
proof (intro impI)
  assume v: "v \<in> u_id ` set (users s)"
  show "own v s' = own v s"
  proof (cases x)
    case (Inl err)
    then show ?thesis using auth_Register_all_or_nothing' [OF rnd run] by simp
  next
    case (Inr sess)
    then obtain k where k: "s' = s\<lparr>users := users s @ [k]\<rparr>" "users_violation lib (users s') = None"
      using auth_Register_all_or_nothing' [OF rnd run] by auto
    then have "u_id k \<notin> u_id ` set (users s)" using users_distinct [OF k(2)] by simp
    then show ?thesis using k(1) v by (auto simp: own_def)
  qed
qed

definition leaves_rows :: "server \<Rightarrow> int \<Rightarrow> app \<Rightarrow> app \<Rightarrow> bool" where
  "leaves_rows sv v a b \<longleftrightarrow> leaves (sv_lib sv) v (app_db a) (app_db b)"

lemmas leaves_db = doc_CreateText_leaves [OF split_pair] result_Update_leaves [OF split_pair]
  result_Confirm_leaves [OF split_pair] project_Create_leaves [OF split_pair] project_act_leaves [OF split_pair]
  task_act_leaves [OF split_pair]

lemmas leaves_two = doc_CreatePDF_leaves [OF split_triple] doc_Delete_leaves [OF split_triple]
  job_Create_leaves [OF split_triple] job_Retry_leaves [OF split_triple]
  auth_UpdateCurrentUser_leaves [OF split_triple] auth_Register_leaves [OF _ split_triple]

interpretation other_users: server_contract sv "\<lambda>u. u \<noteq> v" "leaves_rows sv v"
  by unfold_locales (simp_all add: leaves_rows_def leaves_db leaves_two auth_Login_db)

text \<open>
  C4: Only a user changes the user's rows. Take a reachable state, a registered user and any
  request that does not carry that user's own valid token: one without a token, one with
  another user's, one to any route and with any path, query and body. Afterwards all rows
  of the user, the account, documents, jobs, results, projects and tasks, are what they were.
\<close>

theorem requests_leave_other_users:
  assumes "random_ok (m_random m)" "reachable (sv_lib sv) (sv_codec sv) (w_app w)"
    and "v \<in> u_id ` set (users (app_db (w_app w)))"
    and "\<And>p source. authenticate (sv_lib sv) (sv_auth sv) (now (m_env m)) rq = Some (p, source) \<Longrightarrow> p_user_id p \<noteq> v"
  shows "own v (app_db (w_app (snd (serve sv m rq w)))) = own v (app_db (w_app w))"
proof -
  have "leaves (sv_lib sv) v (app_db (w_app w)) (app_db (w_app (snd (serve sv m rq w))))"
    using other_users.serve_moves [OF assms(1,4)] by (simp add: leaves_rows_def)
  then show ?thesis using reachable_ok [OF assms(2)] assms(3) by (simp add: leaves_def app_ok_def)
qed

theorem requests_leave_other_users_witness:
  "own 0 (app_db (w_app (snd (serve sample_server sample_moment (me_request (Some sample_token))
      (world_of (app_db run_registered)\<lparr>w_app := run_registered\<rparr>))))) = own 0 (app_db run_registered)"
proof -
  let ?w = "world_of (app_db run_registered)\<lparr>w_app := run_registered\<rparr>"
  have "reachable (sv_lib sample_server) (sv_codec sample_server) (w_app ?w)"
    using reachable.later [OF reachable.initially run_registers] by (simp add: sample_server_def)
  moreover have "0 \<in> u_id ` set (users (app_db (w_app ?w)))" by (simp add: run_registered_def)
  moreover have "random_ok (m_random sample_moment)" by (simp add: sample_moment_def)
  ultimately show ?thesis
    using requests_leave_other_users [of sample_moment sample_server ?w 0 "me_request (Some sample_token)"]
      me_authenticated by simp
qed

section \<open>What a reply discloses\<close>

text \<open>
  A handler that keeps the rows as they are and answers by what \<open>u\<close> owns and by the chats in
  progress, if \<open>u\<close> is who the context names.
\<close>

definition agree :: "int \<Rightarrow> world \<Rightarrow> world \<Rightarrow> bool" where
  "agree u w w' \<longleftrightarrow> own u (app_db (w_app w)) = own u (app_db (w_app w')) \<and> w_chat w = w_chat w'"

definition discreet :: "server_handler \<Rightarrow> gin_context \<Rightarrow> world \<Rightarrow> world \<Rightarrow> bool" where
  "discreet h c w w' \<longleftrightarrow> w_app (snd (h c w)) = w_app w \<and> fst (h c w) = fst (h c w')"

definition reading :: "int \<Rightarrow> server_handler \<Rightarrow> bool" where
  "reading u h \<longleftrightarrow>
     (\<forall>c w w'. (\<forall>p. gc_principal c = Some p \<longrightarrow> p_user_id p = u) \<longrightarrow> agree u w w' \<longrightarrow> discreet h c w w')"

lemma discreet_refused [simp]: "discreet (\<lambda>c w. (f c, w)) c w w'"
  by (simp add: discreet_def)

lemma discreet_open [simp]:
  "discreet (with_id name h1) c w w' \<longleftrightarrow> (case PathID c name of Inl err \<Rightarrow> True | Inr i \<Rightarrow> discreet (h1 i) c w w')"
  "discreet (with_principal h1) c w w' \<longleftrightarrow> (case PrincipalFrom c of None \<Rightarrow> True | Some p \<Rightarrow> discreet (h1 (p_user_id p)) c w w')"
  "discreet (LimitRequestBody n g) c w w' \<longleftrightarrow> discreet g (c\<lparr>gc_body_limit := Some n\<rparr>) w w'"
  by (simp_all add: discreet_def with_id_def with_principal_def LimitRequestBody_def split: sum.split option.split)

lemma discreet_request [simp]:
  "discreet (with_request b refuse h) c w w' \<longleftrightarrow> (case b c of Inl err \<Rightarrow> True | Inr r \<Rightarrow> discreet (h r) c w w')"
  by (simp add: discreet_def with_request_def split: sum.split)

named_theorems reading_intros \<open>handlers that only read the rows of their user\<close>

lemma reading_open [reading_intros]:
  "(\<And>i. reading u (h i)) \<Longrightarrow> reading u (with_id name h)"
  "reading u (h u) \<Longrightarrow> reading u (with_principal h)"
  "reading u g \<Longrightarrow> reading u (LimitRequestBody n g)"
  by (auto simp: reading_def PrincipalFrom_def split: sum.split option.split)

lemma reading_request [reading_intros]: "(\<And>r. reading u (h r)) \<Longrightarrow> reading u (with_request b refuse h)"
  by (simp add: reading_def split: sum.split)

lemma reading_rows [reading_intros]:
  assumes "\<And>c s. f c (own u s) = f c s"
  shows "reading u (\<lambda>c w. (f c (app_db (w_app w)), w))"
  unfolding reading_def agree_def discreet_def by (metis assms fst_conv snd_conv)

lemma reading_document_handlers:
  "reading u (document_GetHandler sv m)" "reading u (document_ListHandler sv m)"
  unfolding document_GetHandler_def document_ListHandler_def by (intro reading_intros; simp add: own_simps)+

lemma reading_parse_handlers:
  "reading u (job_GetHandler sv m)" "reading u (job_LatestHandler sv m)" "reading u (result_GetByJobHandler sv m)"
  "reading u (result_GetHandler sv m)" "reading u (result_HistoryListHandler sv m)"
  unfolding job_GetHandler_def job_LatestHandler_def result_GetByJobHandler_def result_GetHandler_def
    result_HistoryListHandler_def
  by (intro reading_intros; simp add: own_simps)+

lemma reading_project_handlers:
  "reading u (project_ListHandler sv m)" "reading u (project_HistoryListHandler sv m)"
  "reading u (project_getHandler sv m history)" "reading u (task_listHandler sv m history)"
  unfolding project_ListHandler_def project_HistoryListHandler_def project_getHandler_def task_listHandler_def
  by (intro reading_intros; cases history; simp add: own_simps)+

lemma reading_account_handlers:
  "reading u (MeHandler sv m)" "reading u (StatsHandler sv m)" "reading u (RemindersHandler sv m)"
  "reading u (HealthHandler sv m)" "reading u (ReadinessHandler sv m)"
  unfolding MeHandler_def StatsHandler_def RemindersHandler_def
  by (intro reading_intros; simp add: own_simps)+
    (simp_all add: reading_def discreet_def HealthHandler_def ReadinessHandler_def Let_def)

lemma reading_ChatHandler: "reading u (ChatHandler sv m)"
  unfolding reading_def
proof (intro allI impI)
  fix c :: gin_context and w w' :: world
  assume p: "\<forall>p. gc_principal c = Some p \<longrightarrow> p_user_id p = u" and eq: "agree u w w'"
  have start: "chat_start cd num jt conf e clock u q r (app_db (w_app w')) g = chat_start cd num jt conf e clock u q r (app_db (w_app w)) g"
    for cd num jt conf e clock q r g
    using chat_read_own [of cd num jt conf e clock u q r "app_db (w_app w)" g]
      chat_read_own [of cd num jt conf e clock u q r "app_db (w_app w')" g] eq by (simp add: agree_def)
  show "discreet (ChatHandler sv m) c w w'"
  proof (cases "PrincipalFrom c")
    case (Some q)
    then have "p_user_id q = u" using p by (auto simp: PrincipalFrom_def split: option.splits if_splits)
    then show ?thesis
      using eq unfolding discreet_def ChatHandler_def Some agree_def
      by (simp add: Let_def start split: sum.split prod.split)
  qed (simp add: discreet_def ChatHandler_def)
qed

lemmas reading_handlers = reading_document_handlers reading_parse_handlers reading_project_handlers
  reading_account_handlers reading_ChatHandler

lemma reading_routes:
  assumes "fst r = ''GET'' \<or> snd r = ''/api/v1/ai/chat''" "(r, h) \<in> set (user_routes sv m)"
  shows "reading u h"
  using assms by (auto simp: user_routes_def reading_handlers reading_intros)

lemma reading_protected:
  assumes "\<And>u. reading u h"
    and "\<And>p source. authenticate (sv_lib sv) (sv_auth sv) (now (m_env m)) (gc_request c) = Some (p, source) \<Longrightarrow>
      agree (p_user_id p) w w'"
  shows "discreet (protected_route sv m h) c w w'"
proof (cases "authenticate (sv_lib sv) (sv_auth sv) (now (m_env m)) (gc_request c)")
  case (Some x)
  then obtain p source where x: "authenticate (sv_lib sv) (sv_auth sv) (now (m_env m)) (gc_request c) = Some (p, source)"
    by (cases x) auto
  have "discreet h (c\<lparr>gc_principal := Some p, gc_source := Some source\<rparr>) w w'"
    using assms(1) [of "p_user_id p"] assms(2) [OF x] unfolding reading_def by simp
  then show ?thesis by (auto simp: discreet_def protected_route_def RequireAuth_def RequireCSRFForCookieAuth_def x)
qed (simp add: discreet_def protected_route_def RequireAuth_def)

lemma discreet_middleware:
  assumes "discreet h c w w'"
  shows "discreet (api_v1 sv h) c w w'" "discreet (CORS origins h) c w w'"
proof -
  obtain rp v v' where h: "h c w = (rp, v)" "h c w' = (rp, v')" "w_app v = w_app w"
    using assms by (cases "h c w"; cases "h c w'") (simp add: discreet_def)
  then show "discreet (api_v1 sv h) c w w'" "discreet (CORS origins h) c w w'"
    by (simp_all add: discreet_def api_v1_def Secure_def NoCache_def CORS_def Let_def)
qed

text \<open>
  C5: A user learns nothing of others. Take any GET request, or a chat, and two states of the
  server that agree on the rows of whoever the request's token names, and on the chats in
  progress, however they differ in the rows of everybody else. The reply is the same in
  both: status, body, headers and cookies, and for a chat all that is sent to the AI service
  in its name. Such a request changes no row, session, file or queued job.
\<close>

theorem reads_are_private:
  assumes "rq_method rq = ''GET'' \<or> rq_route rq = ''/api/v1/ai/chat''" "w_chat w = w_chat w'"
    and "\<And>p source. authenticate (sv_lib sv) (sv_auth sv) (now (m_env m)) rq = Some (p, source) \<Longrightarrow>
      own (p_user_id p) (app_db (w_app w)) = own (p_user_id p) (app_db (w_app w'))"
  shows "fst (serve sv m rq w) = fst (serve sv m rq w') \<and> w_app (snd (serve sv m rq w)) = w_app w"
proof -
  let ?r = "(rq_method rq, rq_route rq)" and ?c = "fresh_context rq"
  have read: "fst ?r = ''GET'' \<or> snd ?r = ''/api/v1/ai/chat''" using assms(1) by simp
  have "discreet (route_handler sv m ?r) ?c w w'"
  proof (cases "map_of (open_routes sv m) ?r")
    case (Some h)
    have "h = HealthHandler sv m \<or> h = ReadinessHandler sv m"
      using map_of_SomeD [OF Some] read by (auto simp: open_routes_def)
    then show ?thesis
      using Some by (auto simp: discreet_def route_handler_def HealthHandler_def ReadinessHandler_def Let_def)
  next
    case none: None
    show ?thesis
    proof (cases "map_of (user_routes sv m) ?r")
      case (Some h)
      have "reading u h" for u using reading_routes [OF read map_of_SomeD [OF Some]] .
      then have "discreet (protected_route sv m h) ?c w w'"
        by (rule reading_protected) (use assms(2,3) in \<open>simp add: fresh_context_def agree_def\<close>)
      then show ?thesis using discreet_middleware(1) none Some by (simp add: discreet_def route_handler_def)
    next
      case None
      then show ?thesis using none by (simp add: discreet_def route_handler_def Secure_def Let_def)
    qed
  qed
  then show ?thesis
    unfolding serve_def fresh_context_def [symmetric] using discreet_middleware(2) by (simp add: discreet_def)
qed

theorem reads_are_private_witness:
  "fst (serve sample_server sample_moment (me_request (Some sample_token)) (world_of sample_db))
    = fst (serve sample_server sample_moment (me_request (Some sample_token))
        (world_of (sample_db\<lparr>users := [sample_user 1],
          projects := (sample_project 9 9 ''active'')\<lparr>prj_user_id := 2\<rparr> # projects sample_db\<rparr>)))"
proof -
  let ?s = "sample_db\<lparr>users := [sample_user 1],
          projects := (sample_project 9 9 ''active'')\<lparr>prj_user_id := 2\<rparr> # projects sample_db\<rparr>"
  have "own 1 ?s = own 1 sample_db" by (simp add: own_def sample_db_def sample_user_def sample_project_def)
  then show ?thesis
    using me_authenticated
    by (intro conjunct1 [OF reads_are_private]) (auto simp: me_request_def world_of_def)
qed

end
