(* ===== verification/PdfExtractor.thy ===== *)
theory PdfExtractor
  imports DocumentService Encoding
begin

text \<open>
  \<open>pkg/upload/pdf_extractor.go\<close>: the text and the page count of a PDF, from what the programs
  \<open>pdfinfo\<close> and \<open>pdftotext\<close> print. The programs are parameters: of a run the extractor sees the
  chunks that came through the pipe and how it failed, if it did. The bounded buffer, the
  parser of \<open>pdfinfo\<close>'s output and every check are the source's.
\<close>

section \<open>The extractor\<close>

record poppler =
  pp_max_pages :: int
  pp_max_text_chars :: int
  pp_min_effective_chars :: int
  pp_timeout :: int
  pp_slot_wait :: int
  pp_slots :: int

definition positive_or :: "int \<Rightarrow> int \<Rightarrow> int" where
  "positive_or x d = (if x \<le> 0 then d else x)"

definition NewPopplerExtractor :: "int \<Rightarrow> int \<Rightarrow> int \<Rightarrow> int \<Rightarrow> int \<Rightarrow> int \<Rightarrow> poppler" where
  "NewPopplerExtractor maxPages maxTextChars minEffectiveChars concurrency timeout slotWait =
     \<lparr>pp_max_pages = positive_or maxPages 50, pp_max_text_chars = positive_or maxTextChars 50000,
      pp_min_effective_chars = positive_or minEffectiveChars 20,
      pp_timeout = positive_or timeout 15000000000, pp_slot_wait = positive_or slotWait 3000000000,
      pp_slots = positive_or concurrency 2\<rparr>"

text \<open>Which case of the \<open>select\<close> in \<open>acquire\<close> was taken.\<close>

datatype slot_outcome = SlotFree | RequestEnded string | SlotTimeout

definition extractor_acquire :: "slot_outcome \<Rightarrow> pdf_error option" where
  "extractor_acquire w =
     (case w of SlotFree \<Rightarrow> None | RequestEnded m \<Rightarrow> Some (PDFContextError m) | SlotTimeout \<Rightarrow> Some PDFExtractorBusy)"

text \<open>
  Why a run ended with an error: the deadline of the extraction passed, the program could not
  be started, or it failed.
\<close>

datatype run_failure = DeadlineExceeded | NotStarted string | ExitError

record program_run =
  pr_chunks :: "string list"
  pr_failure :: "run_failure option"

definition pr_output :: "program_run \<Rightarrow> string" where
  "pr_output r = concat (pr_chunks r)"

definition run_error :: "string \<Rightarrow> run_failure \<Rightarrow> pdf_error" where
  "run_error program f =
     (case f of DeadlineExceeded \<Rightarrow> PDFExtractTimeout | NotStarted m \<Rightarrow> PDFOther (''run '' @ program @ '': '' @ m)
      | ExitError \<Rightarrow> PDFInvalid)"

section \<open>The bounded buffer\<close>

record limited_buffer =
  lb_bytes :: string
  lb_limit :: int
  lb_exceeded :: bool

text \<open>\<open>Write\<close>: the count and whether it returned \<open>errLimitExceeded\<close>, with the buffer after it.\<close>

definition limitedBuffer_Write :: "string \<Rightarrow> limited_buffer \<Rightarrow> (int \<times> bool) \<times> limited_buffer" where
  "limitedBuffer_Write value b =
     (if lb_exceeded b then ((0, True), b)
      else
        let remaining = lb_limit b - int (length (lb_bytes b)) in
        if remaining \<le> 0 \<or> remaining < int (length value) then
          ((int (length value), True),
           b\<lparr>lb_bytes := (if 0 < remaining then lb_bytes b @ take (nat remaining) value else lb_bytes b),
             lb_exceeded := True\<rparr>)
        else ((int (length value), False), b\<lparr>lb_bytes := lb_bytes b @ value\<rparr>))"

text \<open>The copy from the pipe stops at the first error of the writer.\<close>

fun copy_chunks :: "string list \<Rightarrow> limited_buffer \<Rightarrow> limited_buffer" where
  "copy_chunks [] b = b"
| "copy_chunks (x # xs) b =
     (case limitedBuffer_Write x b of ((n, failed), b') \<Rightarrow> if failed then b' else copy_chunks xs b')"

definition empty_buffer :: "int \<Rightarrow> limited_buffer" where
  "empty_buffer limit = \<lparr>lb_bytes = [], lb_limit = limit, lb_exceeded = False\<rparr>"

definition maxTextBytes :: "int \<Rightarrow> int" where
  "maxTextBytes maxChars = int64_wrap (maxChars * 4 + 1)"

section \<open>Reading the output\<close>

text \<open>
  \<open>strings.ToLower\<close> is compared with ASCII words only, so lower-casing the ASCII letters
  decides the same; no other rune becomes one of their letters.
\<close>

definition Cut :: "char \<Rightarrow> string \<Rightarrow> (string \<times> string) option" where
  "Cut d s = (if d \<in> set s then Some (takeWhile (\<lambda>c. c \<noteq> d) s, drop 1 (dropWhile (\<lambda>c. c \<noteq> d) s)) else None)"

fun pdfinfo_lines :: "string list \<Rightarrow> int \<times> bool \<Rightarrow> string + int \<times> bool" where
  "pdfinfo_lines [] (pages, encrypted) =
     (if pages = 0 then Inl ''page count is missing'' else Inr (pages, encrypted))"
| "pdfinfo_lines (l # ls) (pages, encrypted) =
     (case Cut (CHR '':'') l of
        None \<Rightarrow> pdfinfo_lines ls (pages, encrypted)
      | Some (name, value) \<Rightarrow>
          let key = trim_space (map lower_char name) in
          if key = ''pages'' then
            (case parse_int64 (trim_space value) of
               None \<Rightarrow> Inl ''invalid page count''
             | Some parsed \<Rightarrow>
                 if parsed < 1 then Inl ''invalid page count'' else pdfinfo_lines ls (parsed, encrypted))
          else if key = ''encrypted'' then
            pdfinfo_lines ls (pages, take 3 (map lower_char (trim_space value)) = ''yes'')
          else pdfinfo_lines ls (pages, encrypted))"

definition parsePDFInfo :: "string \<Rightarrow> string + int \<times> bool" where
  "parsePDFInfo output = pdfinfo_lines (split_on (CHR 0x0A) output) (0, False)"

definition is_control :: "nat \<Rightarrow> bool" where
  "is_control r \<longleftrightarrow> r < 32 \<or> (127 \<le> r \<and> r < 160)"

definition effectiveCharacters :: "string \<Rightarrow> nat" where
  "effectiveCharacters s = length (filter (\<lambda>r. \<not> is_space r \<and> \<not> is_control r) (runes s))"

section \<open>Extracting\<close>

definition poppler_Extract :: "poppler \<Rightarrow> slot_outcome \<Rightarrow> program_run \<Rightarrow> program_run \<Rightarrow> pdf_error + string \<times> int" where
  "poppler_Extract pp slot info pdftotext =
     (case extractor_acquire slot of Some err \<Rightarrow> Inl err | None \<Rightarrow>
     (case pr_failure info of Some f \<Rightarrow> Inl (run_error ''pdfinfo'' f) | None \<Rightarrow>
     (case parsePDFInfo (pr_output info) of
        Inl m \<Rightarrow> Inl PDFInvalid
      | Inr (pageCount, encrypted) \<Rightarrow>
          if encrypted then Inl PDFEncrypted
          else if pp_max_pages pp < pageCount then Inl PDFTooManyPages
          else
            let stdout = copy_chunks (pr_chunks pdftotext) (empty_buffer (maxTextBytes (pp_max_text_chars pp))) in
            if lb_exceeded stdout then Inl PDFTextTooLarge
            else
              (case pr_failure pdftotext of Some f \<Rightarrow> Inl (run_error ''pdftotext'' f) | None \<Rightarrow>
               let t = trim_space (lb_bytes stdout) in
               if \<not> valid_utf8 t \<or> pp_max_text_chars pp < int (rune_count t) then Inl PDFTextTooLarge
               else if int (effectiveCharacters t) < pp_min_effective_chars pp then Inl PDFNoUsableText
               else Inr (t, int32_wrap pageCount)))))"

section \<open>The buffer keeps a prefix\<close>

text \<open>
  However the pipe cuts the output into chunks, the buffer holds the output up to the limit
  and the error says whether it was longer.
\<close>

definition prefix_buffer :: "string \<Rightarrow> int \<Rightarrow> limited_buffer" where
  "prefix_buffer s limit = \<lparr>lb_bytes = take (nat limit) s, lb_limit = limit, lb_exceeded = limit < int (length s)\<rparr>"

lemma copy_chunks_from:
  assumes "list_all (\<lambda>x. x \<noteq> []) xs" "int (length s) \<le> limit"
  shows "copy_chunks xs \<lparr>lb_bytes = s, lb_limit = limit, lb_exceeded = False\<rparr> = prefix_buffer (s @ concat xs) limit"
  using assms
proof (induction xs arbitrary: s)
  case Nil
  then show ?case by (simp add: prefix_buffer_def)
next
  case (Cons x xs)
  have x: "0 < length x" using Cons.prems(1) by simp
  show ?case
  proof (cases "limit < int (length (s @ x))")
    case True
    have "take (nat limit) (s @ x @ concat xs) = s @ take (nat (limit - int (length s))) x"
      using True Cons.prems(2) by (simp add: nat_diff_distrib)
    then show ?thesis
      using True Cons.prems(2) x
      by (auto simp: limitedBuffer_Write_def prefix_buffer_def Let_def)
  next
    case False
    then have "copy_chunks xs \<lparr>lb_bytes = s @ x, lb_limit = limit, lb_exceeded = False\<rparr>
        = prefix_buffer ((s @ x) @ concat xs) limit"
      using Cons by simp
    moreover have "\<not> limit \<le> int (length s)" using False x unfolding length_append of_nat_add by linarith
    ultimately show ?thesis using False by (simp add: limitedBuffer_Write_def Let_def)
  qed
qed

lemma copy_chunks_prefix:
  "list_all (\<lambda>x. x \<noteq> []) xs \<Longrightarrow> 0 \<le> limit \<Longrightarrow> copy_chunks xs (empty_buffer limit) = prefix_buffer (concat xs) limit"
  using copy_chunks_from [of xs "[]" limit] by (simp add: empty_buffer_def)

lemma decode_rune_at_most_4: "snd (decode_rune s) \<le> 4"
  by (cases s rule: decode_rune.cases) (auto simp: Let_def)

lemma length_le_runes: "length s \<le> 4 * rune_count s"
proof (induction s rule: segments.induct)
  case (2 a s)
  let ?w = "snd (decode_rune (a # s))"
  have w: "1 \<le> ?w" "?w \<le> 4" using decode_rune_width [of "a # s"] decode_rune_at_most_4 by auto
  have "length (drop (?w - 1) s) \<le> 4 * rune_count (drop (?w - 1) s)" using 2 by simp
  then show ?case using w by (simp add: rune_count_def segments.simps(2) Let_def)
qed simp

lemma effective_le_runes: "effectiveCharacters s \<le> rune_count s"
  by (simp add: effectiveCharacters_def rune_count_def runes_def length_filter_le order_trans [OF length_filter_le])

lemma pdfinfo_lines_pages:
  "pdfinfo_lines ls (p, en) = Inr (n, en') \<Longrightarrow> 0 \<le> p \<Longrightarrow> 1 \<le> n"
proof (induction ls "(p, en)" arbitrary: p en rule: pdfinfo_lines.induct)
  case (2 l ls p en)
  then show ?case by (simp add: Let_def split: option.splits prod.splits if_splits)
qed (simp split: if_splits)

lemma parsePDFInfo_pages: "parsePDFInfo out = Inr (n, en) \<Longrightarrow> 1 \<le> n"
  unfolding parsePDFInfo_def by (erule pdfinfo_lines_pages) simp

lemma poppler_Extract_Inr:
  assumes chunks: "list_all (\<lambda>x. x \<noteq> []) (pr_chunks pdftotext)"
    and limits: "pp_max_pages pp < 2147483648" "0 \<le> pp_max_text_chars pp" "pp_max_text_chars pp < 2147483648"
  shows "poppler_Extract pp SlotFree info pdftotext = Inr (t, n) \<longleftrightarrow>
     pr_failure info = None \<and> parsePDFInfo (pr_output info) = Inr (n, False) \<and> n \<le> pp_max_pages pp
     \<and> pr_failure pdftotext = None \<and> t = trim_space (pr_output pdftotext)
     \<and> int (length (pr_output pdftotext)) \<le> 4 * pp_max_text_chars pp + 1
     \<and> valid_utf8 t \<and> int (rune_count t) \<le> pp_max_text_chars pp
     \<and> pp_min_effective_chars pp \<le> int (effectiveCharacters t)"
proof -
  let ?m = "4 * pp_max_text_chars pp + 1"
  have m: "maxTextBytes (pp_max_text_chars pp) = ?m"
    using limits by (simp add: maxTextBytes_def int64_wrap_id)
  have buf: "copy_chunks (pr_chunks pdftotext) (empty_buffer ?m) = prefix_buffer (pr_output pdftotext) ?m"
    using copy_chunks_prefix [OF chunks, of ?m] limits by (simp add: pr_output_def)
  have whole: "int (length (pr_output pdftotext)) \<le> ?m \<Longrightarrow> take (nat ?m) (pr_output pdftotext) = pr_output pdftotext"
    by simp
  have pages: "int32_wrap k = k" if "parsePDFInfo (pr_output info) = Inr (k, b)" "k \<le> pp_max_pages pp" for k b
    using parsePDFInfo_pages [OF that(1)] that(2) limits by (intro int32_wrap_id) auto
  show ?thesis
    unfolding poppler_Extract_def extractor_acquire_def m buf
    using pages whole
    by (auto simp: prefix_buffer_def Let_def not_less split: option.splits sum.splits prod.splits if_splits)
qed


definition sample_poppler :: poppler where
  "sample_poppler = NewPopplerExtractor 0 0 1 0 0 0"

definition sample_info :: program_run where
  "sample_info = \<lparr>pr_chunks = [''Pages: 2'' @ [CHR 0x0A], ''Encrypted: no'' @ [CHR 0x0A]], pr_failure = None\<rparr>"


text \<open>A document stored from an upload with this extractor is within its limits.\<close>

lemma stored_pdf_within_limits:
  assumes "pdf_stored e root (\<lambda>data. poppler_Extract pp SlotFree (info data) (pdftotext data)) u rs resp s fs s' fs'"
    and "\<And>data. list_all (\<lambda>x. x \<noteq> []) (pr_chunks (pdftotext data))"
    and "pp_max_pages pp < 2147483648" "0 \<le> pp_max_text_chars pp" "pp_max_text_chars pp < 2147483648"
  shows "\<exists>d t n. s' = s\<lparr>documents := documents s @ [d]\<rparr> \<and> doc_raw_text d = Some t \<and> doc_page_count d = Some n
    \<and> valid_utf8 t \<and> int (rune_count t) \<le> pp_max_text_chars pp \<and> 1 \<le> n \<and> n \<le> pp_max_pages pp"
  using assms(1) poppler_Extract_Inr [OF assms(2-5)] parsePDFInfo_pages unfolding pdf_stored_def by metis

end
