(* ===== verification/Config.thy ===== *)
theory Config
  imports Encoding
begin

text \<open>
  \<open>internal/config\<close>: the settings of the API and of the worker. A file is read and parsed
  outside; what \<open>yaml.Unmarshal\<close> makes of it, or the error, is an argument of \<open>Load\<close>. The
  environment is the map \<open>os.LookupEnv\<close> shows. A setting \<open>int\<close>, \<open>int64\<close> or \<open>int32\<close> is an
  integer in its range.
\<close>

section \<open>The settings\<close>

record http_settings =
  hs_trusted_proxies :: "string list"

record database_settings =
  dbs_data_source :: string

record cache_settings =
  cs_host :: string
  cs_pass :: string
  cs_type :: string

record auth_settings =
  aus_access_secret :: string
  aus_access_expire :: int
  aus_refresh_expire :: int
  aus_cookie_secure :: bool
  aus_login_rate_limit :: int
  aus_login_rate_window :: int
  aus_register_rate_limit :: int
  aus_register_rate_window :: int

record cors_settings =
  cos_allowed_origins :: "string list"

record ai_settings =
  ais_base_url :: string
  ais_api_key :: string
  ais_model :: string
  ais_request_timeout :: int
  ais_max_output_tokens :: int
  ais_chat_request_timeout :: int
  ais_chat_max_output_tokens :: int
  ais_chat_rate_limit :: int
  ais_chat_rate_window :: int

record upload_settings =
  ups_root :: string
  ups_max_file_bytes :: int
  ups_max_pages :: int
  ups_max_text_chars :: int
  ups_min_effective_chars :: int
  ups_extract_timeout :: int
  ups_max_concurrent_extractions :: int
  ups_slot_wait_timeout :: int
  ups_temp_grace :: int
  ups_orphan_grace :: int
  ups_cleanup_interval :: int

record worker_settings =
  ws_stream_key :: string
  ws_consumer_group :: string
  ws_concurrency :: int
  ws_block_timeout :: int
  ws_reconcile_interval :: int
  ws_pending_grace :: int
  ws_lease_timeout :: int
  ws_max_recoveries :: int
  ws_stream_retention :: int
  ws_heartbeat_interval :: int
  ws_heartbeat_ttl :: int
  ws_shutdown_grace :: int

record config =
  cfg_name :: string
  cfg_host :: string
  cfg_port :: int
  cfg_mode :: string
  cfg_http :: http_settings
  cfg_database :: database_settings
  cfg_cache :: cache_settings
  cfg_auth :: auth_settings
  cfg_cors :: cors_settings
  cfg_ai :: ai_settings
  cfg_upload :: upload_settings
  cfg_worker :: worker_settings

section \<open>The environment\<close>

text \<open>\<open>strconv.ParseBool\<close>.\<close>

definition ParseBool :: "string \<Rightarrow> bool option" where
  "ParseBool s =
     (if s \<in> {''1'', ''t'', ''T'', ''true'', ''TRUE'', ''True''} then Some True
      else if s \<in> {''0'', ''f'', ''F'', ''false'', ''FALSE'', ''False''} then Some False
      else None)"

text \<open>A variable that is empty counts as missing.\<close>

definition env_value :: "(string \<rightharpoonup> string) \<Rightarrow> string \<Rightarrow> string option" where
  "env_value env key = (case env key of None \<Rightarrow> None | Some v \<Rightarrow> if v = [] then None else Some v)"

definition env_parsed :: "(string \<Rightarrow> 'a option) \<Rightarrow> (string \<rightharpoonup> string) \<Rightarrow> string \<Rightarrow> 'a \<Rightarrow> 'a" where
  "env_parsed parse env key fallback =
     (case env_value env key of
        None \<Rightarrow> fallback
      | Some v \<Rightarrow> (case parse v of None \<Rightarrow> fallback | Some parsed \<Rightarrow> parsed))"

definition envBool :: "(string \<rightharpoonup> string) \<Rightarrow> string \<Rightarrow> bool \<Rightarrow> bool" where
  "envBool = env_parsed ParseBool"

definition envString :: "(string \<rightharpoonup> string) \<Rightarrow> string \<Rightarrow> string \<Rightarrow> string" where
  "envString = env_parsed Some"

text \<open>\<open>int\<close> has 64 bits, so \<open>Atoi\<close> accepts what \<open>ParseInt\<close> does.\<close>

definition envInt :: "(string \<rightharpoonup> string) \<Rightarrow> string \<Rightarrow> int \<Rightarrow> int" where
  "envInt = env_parsed parse_int64"

definition envInt64 :: "(string \<rightharpoonup> string) \<Rightarrow> string \<Rightarrow> int \<Rightarrow> int" where
  "envInt64 = env_parsed parse_int64"

definition envStringSlice :: "(string \<rightharpoonup> string) \<Rightarrow> string \<Rightarrow> string list \<Rightarrow> string list" where
  "envStringSlice env key fallback =
     (case env_value env key of
        None \<Rightarrow> fallback
      | Some v \<Rightarrow>
          let out = filter (\<lambda>p. p \<noteq> []) (map trim_space (split_on (CHR '','') v)) in
          if out = [] then fallback else out)"

definition override_http :: "(string \<rightharpoonup> string) \<Rightarrow> http_settings \<Rightarrow> http_settings" where
  "override_http env s =
     \<lparr>hs_trusted_proxies = envStringSlice env ''TASKPILOT_HTTP_TRUSTED_PROXIES'' (hs_trusted_proxies s)\<rparr>"

definition override_database :: "(string \<rightharpoonup> string) \<Rightarrow> database_settings \<Rightarrow> database_settings" where
  "override_database env s =
     \<lparr>dbs_data_source = envString env ''TASKPILOT_DATABASE_DSN'' (dbs_data_source s)\<rparr>"

definition override_cache :: "(string \<rightharpoonup> string) \<Rightarrow> cache_settings \<Rightarrow> cache_settings" where
  "override_cache env s =
     \<lparr>cs_host = envString env ''TASKPILOT_REDIS_HOST'' (cs_host s),
      cs_pass = envString env ''TASKPILOT_REDIS_PASS'' (cs_pass s),
      cs_type = envString env ''TASKPILOT_REDIS_TYPE'' (cs_type s)\<rparr>"

definition override_auth :: "(string \<rightharpoonup> string) \<Rightarrow> auth_settings \<Rightarrow> auth_settings" where
  "override_auth env s =
     \<lparr>aus_access_secret = envString env ''TASKPILOT_AUTH_ACCESS_SECRET'' (aus_access_secret s),
      aus_access_expire = envInt64 env ''TASKPILOT_AUTH_ACCESS_EXPIRE'' (aus_access_expire s),
      aus_refresh_expire = envInt64 env ''TASKPILOT_AUTH_REFRESH_EXPIRE'' (aus_refresh_expire s),
      aus_cookie_secure = envBool env ''TASKPILOT_AUTH_COOKIE_SECURE'' (aus_cookie_secure s),
      aus_login_rate_limit = envInt64 env ''TASKPILOT_AUTH_LOGIN_RATE_LIMIT'' (aus_login_rate_limit s),
      aus_login_rate_window = envInt64 env ''TASKPILOT_AUTH_LOGIN_RATE_WINDOW'' (aus_login_rate_window s),
      aus_register_rate_limit = envInt64 env ''TASKPILOT_AUTH_REGISTER_RATE_LIMIT'' (aus_register_rate_limit s),
      aus_register_rate_window = envInt64 env ''TASKPILOT_AUTH_REGISTER_RATE_WINDOW'' (aus_register_rate_window s)\<rparr>"

definition override_cors :: "(string \<rightharpoonup> string) \<Rightarrow> cors_settings \<Rightarrow> cors_settings" where
  "override_cors env s =
     \<lparr>cos_allowed_origins = envStringSlice env ''TASKPILOT_CORS_ALLOWED_ORIGINS'' (cos_allowed_origins s)\<rparr>"

definition override_ai :: "(string \<rightharpoonup> string) \<Rightarrow> ai_settings \<Rightarrow> ai_settings" where
  "override_ai env s =
     \<lparr>ais_base_url = envString env ''TASKPILOT_AI_BASE_URL'' (ais_base_url s),
      ais_api_key = envString env ''TASKPILOT_AI_API_KEY'' (ais_api_key s),
      ais_model = envString env ''TASKPILOT_AI_MODEL'' (ais_model s),
      ais_request_timeout = envInt64 env ''TASKPILOT_AI_REQUEST_TIMEOUT'' (ais_request_timeout s),
      ais_max_output_tokens = envInt64 env ''TASKPILOT_AI_MAX_OUTPUT_TOKENS'' (ais_max_output_tokens s),
      ais_chat_request_timeout = envInt64 env ''TASKPILOT_AI_CHAT_REQUEST_TIMEOUT'' (ais_chat_request_timeout s),
      ais_chat_max_output_tokens = envInt64 env ''TASKPILOT_AI_CHAT_MAX_OUTPUT_TOKENS'' (ais_chat_max_output_tokens s),
      ais_chat_rate_limit = envInt64 env ''TASKPILOT_AI_CHAT_RATE_LIMIT'' (ais_chat_rate_limit s),
      ais_chat_rate_window = envInt64 env ''TASKPILOT_AI_CHAT_RATE_WINDOW'' (ais_chat_rate_window s)\<rparr>"

definition override_upload :: "(string \<rightharpoonup> string) \<Rightarrow> upload_settings \<Rightarrow> upload_settings" where
  "override_upload env s =
     \<lparr>ups_root = envString env ''TASKPILOT_UPLOAD_ROOT'' (ups_root s),
      ups_max_file_bytes = envInt64 env ''TASKPILOT_UPLOAD_MAX_FILE_BYTES'' (ups_max_file_bytes s),
      ups_max_pages = envInt env ''TASKPILOT_UPLOAD_MAX_PAGES'' (ups_max_pages s),
      ups_max_text_chars = envInt env ''TASKPILOT_UPLOAD_MAX_TEXT_CHARS'' (ups_max_text_chars s),
      ups_min_effective_chars = envInt env ''TASKPILOT_UPLOAD_MIN_EFFECTIVE_CHARS'' (ups_min_effective_chars s),
      ups_extract_timeout = envInt64 env ''TASKPILOT_UPLOAD_EXTRACT_TIMEOUT'' (ups_extract_timeout s),
      ups_max_concurrent_extractions = envInt env ''TASKPILOT_UPLOAD_MAX_CONCURRENT_EXTRACTIONS'' (ups_max_concurrent_extractions s),
      ups_slot_wait_timeout = envInt64 env ''TASKPILOT_UPLOAD_SLOT_WAIT_TIMEOUT'' (ups_slot_wait_timeout s),
      ups_temp_grace = envInt64 env ''TASKPILOT_UPLOAD_TEMP_GRACE'' (ups_temp_grace s),
      ups_orphan_grace = envInt64 env ''TASKPILOT_UPLOAD_ORPHAN_GRACE'' (ups_orphan_grace s),
      ups_cleanup_interval = envInt64 env ''TASKPILOT_UPLOAD_CLEANUP_INTERVAL'' (ups_cleanup_interval s)\<rparr>"

definition override_worker :: "(string \<rightharpoonup> string) \<Rightarrow> worker_settings \<Rightarrow> worker_settings" where
  "override_worker env s =
     \<lparr>ws_stream_key = envString env ''TASKPILOT_WORKER_STREAM_KEY'' (ws_stream_key s),
      ws_consumer_group = envString env ''TASKPILOT_WORKER_CONSUMER_GROUP'' (ws_consumer_group s),
      ws_concurrency = envInt env ''TASKPILOT_WORKER_CONCURRENCY'' (ws_concurrency s),
      ws_block_timeout = envInt64 env ''TASKPILOT_WORKER_BLOCK_TIMEOUT'' (ws_block_timeout s),
      ws_reconcile_interval = envInt64 env ''TASKPILOT_WORKER_RECONCILE_INTERVAL'' (ws_reconcile_interval s),
      ws_pending_grace = envInt64 env ''TASKPILOT_WORKER_PENDING_GRACE'' (ws_pending_grace s),
      ws_lease_timeout = envInt64 env ''TASKPILOT_WORKER_LEASE_TIMEOUT'' (ws_lease_timeout s),
      ws_max_recoveries = int32_wrap (envInt64 env ''TASKPILOT_WORKER_MAX_RECOVERIES'' (ws_max_recoveries s)),
      ws_stream_retention = envInt64 env ''TASKPILOT_WORKER_STREAM_RETENTION'' (ws_stream_retention s),
      ws_heartbeat_interval = envInt64 env ''TASKPILOT_WORKER_HEARTBEAT_INTERVAL'' (ws_heartbeat_interval s),
      ws_heartbeat_ttl = envInt64 env ''TASKPILOT_WORKER_HEARTBEAT_TTL'' (ws_heartbeat_ttl s),
      ws_shutdown_grace = envInt64 env ''TASKPILOT_WORKER_SHUTDOWN_GRACE'' (ws_shutdown_grace s)\<rparr>"

definition applyEnvOverrides :: "(string \<rightharpoonup> string) \<Rightarrow> config \<Rightarrow> config" where
  "applyEnvOverrides env c =
     \<lparr>cfg_name = envString env ''TASKPILOT_NAME'' (cfg_name c),
      cfg_host = envString env ''TASKPILOT_HOST'' (cfg_host c),
      cfg_port = envInt env ''TASKPILOT_PORT'' (cfg_port c),
      cfg_mode = envString env ''TASKPILOT_MODE'' (cfg_mode c),
      cfg_http = override_http env (cfg_http c),
      cfg_database = override_database env (cfg_database c),
      cfg_cache = override_cache env (cfg_cache c),
      cfg_auth = override_auth env (cfg_auth c),
      cfg_cors = override_cors env (cfg_cors c),
      cfg_ai = override_ai env (cfg_ai c),
      cfg_upload = override_upload env (cfg_upload c),
      cfg_worker = override_worker env (cfg_worker c)\<rparr>"

section \<open>Defaults and limits\<close>

definition or_default :: "'a \<Rightarrow> 'a \<Rightarrow> 'a \<Rightarrow> 'a" where
  "or_default zero d x = (if x = zero then d else x)"

text \<open>
  The loops over the settings of a section: the value of each, or the error of the first one
  that is negative.
\<close>

fun apply_settings :: "string \<Rightarrow> (string \<times> int \<times> int) list \<Rightarrow> string + int list" where
  "apply_settings sect [] = Inr []"
| "apply_settings sect ((name, value, d) # xs) =
     (if value < 0 then Inl (''config '' @ sect @ ''.'' @ name @ '' must not be negative'')
      else
        (case apply_settings sect xs of
           Inl err \<Rightarrow> Inl err | Inr vs \<Rightarrow> Inr (or_default 0 d value # vs)))"

definition applyAuthRateLimitDefaults :: "auth_settings \<Rightarrow> string + auth_settings" where
  "applyAuthRateLimitDefaults s =
     (case apply_settings ''Auth''
             [(''LoginRateLimit'', aus_login_rate_limit s, 10), (''LoginRateWindow'', aus_login_rate_window s, 300),
              (''RegisterRateLimit'', aus_register_rate_limit s, 20),
              (''RegisterRateWindow'', aus_register_rate_window s, 3600)] of
        Inr [a, b, c, d] \<Rightarrow>
          Inr (s\<lparr>aus_login_rate_limit := a, aus_login_rate_window := b, aus_register_rate_limit := c,
                 aus_register_rate_window := d\<rparr>)
      | Inr _ \<Rightarrow> Inr s
      | Inl err \<Rightarrow> Inl err)"

definition load_auth :: "auth_settings \<Rightarrow> string + auth_settings" where
  "load_auth s =
     (if aus_access_secret s = [] then Inl ''config Auth.AccessSecret is required''
      else if aus_access_expire s \<le> 0 then Inl ''config Auth.AccessExpire must be positive''
      else
        let s' = s\<lparr>aus_refresh_expire := or_default 0 2592000 (aus_refresh_expire s)\<rparr> in
        if aus_refresh_expire s' < 0 then Inl ''config Auth.RefreshExpire must not be negative''
        else applyAuthRateLimitDefaults s')"

definition defaultCORSOrigins :: "string list" where
  "defaultCORSOrigins =
     [''http://localhost:5173'', ''http://localhost:5174'', ''https://taskpilot.1kuansi.cn'']"

definition load_ai :: "ai_settings \<Rightarrow> string + ai_settings" where
  "load_ai s =
     (let s1 = s\<lparr>ais_base_url := or_default [] ''https://ai.soruxgpt.com/v1'' (ais_base_url s),
                 ais_model := or_default [] ''gpt-5.6-terra'' (ais_model s),
                 ais_request_timeout := or_default 0 180 (ais_request_timeout s)\<rparr> in
      if ais_request_timeout s1 < 0 then Inl ''config AI.RequestTimeout must not be negative''
      else
        let s2 = s1\<lparr>ais_max_output_tokens := or_default 0 8000 (ais_max_output_tokens s1)\<rparr> in
        if ais_max_output_tokens s2 < 0 then Inl ''config AI.MaxOutputTokens must not be negative''
        else
          let s3 = s2\<lparr>ais_chat_request_timeout := or_default 0 90 (ais_chat_request_timeout s2),
                      ais_chat_max_output_tokens := or_default 0 2000 (ais_chat_max_output_tokens s2),
                      ais_chat_rate_limit := or_default 0 10 (ais_chat_rate_limit s2),
                      ais_chat_rate_window := or_default 0 300 (ais_chat_rate_window s2)\<rparr> in
          if ais_chat_request_timeout s3 < 1 \<or> ais_chat_max_output_tokens s3 < 1
              \<or> ais_chat_rate_limit s3 < 1 \<or> ais_chat_rate_window s3 < 1
            then Inl ''config AI chat limits must be positive''
          else Inr s3)"

definition applyUploadDefaults :: "upload_settings \<Rightarrow> string + upload_settings" where
  "applyUploadDefaults s =
     (case apply_settings ''Upload''
             [(''MaxFileBytes'', ups_max_file_bytes s, 10485760), (''ExtractTimeout'', ups_extract_timeout s, 15),
              (''SlotWaitTimeout'', ups_slot_wait_timeout s, 3), (''TempGrace'', ups_temp_grace s, 3600),
              (''OrphanGrace'', ups_orphan_grace s, 86400), (''CleanupInterval'', ups_cleanup_interval s, 86400)] of
        Inr [a, b, c, d, f, g] \<Rightarrow>
          (let s1 = s\<lparr>ups_root := or_default [] ''uploads'' (ups_root s), ups_max_file_bytes := a,
                 ups_extract_timeout := b, ups_slot_wait_timeout := c, ups_temp_grace := d, ups_orphan_grace := f,
                 ups_cleanup_interval := g, ups_max_pages := or_default 0 50 (ups_max_pages s),
                 ups_max_text_chars := or_default 0 50000 (ups_max_text_chars s),
                 ups_min_effective_chars := or_default 0 20 (ups_min_effective_chars s)\<rparr> in
           if ups_max_pages s1 < 1 \<or> ups_max_text_chars s1 < 1 \<or> ups_min_effective_chars s1 < 1
             then Inl ''config Upload document limits must be positive''
           else
             let s2 = s1\<lparr>ups_max_concurrent_extractions := or_default 0 2 (ups_max_concurrent_extractions s1)\<rparr> in
             if ups_max_concurrent_extractions s2 < 1 \<or> 4 < ups_max_concurrent_extractions s2
               then Inl ''config Upload.MaxConcurrentExtractions must be between 1 and 4''
             else Inr s2)
      | Inr _ \<Rightarrow> Inr s
      | Inl err \<Rightarrow> Inl err)"

definition applyWorkerDefaults :: "worker_settings \<Rightarrow> string + worker_settings" where
  "applyWorkerDefaults s =
     (case apply_settings ''Worker''
             [(''BlockTimeout'', ws_block_timeout s, 5), (''ReconcileInterval'', ws_reconcile_interval s, 30),
              (''PendingGrace'', ws_pending_grace s, 30), (''LeaseTimeout'', ws_lease_timeout s, 600),
              (''StreamRetention'', ws_stream_retention s, 604800),
              (''HeartbeatInterval'', ws_heartbeat_interval s, 10), (''HeartbeatTTL'', ws_heartbeat_ttl s, 30),
              (''ShutdownGrace'', ws_shutdown_grace s, 180)] of
        Inr [a, b, c, d, f, g, h, i] \<Rightarrow>
          (let s1 = s\<lparr>ws_block_timeout := a, ws_reconcile_interval := b, ws_pending_grace := c,
                 ws_lease_timeout := d, ws_stream_retention := f, ws_heartbeat_interval := g,
                 ws_heartbeat_ttl := h, ws_shutdown_grace := i\<rparr> in
           if ws_max_recoveries s1 < 0 then Inl ''config Worker.MaxRecoveries must not be negative''
           else
             let s2 = s1\<lparr>ws_max_recoveries := or_default 0 3 (ws_max_recoveries s1)\<rparr> in
             if ws_heartbeat_ttl s2 \<le> ws_heartbeat_interval s2
               then Inl ''config Worker.HeartbeatTTL must exceed HeartbeatInterval''
             else Inr s2)
      | Inr _ \<Rightarrow> Inr s
      | Inl err \<Rightarrow> Inl err)"

definition load_worker :: "worker_settings \<Rightarrow> string + worker_settings" where
  "load_worker s =
     (let s1 = s\<lparr>ws_stream_key := or_default [] ''taskpilot:queue:parse_jobs'' (ws_stream_key s),
                 ws_consumer_group := or_default [] ''taskpilot:parse_workers'' (ws_consumer_group s),
                 ws_concurrency := or_default 0 2 (ws_concurrency s)\<rparr> in
      if ws_concurrency s1 < 1 \<or> 16 < ws_concurrency s1
        then Inl ''config Worker.Concurrency must be between 1 and 16''
      else applyWorkerDefaults s1)"

text \<open>\<open>Load\<close>: the first argument is the environment, the second the parsed file.\<close>

definition Load :: "(string \<rightharpoonup> string) \<Rightarrow> string + config \<Rightarrow> string + config" where
  "Load env parsed =
     (case parsed of
        Inl err \<Rightarrow> Inl err
      | Inr raw \<Rightarrow>
          let c = applyEnvOverrides env raw in
          (case load_auth (cfg_auth c) of Inl err \<Rightarrow> Inl err | Inr auth \<Rightarrow>
          (case load_ai (cfg_ai c) of Inl err \<Rightarrow> Inl err | Inr ai \<Rightarrow>
          (case applyUploadDefaults (cfg_upload c) of Inl err \<Rightarrow> Inl err | Inr upload \<Rightarrow>
          (case load_worker (cfg_worker c) of Inl err \<Rightarrow> Inl err | Inr worker \<Rightarrow>
             Inr (c\<lparr>cfg_host := or_default [] ''0.0.0.0'' (cfg_host c),
                    cfg_port := or_default 0 8888 (cfg_port c),
                    cfg_mode := or_default [] ''debug'' (cfg_mode c),
                    cfg_cache := (cfg_cache c)\<lparr>cs_type := or_default [] ''node'' (cs_type (cfg_cache c))\<rparr>,
                    cfg_auth := auth,
                    cfg_cors := (cfg_cors c)\<lparr>cos_allowed_origins :=
                      or_default [] defaultCORSOrigins (cos_allowed_origins (cfg_cors c))\<rparr>,
                    cfg_ai := ai, cfg_upload := upload, cfg_worker := worker\<rparr>))))))"

section \<open>What an accepted configuration guarantees\<close>

text \<open>The limits of each section, as the rest of the program relies on them.\<close>

definition auth_within :: "auth_settings \<Rightarrow> bool" where
  "auth_within s \<longleftrightarrow> aus_access_secret s \<noteq> [] \<and> 0 < aus_access_expire s \<and> 0 < aus_refresh_expire s
     \<and> 0 < aus_login_rate_limit s \<and> 0 < aus_login_rate_window s
     \<and> 0 < aus_register_rate_limit s \<and> 0 < aus_register_rate_window s"

definition ai_within :: "ai_settings \<Rightarrow> bool" where
  "ai_within s \<longleftrightarrow> ais_base_url s \<noteq> [] \<and> ais_model s \<noteq> [] \<and> 0 < ais_request_timeout s
     \<and> 0 < ais_max_output_tokens s \<and> 0 < ais_chat_request_timeout s \<and> 0 < ais_chat_max_output_tokens s
     \<and> 0 < ais_chat_rate_limit s \<and> 0 < ais_chat_rate_window s"

definition upload_within :: "upload_settings \<Rightarrow> bool" where
  "upload_within s \<longleftrightarrow> ups_root s \<noteq> [] \<and> 0 < ups_max_file_bytes s \<and> 0 < ups_max_pages s
     \<and> 0 < ups_max_text_chars s \<and> 0 < ups_min_effective_chars s \<and> 0 < ups_extract_timeout s
     \<and> 1 \<le> ups_max_concurrent_extractions s \<and> ups_max_concurrent_extractions s \<le> 4
     \<and> 0 < ups_slot_wait_timeout s \<and> 0 < ups_temp_grace s \<and> 0 < ups_orphan_grace s \<and> 0 < ups_cleanup_interval s"

definition worker_within :: "worker_settings \<Rightarrow> bool" where
  "worker_within s \<longleftrightarrow> ws_stream_key s \<noteq> [] \<and> ws_consumer_group s \<noteq> []
     \<and> 1 \<le> ws_concurrency s \<and> ws_concurrency s \<le> 16 \<and> 0 < ws_block_timeout s \<and> 0 < ws_reconcile_interval s
     \<and> 0 < ws_pending_grace s \<and> 0 < ws_lease_timeout s \<and> 0 < ws_max_recoveries s \<and> 0 < ws_stream_retention s
     \<and> 0 < ws_heartbeat_interval s \<and> ws_heartbeat_interval s < ws_heartbeat_ttl s \<and> 0 < ws_shutdown_grace s"

definition within_limits :: "config \<Rightarrow> bool" where
  "within_limits c \<longleftrightarrow> cfg_host c \<noteq> [] \<and> cfg_port c \<noteq> 0 \<and> cfg_mode c \<noteq> [] \<and> cs_type (cfg_cache c) \<noteq> []
     \<and> cos_allowed_origins (cfg_cors c) \<noteq> [] \<and> auth_within (cfg_auth c) \<and> ai_within (cfg_ai c)
     \<and> upload_within (cfg_upload c) \<and> worker_within (cfg_worker c)"

lemma or_default_neq: "d \<noteq> zero \<Longrightarrow> or_default zero d x \<noteq> zero"
  by (simp add: or_default_def)

lemma or_default_same [simp]: "x \<noteq> zero \<Longrightarrow> or_default zero d x = x"
  by (simp add: or_default_def)

lemma or_default_pos: "d \<noteq> 0 \<Longrightarrow> 0 < or_default 0 d x \<longleftrightarrow> 0 \<le> or_default 0 d (x :: int)"
  by (auto simp: or_default_def)

lemma or_default_nonneg: "0 \<le> d \<Longrightarrow> 0 \<le> x \<Longrightarrow> 0 \<le> or_default 0 d (x :: int)"
  by (simp add: or_default_def)

lemmas default_simps = or_default_pos or_default_nonneg or_default_neq not_less not_le

lemma load_auth_Inr: "load_auth s = Inr s' \<Longrightarrow> auth_within s'"
  by (auto simp: load_auth_def applyAuthRateLimitDefaults_def auth_within_def Let_def default_simps
      split: if_split_asm sum.split_asm)

lemma load_ai_Inr: "load_ai s = Inr s' \<Longrightarrow> ai_within s'"
  by (auto simp: load_ai_def ai_within_def Let_def default_simps split: if_split_asm)

lemma applyUploadDefaults_Inr: "applyUploadDefaults s = Inr s' \<Longrightarrow> upload_within s'"
  by (auto simp: applyUploadDefaults_def upload_within_def Let_def default_simps split: if_split_asm sum.split_asm)

lemma applyWorkerDefaults_Inr:
  assumes "applyWorkerDefaults s = Inr s'"
  shows "0 < ws_block_timeout s' \<and> 0 < ws_reconcile_interval s' \<and> 0 < ws_pending_grace s' \<and> 0 < ws_lease_timeout s'
    \<and> 0 < ws_max_recoveries s' \<and> 0 < ws_stream_retention s' \<and> 0 < ws_heartbeat_interval s'
    \<and> ws_heartbeat_interval s' < ws_heartbeat_ttl s' \<and> 0 < ws_shutdown_grace s'"
    "ws_stream_key s' = ws_stream_key s \<and> ws_consumer_group s' = ws_consumer_group s \<and> ws_concurrency s' = ws_concurrency s"
    "ws_max_recoveries s' = or_default 0 3 (ws_max_recoveries s)"
  using assms
  by (auto simp: applyWorkerDefaults_def Let_def default_simps split: if_split_asm sum.split_asm)

lemma load_worker_Inr:
  assumes "load_worker s = Inr s'"
  shows "worker_within s'"
proof -
  let ?s = "s\<lparr>ws_stream_key := or_default [] ''taskpilot:queue:parse_jobs'' (ws_stream_key s),
      ws_consumer_group := or_default [] ''taskpilot:parse_workers'' (ws_consumer_group s),
      ws_concurrency := or_default 0 2 (ws_concurrency s)\<rparr>"
  have run: "applyWorkerDefaults ?s = Inr s'" and c: "1 \<le> ws_concurrency ?s" "ws_concurrency ?s \<le> 16"
    using assms by (auto simp: load_worker_def Let_def not_less split: if_split_asm)
  have "ws_stream_key ?s \<noteq> []" "ws_consumer_group ?s \<noteq> []" by (simp_all add: or_default_neq)
  then show ?thesis
    using applyWorkerDefaults_Inr(1,2) [OF run] c unfolding worker_within_def by simp
qed

text \<open>Within the limits the defaults change nothing.\<close>

lemma load_auth_id: "auth_within s \<Longrightarrow> load_auth s = Inr s"
  by (simp add: load_auth_def applyAuthRateLimitDefaults_def auth_within_def Let_def)

lemma load_ai_id: "ai_within s \<Longrightarrow> load_ai s = Inr s"
  by (simp add: load_ai_def ai_within_def Let_def)

lemma applyUploadDefaults_id: "upload_within s \<Longrightarrow> applyUploadDefaults s = Inr s"
  by (simp add: applyUploadDefaults_def upload_within_def Let_def)

lemma load_worker_id: "worker_within s \<Longrightarrow> load_worker s = Inr s"
  by (simp add: load_worker_def applyWorkerDefaults_def worker_within_def Let_def)

lemma env_empty [simp]:
  "envString Map.empty k x = x" "envInt Map.empty k n = n" "envInt64 Map.empty k n = n" "envBool Map.empty k b = b"
  "envStringSlice Map.empty k xs = xs"
  by (simp_all add: envString_def envInt_def envInt64_def envBool_def envStringSlice_def env_parsed_def env_value_def)

lemma no_overrides:
  assumes "int32_wrap (ws_max_recoveries (cfg_worker c)) = ws_max_recoveries (cfg_worker c)"
  shows "applyEnvOverrides Map.empty c = c"
  using assms
  by (simp add: applyEnvOverrides_def override_http_def override_database_def override_cache_def override_auth_def
      override_cors_def override_ai_def override_upload_def override_worker_def)

lemma load_worker_recoveries:
  "load_worker s = Inr s' \<Longrightarrow> ws_max_recoveries s' = or_default 0 3 (ws_max_recoveries s)"
  using applyWorkerDefaults_Inr(3) by (auto simp: load_worker_def Let_def split: if_split_asm)

lemma Load_Inr:
  assumes "Load env parsed = Inr c"
  shows "within_limits c" "int32_wrap (ws_max_recoveries (cfg_worker c)) = ws_max_recoveries (cfg_worker c)"
proof -
  obtain raw w where w: "load_worker (cfg_worker (applyEnvOverrides env raw)) = Inr w" "cfg_worker c = w"
    using assms by (auto simp: Load_def Let_def split: sum.splits)
  have "ws_max_recoveries w = or_default 0 3 (int32_wrap (envInt64 env ''TASKPILOT_WORKER_MAX_RECOVERIES''
      (ws_max_recoveries (cfg_worker raw))))"
    using load_worker_recoveries [OF w(1)] by (simp add: applyEnvOverrides_def override_worker_def)
  then show "int32_wrap (ws_max_recoveries (cfg_worker c)) = ws_max_recoveries (cfg_worker c)"
    using int32_wrap_range w(2) by (auto simp: or_default_def intro!: int32_wrap_id)
  have origins: "defaultCORSOrigins \<noteq> []" by (simp add: defaultCORSOrigins_def)
  show "within_limits c"
    using assms
    by (auto simp: Load_def within_limits_def Let_def or_default_neq origins
        dest: load_auth_Inr load_ai_Inr applyUploadDefaults_Inr load_worker_Inr split: sum.splits)
qed

text \<open>
  An accepted configuration is within its limits and settled. Whatever the file and the
  environment say, if Load accepts them, every setting is positive or not empty where the
  program needs it, the secret is there, the concurrency of worker and extractor is bounded
  and a heartbeat outlives its interval. Loading the result again without any environment
  gives the same configuration: no default is left to apply.
\<close>

theorem loaded_config_within:
  assumes "Load env parsed = Inr c"
  shows "within_limits c \<and> Load Map.empty (Inr c) = Inr c"
proof -
  have w: "within_limits c" by (rule Load_Inr(1) [OF assms])
  then show ?thesis
    using no_overrides [OF Load_Inr(2) [OF assms]]
    by (simp add: Load_def within_limits_def load_auth_id load_ai_id applyUploadDefaults_id load_worker_id)
qed

text \<open>The smallest file that is accepted, with one variable set.\<close>

definition bare_config :: config where
  "bare_config =
     \<lparr>cfg_name = [], cfg_host = [], cfg_port = 0, cfg_mode = [], cfg_http = \<lparr>hs_trusted_proxies = []\<rparr>,
      cfg_database = \<lparr>dbs_data_source = []\<rparr>, cfg_cache = \<lparr>cs_host = [], cs_pass = [], cs_type = []\<rparr>,
      cfg_auth = \<lparr>aus_access_secret = ''k'', aus_access_expire = 900, aus_refresh_expire = 0, aus_cookie_secure = True,
        aus_login_rate_limit = 0, aus_login_rate_window = 0, aus_register_rate_limit = 0, aus_register_rate_window = 0\<rparr>,
      cfg_cors = \<lparr>cos_allowed_origins = []\<rparr>,
      cfg_ai = \<lparr>ais_base_url = [], ais_api_key = [], ais_model = [], ais_request_timeout = 0, ais_max_output_tokens = 0,
        ais_chat_request_timeout = 0, ais_chat_max_output_tokens = 0, ais_chat_rate_limit = 0, ais_chat_rate_window = 0\<rparr>,
      cfg_upload = \<lparr>ups_root = [], ups_max_file_bytes = 0, ups_max_pages = 0, ups_max_text_chars = 0,
        ups_min_effective_chars = 0, ups_extract_timeout = 0, ups_max_concurrent_extractions = 0,
        ups_slot_wait_timeout = 0, ups_temp_grace = 0, ups_orphan_grace = 0, ups_cleanup_interval = 0\<rparr>,
      cfg_worker = \<lparr>ws_stream_key = [], ws_consumer_group = [], ws_concurrency = 0, ws_block_timeout = 0,
        ws_reconcile_interval = 0, ws_pending_grace = 0, ws_lease_timeout = 0, ws_max_recoveries = 0,
        ws_stream_retention = 0, ws_heartbeat_interval = 0, ws_heartbeat_ttl = 0, ws_shutdown_grace = 0\<rparr>\<rparr>"

lemma bare_config_loads: "\<exists>c. Load Map.empty (Inr bare_config) = Inr c"
  by (simp add: Load_def no_overrides int32_wrap_def bare_config_def load_auth_def applyAuthRateLimitDefaults_def
      load_ai_def applyUploadDefaults_def load_worker_def applyWorkerDefaults_def or_default_def Let_def)

theorem loaded_config_within_witness:
  "\<exists>c. Load Map.empty (Inr bare_config) = Inr c \<and> within_limits c \<and> Load Map.empty (Inr c) = Inr c"
proof -
  obtain c where "Load Map.empty (Inr bare_config) = Inr c" using bare_config_loads by blast
  then show ?thesis using loaded_config_within by blast
qed

end
