(* ===== verification/Wiring.thy ===== *)
theory Wiring
  imports Config Contracts PdfExtractor
begin

text \<open>
  How the API process is put together: \<open>NewServiceContext\<close> and the \<open>run\<close> of \<open>cmd/api\<close>, from
  the loaded configuration to the server of \<open>Handlers\<close>. What the start finds outside, whether
  the database answers in time, whether the upload root can be made and which URLs are valid, is a
  parameter; a Redis client is made whether or not the server answers.
\<close>

text \<open>\<open>time.Duration(x) * time.Second\<close>.\<close>

definition seconds :: "int \<Rightarrow> int" where
  "seconds x = int64_wrap (x * 1000000000)"

record startup =
  st_database :: bool
  st_upload_root :: "string \<Rightarrow> string option"
  st_valid_uri :: "string \<Rightarrow> bool"

record service_context =
  svc_config :: config
  svc_db :: bool
  svc_jwt :: manager
  svc_redis :: bool
  svc_chat :: "ai_client option"
  svc_files :: "string option"
  svc_extractor :: poppler

definition NewServiceContext :: "startup \<Rightarrow> config \<Rightarrow> service_context" where
  "NewServiceContext st c =
     (let up = cfg_upload c;
          uploadRoot = (if ups_root up = [] then ''uploads'' else ups_root up) in
      \<lparr>svc_config = c, svc_db = (dbs_data_source (cfg_database c) \<noteq> [] \<and> st_database st),
       svc_jwt = \<lparr>secret = aus_access_secret (cfg_auth c), expire_seconds = aus_access_expire (cfg_auth c)\<rparr>,
       svc_redis = (cs_host (cfg_cache c) \<noteq> []), svc_chat = None, svc_files = st_upload_root st uploadRoot,
       svc_extractor = NewPopplerExtractor (ups_max_pages up) (ups_max_text_chars up) (ups_min_effective_chars up)
         (ups_max_concurrent_extractions up) (seconds (ups_extract_timeout up)) (seconds (ups_slot_wait_timeout up))\<rparr>)"

definition with_chat :: "startup \<Rightarrow> service_context \<Rightarrow> service_context" where
  "with_chat st sc =
     (let ai = cfg_ai (svc_config sc) in
      if ais_api_key ai = [] then sc
      else
        (case NewResponsesChatClient (st_valid_uri st) (ais_base_url ai) (ais_api_key ai) (ais_model ai)
                (seconds (ais_chat_request_timeout ai)) (ais_chat_max_output_tokens ai) of
           Inl err \<Rightarrow> sc
         | Inr client \<Rightarrow> sc\<lparr>svc_chat := Some client\<rparr>))"

text \<open>
  The libraries behind the handlers, with the runs of \<open>pdfinfo\<close> and \<open>pdftotext\<close> on a file of
  given content.
\<close>

record libraries =
  lib_auth :: auth_lib
  lib_codec :: time_codec
  lib_num :: "string \<Rightarrow> string"
  lib_binder :: request_binder
  lib_form :: "http_request \<Rightarrow> string \<times> bool \<Rightarrow> binding_error + (string \<times> reads) \<times> string"
  lib_slot :: slot_outcome
  lib_pdfinfo :: "string \<Rightarrow> program_run"
  lib_pdftotext :: "string \<Rightarrow> program_run"

text \<open>The context as the handlers and the services read it.\<close>

definition server_of :: "libraries \<Rightarrow> service_context \<Rightarrow> server" where
  "server_of lib sc =
     (let c = svc_config sc; au = cfg_auth c; ai = cfg_ai c in
      \<lparr>sv_lib = lib_auth lib,
       sv_auth = \<lparr>jwt_manager = Some (svc_jwt sc), sessions_client = svc_redis sc,
         refresh_expire = aus_refresh_expire au, access_expire = aus_access_expire au\<rparr>,
       sv_codec = lib_codec lib, sv_num = lib_num lib,
       sv_files = \<lparr>us_root = svc_files sc,
         us_extractor = Some (\<lambda>data. poppler_Extract (svc_extractor sc) (lib_slot lib) (lib_pdfinfo lib data)
           (lib_pdftotext lib data)),
         us_max_file_bytes = ups_max_file_bytes (cfg_upload c)\<rparr>,
       sv_chat = \<lparr>chat_client = svc_chat sc, chat_guard = svc_redis sc, chat_rate_limit = ais_chat_rate_limit ai,
         chat_rate_window = ais_chat_rate_window ai, chat_request_timeout = seconds (ais_chat_request_timeout ai)\<rparr>,
       sv_binder = lib_binder lib, sv_form = lib_form lib, sv_cookie_secure = aus_cookie_secure au,
       sv_origins = cos_allowed_origins (cfg_cors c), sv_limiter = svc_redis sc,
       sv_register_limit = aus_register_rate_limit au, sv_register_window = aus_register_rate_window au,
       sv_login_limit = aus_login_rate_limit au, sv_login_window = aus_login_rate_window au,
       sv_redis = svc_redis sc, sv_queue = svc_redis sc\<rparr>)"

text \<open>\<open>run\<close> up to the call of \<open>RegisterRoutes\<close>; \<open>proxies_ok\<close> is gin's check of the proxies.\<close>

definition api_server ::
  "libraries \<Rightarrow> startup \<Rightarrow> (string list \<Rightarrow> bool) \<Rightarrow> (string \<rightharpoonup> string) \<Rightarrow> string + config \<Rightarrow> string + server" where
  "api_server lib st proxies_ok env parsed =
     (case Load env parsed of
        Inl err \<Rightarrow> Inl (''load config: '' @ err)
      | Inr c \<Rightarrow>
          if \<not> proxies_ok (hs_trusted_proxies (cfg_http c)) then Inl ''configure trusted proxies''
          else Inr (server_of lib (with_chat st (NewServiceContext st c))))"

lemma with_chat_sel [simp]:
  "svc_config (with_chat st sc) = svc_config sc" "svc_jwt (with_chat st sc) = svc_jwt sc"
  "svc_redis (with_chat st sc) = svc_redis sc" "svc_extractor (with_chat st sc) = svc_extractor sc"
  "svc_files (with_chat st sc) = svc_files sc"
  by (simp_all add: with_chat_def Let_def split: sum.splits)

lemma NewServiceContext_sel [simp]:
  "svc_config (NewServiceContext st c) = c" "svc_redis (NewServiceContext st c) = (cs_host (cfg_cache c) \<noteq> [])"
  "svc_jwt (NewServiceContext st c) = \<lparr>secret = aus_access_secret (cfg_auth c), expire_seconds = aus_access_expire (cfg_auth c)\<rparr>"
  by (simp_all add: NewServiceContext_def Let_def)

text \<open>What a server that started relies on.\<close>

definition server_ready :: "server \<Rightarrow> bool" where
  "server_ready sv \<longleftrightarrow>
     requireJWT (sv_auth sv) = None
     \<and> (requireRefreshSessions (sv_auth sv) = None \<longleftrightarrow> sv_redis sv)
     \<and> sv_limiter sv = sv_redis sv \<and> sv_queue sv = sv_redis sv \<and> chat_guard (sv_chat sv) = sv_redis sv
     \<and> 0 < sv_register_limit sv \<and> 0 < sv_register_window sv \<and> 0 < sv_login_limit sv \<and> 0 < sv_login_window sv
     \<and> 0 < chat_rate_limit (sv_chat sv) \<and> 0 < chat_rate_window (sv_chat sv)
     \<and> 0 < us_max_file_bytes (sv_files sv) \<and> us_extractor (sv_files sv) \<noteq> None \<and> sv_origins sv \<noteq> []"

lemma api_server_ready:
  assumes "api_server lib st proxies_ok env parsed = Inr sv"
  shows "server_ready sv"
proof -
  obtain c where c: "Load env parsed = Inr c" "sv = server_of lib (with_chat st (NewServiceContext st c))"
    using assms by (auto simp: api_server_def split: sum.splits if_splits)
  have "within_limits c" by (rule Load_Inr(1) [OF c(1)])
  then show ?thesis
    by (auto simp: c(2) server_ready_def server_of_def Let_def within_limits_def auth_within_def ai_within_def
        upload_within_def requireJWT_def requireRefreshSessions_def manager_valid_def)
qed

end
