(* ===== verification/LoginLimit.thy ===== *)
theory LoginLimit
  imports Wiring Access
begin

text \<open>
  What the rate limit of the login gives: over any sequence of requests, of all kinds and from
  everybody, at most so many attempts on one identity, an address with an e-mail, come to the
  check of the password in any window; the others are answered without a look at the accounts.
\<close>

section \<open>Attempts\<close>

definition login_digest :: "server \<Rightarrow> string \<Rightarrow> string \<Rightarrow> string" where
  "login_digest sv clientIP email =
     rateLimitDigest sv (trim_space clientIP @ CHR 0x00 # to_lower (sv_lib sv) (trim_space email))"

text \<open>The identity of a request that gets as far as the limit of the login.\<close>

definition login_attempt :: "server \<Rightarrow> http_request \<Rightarrow> string option" where
  "login_attempt sv rq =
     (if (rq_method rq, rq_route rq) \<noteq> (''POST'', ''/api/v1/auth/login'')
        \<or> sv_cookie_secure sv \<and> \<not> requestIsHTTPS rq then None
      else
        (case ShouldBindJSON (sv_binder sv) login_field zero_login login_valid (fresh_context rq) of
           Inl err \<Rightarrow> None
         | Inr req \<Rightarrow> Some (login_digest sv (rq_client_ip rq) (lr_email req))))"

definition login_limit :: "server \<Rightarrow> moment \<Rightarrow> string \<Rightarrow> zset keys \<Rightarrow> (int \<times> error option) \<times> zset keys" where
  "login_limit sv m d =
     enforceAuthRateLimit sv m (''login:'' @ d) (sv_login_limit sv) (int64_wrap (sv_login_window sv * 1000000000))"

definition admitted :: "server \<Rightarrow> moment \<Rightarrow> string \<Rightarrow> world \<Rightarrow> bool" where
  "admitted sv m d w \<longleftrightarrow> snd (fst (login_limit sv m d (w_limits w))) = None"

definition ms :: "moment \<Rightarrow> int" where
  "ms m = now (m_env m) div 1000000"

text \<open>The times of the admitted attempts on one identity, as the requests are served in turn.\<close>

fun admissions :: "server \<Rightarrow> string \<Rightarrow> (moment \<times> http_request) list \<Rightarrow> world \<Rightarrow> int list" where
  "admissions sv d [] w = []"
| "admissions sv d ((m, rq) # xs) w =
     (if login_attempt sv rq = Some d \<and> admitted sv m d w then [ms m] else [])
       @ admissions sv d xs (snd (serve sv m rq w))"

section \<open>Who touches the limits\<close>

definition keeps_limits :: "server_handler \<Rightarrow> bool" where
  "keeps_limits h \<longleftrightarrow> (\<forall>c w. w_limits (snd (h c w)) = w_limits w)"

named_theorems limit_intros \<open>handlers that leave the rate limits alone\<close>

lemma keeps_on [limit_intros]:
  "keeps_limits (\<lambda>c. on_db (f1 c) reply1)" "keeps_limits (\<lambda>c. on_queue (f2 c) reply2)"
  "keeps_limits (\<lambda>c. on_files (f3 c) reply3)" "keeps_limits (\<lambda>c. on_accounts (f4 c) reply4)"
  "keeps_limits (\<lambda>c w. (f c w, w))"
  by (simp_all add: keeps_limits_def on_db_def on_queue_def on_files_def on_accounts_def split: prod.split)

lemma keeps_open [limit_intros]:
  "(\<And>i. keeps_limits (h i)) \<Longrightarrow> keeps_limits (with_id name h)"
  "(\<And>i. keeps_limits (h i)) \<Longrightarrow> keeps_limits (with_principal h)"
  "(\<And>r. keeps_limits (g r)) \<Longrightarrow> keeps_limits (with_request b refuse g)"
  "keeps_limits k \<Longrightarrow> keeps_limits (LimitRequestBody n k)"
  "keeps_limits k \<Longrightarrow> keeps_limits (RequireCookieAccess k)"
  "keeps_limits k \<Longrightarrow> keeps_limits (RequireCookieCSRF name k)"
  "keeps_limits k \<Longrightarrow> keeps_limits (protected_route sv m k)"
  "keeps_limits k \<Longrightarrow> keeps_limits (api_v1 sv k)"
  by (simp_all add: keeps_limits_def with_id_def with_principal_def with_request_def LimitRequestBody_def
      RequireCookieAccess_def RequireCookieCSRF_def protected_route_def RequireAuth_def RequireCSRFForCookieAuth_def
      api_v1_def Secure_def NoCache_def Let_def split: sum.split option.split prod.split) (metis snd_conv)+

lemma keeps_limits_handlers:
  "keeps_limits (document_CreateTextHandler sv m)" "keeps_limits (document_CreatePDFHandler sv m)"
  "keeps_limits (document_ListHandler sv m)" "keeps_limits (document_GetHandler sv m)"
  "keeps_limits (document_DeleteHandler sv m)" "keeps_limits (job_CreateHandler sv m)"
  "keeps_limits (job_GetHandler sv m)" "keeps_limits (job_RetryHandler sv m)" "keeps_limits (job_LatestHandler sv m)"
  "keeps_limits (result_GetByJobHandler sv m)" "keeps_limits (result_GetHandler sv m)"
  "keeps_limits (result_UpdateHandler sv m)" "keeps_limits (result_ConfirmHandler sv m)"
  "keeps_limits (result_HistoryListHandler sv m)" "keeps_limits (project_CreateHandler sv m)"
  "keeps_limits (project_ListHandler sv m)" "keeps_limits (project_HistoryListHandler sv m)"
  "keeps_limits (project_getHandler sv m history)" "keeps_limits (project_UpdateHandler sv m)"
  "keeps_limits (project_transitionHandler sv m archive)" "keeps_limits (project_DeleteHandler sv m)"
  "keeps_limits (task_listHandler sv m history)" "keeps_limits (task_CreateHandler sv m)"
  "keeps_limits (task_UpdateHandler sv m)" "keeps_limits (task_UpdateStatusHandler sv m)"
  "keeps_limits (task_DeleteHandler sv m)" "keeps_limits (task_ReorderHandler sv m)"
  "keeps_limits (MeHandler sv m)" "keeps_limits (StatsHandler sv m)" "keeps_limits (RemindersHandler sv m)"
  unfolding document_CreateTextHandler_def document_CreatePDFHandler_def document_ListHandler_def
    document_GetHandler_def document_DeleteHandler_def job_CreateHandler_def job_GetHandler_def job_RetryHandler_def
    job_LatestHandler_def result_GetByJobHandler_def result_GetHandler_def result_UpdateHandler_def
    result_ConfirmHandler_def result_HistoryListHandler_def project_CreateHandler_def project_ListHandler_def
    project_HistoryListHandler_def project_getHandler_def project_UpdateHandler_def project_transitionHandler_def
    project_DeleteHandler_def task_listHandler_def task_CreateHandler_def task_UpdateHandler_def
    task_UpdateStatusHandler_def task_DeleteHandler_def task_ReorderHandler_def MeHandler_def StatsHandler_def
    RemindersHandler_def case_prod_unfold
  by (intro limit_intros)+

lemma keeps_sessions: "w_limits (snd (on_sessions f reply w)) = w_limits w"
  "w_limits (snd (on_accounts g reply' w)) = w_limits w"
  by (simp_all add: on_sessions_def on_accounts_def split: prod.split)

lemma keeps_limits_others:
  "keeps_limits (RefreshHandler sv m)" "keeps_limits (LogoutHandler sv m)" "keeps_limits (UpdateMeHandler sv m)"
  "keeps_limits (HealthHandler sv m)" "keeps_limits (ReadinessHandler sv m)" "keeps_limits (ChatHandler sv m)"
proof -
  show "keeps_limits (UpdateMeHandler sv m)"
    unfolding UpdateMeHandler_def
  proof (rule keeps_open(2))
    fix u
    have "keeps_limits (\<lambda>c. with_request b r (\<lambda>req c. on_accounts (f req) reply) c)"
      for b :: "gin_context \<Rightarrow> binding_error + update_user_request" and r f
        and reply :: "error + auth_session \<Rightarrow> payload http_reply"
      by (intro limit_intros)
    then show "keeps_limits (\<lambda>c w. case refresh_cookie c of None \<Rightarrow> (writeAuthError ErrInvalidRefreshToken, w)
        | Some raw \<Rightarrow> with_request (BindJSONStrict (sv_binder sv) update_user_field zero_update_user (\<lambda>_ _. True))
            (WriteBindingError (sv_binder sv))
            (\<lambda>req c. on_accounts (auth_UpdateCurrentUser (sv_lib sv) (sv_auth sv) (m_env m) (m_random m) u raw (Some req))
               (session_reply sv m 200)) c w)"
      by (simp add: keeps_limits_def split: option.split)
  qed
  show "keeps_limits (ChatHandler sv m)"
    by (simp add: keeps_limits_def ChatHandler_def Let_def split: option.split sum.split prod.split)
qed (simp_all add: keeps_limits_def RefreshHandler_def LogoutHandler_def HealthHandler_def ReadinessHandler_def
      keeps_sessions Let_def split: option.split)

lemma user_routes_keep_limits: "((r, h) \<in> set (user_routes sv m)) \<Longrightarrow> keeps_limits h"
  by (auto simp: user_routes_def keeps_limits_handlers keeps_limits_others limit_intros)

lemma open_routes_keep_limits:
  assumes "(r, h) \<in> set (open_routes sv m)"
    and "r \<noteq> (''POST'', ''/api/v1/auth/login'')" "r \<noteq> (''POST'', ''/api/v1/auth/register'')"
  shows "keeps_limits h"
proof -
  have "h \<in> {HealthHandler sv m, ReadinessHandler sv m,
      api_v1 sv (RequireCookieCSRF RefreshCookieName (RefreshHandler sv m)),
      api_v1 sv (RequireCookieCSRF RefreshCookieName (LogoutHandler sv m))}"
    using assms by (cases r) (auto simp: open_routes_def)
  then show ?thesis by (auto intro: keeps_limits_others limit_intros)
qed

lemma serve_middleware:
  "w_limits (snd (CORS origins h c w)) = (if rq_method (gc_request c) = ''OPTIONS'' then w_limits w else w_limits (snd (h c w)))"
  "w_limits (snd (api_v1 sv h c w)) = (if sv_cookie_secure sv \<and> \<not> requestIsHTTPS (gc_request c) then w_limits w
     else w_limits (snd (h c w)))"
  by (auto simp: CORS_def api_v1_def Secure_def NoCache_def Let_def split: prod.split)

lemma rate_limited_limits:
  "(\<And>v. w_limits (snd (h c v)) = w_limits v) \<Longrightarrow> w_limits (snd (rate_limited enforce h c w)) = snd (enforce (w_limits w))"
  by (simp add: rate_limited_def split: prod.split option.split)

lemma enforceLoginRateLimit_eq:
  "enforceLoginRateLimit sv m clientIP email = login_limit sv m (login_digest sv clientIP email)"
  by (simp add: fun_eq_iff enforceLoginRateLimit_def login_limit_def login_digest_def Let_def)

lemma login_route:
  "(rq_method rq, rq_route rq) = (''POST'', ''/api/v1/auth/login'') \<Longrightarrow>
     serve sv m rq w = CORS (sv_origins sv) (api_v1 sv (LoginHandler sv m)) (fresh_context rq) w"
  by (simp add: serve_def route_handler_def open_routes_def fresh_context_def)

lemma register_route:
  "(rq_method rq, rq_route rq) = (''POST'', ''/api/v1/auth/register'') \<Longrightarrow>
     serve sv m rq w = CORS (sv_origins sv) (api_v1 sv (RegisterHandler sv m)) (fresh_context rq) w"
  by (simp add: serve_def route_handler_def open_routes_def fresh_context_def)

lemma login_attempt_Some:
  "login_attempt sv rq = Some d \<longleftrightarrow> (rq_method rq, rq_route rq) = (''POST'', ''/api/v1/auth/login'')
     \<and> \<not> (sv_cookie_secure sv \<and> \<not> requestIsHTTPS rq)
     \<and> (\<exists>req. ShouldBindJSON (sv_binder sv) login_field zero_login login_valid (fresh_context rq) = Inr req
          \<and> d = login_digest sv (rq_client_ip rq) (lr_email req))"
  by (auto simp: login_attempt_def split: sum.splits if_splits)

lemma fresh_context_request [simp]: "gc_request (fresh_context rq) = rq"
  by (simp add: fresh_context_def)

lemma serve_login_limits:
  assumes "login_attempt sv rq = Some d"
  shows "w_limits (snd (serve sv m rq w)) = snd (login_limit sv m d (w_limits w))"
proof -
  obtain req where rq: "(rq_method rq, rq_route rq) = (''POST'', ''/api/v1/auth/login'')"
    "\<not> (sv_cookie_secure sv \<and> \<not> requestIsHTTPS rq)"
    "ShouldBindJSON (sv_binder sv) login_field zero_login login_valid (fresh_context rq) = Inr req"
    "d = login_digest sv (rq_client_ip rq) (lr_email req)"
    using assms by (auto simp: login_attempt_Some)
  then have "w_limits (snd (LoginHandler sv m (fresh_context rq) w)) = snd (login_limit sv m d (w_limits w))"
    by (simp add: LoginHandler_def with_request_def enforceLoginRateLimit_eq rate_limited_limits keeps_sessions)
  then show ?thesis unfolding login_route [OF rq(1)] serve_middleware using rq(1,2) by auto
qed

lemma serve_other_limits:
  assumes "login_attempt sv rq = None"
  shows "w_limits (snd (serve sv m rq w)) = w_limits w
    \<or> (\<exists>x lim win. w_limits (snd (serve sv m rq w)) = snd (enforceAuthRateLimit sv m (''register:'' @ x) lim win (w_limits w)))"
proof -
  let ?r = "(rq_method rq, rq_route rq)" and ?c = "fresh_context rq"
  consider "?r = (''POST'', ''/api/v1/auth/login'')" | "?r = (''POST'', ''/api/v1/auth/register'')"
    | "?r \<noteq> (''POST'', ''/api/v1/auth/login'')" "?r \<noteq> (''POST'', ''/api/v1/auth/register'')" by blast
  then show ?thesis
  proof cases
    case 1
    then have "sv_cookie_secure sv \<and> \<not> requestIsHTTPS rq
        \<or> (\<exists>err. ShouldBindJSON (sv_binder sv) login_field zero_login login_valid ?c = Inl err)"
      using assms by (auto simp: login_attempt_def split: sum.splits if_splits)
    then show ?thesis
      unfolding login_route [OF 1] serve_middleware by (auto simp: LoginHandler_def with_request_def)
  next
    case 2
    have "w_limits (snd (RegisterHandler sv m ?c w)) = w_limits w
      \<or> (\<exists>x lim win. w_limits (snd (RegisterHandler sv m ?c w)) = snd (enforceAuthRateLimit sv m (''register:'' @ x) lim win (w_limits w)))"
      by (auto simp: RegisterHandler_def with_request_def rate_limited_limits keeps_sessions enforceRegisterRateLimit_def
          split: sum.split)
    then show ?thesis unfolding register_route [OF 2] serve_middleware by auto
  next
    case 3
    have "keeps_limits (route_handler sv m ?r)"
    proof (cases "map_of (open_routes sv m) ?r")
      case (Some h)
      then show ?thesis using open_routes_keep_limits [OF map_of_SomeD [OF Some] 3] by (simp add: route_handler_def)
    next
      case none: None
      show ?thesis
      proof (cases "map_of (user_routes sv m) ?r")
        case (Some h)
        then show ?thesis
          using user_routes_keep_limits [OF map_of_SomeD [OF Some]] none by (simp add: route_handler_def limit_intros)
      next
        case None
        then show ?thesis using none by (simp add: keeps_limits_def route_handler_def Secure_def Let_def)
      qed
    qed
    then show ?thesis
      unfolding serve_def fresh_context_def [symmetric] serve_middleware by (simp add: keeps_limits_def)
  qed
qed

section \<open>The limit over a run\<close>

lemma authRateLimitScript_other:
  "k \<noteq> key \<Longrightarrow> snd (authRateLimitScript clock key t window limit member ks) k = ks k"
  by (simp add: authRateLimitScript_def store_zset_def Let_def)

lemma enforce_keys:
  "snd (enforceAuthRateLimit sv m key limit window ks) = ks
    \<or> snd (enforceAuthRateLimit sv m key limit window ks)
      = snd (limiter_Allow True (m_env m) (m_clock m) (m_member m) key limit window ks)"
  by (cases "limiter_Allow True (m_env m) (m_clock m) (m_member m) key limit window ks"; cases "sv_limiter sv")
    (auto simp: enforceAuthRateLimit_def split: sum.split)

lemma enforce_other:
  assumes "k \<noteq> ''taskpilot:auth:rate:'' @ key"
  shows "snd (enforceAuthRateLimit sv m key limit window ks) k = ks k"
proof -
  obtain result ks' where run: "authRateLimitScript (m_clock m) (''taskpilot:auth:rate:'' @ key)
      (now (m_env m) div 1000000) (window div 1000000) limit (m_member m) ks = (result, ks')" by fastforce
  then have "ks' k = ks k" using authRateLimitScript_other [OF assms] by (metis snd_conv)
  then have "snd (limiter_Allow True (m_env m) (m_clock m) (m_member m) key limit window ks) k = ks k"
    unfolding limiter_Allow_def run prod.case by simp
  then show ?thesis using enforce_keys [of sv m key limit window ks] by metis
qed

lemma tracks_later:
  assumes "tracks lo window key acc ks" "lo \<le> lo'"
  shows "tracks lo' window key acc ks"
proof (cases "ks key")
  case None
  then have "filter (\<lambda>a. lo < a) acc = []" using assms(1) by (simp add: tracks_def)
  then have "filter (\<lambda>a. lo' < a) acc = []" using filter_above [OF assms(2), of acc] by simp
  then show ?thesis using None by (simp add: tracks_def)
next
  case (Some zx)
  obtain z x where zx: "zx = (z, x)" by fastforce
  have "\<forall>a\<in>set acc. a + window \<le> x"
    and eq: "mset (filter (\<lambda>a. lo < a) (map snd z)) = mset (filter (\<lambda>a. lo < a) acc)"
    using assms(1) Some zx by (simp_all add: tracks_def)
  then show ?thesis unfolding tracks_def Some zx option.case prod.case using mset_above [OF assms(2) eq] by blast
qed

lemma enforce_tracks:
  assumes tr: "tracks lo W key acc ks" and lo: "lo \<le> ms m - W" and acc: "\<forall>a\<in>set acc. a \<le> ms m"
    and pos: "0 < W" "0 < limit" and m: "m_member m \<notin> members key ks" and clock: "m_clock m = ms m"
    and key: "key = ''taskpilot:auth:rate:'' @ k" and W: "W = window div 1000000"
  obtains acc' where
    "acc' = acc \<and> snd (fst (enforceAuthRateLimit sv m k limit window ks)) \<noteq> None
      \<or> acc' = ms m # acc \<and> int (length (filter (\<lambda>a. ms m - W < a) acc)) < limit"
    "tracks (ms m - W) W key acc' (snd (enforceAuthRateLimit sv m k limit window ks))"
    "members key (snd (enforceAuthRateLimit sv m k limit window ks)) \<subseteq> insert (m_member m) (members key ks)"
proof -
  let ?ok = "int (length (filter (\<lambda>a. ms m - W < a) acc)) < limit"
  have later: "tracks (ms m - W) W key acc ks" by (rule tracks_later [OF tr lo])
  obtain result ks' where run: "authRateLimitScript (ms m) key (ms m) W limit (m_member m) ks = (result, ks')"
    "hd result = 1 \<longleftrightarrow> ?ok" "tracks (ms m - W) W key (if ?ok then ms m # acc else acc) ks'"
    "members key ks' \<subseteq> insert (m_member m) (members key ks)"
    by (rule authRateLimitScript_tracks [OF tr lo acc pos m])
  have two: "length result = 2" using run(1) by (auto simp: authRateLimitScript_def Let_def split: if_splits)
  then have hd: "hd result = result ! 0" by (cases result) auto
  let ?E = "enforceAuthRateLimit sv m k limit window ks"
  have call: "snd ?E = ks \<and> snd (fst ?E) \<noteq> None \<or> snd ?E = ks' \<and> (snd (fst ?E) = None \<longrightarrow> result ! 0 = 1)"
    using run(1) two by (auto simp: enforceAuthRateLimit_def limiter_Allow_def key W ms_def clock [unfolded ms_def]
        split: sum.splits prod.splits if_splits)
  show ?thesis
  proof (cases "snd ?E = ks \<and> snd (fst ?E) \<noteq> None")
    case True
    then show ?thesis using that [of acc] later by auto
  next
    case False
    then have E: "snd ?E = ks'" "snd (fst ?E) = None \<longrightarrow> result ! 0 = 1" using call by auto
    show ?thesis
      using that [of "if ?ok then ms m # acc else acc"] run E hd by auto
  qed
qed

text \<open>No window holds more than \<open>limit\<close> of the accepted times.\<close>

definition windows_ok :: "int \<Rightarrow> int \<Rightarrow> int list \<Rightarrow> bool" where
  "windows_ok W limit acc \<longleftrightarrow> (\<forall>hi. int (length (filter (\<lambda>a. hi - W < a \<and> a \<le> hi) acc)) \<le> limit)"

lemma windows_ok_Cons:
  assumes "windows_ok W limit acc" "int (length (filter (\<lambda>a. t - W < a) acc)) < limit"
  shows "windows_ok W limit (t # acc)"
  unfolding windows_ok_def
proof
  fix hi
  show "int (length (filter (\<lambda>a. hi - W < a \<and> a \<le> hi) (t # acc))) \<le> limit"
  proof (cases "hi - W < t \<and> t \<le> hi")
    case True
    have "filter (\<lambda>a. hi - W < a \<and> a \<le> hi) acc = filter (\<lambda>a. hi - W < a \<and> a \<le> hi) (filter (\<lambda>a. t - W < a) acc)"
      using True by (auto simp: filter_filter intro: filter_cong)
    then have "length (filter (\<lambda>a. hi - W < a \<and> a \<le> hi) acc) \<le> length (filter (\<lambda>a. t - W < a) acc)"
      by (metis length_filter_le)
    then show ?thesis using assms(2) True by simp
  next
    case False
    then show ?thesis using assms(1) by (auto simp: windows_ok_def)
  qed
qed

text \<open>One request: what the limits say afterwards of the times accepted for one identity.\<close>

lemma serve_tracks:
  fixes sv :: server and d :: string
  defines "W \<equiv> int64_wrap (sv_login_window sv * 1000000000) div 1000000"
    and "key \<equiv> ''taskpilot:auth:rate:login:'' @ d"
  assumes tr: "tracks lo W key acc (w_limits w)" and lo: "lo \<le> ms m - W" and acc: "\<forall>a\<in>set acc. a \<le> ms m"
    and pos: "0 < W" "0 < sv_login_limit sv" and m: "m_member m \<notin> members key (w_limits w)" and clock: "m_clock m = ms m"
    and ok: "windows_ok W (sv_login_limit sv) acc"
  obtains acc' where "windows_ok W (sv_login_limit sv) acc'"
    "acc' = ms m # acc \<or> acc' = acc \<and> \<not> (login_attempt sv rq = Some d \<and> admitted sv m d w)"
    "tracks (ms m - W) W key acc' (w_limits (snd (serve sv m rq w)))"
    "members key (w_limits (snd (serve sv m rq w))) \<subseteq> insert (m_member m) (members key (w_limits w))"
proof (cases "login_attempt sv rq = Some d")
  case True
  have key: "key = ''taskpilot:auth:rate:'' @ (''login:'' @ d)" by (simp add: key_def)
  from enforce_tracks [OF tr lo acc pos m clock key meta_eq_to_obj_eq [OF W_def], of sv] obtain acc' where
    a: "acc' = acc \<and> snd (fst (login_limit sv m d (w_limits w))) \<noteq> None
      \<or> acc' = ms m # acc \<and> int (length (filter (\<lambda>a. ms m - W < a) acc)) < sv_login_limit sv"
    "tracks (ms m - W) W key acc' (snd (login_limit sv m d (w_limits w)))"
    "members key (snd (login_limit sv m d (w_limits w))) \<subseteq> insert (m_member m) (members key (w_limits w))"
    unfolding login_limit_def by blast
  have "windows_ok W (sv_login_limit sv) acc'" using a(1) ok windows_ok_Cons by blast
  then show ?thesis
    using that [of acc'] a unfolding serve_login_limits [OF True] admitted_def by blast
next
  case False
  have "w_limits (snd (serve sv m rq w)) key = w_limits w key"
  proof (cases "login_attempt sv rq")
    case None
    have "key \<noteq> ''taskpilot:auth:rate:'' @ (''register:'' @ x)" for x by (simp add: key_def)
    then show ?thesis using serve_other_limits [OF None, of m w] enforce_other by metis
  next
    case (Some d')
    then have "key \<noteq> ''taskpilot:auth:rate:'' @ (''login:'' @ d')" using False by (simp add: key_def)
    then show ?thesis unfolding serve_login_limits [OF Some] login_limit_def by (rule enforce_other)
  qed
  then have "tracks (ms m - W) W key acc (w_limits (snd (serve sv m rq w)))"
    "members key (w_limits (snd (serve sv m rq w))) = members key (w_limits w)"
    using tracks_later [OF tr lo] by (simp_all add: tracks_def members_def)
  then show ?thesis using that [OF ok] False by blast
qed

lemma admissions_windows:
  fixes sv :: server and d :: string
  defines "W \<equiv> int64_wrap (sv_login_window sv * 1000000000) div 1000000"
    and "key \<equiv> ''taskpilot:auth:rate:login:'' @ d"
  assumes "0 < W" "0 < sv_login_limit sv" "tracks (t0 - W) W key acc (w_limits w)" "\<forall>a\<in>set acc. a \<le> t0"
    and "windows_ok W (sv_login_limit sv) acc" "sorted (t0 # map (ms \<circ> fst) run)" "\<forall>x\<in>set run. m_clock (fst x) = ms (fst x)"
    and "distinct (map (m_member \<circ> fst) run)" "(m_member \<circ> fst) ` set run \<inter> members key (w_limits w) = {}"
  shows "windows_ok W (sv_login_limit sv) (admissions sv d run w @ acc)"
  using assms(3-)
proof (induction run arbitrary: t0 acc w)
  case (Cons x run)
  obtain m rq where x: "x = (m, rq)" by fastforce
  let ?w = "snd (serve sv m rq w)"
  have t: "t0 \<le> ms m" using Cons.prems(6) x by simp
  have lo: "t0 - W \<le> ms m - W" and acc: "\<forall>a\<in>set acc. a \<le> ms m" using t Cons.prems(4) by auto
  have m: "m_member m \<notin> members key (w_limits w)" and clock: "m_clock m = ms m" using Cons.prems(7,9) x by auto
  from serve_tracks [OF Cons.prems(3) [unfolded W_def key_def] lo [unfolded W_def] acc Cons.prems(1) [unfolded W_def]
      Cons.prems(2) m [unfolded key_def] clock Cons.prems(5) [unfolded W_def], of rq]
  obtain acc' where a: "windows_ok W (sv_login_limit sv) acc'"
    "acc' = ms m # acc \<or> acc' = acc \<and> \<not> (login_attempt sv rq = Some d \<and> admitted sv m d w)"
    "tracks (ms m - W) W key acc' (w_limits ?w)"
    "members key (w_limits ?w) \<subseteq> insert (m_member m) (members key (w_limits w))"
    unfolding W_def key_def by blast
  have "m_member (fst y) \<notin> members key (w_limits ?w)" if y: "y \<in> set run" for y
  proof -
    have "m_member m \<notin> (m_member \<circ> fst) ` set run" using Cons.prems(8) x by simp
    then have "m_member (fst y) \<noteq> m_member m" using y by force
    moreover have "m_member (fst y) \<notin> members key (w_limits w)" using Cons.prems(9) y by auto
    ultimately show ?thesis using a(4) by blast
  qed
  then have "(m_member \<circ> fst) ` set run \<inter> members key (w_limits ?w) = {}" by auto
  then have IH: "windows_ok W (sv_login_limit sv) (admissions sv d run ?w @ acc')"
    using Cons.prems a(1-3) acc x by (intro Cons.IH [of "ms m"]) auto
  let ?head = "if login_attempt sv rq = Some d \<and> admitted sv m d w then [ms m] else []"
  have "length (filter P ((?head @ admissions sv d run ?w) @ acc)) \<le> length (filter P (admissions sv d run ?w @ acc'))" for P
    using a(2) by auto
  then show ?case
    using IH unfolding windows_ok_def x admissions.simps by (meson of_nat_mono order_trans)
qed simp

lemma refused_login_blind:
  assumes "login_attempt sv rq = Some d" "\<not> admitted sv m d w"
  shows "fst (serve sv m rq (w\<lparr>w_app := a\<rparr>)) = fst (serve sv m rq w) \<and> w_app (snd (serve sv m rq w)) = w_app w"
proof -
  obtain req where rq: "(rq_method rq, rq_route rq) = (''POST'', ''/api/v1/auth/login'')"
    "\<not> (sv_cookie_secure sv \<and> \<not> requestIsHTTPS rq)"
    "ShouldBindJSON (sv_binder sv) login_field zero_login login_valid (fresh_context rq) = Inr req"
    "d = login_digest sv (rq_client_ip rq) (lr_email req)"
    using assms(1) by (auto simp: login_attempt_Some)
  obtain retry err ks where lim: "login_limit sv m d (w_limits w) = ((retry, Some err), ks)"
    using assms(2) by (cases "login_limit sv m d (w_limits w)") (auto simp: admitted_def)
  have "LoginHandler sv m (fresh_context rq) v = (setRetryAfterHeader retry (writeAuthError err), v\<lparr>w_limits := ks\<rparr>)"
    if "w_limits v = w_limits w" for v
    using rq(3,4) lim that
    by (simp add: LoginHandler_def with_request_def enforceLoginRateLimit_eq rate_limited_def)
  note refused = this [OF refl] this [of "w\<lparr>w_app := a\<rparr>", simplified]
  show ?thesis
    unfolding login_route [OF rq(1)]
    by (auto simp: CORS_def api_v1_def Secure_def NoCache_def Let_def refused split: prod.split)
qed

text \<open>
  C6: Password guessing is bounded. Take a server that started with an accepted
  configuration, with empty limits, and any sequence of requests to it, from anybody and of
  any kind, at times that do not go back, with whatever calls failing. In every interval as
  long as the configured window, of all attempts to log in from one address with one e-mail,
  however written, no more than the configured limit come to the check of the password. An
  attempt that does not is answered in a way that depends on no account and changes none.
\<close>

theorem password_guessing_is_bounded:
  assumes "api_server lib st proxies_ok env parsed = Inr sv" "sv_login_window sv \<le> 9223372036"
    and "sorted (map (ms \<circ> fst) run)" "\<forall>x\<in>set run. m_clock (fst x) = ms (fst x)"
    and "distinct (map (m_member \<circ> fst) run)" "w_limits w = Map.empty"
  shows "int (length (filter (\<lambda>t. hi - 1000 * sv_login_window sv < t \<and> t \<le> hi) (admissions sv d run w)))
      \<le> sv_login_limit sv
    \<and> (login_attempt sv rq = Some d \<and> \<not> admitted sv m d v \<longrightarrow>
        fst (serve sv m rq (v\<lparr>w_app := a\<rparr>)) = fst (serve sv m rq v) \<and> w_app (snd (serve sv m rq v)) = w_app v)"
proof -
  have ready: "0 < sv_login_limit sv" "0 < sv_login_window sv"
    using api_server_ready [OF assms(1)] by (simp_all add: server_ready_def)
  let ?W = "int64_wrap (sv_login_window sv * 1000000000) div 1000000"
  have W: "?W = 1000 * sv_login_window sv" using ready(2) assms(2) by (simp add: int64_wrap_id)
  let ?t0 = "case run of [] \<Rightarrow> 0 | x # _ \<Rightarrow> ms (fst x)"
  have "windows_ok ?W (sv_login_limit sv) (admissions sv d run w @ [])"
  proof (rule admissions_windows [where ?t0.0 = ?t0])
    show "sorted (?t0 # map (ms \<circ> fst) run)" using assms(3) by (cases run) auto
  qed (use ready W assms in \<open>simp_all add: tracks_def members_def windows_ok_def\<close>)
  then show ?thesis using refused_login_blind unfolding windows_ok_def W by simp
qed

text \<open>Two guesses at once, at a server that starts with the smallest configuration and Redis.\<close>

definition sample_libraries :: libraries where
  "sample_libraries = \<lparr>lib_auth = sample_lib, lib_codec = sample_codec, lib_num = (\<lambda>s. s),
     lib_binder = sample_binder\<lparr>b_next := (\<lambda>_. Value (JObj [(''email'', JStr ''A@b''), (''password'', JStr ''p4ssw0rd'')]) [])\<rparr>,
     lib_form = (\<lambda>_ _. Inl InvalidRequest), lib_slot = SlotFree, lib_pdfinfo = (\<lambda>_. sample_info),
     lib_pdftotext = (\<lambda>_. sample_info)\<rparr>"

definition sample_startup :: startup where
  "sample_startup = \<lparr>st_database = True, st_upload_root = Some, st_valid_uri = (\<lambda>_. True)\<rparr>"

definition redis_config :: config where
  "redis_config = bare_config\<lparr>cfg_cache := \<lparr>cs_host = ''r'', cs_pass = [], cs_type = []\<rparr>\<rparr>"

definition login_post :: http_request where
  "login_post = (me_request None)\<lparr>rq_method := ''POST'', rq_route := ''/api/v1/auth/login'', rq_body := (''x'', None)\<rparr>"

lemma redis_config_starts:
  "\<exists>sv. api_server sample_libraries sample_startup (\<lambda>_. True) Map.empty (Inr redis_config) = Inr sv
    \<and> sv_login_limit sv = 10 \<and> sv_login_window sv = 300"
  by (simp add: api_server_def Load_def no_overrides int32_wrap_def redis_config_def bare_config_def load_auth_def
      applyAuthRateLimitDefaults_def load_ai_def applyUploadDefaults_def load_worker_def applyWorkerDefaults_def
      or_default_def server_of_def Let_def)

theorem password_guessing_is_bounded_witness:
  "\<exists>sv. api_server sample_libraries sample_startup (\<lambda>_. True) Map.empty (Inr redis_config) = Inr sv
    \<and> int (length (filter (\<lambda>t. - 300000 < t \<and> t \<le> 0) (admissions sv (login_digest sv ''::1'' ''A@b'')
        [(sample_moment, login_post), (sample_moment\<lparr>m_member := ''n''\<rparr>, login_post)] (world_of empty_db)))) \<le> 10"
proof -
  let ?run = "[(sample_moment, login_post), (sample_moment\<lparr>m_member := ''n''\<rparr>, login_post)]"
  obtain sv where sv: "api_server sample_libraries sample_startup (\<lambda>_. True) Map.empty (Inr redis_config) = Inr sv"
    "sv_login_limit sv = 10" "sv_login_window sv = 300"
    using redis_config_starts by blast
  have "sorted (map (ms \<circ> fst) ?run)" "\<forall>x\<in>set ?run. m_clock (fst x) = ms (fst x)"
    "distinct (map (m_member \<circ> fst) ?run)" "w_limits (world_of empty_db) = Map.empty"
    by (simp_all add: ms_def sample_moment_def world_of_def)
  from password_guessing_is_bounded [OF sv(1) _ this, of 0 "login_digest sv ''::1'' ''A@b''"] show ?thesis
    using sv by simp
qed

end
