(* ===== verification/ParseQueue.thy ===== *)
theory ParseQueue
  imports Worker Config
begin

text \<open>
  \<open>pkg/cache/parse_job_queue.go\<close>, the queue of parse jobs on a Redis stream, and the loops of
  \<open>internal/worker/parsejob\<close> that serve it. Redis is a parameter: a record of the commands
  the queue sends, over a state of any type. What is relied on of streams with a consumer
  group is \<open>streams_keep\<close>. One turn of a loop is a function; that the turns go on until the
  context ends, and side by side, is not modelled.
\<close>

section \<open>The commands\<close>

datatype client_error = RedisNil | RedisFailed string

record x_message =
  xm_id :: string
  xm_values :: "string \<rightharpoonup> string"

record parse_job_message =
  pm_id :: string
  pm_job_id :: int

text \<open>A result is the text of an error or what the command returns; times are in nanoseconds.\<close>

record 'q stream_client =
  XGroupCreateMkStream :: "string \<Rightarrow> string \<Rightarrow> string \<Rightarrow> 'q \<Rightarrow> string option \<times> 'q"
  XAdd :: "string \<Rightarrow> (string \<rightharpoonup> string) \<Rightarrow> 'q \<Rightarrow> (string + string) \<times> 'q"
  XReadGroup :: "string \<Rightarrow> string \<Rightarrow> string \<Rightarrow> int \<Rightarrow> int \<Rightarrow> 'q \<Rightarrow> (client_error + x_message list list) \<times> 'q"
  XAutoClaim :: "string \<Rightarrow> string \<Rightarrow> string \<Rightarrow> int \<Rightarrow> int \<Rightarrow> 'q \<Rightarrow> (client_error + x_message list) \<times> 'q"
  XAck :: "string \<Rightarrow> string \<Rightarrow> string \<Rightarrow> 'q \<Rightarrow> string option \<times> 'q"
  XTrimMinIDApprox :: "string \<Rightarrow> string \<Rightarrow> int \<Rightarrow> 'q \<Rightarrow> string option \<times> 'q"
  SetKey :: "string \<Rightarrow> string \<Rightarrow> int \<Rightarrow> 'q \<Rightarrow> string option \<times> 'q"
  ExistsKey :: "string \<Rightarrow> 'q \<Rightarrow> string + int"

record 'q job_queue =
  jq_client :: "'q stream_client option"
  jq_stream_key :: string
  jq_group :: string

definition workerHeartbeatKey :: string where
  "workerHeartbeatKey = ''taskpilot:worker:heartbeat''"

definition requireClient :: "'q job_queue \<Rightarrow> string + 'q stream_client" where
  "requireClient q =
     (case jq_client q of
        None \<Rightarrow> Inl ''redis client is not configured''
      | Some client \<Rightarrow>
          if jq_stream_key q = [] \<or> jq_group q = [] then Inl ''parse job queue is not configured'' else Inr client)"

text \<open>
  \<open>redisInt64\<close> with its error dropped: what \<open>ParseInt\<close> returns with an error is zero, or the
  nearest bound of the range.
\<close>

definition job_id_value :: "string option \<Rightarrow> int" where
  "job_id_value v =
     (case v of
        None \<Rightarrow> 0
      | Some s \<Rightarrow>
          (case parse_decimal s of
             None \<Rightarrow> 0 | Some n \<Rightarrow> max (- 9223372036854775808) (min 9223372036854775807 n)))"

definition decodeParseJobMessages :: "x_message list \<Rightarrow> parse_job_message list" where
  "decodeParseJobMessages ms =
     map (\<lambda>m. \<lparr>pm_id = xm_id m, pm_job_id = job_id_value (xm_values m ''job_id'')\<rparr>) ms"

definition decodeParseJobStreams :: "x_message list list \<Rightarrow> parse_job_message list" where
  "decodeParseJobStreams streams = concat (map decodeParseJobMessages streams)"

definition isBusyGroupError :: "string \<Rightarrow> bool" where
  "isBusyGroupError m \<longleftrightarrow> take 9 m = ''BUSYGROUP''"

section \<open>The queue\<close>

definition queue_EnsureGroup :: "'q job_queue \<Rightarrow> 'q \<Rightarrow> string option \<times> 'q" where
  "queue_EnsureGroup q st =
     (case requireClient q of
        Inl err \<Rightarrow> (Some err, st)
      | Inr client \<Rightarrow>
          (case XGroupCreateMkStream client (jq_stream_key q) (jq_group q) ''0'' st of
             (None, st') \<Rightarrow> (None, st')
           | (Some err, st') \<Rightarrow>
               (if isBusyGroupError err then None else Some (''create parse job consumer group: '' @ err), st')))"

definition queue_Publish :: "'q job_queue \<Rightarrow> int \<Rightarrow> 'q \<Rightarrow> (string + string) \<times> 'q" where
  "queue_Publish q jobID st =
     (case requireClient q of
        Inl err \<Rightarrow> (Inl err, st)
      | Inr client \<Rightarrow>
          (case XAdd client (jq_stream_key q) [''job_id'' \<mapsto> dec_int jobID] st of
             (Inl err, st') \<Rightarrow> (Inl (''publish parse job: '' @ err), st')
           | (Inr messageID, st') \<Rightarrow> (Inr messageID, st')))"

definition queue_Read ::
  "'q job_queue \<Rightarrow> string \<Rightarrow> int \<Rightarrow> int \<Rightarrow> 'q \<Rightarrow> (string + parse_job_message list) \<times> 'q" where
  "queue_Read q consumer n block st =
     (case requireClient q of
        Inl err \<Rightarrow> (Inl err, st)
      | Inr client \<Rightarrow>
          (case XReadGroup client (jq_group q) consumer (jq_stream_key q) n block st of
             (Inl RedisNil, st') \<Rightarrow> (Inr [], st')
           | (Inl (RedisFailed err), st') \<Rightarrow> (Inl (''read parse jobs: '' @ err), st')
           | (Inr streams, st') \<Rightarrow> (Inr (decodeParseJobStreams streams), st')))"

definition queue_ClaimStale ::
  "'q job_queue \<Rightarrow> string \<Rightarrow> int \<Rightarrow> int \<Rightarrow> 'q \<Rightarrow> (string + parse_job_message list) \<times> 'q" where
  "queue_ClaimStale q consumer minIdle n st =
     (case requireClient q of
        Inl err \<Rightarrow> (Inl err, st)
      | Inr client \<Rightarrow>
          (case XAutoClaim client (jq_stream_key q) (jq_group q) consumer minIdle n st of
             (Inl RedisNil, st') \<Rightarrow> (Inr [], st')
           | (Inl (RedisFailed err), st') \<Rightarrow> (Inl (''claim stale parse jobs: '' @ err), st')
           | (Inr ms, st') \<Rightarrow> (Inr (decodeParseJobMessages ms), st')))"

definition queue_Ack :: "'q job_queue \<Rightarrow> string \<Rightarrow> 'q \<Rightarrow> string option \<times> 'q" where
  "queue_Ack q messageID st =
     (case requireClient q of
        Inl err \<Rightarrow> (Some err, st)
      | Inr client \<Rightarrow>
          (case XAck client (jq_stream_key q) (jq_group q) messageID st of
             (None, st') \<Rightarrow> (None, st')
           | (Some err, st') \<Rightarrow> (Some (''ack parse job message: '' @ err), st')))"

text \<open>\<open>UnixMilli\<close> of a time in nanoseconds rounds down, as \<open>div\<close> does.\<close>

definition trim_id :: "int \<Rightarrow> string" where
  "trim_id cutoff = dec_int (cutoff div 1000000) @ ''-0''"

definition queue_TrimBefore :: "'q job_queue \<Rightarrow> int \<Rightarrow> 'q \<Rightarrow> string option \<times> 'q" where
  "queue_TrimBefore q cutoff st =
     (case requireClient q of
        Inl err \<Rightarrow> (Some err, st)
      | Inr client \<Rightarrow>
          (case XTrimMinIDApprox client (jq_stream_key q) (trim_id cutoff) 1000 st of
             (None, st') \<Rightarrow> (None, st')
           | (Some err, st') \<Rightarrow> (Some (''trim parse job stream: '' @ err), st')))"

definition queue_Heartbeat :: "'q job_queue \<Rightarrow> string \<Rightarrow> int \<Rightarrow> 'q \<Rightarrow> string option \<times> 'q" where
  "queue_Heartbeat q consumer ttl st =
     (case requireClient q of
        Inl err \<Rightarrow> (Some err, st)
      | Inr client \<Rightarrow>
          (case SetKey client workerHeartbeatKey consumer ttl st of
             (None, st') \<Rightarrow> (None, st')
           | (Some err, st') \<Rightarrow> (Some (''write worker heartbeat: '' @ err), st')))"

definition queue_WorkerHealthy :: "'q job_queue \<Rightarrow> 'q \<Rightarrow> string + bool" where
  "queue_WorkerHealthy q st =
     (case requireClient q of
        Inl err \<Rightarrow> Inl err
      | Inr client \<Rightarrow>
          (case ExistsKey client workerHeartbeatKey st of
             Inl err \<Rightarrow> Inl (''check worker heartbeat: '' @ err) | Inr n \<Rightarrow> Inr (0 < n)))"

section \<open>The worker\<close>

record 'q worker =
  wk_queue :: "'q job_queue"
  wk_consumer :: string
  wk_concurrency :: int
  wk_block_timeout :: int
  wk_reconcile_interval :: int
  wk_pending_grace :: int
  wk_lease_timeout :: int
  wk_max_recoveries :: int
  wk_stream_retention :: int
  wk_heartbeat_interval :: int
  wk_heartbeat_ttl :: int
  wk_shutdown_grace :: int
  wk_files :: "string option"
  wk_cleanup_interval :: int
  wk_temp_grace :: int
  wk_orphan_grace :: int

definition duration_or :: "int \<Rightarrow> int \<Rightarrow> int" where
  "duration_or secs d = (let x = int64_wrap (secs * 1000000000) in if x \<le> 0 then d else x)"

definition worker_New ::
  "bool \<Rightarrow> 'q job_queue option \<Rightarrow> bool \<Rightarrow> string option \<Rightarrow> string \<Rightarrow> config \<Rightarrow> string + 'q worker" where
  "worker_New db_ready queue parser_ready files consumer c =
     (if \<not> db_ready then Inl ''worker database is not configured''
      else
        (case queue of
           None \<Rightarrow> Inl ''worker parse job queue is not configured''
         | Some q \<Rightarrow>
             if \<not> parser_ready then Inl ''worker AI parser is not configured''
             else
               let w = cfg_worker c; u = cfg_upload c; dur = (\<lambda>x. int64_wrap (x * 1000000000)) in
               Inr \<lparr>wk_queue = q, wk_consumer = consumer, wk_concurrency = ws_concurrency w,
                    wk_block_timeout = dur (ws_block_timeout w), wk_reconcile_interval = dur (ws_reconcile_interval w),
                    wk_pending_grace = dur (ws_pending_grace w), wk_lease_timeout = dur (ws_lease_timeout w),
                    wk_max_recoveries = ws_max_recoveries w, wk_stream_retention = dur (ws_stream_retention w),
                    wk_heartbeat_interval = dur (ws_heartbeat_interval w), wk_heartbeat_ttl = dur (ws_heartbeat_ttl w),
                    wk_shutdown_grace = dur (ws_shutdown_grace w), wk_files = files,
                    wk_cleanup_interval = duration_or (ups_cleanup_interval u) 86400000000000,
                    wk_temp_grace = duration_or (ups_temp_grace u) 3600000000000,
                    wk_orphan_grace = duration_or (ups_orphan_grace u) 86400000000000\<rparr>))"

text \<open>
  \<open>newConsumerName\<close>, from the host name, the process id, the time and four random bytes,
  where the system has them.
\<close>

definition newConsumerName :: "string option \<Rightarrow> nat \<Rightarrow> int \<Rightarrow> nat list option \<Rightarrow> string" where
  "newConsumerName host pid t random =
     (let hostname = (case host of None \<Rightarrow> ''worker'' | Some h \<Rightarrow> if h = [] then ''worker'' else h) in
      hostname @ ''-'' @ dec pid @ ''-'' @ (case random of None \<Rightarrow> dec_int t | Some bs \<Rightarrow> hex_encode bs))"

text \<open>
  What a turn finds: an environment and whether a slot was free, by message, the answers of
  the parser, and what a job's columns are printed with.
\<close>

record turn =
  tn_env :: env
  tn_message_env :: "nat \<Rightarrow> env"
  tn_slot :: "nat \<Rightarrow> bool"
  tn_parser :: "string \<Rightarrow> ai_error + parsed_document"
  tn_codec :: time_codec

text \<open>\<open>handleMessage\<close> with its acknowledgement: \<open>acquireProcessSlot\<close> fails when the worker stops.\<close>

definition worker_deliver ::
  "'q worker \<Rightarrow> turn \<Rightarrow> nat \<Rightarrow> parse_job_message \<Rightarrow> db \<times> 'q \<Rightarrow> db \<times> 'q" where
  "worker_deliver w tn k m sq =
     (case sq of (s, st) \<Rightarrow>
        if \<not> tn_slot tn k then (s, st)
        else
          (case worker_handleMessage (tn_codec tn) (tn_parser tn) (tn_message_env tn k) (pm_job_id m) s of
             (terminal, s') \<Rightarrow> (s', if terminal then snd (queue_Ack (wk_queue w) (pm_id m) st) else st)))"

fun deliver_all ::
  "'q worker \<Rightarrow> turn \<Rightarrow> nat \<Rightarrow> parse_job_message list \<Rightarrow> db \<times> 'q \<Rightarrow> db \<times> 'q" where
  "deliver_all w tn k [] sq = sq"
| "deliver_all w tn k (m # ms) sq = deliver_all w tn (Suc k) ms (worker_deliver w tn k m sq)"

text \<open>
  \<open>ensureGroup\<close>, given for each wait whether its timer fired before the context ended: the
  end of the wait for the group, or \<open>None\<close> when it is still waiting after these.
\<close>

fun worker_ensureGroup :: "'q worker \<Rightarrow> bool list \<Rightarrow> int \<Rightarrow> 'q \<Rightarrow> string option option \<times> 'q" where
  "worker_ensureGroup w [] backoff st = (None, st)"
| "worker_ensureGroup w (fired # waits) backoff st =
     (case queue_EnsureGroup (wk_queue w) st of
        (None, st') \<Rightarrow> (Some None, st')
      | (Some err, st') \<Rightarrow>
          if \<not> fired then (Some (Some ''context canceled''), st')
          else
            worker_ensureGroup w waits
              (if backoff < 30000000000 then min 30000000000 (backoff * 2) else backoff) st')"

text \<open>One turn of \<open>consumeLoop\<close>: the backoff of the next turn, and the state after it.\<close>

definition consume_turn :: "'q worker \<Rightarrow> turn \<Rightarrow> int \<Rightarrow> db \<times> 'q \<Rightarrow> int \<times> db \<times> 'q" where
  "consume_turn w tn backoff sq =
     (case sq of (s, st) \<Rightarrow>
      (case queue_Read (wk_queue w) (wk_consumer w) 1 (wk_block_timeout w) st of
         (Inl err, st') \<Rightarrow> (nextBackoff backoff, s, snd (queue_EnsureGroup (wk_queue w) st'))
       | (Inr ms, st') \<Rightarrow> (1000000000, deliver_all w tn 0 ms (s, st'))))"

text \<open>
  One turn of \<open>reclaimLoop\<close>: the jobs that were reset and could be published are on the stream
  before stale messages are claimed. The steps on the database and their list of published jobs
  are those of \<open>Worker\<close>, whose environment says which publications fail; the others
  are made here, so a client fits an environment when it fails none of them.
\<close>

definition publish_all :: "'q job_queue \<Rightarrow> int list \<Rightarrow> 'q \<Rightarrow> 'q" where
  "publish_all q js st = fold (\<lambda>j st. snd (queue_Publish q j st)) js st"

definition reclaim_turn :: "'q worker \<Rightarrow> turn \<Rightarrow> db \<times> 'q \<Rightarrow> db \<times> 'q" where
  "reclaim_turn w tn sq =
     (case sq of (s, st) \<Rightarrow>
      (case worker_recoverStaleJobs (wk_lease_timeout w) (wk_max_recoveries w) (tn_env tn) (s, []) of
         (_, s1, published) \<Rightarrow>
           (case queue_ClaimStale (wk_queue w) (wk_consumer w) (wk_lease_timeout w) reconciliationBatchSize
                   (publish_all (wk_queue w) published st) of
              (Inl err, st') \<Rightarrow> (s1, st')
            | (Inr ms, st') \<Rightarrow> deliver_all w tn 0 ms (s1, st'))))"

definition reconcile_turn :: "'q worker \<Rightarrow> turn \<Rightarrow> db \<times> 'q \<Rightarrow> db \<times> 'q" where
  "reconcile_turn w tn sq =
     (case sq of (s, st) \<Rightarrow>
      (case worker_reconcilePendingJobs (wk_pending_grace w) (tn_env tn) (s, []) of
         (_, s1, published) \<Rightarrow> (s1, publish_all (wk_queue w) published st)))"

definition heartbeat_turn :: "'q worker \<Rightarrow> 'q \<Rightarrow> 'q" where
  "heartbeat_turn w st = snd (queue_Heartbeat (wk_queue w) (wk_consumer w) (wk_heartbeat_ttl w) st)"

definition trim_turn :: "'q worker \<Rightarrow> int \<Rightarrow> 'q \<Rightarrow> 'q" where
  "trim_turn w t st = snd (queue_TrimBefore (wk_queue w) (t - wk_stream_retention w) st)"

text \<open>Turns of the loops that \<open>Run\<close> starts, of one or of several workers, one after the other.\<close>

datatype loop_turn = Consume turn int | Reclaim turn | Reconcile turn | Heartbeat | Trim int

fun loop_step :: "'q worker \<Rightarrow> loop_turn \<Rightarrow> db \<times> 'q \<Rightarrow> db \<times> 'q" where
  "loop_step w (Consume tn backoff) sq = snd (consume_turn w tn backoff sq)"
| "loop_step w (Reclaim tn) sq = reclaim_turn w tn sq"
| "loop_step w (Reconcile tn) sq = reconcile_turn w tn sq"
| "loop_step w Heartbeat sq = apsnd (heartbeat_turn w) sq"
| "loop_step w (Trim t) sq = apsnd (trim_turn w t) sq"

fun run_turns :: "('q worker \<times> loop_turn) list \<Rightarrow> db \<times> 'q \<Rightarrow> db \<times> 'q" where
  "run_turns [] sq = sq"
| "run_turns ((w, l) # ls) sq = run_turns ls (loop_step w l sq)"

section \<open>Finished jobs stay finished\<close>

definition finished :: "int \<Rightarrow> db \<Rightarrow> bool" where
  "finished i s \<longleftrightarrow> (\<exists>j\<in>set (parse_jobs s). job_id j = i \<and> (job_status j = ''success'' \<or> job_status j = ''failed''))"

text \<open>What the worker does to the jobs: the constraints hold and a finished job stays as it is.\<close>

definition advances :: "db \<Rightarrow> db \<Rightarrow> bool" where
  "advances s s' \<longleftrightarrow> schema_ok s' \<and> (\<forall>i. finished i s \<longrightarrow> finished i s')"

lemma advances_refl: "schema_ok s \<Longrightarrow> advances s s"
  by (simp add: advances_def)

lemma advances_trans: "advances s s' \<Longrightarrow> advances s' s'' \<Longrightarrow> advances s s''"
  by (simp add: advances_def)

lemma job_edit_advances:
  assumes ok: "schema_ok s" and ed: "job_edit s j j' s'" "job_id j' = job_id j"
    and st: "job_status j \<noteq> ''success''" "job_status j \<noteq> ''failed''"
  shows "advances s s'"
proof -
  have "finished i s'" if f: "finished i s" for i
  proof -
    obtain k where k: "k \<in> set (parse_jobs s)" "job_id k = i" "job_status k = ''success'' \<or> job_status k = ''failed''"
      using f by (auto simp: finished_def)
    have "job_id k \<noteq> job_id j"
      using distinct_map_unique [OF schema_ok_distinct(2) [OF ok] k(1), of j] ed(1) k(3) st by (auto simp: job_edit_def)
    then have "k \<in> set (parse_jobs s')" using ed k(1) by (auto simp: job_edit_def replace_row_def)
    then show ?thesis using k by (auto simp: finished_def)
  qed
  then show ?thesis using job_edit_schema_ok [OF ok ed] by (simp add: advances_def)
qed

lemma edited_finished:
  "job_edit s j j' s' \<Longrightarrow> job_id j' = job_id j \<Longrightarrow> job_status j' = ''success'' \<or> job_status j' = ''failed'' \<Longrightarrow>
     finished (job_id j) s'"
  by (force simp: finished_def job_edit_def replace_row_def)

lemma worker_handleMessage_advances:
  assumes ok: "schema_ok s" and run: "worker_handleMessage c parser e i s = (terminal, s')"
  shows "advances s s' \<and> (terminal \<longrightarrow> i \<le> 0 \<or> finished i s')"
proof (cases "i \<le> 0")
  case True
  then show ?thesis using run advances_refl [OF ok] by (simp add: worker_handleMessage_def)
next
  case False
  then obtain err where p: "worker_processJob c parser e i s = ((terminal, err), s')"
    using run by (auto simp: worker_handleMessage_def split: prod.splits)
  from worker_processJob_cases [OF ok p] show ?thesis
  proof (elim disjE conjE)
    assume "s' = s" "terminal \<longrightarrow> (\<exists>j\<in>set (parse_jobs s). job_id j = i \<and> (job_status j = ''success'' \<or> job_status j = ''failed''))"
    then show ?thesis using advances_refl [OF ok] by (auto simp: finished_def)
  next
    assume "\<not> terminal" "left_processing e i s s'"
    then show ?thesis using job_edit_advances [OF ok] by (fastforce simp: left_processing_def)
  next
    assume t: "terminal" "processing_failed e i s s'"
    then obtain j m where j: "job_id j = i" "job_status j = ''pending''" "job_edit s j (job_failed e m (job_claimed e j)) s'"
      by (auto simp: processing_failed_def)
    then show ?thesis using job_edit_advances [OF ok j(3)] edited_finished [OF j(3)] by simp
  next
    assume t: "terminal" "err = None" "parsed_result c parser e i s s'"
    then obtain j where j: "job_id j = i" "job_status j = ''pending''"
      "parse_results_violation s (parse_results s') = None"
      "job_edit (s\<lparr>parse_results := parse_results s'\<rparr>) j (job_completed e (job_claimed e j)) s'"
      and new: "\<exists>n. parse_results s' = parse_results s @ [n]"
      by (auto simp: parsed_result_def)
    let ?s1 = "s\<lparr>parse_results := parse_results s'\<rparr>"
    have ok1: "schema_ok ?s1" by (rule schema_ok_parse_results [OF ok j(3)]) (use new in auto)
    have "advances ?s1 s'" using job_edit_advances [OF ok1 j(4)] j(2) by simp
    then show ?thesis using edited_finished [OF j(4)] j(1) by (simp add: advances_def finished_def)
  qed
qed

lemma recover_loop_advances:
  "recover_loop e mx cutoff k js (s, q) = (x, (s', q')) \<Longrightarrow> schema_ok s \<Longrightarrow> advances s s'"
proof (induction js arbitrary: k s q)
  case (Cons j js)
  obtain y s1 q1 where one: "recover_one e mx cutoff k j (s, q) = (y, (s1, q1))"
    by (cases "recover_one e mx cutoff k j (s, q)") auto
  have "advances s s1"
    using recover_one_cases [OF one Cons.prems(2)] advances_refl [OF Cons.prems(2)] job_edit_advances [OF Cons.prems(2)]
    by (auto simp: stale_job_def split: if_splits)
  moreover have "advances s1 s'" if "y = Inr u" for u
    using Cons.IH [of "Suc k" s1 q1] Cons.prems(1) one that calculation by (simp add: advances_def)
  ultimately show ?case using Cons.prems(1) one advances_trans by (cases y) auto
qed (simp add: advances_refl)

lemma worker_recoverStaleJobs_advances:
  "worker_recoverStaleJobs lt mx e (s, q) = (x, (s', q')) \<Longrightarrow> schema_ok s \<Longrightarrow> advances s s'"
  using recover_loop_advances advances_refl
  by (auto simp: worker_recoverStaleJobs_def Let_def split: sum.splits)

lemma reconcile_loop_advances:
  "reconcile_loop e cutoff k js (s, q) = (x, (s', q')) \<Longrightarrow> schema_ok s \<Longrightarrow> advances s s'"
proof (induction js arbitrary: k s q)
  case (Cons j js)
  obtain y s1 q1 where one: "reconcile_one e cutoff k j (s, q) = (y, (s1, q1))"
    by (cases "reconcile_one e cutoff k j (s, q)") auto
  have "advances s s1"
    using reconcile_one_cases [OF one Cons.prems(2)] advances_refl [OF Cons.prems(2)] job_edit_advances [OF Cons.prems(2)]
    by (auto simp: overdue_job_def)
  moreover have "advances s1 s'" if "y = Inr u" for u
    using Cons.IH [of "Suc k" s1 q1] Cons.prems(1) one that calculation by (simp add: advances_def)
  ultimately show ?case using Cons.prems(1) one advances_trans by (cases y) auto
qed (simp add: advances_refl)

lemma worker_reconcilePendingJobs_advances:
  "worker_reconcilePendingJobs grace e (s, q) = (x, (s', q')) \<Longrightarrow> schema_ok s \<Longrightarrow> advances s s'"
  using reconcile_loop_advances advances_refl
  by (auto simp: worker_reconcilePendingJobs_def Let_def split: sum.splits)

lemma worker_deliver_advances: "schema_ok s \<Longrightarrow> advances s (fst (worker_deliver w tn k m (s, st)))"
  using worker_handleMessage_advances [of s] by (auto simp: worker_deliver_def advances_refl split: prod.split)

lemma deliver_all_advances: "schema_ok s \<Longrightarrow> advances s (fst (deliver_all w tn k ms (s, st)))"
proof (induction ms arbitrary: k s st)
  case (Cons m ms)
  obtain s1 st1 where one: "worker_deliver w tn k m (s, st) = (s1, st1)" by fastforce
  then have "advances s s1" using worker_deliver_advances [OF Cons.prems, of w tn k m st] by simp
  then show ?case using Cons.IH [of s1] one advances_trans by (auto simp: advances_def)
qed (simp add: advances_refl)

lemma loop_step_advances:
  assumes "schema_ok s"
  shows "advances s (fst (loop_step w l (s, st)))"
proof (cases l)
  case (Consume tn backoff)
  then show ?thesis
    using assms deliver_all_advances by (auto simp: consume_turn_def advances_refl split: prod.split sum.split)
next
  case (Reclaim tn)
  obtain y s1 published where rec: "worker_recoverStaleJobs (wk_lease_timeout w) (wk_max_recoveries w) (tn_env tn) (s, [])
    = (y, (s1, published))" by (metis surj_pair)
  have "advances s s1" by (rule worker_recoverStaleJobs_advances [OF rec assms])
  moreover from this have "advances s1 (fst (deliver_all w tn 0 ms (s1, st')))" for ms st'
    using deliver_all_advances [of s1 w tn 0 ms st'] by (simp add: advances_def)
  ultimately show ?thesis
    using Reclaim rec advances_trans by (auto simp: reclaim_turn_def split: prod.split sum.split)
next
  case (Reconcile tn)
  obtain y s1 published where rec: "worker_reconcilePendingJobs (wk_pending_grace w) (tn_env tn) (s, [])
    = (y, (s1, published))" by (metis surj_pair)
  then show ?thesis using Reconcile worker_reconcilePendingJobs_advances [OF rec assms] by (simp add: reconcile_turn_def)
qed (simp_all add: advances_refl assms)

section \<open>No message is lost\<close>

text \<open>
  What is relied on of Redis, in terms of the messages of a stream that are still to be read
  by the group or to be acknowledged: no command but the acknowledgement of a message and the
  trimming of those older than an id takes it away, a command that returns messages returns such
  ones, whatever errors it reports, and an id names one message. \<open>older\<close> is the order of the ids.
\<close>

definition streams_keep ::
  "'q stream_client \<Rightarrow> string \<Rightarrow> string \<Rightarrow> (string \<Rightarrow> string \<Rightarrow> bool) \<Rightarrow> ('q \<Rightarrow> x_message set) \<Rightarrow> bool" where
  "streams_keep client key grp older outstanding \<longleftrightarrow>
     (\<forall>start st. outstanding st \<subseteq> outstanding (snd (XGroupCreateMkStream client key grp start st)))
     \<and> (\<forall>vals st. outstanding st \<subseteq> outstanding (snd (XAdd client key vals st))
          \<and> (\<forall>i. fst (XAdd client key vals st) = Inr i \<longrightarrow>
               \<lparr>xm_id = i, xm_values = vals\<rparr> \<in> outstanding (snd (XAdd client key vals st))))
     \<and> (\<forall>consumer n block st.
          outstanding st \<subseteq> outstanding (snd (XReadGroup client grp consumer key n block st))
          \<and> (\<forall>xss. fst (XReadGroup client grp consumer key n block st) = Inr xss \<longrightarrow> set (concat xss) \<subseteq> outstanding st))
     \<and> (\<forall>consumer idle n st.
          outstanding st \<subseteq> outstanding (snd (XAutoClaim client key grp consumer idle n st))
          \<and> (\<forall>xs. fst (XAutoClaim client key grp consumer idle n st) = Inr xs \<longrightarrow> set xs \<subseteq> outstanding st))
     \<and> (\<forall>i st. {m \<in> outstanding st. xm_id m \<noteq> i} \<subseteq> outstanding (snd (XAck client key grp i st)))
     \<and> (\<forall>k v t st. outstanding st \<subseteq> outstanding (snd (SetKey client k v t st)))
     \<and> (\<forall>i n st. {m \<in> outstanding st. \<not> older (xm_id m) i} \<subseteq> outstanding (snd (XTrimMinIDApprox client key i n st)))
     \<and> (\<forall>st. inj_on xm_id (outstanding st))"

definition job_of :: "x_message \<Rightarrow> int" where
  "job_of m = job_id_value (xm_values m ''job_id'')"

text \<open>Still outstanding, or its job is finished, or it names no job at all.\<close>

definition kept :: "('q \<Rightarrow> x_message set) \<Rightarrow> x_message \<Rightarrow> db \<times> 'q \<Rightarrow> bool" where
  "kept outstanding m sq \<longleftrightarrow> m \<in> outstanding (snd sq) \<or> job_of m \<le> 0 \<or> finished (job_of m) (fst sq)"

lemma kept_advances: "kept out m (s, st) \<Longrightarrow> advances s s' \<Longrightarrow> out st \<subseteq> out st' \<Longrightarrow> kept out m (s', st')"
  by (auto simp: kept_def advances_def)

lemma streams_keepD:
  assumes "streams_keep client key grp older outstanding"
  shows "outstanding st \<subseteq> outstanding (snd (XGroupCreateMkStream client key grp start st))"
    and "outstanding st \<subseteq> outstanding (snd (XAdd client key vals st))"
    and "fst (XAdd client key vals st) = Inr i \<Longrightarrow> \<lparr>xm_id = i, xm_values = vals\<rparr> \<in> outstanding (snd (XAdd client key vals st))"
    and "outstanding st \<subseteq> outstanding (snd (XReadGroup client grp consumer key n block st))"
    and "fst (XReadGroup client grp consumer key n block st) = Inr xss \<Longrightarrow> set (concat xss) \<subseteq> outstanding st"
    and "outstanding st \<subseteq> outstanding (snd (XAutoClaim client key grp consumer idle n st))"
    and "fst (XAutoClaim client key grp consumer idle n st) = Inr xs \<Longrightarrow> set xs \<subseteq> outstanding st"
    and "m \<in> outstanding st \<Longrightarrow> xm_id m \<noteq> i \<Longrightarrow> m \<in> outstanding (snd (XAck client key grp i st))"
    and "inj_on xm_id (outstanding st)"
    and "outstanding st \<subseteq> outstanding (snd (SetKey client k v t st))"
    and "m \<in> outstanding st \<Longrightarrow> \<not> older (xm_id m) i \<Longrightarrow> m \<in> outstanding (snd (XTrimMinIDApprox client key i c st))"
proof -
  note laws = assms [unfolded streams_keep_def]
  show "outstanding st \<subseteq> outstanding (snd (XGroupCreateMkStream client key grp start st))"
    "outstanding st \<subseteq> outstanding (snd (XAdd client key vals st))"
    "outstanding st \<subseteq> outstanding (snd (XReadGroup client grp consumer key n block st))"
    "outstanding st \<subseteq> outstanding (snd (XAutoClaim client key grp consumer idle n st))"
    "inj_on xm_id (outstanding st)" "outstanding st \<subseteq> outstanding (snd (SetKey client k v t st))"
    using laws by simp_all
  show "\<lparr>xm_id = i, xm_values = vals\<rparr> \<in> outstanding (snd (XAdd client key vals st))" if "fst (XAdd client key vals st) = Inr i"
    using laws that by simp
  show "set (concat xss) \<subseteq> outstanding st" if "fst (XReadGroup client grp consumer key n block st) = Inr xss"
    using laws that by simp
  show "set xs \<subseteq> outstanding st" if "fst (XAutoClaim client key grp consumer idle n st) = Inr xs"
    using laws that by simp
  have "{m \<in> outstanding st. xm_id m \<noteq> i} \<subseteq> outstanding (snd (XAck client key grp i st))"
    using laws by simp
  then show "m \<in> outstanding (snd (XAck client key grp i st))" if "m \<in> outstanding st" "xm_id m \<noteq> i"
    using that by auto
  have "{m \<in> outstanding st. \<not> older (xm_id m) i} \<subseteq> outstanding (snd (XTrimMinIDApprox client key i c st))"
    using laws by simp
  then show "m \<in> outstanding (snd (XTrimMinIDApprox client key i c st))" if "m \<in> outstanding st" "\<not> older (xm_id m) i"
    using that by auto
qed

lemma decodeParseJobStreams_eq: "decodeParseJobStreams xss = decodeParseJobMessages (concat xss)"
  by (induction xss) (simp_all add: decodeParseJobStreams_def decodeParseJobMessages_def)

text \<open>What a message decodes to, if its id is that of an outstanding one.\<close>

lemma decoded_job:
  assumes "inj_on xm_id (outstanding st)" "set ms \<subseteq> outstanding st" "m \<in> outstanding st"
  shows "\<forall>pm\<in>set (decodeParseJobMessages ms). pm_id pm = xm_id m \<longrightarrow> pm_job_id pm = job_of m"
  using assms by (auto simp: decodeParseJobMessages_def job_of_def dest: inj_onD)

text \<open>The same of the operations of the queue.\<close>

lemma queue_keeps:
  assumes q: "requireClient q = Inr client" and keep: "streams_keep client (jq_stream_key q) (jq_group q) older outstanding"
  shows "outstanding st \<subseteq> outstanding (snd (queue_EnsureGroup q st))"
    and "outstanding st \<subseteq> outstanding (snd (queue_Publish q j st))"
    and "m \<in> outstanding st \<Longrightarrow> xm_id m \<noteq> i \<Longrightarrow> m \<in> outstanding (snd (queue_Ack q i st))"
  using streams_keepD(1) [OF keep, where st = st and start = "''0''"]
    streams_keepD(2) [OF keep, where st = st and vals = "[''job_id'' \<mapsto> dec_int j]"]
    streams_keepD(8) [OF keep, where m = m and st = st and i = i]
  by (auto simp: queue_EnsureGroup_def queue_Publish_def queue_Ack_def q split: prod.splits sum.splits option.splits)

lemma queue_Read_keeps:
  assumes q: "requireClient q = Inr client" and keep: "streams_keep client (jq_stream_key q) (jq_group q) older outstanding"
    and run: "queue_Read q consumer n block st = (x, st')" and m: "m \<in> outstanding st"
  shows "m \<in> outstanding st'"
    and "x = Inr pms \<Longrightarrow> \<forall>pm\<in>set pms. pm_id pm = xm_id m \<longrightarrow> pm_job_id pm = job_of m"
proof -
  note laws = streams_keepD(4,5) [OF keep, where st = st and consumer = consumer and n = n and block = block]
  obtain y st1 where y: "XReadGroup client (jq_group q) consumer (jq_stream_key q) n block st = (y, st1)" by fastforce
  have "st' = st1" using run q y by (auto simp: queue_Read_def split: sum.splits client_error.splits)
  then show "m \<in> outstanding st'" using laws(1) y m by auto
  show "\<forall>pm\<in>set pms. pm_id pm = xm_id m \<longrightarrow> pm_job_id pm = job_of m" if "x = Inr pms"
  proof (cases y)
    case (Inl err)
    then show ?thesis using run q y that by (cases err) (auto simp: queue_Read_def)
  next
    case (Inr xss)
    then have "pms = decodeParseJobMessages (concat xss)"
      using run q y that by (simp add: queue_Read_def decodeParseJobStreams_eq)
    then show ?thesis
      using decoded_job [of outstanding st "concat xss" m] streams_keepD(9) [OF keep, where st = st] m laws(2) [where xss = xss] y Inr by auto
  qed
qed

lemma queue_ClaimStale_keeps:
  assumes q: "requireClient q = Inr client" and keep: "streams_keep client (jq_stream_key q) (jq_group q) older outstanding"
    and run: "queue_ClaimStale q consumer idle n st = (x, st')" and m: "m \<in> outstanding st"
  shows "m \<in> outstanding st'"
    and "x = Inr pms \<Longrightarrow> \<forall>pm\<in>set pms. pm_id pm = xm_id m \<longrightarrow> pm_job_id pm = job_of m"
proof -
  note laws = streams_keepD(6,7) [OF keep, where st = st and consumer = consumer and idle = idle and n = n]
  obtain y st1 where y: "XAutoClaim client (jq_stream_key q) (jq_group q) consumer idle n st = (y, st1)" by fastforce
  have "st' = st1" using run q y by (auto simp: queue_ClaimStale_def split: sum.splits client_error.splits)
  then show "m \<in> outstanding st'" using laws(1) y m by auto
  show "\<forall>pm\<in>set pms. pm_id pm = xm_id m \<longrightarrow> pm_job_id pm = job_of m" if "x = Inr pms"
  proof (cases y)
    case (Inl err)
    then show ?thesis using run q y that by (cases err) (auto simp: queue_ClaimStale_def)
  next
    case (Inr xs)
    then have "pms = decodeParseJobMessages xs" using run q y that by (simp add: queue_ClaimStale_def)
    then show ?thesis
      using decoded_job [of outstanding st xs m] streams_keepD(9) [OF keep, where st = st] m laws(2) [where xs = xs] y Inr by auto
  qed
qed

lemma worker_deliver_keeps:
  assumes q: "requireClient (wk_queue w) = Inr client"
    and keep: "streams_keep client (jq_stream_key (wk_queue w)) (jq_group (wk_queue w)) older outstanding"
    and ok: "schema_ok s" and m: "kept outstanding m (s, st)"
    and pm: "pm_id pm = xm_id m \<Longrightarrow> pm_job_id pm = job_of m"
  shows "schema_ok (fst (worker_deliver w tn k pm (s, st))) \<and> kept outstanding m (worker_deliver w tn k pm (s, st))"
proof (cases "tn_slot tn k")
  case True
  obtain terminal s' where run: "worker_handleMessage (tn_codec tn) (tn_parser tn) (tn_message_env tn k) (pm_job_id pm) s
      = (terminal, s')" by fastforce
  note adv = worker_handleMessage_advances [OF ok run]
  let ?st = "if terminal then snd (queue_Ack (wk_queue w) (pm_id pm) st) else st"
  have res: "worker_deliver w tn k pm (s, st) = (s', ?st)" using True run by (simp add: worker_deliver_def)
  have "kept outstanding m (s', ?st)"
  proof (cases "terminal \<and> pm_id pm = xm_id m")
    case True
    then show ?thesis using adv pm by (auto simp: kept_def)
  next
    case False
    have "m \<in> outstanding ?st" if "m \<in> outstanding st"
      using False that queue_keeps(3) [OF q keep that, of "pm_id pm"] by (cases terminal) auto
    then show ?thesis using m adv by (auto simp: kept_def advances_def)
  qed
  then show ?thesis using adv by (simp add: res advances_def)
qed (use ok m in \<open>simp add: worker_deliver_def\<close>)

lemma deliver_all_keeps:
  assumes "requireClient (wk_queue w) = Inr client"
    and "streams_keep client (jq_stream_key (wk_queue w)) (jq_group (wk_queue w)) older outstanding"
    and "schema_ok s" "kept outstanding m (s, st)"
    and "\<forall>pm\<in>set pms. pm_id pm = xm_id m \<longrightarrow> pm_job_id pm = job_of m"
  shows "kept outstanding m (deliver_all w tn k pms (s, st))"
  using assms(3-)
proof (induction pms arbitrary: k s st)
  case (Cons pm pms)
  obtain s1 st1 where one: "worker_deliver w tn k pm (s, st) = (s1, st1)" by fastforce
  then have "schema_ok s1" "kept outstanding m (s1, st1)"
    using worker_deliver_keeps [OF assms(1,2) Cons.prems(1,2), of pm tn k] Cons.prems(3) by auto
  then show ?case using Cons.IH [of s1 st1] Cons.prems(3) one by simp
qed simp

lemma publish_all_keeps:
  assumes "requireClient q = Inr client" "streams_keep client (jq_stream_key q) (jq_group q) older outstanding"
  shows "outstanding st \<subseteq> outstanding (publish_all q js st)"
proof (induction js arbitrary: st)
  case (Cons j js)
  have "outstanding st \<subseteq> outstanding (snd (queue_Publish q j st))" by (rule queue_keeps(2) [OF assms])
  then show ?case using Cons.IH [of "snd (queue_Publish q j st)"] by (auto simp: publish_all_def)
qed (simp add: publish_all_def)

text \<open>What one turn does to a message that is outstanding when it begins.\<close>

lemma consume_turn_keeps:
  assumes keep: "requireClient (wk_queue w) = Inr client"
      "streams_keep client (jq_stream_key (wk_queue w)) (jq_group (wk_queue w)) older outstanding"
    and ok: "schema_ok s" "m \<in> outstanding st"
  shows "kept outstanding m (snd (consume_turn w tn backoff (s, st)))"
proof -
  obtain x st1 where read: "queue_Read (wk_queue w) (wk_consumer w) 1 (wk_block_timeout w) st = (x, st1)" by fastforce
  note read' = queue_Read_keeps [OF keep read ok(2)]
  show ?thesis
  proof (cases x)
    case (Inl err)
    then show ?thesis using read read'(1) queue_keeps(1) [OF keep, of st1] by (auto simp: consume_turn_def kept_def)
  next
    case (Inr pms)
    then show ?thesis
      using read deliver_all_keeps [OF keep ok(1) _ read'(2), of st1 pms] read'(1) by (simp add: consume_turn_def kept_def)
  qed
qed

lemma reclaim_turn_keeps:
  assumes keep: "requireClient (wk_queue w) = Inr client"
      "streams_keep client (jq_stream_key (wk_queue w)) (jq_group (wk_queue w)) older outstanding"
    and ok: "schema_ok s" "m \<in> outstanding st"
  shows "kept outstanding m (reclaim_turn w tn (s, st))"
proof -
  obtain y s1 published where rec: "worker_recoverStaleJobs (wk_lease_timeout w) (wk_max_recoveries w) (tn_env tn) (s, [])
    = (y, (s1, published))" by (metis surj_pair)
  have ok1: "schema_ok s1" using worker_recoverStaleJobs_advances [OF rec ok(1)] by (simp add: advances_def)
  let ?st = "publish_all (wk_queue w) published st"
  have m: "m \<in> outstanding ?st" using publish_all_keeps [OF keep] ok(2) by blast
  obtain x st1 where claim: "queue_ClaimStale (wk_queue w) (wk_consumer w) (wk_lease_timeout w) reconciliationBatchSize ?st
    = (x, st1)" by fastforce
  note claim' = queue_ClaimStale_keeps [OF keep claim m]
  show ?thesis
  proof (cases x)
    case (Inl err)
    then show ?thesis using rec claim claim'(1) by (simp add: reclaim_turn_def kept_def)
  next
    case (Inr pms)
    then show ?thesis
      using rec claim deliver_all_keeps [OF keep ok1 _ claim'(2), of st1 pms] claim'(1)
      by (simp add: reclaim_turn_def kept_def)
  qed
qed

text \<open>A trimming that spares a message.\<close>

definition spares :: "(string \<Rightarrow> string \<Rightarrow> bool) \<Rightarrow> x_message \<Rightarrow> 'q worker \<Rightarrow> loop_turn \<Rightarrow> bool" where
  "spares older m w l \<longleftrightarrow> (case l of Trim t \<Rightarrow> \<not> older (xm_id m) (trim_id (t - wk_stream_retention w)) | _ \<Rightarrow> True)"

lemma loop_step_keeps:
  assumes keep: "requireClient (wk_queue w) = Inr client"
      "streams_keep client (jq_stream_key (wk_queue w)) (jq_group (wk_queue w)) older outstanding"
    and ok: "schema_ok s" "kept outstanding m (s, st)" "spares older m w l"
  shows "kept outstanding m (loop_step w l (s, st))"
proof (cases "m \<in> outstanding st")
  case True
  show ?thesis
  proof (cases l)
    case (Consume tn backoff)
    then show ?thesis using consume_turn_keeps [OF keep ok(1) True] by simp
  next
    case (Reclaim tn)
    then show ?thesis using reclaim_turn_keeps [OF keep ok(1) True] by simp
  next
    case (Reconcile tn)
    then show ?thesis
      using publish_all_keeps [OF keep] True by (auto simp: reconcile_turn_def kept_def split: prod.split)
  next
    case Heartbeat
    then show ?thesis
      using streams_keepD(10) [OF keep(2), where st = st and k = workerHeartbeatKey and v = "wk_consumer w"
          and t = "wk_heartbeat_ttl w"] True keep(1)
      by (auto simp: heartbeat_turn_def queue_Heartbeat_def kept_def split: prod.split option.split)
  next
    case (Trim t)
    then show ?thesis
      using streams_keepD(11) [OF keep(2), where st = st and m = m and i = "trim_id (t - wk_stream_retention w)" and c = 1000]
        True keep(1) ok(3)
      by (auto simp: trim_turn_def queue_TrimBefore_def kept_def spares_def split: prod.split option.split)
  qed
next
  case False
  then show ?thesis
    using ok(2) loop_step_advances [OF ok(1), of w l st] by (auto simp: kept_def advances_def)
qed

lemma run_turns_keeps:
  assumes keep: "requireClient q = Inr client" "streams_keep client (jq_stream_key q) (jq_group q) older outstanding"
    and "schema_ok s" "kept outstanding m (s, st)" "list_all (\<lambda>(w, l). wk_queue w = q \<and> spares older m w l) ls"
  shows "kept outstanding m (run_turns ls (s, st))"
  using assms(3-)
proof (induction ls arbitrary: s st)
  case (Cons wl ls)
  obtain w l where wl: "wl = (w, l)" by fastforce
  obtain s1 st1 where one: "loop_step w l (s, st) = (s1, st1)" by fastforce
  have "wk_queue w = q" "spares older m w l" using Cons.prems(3) wl by auto
  then have "kept outstanding m (s1, st1)" "schema_ok s1"
    using loop_step_keeps [of w client older outstanding s m st l] loop_step_advances [OF Cons.prems(1), of w l st]
      keep Cons.prems(1,2) one
    by (auto simp: advances_def)
  then show ?case using Cons.IH [of s1 st1] Cons.prems(3) wl one by simp
qed simp

text \<open>
  C12: The queue delivers at least once. Take a message of the stream that is still to be
  acknowledged, and any turns of the loops of any workers that share the queue. Whichever of
  their calls to Redis or to the database fail and wherever a worker stops, the message is still
  to be acknowledged afterwards, or its job has ended in success or failure, or it names no job;
  only a trimming of the stream may take it away, when it is older than the retention allows. What
  the services publish is such a message, of the job they name.
\<close>

theorem queue_delivers_at_least_once:
  assumes "requireClient q = Inr client" "streams_keep client (jq_stream_key q) (jq_group q) older outstanding"
    and "schema_ok s" "m \<in> outstanding st"
    and "list_all (\<lambda>(w, l). wk_queue w = q \<and> spares older m w l) ls"
  shows "kept outstanding m (run_turns ls (s, st))
    \<and> (- (2 ^ 63) \<le> j \<and> j < 2 ^ 63 \<and> queue_Publish q j st = (Inr i, st') \<longrightarrow>
        (\<exists>x\<in>outstanding st'. xm_id x = i \<and> job_of x = j))"
proof (intro conjI impI)
  show "kept outstanding m (run_turns ls (s, st))"
    by (rule run_turns_keeps [OF assms(1-3) _ assms(5)]) (simp add: kept_def assms(4))
  assume pub: "- (2 ^ 63) \<le> j \<and> j < 2 ^ 63 \<and> queue_Publish q j st = (Inr i, st')"
  then have add: "XAdd client (jq_stream_key q) [''job_id'' \<mapsto> dec_int j] st = (Inr i, st')"
    by (auto simp: queue_Publish_def assms(1) split: prod.splits sum.splits)
  have "job_of \<lparr>xm_id = i, xm_values = [''job_id'' \<mapsto> dec_int j]\<rparr> = j"
    using pub by (simp add: job_of_def job_id_value_def)
  then show "\<exists>x\<in>outstanding st'. xm_id x = i \<and> job_of x = j"
    using streams_keepD(3) [OF assms(2), where vals = "[''job_id'' \<mapsto> dec_int j]" and st = st and i = i] add by force
qed

text \<open>A stream in memory: the entries ever added, and which of them were acknowledged.\<close>

type_synonym memory = "(string \<rightharpoonup> string) option list"

definition memory_messages :: "memory \<Rightarrow> x_message list" where
  "memory_messages st = map (\<lambda>k. \<lparr>xm_id = dec_int (int k), xm_values = the (st ! k)\<rparr>) (filter (\<lambda>k. st ! k \<noteq> None) [0..<length st])"

definition memory_client :: "memory stream_client" where
  "memory_client = \<lparr>XGroupCreateMkStream = (\<lambda>_ _ _ st. (Some ''BUSYGROUP Consumer Group name already exists'', st)),
     XAdd = (\<lambda>_ v st. (Inr (dec_int (int (length st))), st @ [Some v])),
     XReadGroup = (\<lambda>_ _ _ n _ st. (Inr [take (nat n) (memory_messages st)], st)),
     XAutoClaim = (\<lambda>_ _ _ _ n st. (Inr (take (nat n) (memory_messages st)), st)),
     XAck = (\<lambda>_ _ i st. (None, map (\<lambda>k. if dec_int (int k) = i then None else st ! k) [0..<length st])),
     XTrimMinIDApprox = (\<lambda>_ _ _ st. (None, st)), SetKey = (\<lambda>_ _ _ st. (None, st)),
     ExistsKey = (\<lambda>_ _. Inr 1)\<rparr>"

lemma memory_messages_iff:
  "m \<in> set (memory_messages st) \<longleftrightarrow> (\<exists>k<length st. \<exists>v. st ! k = Some v \<and> m = \<lparr>xm_id = dec_int (int k), xm_values = v\<rparr>)"
  by (auto simp: memory_messages_def image_iff)

lemma memory_keeps: "streams_keep memory_client key grp (\<lambda>_ _. False) (\<lambda>st. set (memory_messages st))"
proof -
  have "inj_on xm_id (set (memory_messages st))" for st
    by (auto simp: inj_on_def memory_messages_iff)
  moreover have "set (memory_messages st) \<subseteq> set (memory_messages (st @ [Some v]))" for st v
    by (force simp: memory_messages_iff nth_append)
  moreover have "\<lparr>xm_id = dec_int (int (length st)), xm_values = v\<rparr> \<in> set (memory_messages (st @ [Some v]))" for st v
    by (simp add: memory_messages_iff exI [of _ "length st"])
  moreover have "{m \<in> set (memory_messages st). xm_id m \<noteq> i}
      \<subseteq> set (memory_messages (map (\<lambda>k. if dec_int (int k) = i then None else st ! k) [0..<length st]))" for st i
    by (auto simp: memory_messages_iff)
  moreover have "set (take n (memory_messages st)) \<subseteq> set (memory_messages st)" for n st
    by (rule set_take_subset)
  ultimately show ?thesis
    unfolding streams_keep_def memory_client_def by simp
qed

definition sample_worker :: "memory worker" where
  "sample_worker = \<lparr>wk_queue = \<lparr>jq_client = Some memory_client, jq_stream_key = ''jobs'', jq_group = ''workers''\<rparr>,
     wk_consumer = ''c'', wk_concurrency = 1, wk_block_timeout = 1, wk_reconcile_interval = 1, wk_pending_grace = 1,
     wk_lease_timeout = 1, wk_max_recoveries = 3, wk_stream_retention = 1, wk_heartbeat_interval = 1,
     wk_heartbeat_ttl = 1, wk_shutdown_grace = 1, wk_files = Some ''/up'', wk_cleanup_interval = 1, wk_temp_grace = 10,
     wk_orphan_grace = 10\<rparr>"

definition sample_turn :: turn where
  "sample_turn = \<lparr>tn_env = sample_env, tn_message_env = (\<lambda>_. sample_env), tn_slot = (\<lambda>_. True),
     tn_parser = (\<lambda>_. Inr sample_answer), tn_codec = sample_codec\<rparr>"

theorem queue_delivers_at_least_once_witness:
  "kept (\<lambda>st. set (memory_messages st)) \<lparr>xm_id = ''0'', xm_values = [''job_id'' \<mapsto> ''5'']\<rparr>
     (run_turns [(sample_worker, Reconcile sample_turn), (sample_worker, Consume sample_turn 1000000000)]
       (pending_db, [Some [''job_id'' \<mapsto> ''5'']]))
   \<and> (\<exists>x\<in>set (memory_messages [Some [''job_id'' \<mapsto> ''5''], Some [''job_id'' \<mapsto> dec_int 7]]). xm_id x = ''1'' \<and> job_of x = 7)"
proof -
  let ?q = "wk_queue sample_worker"
  let ?m = "\<lparr>xm_id = ''0'', xm_values = [''job_id'' \<mapsto> ''5'']\<rparr>"
  let ?ls = "[(sample_worker, Reconcile sample_turn), (sample_worker, Consume sample_turn 1000000000)]"
  have one: "dec_int (int 1) = ''1''" "dec_int (int 0) = ''0''"
    by code_simp+
  have client: "requireClient ?q = Inr memory_client"
    by (simp add: requireClient_def sample_worker_def)
  have m: "?m \<in> set (memory_messages [Some [''job_id'' \<mapsto> ''5'']])"
    using one by (simp add: memory_messages_def)
  have ls: "list_all (\<lambda>(w, l). wk_queue w = ?q \<and> spares (\<lambda>_ _. False) ?m w l) ?ls"
    by (simp add: spares_def)
  have pub: "queue_Publish ?q 7 [Some [''job_id'' \<mapsto> ''5'']]
      = (Inr ''1'', [Some [''job_id'' \<mapsto> ''5''], Some [''job_id'' \<mapsto> dec_int 7]])"
    using one by (simp add: queue_Publish_def requireClient_def sample_worker_def memory_client_def)
  note delivers = queue_delivers_at_least_once [where outstanding = "\<lambda>st. set (memory_messages st)" and q = ?q
      and client = memory_client and older = "\<lambda>_ _. False" and s = pending_db and m = ?m
      and st = "[Some [''job_id'' \<mapsto> ''5'']]" and ls = ?ls and j = 7 and i = "''1''",
      OF client memory_keeps schema_ok_pending m ls]
  show ?thesis
  proof (intro conjI)
    show "kept (\<lambda>st. set (memory_messages st)) ?m (run_turns ?ls (pending_db, [Some [''job_id'' \<mapsto> ''5'']]))"
      by (rule delivers [THEN conjunct1])
    show "\<exists>x\<in>set (memory_messages [Some [''job_id'' \<mapsto> ''5''], Some [''job_id'' \<mapsto> dec_int 7]]). xm_id x = ''1'' \<and> job_of x = 7"
      by (rule delivers [THEN conjunct2, rule_format]) (use pub in simp)
  qed
qed

end
