(* ===== verification/UploadCleanup.thy ===== *)
theory UploadCleanup
  imports ParseQueue DocumentService
begin

text \<open>
  \<open>cleanupUploads\<close> of \<open>internal/worker/parsejob/worker.go\<close>: the documents in the database
  and the files under the upload root, compared by the worker. A query of \<open>gorm\<close> leaves out
  the rows marked deleted.
\<close>

definition cleanup_query :: "document \<Rightarrow> bool" where
  "cleanup_query d \<longleftrightarrow> doc_source_type d = ''pdf'' \<and> doc_file_url d \<noteq> None \<and> doc_deleted_at d = None"

definition referenced_keys :: "document list \<Rightarrow> string set" where
  "referenced_keys ds = set (concat (map
     (\<lambda>d. case doc_file_url d of None \<Rightarrow> [] | Some k \<Rightarrow> if k \<noteq> [] then [k] else []) ds))"

definition worker_cleanupUploads ::
  "'q worker \<Rightarrow> env \<Rightarrow> db \<times> file_tree \<Rightarrow> cleanup_stats option \<times> file_tree" where
  "worker_cleanupUploads w e sf =
     (case sf of (s, fs) \<Rightarrow>
      (case wk_files w of
         None \<Rightarrow> (None, fs)
       | Some root \<Rightarrow>
           (case sql e ''load referenced PDF files'' 0 (Inr (filter cleanup_query (documents s))) of
              Inl x \<Rightarrow> (None, fs)
            | Inr ds \<Rightarrow>
                (case Cleanup (local_list e root) (local_del e root) (referenced_keys ds) (now e)
                        (wk_temp_grace w) (wk_orphan_grace w) fs of
                   (stats, errs, fs') \<Rightarrow> (Some stats, fs')))))"

lemma referenced_keys_iff:
  "k \<noteq> [] \<Longrightarrow> k \<in> referenced_keys (filter cleanup_query ds) \<longleftrightarrow>
     (\<exists>d\<in>set ds. doc_source_type d = ''pdf'' \<and> doc_file_url d = Some k \<and> doc_deleted_at d = None)"
  by (auto simp: referenced_keys_def cleanup_query_def split: option.splits if_splits)

text \<open>A file the worker may delete: old enough, and not that of a document.\<close>

definition unused_file :: "'q worker \<Rightarrow> env \<Rightarrow> db \<Rightarrow> string \<Rightarrow> stored_file \<Rightarrow> bool" where
  "unused_file w e s k g \<longleftrightarrow>
     under_prefix ''.tmp'' k \<and> wk_temp_grace w \<le> now e - sf_mod_time g
     \<or> under_prefix ''documents'' k \<and> wk_orphan_grace w \<le> now e - sf_mod_time g
       \<and> \<not> (\<exists>d\<in>set (documents s). doc_source_type d = ''pdf'' \<and> doc_file_url d = Some k \<and> doc_deleted_at d = None)"

lemma worker_cleanupUploads_exact:
  assumes "wk_files w = Some root" "tree_ok root fs"
    and "worker_cleanupUploads w e (s, fs) = (stats, fs')"
  shows "tree_ok root fs'
    \<and> (tree_files root fs' k = tree_files root fs k
       \<or> tree_files root fs' k = None \<and> (\<exists>g. tree_files root fs k = Some g \<and> unused_file w e s k g))
    \<and> (case stats of
         None \<Rightarrow> fs' = fs
       | Some c \<Rightarrow> cs_failed c = 0 \<longrightarrow> tree_files root fs' k =
           (case tree_files root fs k of None \<Rightarrow> None | Some g \<Rightarrow> if unused_file w e s k g then None else Some g))"
proof (cases "fault e ''load referenced PDF files'' 0")
  case True
  then show ?thesis using assms by (auto simp: worker_cleanupUploads_def sql_def)
next
  case False
  let ?ref = "referenced_keys (filter cleanup_query (documents s))"
  obtain c errs fs1 where run: "Cleanup (local_list e root) (local_del e root) ?ref (now e)
      (wk_temp_grace w) (wk_orphan_grace w) fs = (c, errs, fs1)"
    by (metis prod_cases3)
  have res: "stats = Some c" "fs' = fs1" using assms(1,3) False run by (auto simp: worker_cleanupUploads_def sql_def)
  note exact = Cleanup_exact [OF assms(2) run, of k]
  have "expired ?ref (now e) (wk_temp_grace w) (wk_orphan_grace w) k g \<longleftrightarrow> unused_file w e s k g"
    if "tree_files root fs k = Some g" for g
  proof -
    have "k \<noteq> []" using that by (auto simp: tree_files_def split: if_splits)
    then show ?thesis by (simp add: expired_def unused_file_def referenced_keys_iff)
  qed
  then show ?thesis using exact res by (auto split: option.splits)
qed

text \<open>
  C31: The worker's clean-up never takes the file of a document. Whatever calls fail, a file
  that is gone afterwards was a temporary one older than its grace period, or a document file
  older than its own that no PDF document left in the database refers to; without the list of
  documents nothing is deleted; and a clean-up that counts no failure has deleted all of them.
\<close>

theorem cleanup_spares_documents:
  assumes "wk_files w = Some root" "tree_ok root fs"
    and "worker_cleanupUploads w e (s, fs) = (stats, fs')"
  shows "tree_ok root fs'
    \<and> (tree_files root fs' k = tree_files root fs k
       \<or> tree_files root fs' k = None \<and> (\<exists>g. tree_files root fs k = Some g \<and> unused_file w e s k g))
    \<and> (case stats of
         None \<Rightarrow> fs' = fs
       | Some c \<Rightarrow> cs_failed c = 0 \<longrightarrow> tree_files root fs' k =
           (case tree_files root fs k of None \<Rightarrow> None | Some g \<Rightarrow> if unused_file w e s k g then None else Some g))"
  by (rule worker_cleanupUploads_exact [OF assms])

text \<open>A tree with the file of a stored document and one nobody refers to.\<close>

definition stored_pdf_db :: db where
  "stored_pdf_db = sample_db\<lparr>documents :=
     [sample_document 1, (sample_document 2)\<lparr>doc_source_type := ''pdf'', doc_file_name := Some ''t'', doc_file_url := Some ''documents/1/b''\<rparr>]\<rparr>"

theorem cleanup_spares_documents_witness:
  "tree_files ''/up'' (snd (worker_cleanupUploads sample_worker no_fault_env (stored_pdf_db, sample_tree))) ''documents/1/b''
     = Some \<lparr>sf_data = ''y'', sf_mod_time = 0\<rparr>"
proof -
  obtain stats fs' where run: "worker_cleanupUploads sample_worker no_fault_env (stored_pdf_db, sample_tree) = (stats, fs')"
    by fastforce
  have "tree_files ''/up'' sample_tree ''documents/1/b'' = Some \<lparr>sf_data = ''y'', sf_mod_time = 0\<rparr>"
    by (simp add: tree_files_def canonical_key_def normal_element_def key_path_def sample_tree_elements sample_tree_def)
  moreover have "\<not> under_prefix ''.tmp'' ''documents/1/b''"
    by (simp add: under_prefix_def clean_elements_def clean_step.simps)
  moreover have "doc_deleted_at (sample_document 2) = None" by (simp add: sample_document_def)
  ultimately show ?thesis
    using cleanup_spares_documents [OF _ tree_ok_sample run, of "''documents/1/b''"] run
    by (auto simp: sample_worker_def unused_file_def stored_pdf_db_def)
qed

end
