(* ===== verification/Processes.thy ===== *)
theory Processes
  imports Wiring UploadCleanup
begin

text \<open>
  The two processes. \<open>cmd/worker\<close>: from the configuration to a worker, and \<open>Run\<close>, which
  starts the loops side by side and stops them when a signal arrives, as the step relation
  \<open>run_step\<close> over the state of the whole server. \<open>cmd/api\<close>: how serving ends. And what both
  share, the wait for Redis and \<open>Close\<close> of the service context.
\<close>

section \<open>Starting and closing\<close>

text \<open>
  \<open>waitUntilRedisReady\<close> and \<open>NewPostgres\<close> try again until an attempt succeeds or, after one that
  failed, the deadline has passed. What the \<open>k\<close>-th attempt answers and the clock after it are
  parameters; the value is the error of the last attempt, or \<open>Some None\<close> for success.
\<close>

definition redisPingInterval :: int where
  "redisPingInterval = 2000000000"

definition redisPingTimeout :: int where
  "redisPingTimeout = 60000000000"

definition connectRetryInterval :: int where
  "connectRetryInterval = 2000000000"

definition connectRetryTimeout :: int where
  "connectRetryTimeout = 120000000000"

partial_function (option) retry_loop ::
  "(nat \<Rightarrow> string option) \<Rightarrow> (nat \<Rightarrow> int) \<Rightarrow> int \<Rightarrow> nat \<Rightarrow> string option option" where
  "retry_loop attempt clock deadline k =
     (if attempt k = None then Some None
      else if deadline < clock k then Some (attempt k)
      else retry_loop attempt clock deadline (Suc k))"

definition waitUntilRedisReady :: "(nat \<Rightarrow> string option) \<Rightarrow> (nat \<Rightarrow> int) \<Rightarrow> int \<Rightarrow> string option option" where
  "waitUntilRedisReady ping clock t = retry_loop ping clock (t + redisPingTimeout) 0"

definition NewPostgres :: "string \<Rightarrow> (nat \<Rightarrow> string option) \<Rightarrow> (nat \<Rightarrow> int) \<Rightarrow> int \<Rightarrow> string option option" where
  "NewPostgres dsn open_db clock t =
     (if dsn = [] then Some (Some ''postgres data source is required'')
      else map_option (map_option ((@) ''open postgres: ''))
             (retry_loop open_db clock (t + connectRetryTimeout) 0))"

text \<open>\<open>Close\<close>, from what closing the client, asking for the pool and closing the pool answer.\<close>

definition context_Close ::
  "service_context \<Rightarrow> string option \<Rightarrow> string option \<Rightarrow> string option \<Rightarrow> string list" where
  "context_Close sc client_err get_err pool_err =
     (if svc_redis sc then (case client_err of None \<Rightarrow> [] | Some err \<Rightarrow> [''close redis client: '' @ err]) else [])
     @ (if svc_db sc
        then (case get_err of
                Some err \<Rightarrow> [''get postgres connection pool: '' @ err]
              | None \<Rightarrow> (case pool_err of None \<Rightarrow> [] | Some err \<Rightarrow> [''close postgres connection pool: '' @ err]))
        else [])"

section \<open>How serving ends\<close>

datatype serve_outcome = ServerClosed | ServeFailed string

text \<open>
  Either the server stops by itself, or a signal arrives; then \<open>Shutdown\<close> answers, \<open>Close\<close> if
  that failed, and the goroutine of \<open>ListenAndServe\<close>.
\<close>

datatype serve_end =
    Stopped serve_outcome
  | Signalled "string option" "string option" serve_outcome

definition serve_errors :: "serve_end \<Rightarrow> string list" where
  "serve_errors ev =
     (case ev of
        Stopped ServerClosed \<Rightarrow> []
      | Stopped (ServeFailed err) \<Rightarrow> [''listen and serve: '' @ err]
      | Signalled (Some err) close_err _ \<Rightarrow>
          (''shutdown server: '' @ err) # (case close_err of None \<Rightarrow> [] | Some x \<Rightarrow> [x])
      | Signalled None _ ServerClosed \<Rightarrow> []
      | Signalled None _ (ServeFailed err) \<Rightarrow> [''stop server: '' @ err])"

section \<open>The worker process\<close>

definition worker_process ::
  "startup \<Rightarrow> (string \<rightharpoonup> string) \<Rightarrow> string + config \<Rightarrow> 'q stream_client \<Rightarrow> string \<Rightarrow> string + ai_client \<times> 'q worker" where
  "worker_process st env parsed client consumer =
     (case Load env parsed of
        Inl err \<Rightarrow> Inl (''load config: '' @ err)
      | Inr c \<Rightarrow>
          (case NewResponsesParser (st_valid_uri st) (ais_base_url (cfg_ai c)) (ais_api_key (cfg_ai c))
                  (ais_model (cfg_ai c)) (seconds (ais_request_timeout (cfg_ai c))) (ais_max_output_tokens (cfg_ai c)) of
             Inl err \<Rightarrow> Inl (''initialize AI parser: '' @ err)
           | Inr parser \<Rightarrow>
               let sc = NewServiceContext st c;
                   queue = (if svc_redis sc
                            then Some \<lparr>jq_client = Some client, jq_stream_key = ws_stream_key (cfg_worker c),
                                       jq_group = ws_consumer_group (cfg_worker c)\<rparr>
                            else None) in
               (case worker_New (svc_db sc) queue True (svc_files sc) consumer (svc_config sc) of
                  Inl err \<Rightarrow> Inl (''initialize parse worker: '' @ err)
                | Inr w \<Rightarrow> Inr (parser, w))))"

section \<open>Run\<close>

datatype loop = ConsumeLoop | ReclaimLoop | ReconcileLoop | HeartbeatLoop | TrimLoop | CleanupLoop

definition started_loops :: "'q worker \<Rightarrow> loop list" where
  "started_loops w = replicate (nat (wk_concurrency w)) ConsumeLoop
     @ [ReclaimLoop, ReconcileLoop, HeartbeatLoop, TrimLoop, CleanupLoop]"

fun loop_of :: "loop_turn \<Rightarrow> loop" where
  "loop_of (Consume tn backoff) = ConsumeLoop"
| "loop_of (Reclaim tn) = ReclaimLoop"
| "loop_of (Reconcile tn) = ReconcileLoop"
| "loop_of Heartbeat = HeartbeatLoop"
| "loop_of (Trim t) = TrimLoop"

text \<open>How times are printed is the same for all turns.\<close>

fun prints_with :: "time_codec \<Rightarrow> loop_turn \<Rightarrow> bool" where
  "prints_with c (Consume tn backoff) \<longleftrightarrow> tn_codec tn = c"
| "prints_with c (Reclaim tn) \<longleftrightarrow> tn_codec tn = c"
| "prints_with c l \<longleftrightarrow> True"

text \<open>The ids a turn publishes.\<close>

fun loop_published :: "'q worker \<Rightarrow> loop_turn \<Rightarrow> db \<Rightarrow> int list" where
  "loop_published w (Reclaim tn) s =
     snd (snd (worker_recoverStaleJobs (wk_lease_timeout w) (wk_max_recoveries w) (tn_env tn) (s, [])))"
| "loop_published w (Reconcile tn) s = snd (snd (worker_reconcilePendingJobs (wk_pending_grace w) (tn_env tn) (s, [])))"
| "loop_published w l s = []"

datatype run_phase = Ensuring | Running | Stopping int | Returned "string option"

record 'q run =
  rn_phase :: run_phase
  rn_loops :: "loop list"
  rn_signalled :: bool
  rn_deadline :: "int option"
  rn_clock :: int
  rn_app :: app
  rn_redis :: 'q

definition run_init :: "app \<Rightarrow> 'q \<Rightarrow> int \<Rightarrow> 'q run" where
  "run_init a st t = \<lparr>rn_phase = Ensuring, rn_loops = [], rn_signalled = False, rn_deadline = None, rn_clock = t,
     rn_app = a, rn_redis = st\<rparr>"

text \<open>
  A step of a worker amid everything else: it creates its group or waits to try again, a loop
  takes a turn or ends, the signal arrives, time passes, \<open>Run\<close> notices the signal and returns
  when its loops have ended or the grace period is over; or the rest of the server moves.
\<close>

inductive run_step :: "auth_lib \<Rightarrow> time_codec \<Rightarrow> 'q worker \<Rightarrow> 'q run \<Rightarrow> 'q run \<Rightarrow> bool" for lib c w where
  ensured: "rn_phase r = Ensuring \<Longrightarrow> queue_EnsureGroup (wk_queue w) (rn_redis r) = (None, st') \<Longrightarrow>
    run_step lib c w r (r\<lparr>rn_phase := Running, rn_loops := started_loops w, rn_redis := st'\<rparr>)"
| not_ensured: "rn_phase r = Ensuring \<Longrightarrow> queue_EnsureGroup (wk_queue w) (rn_redis r) = (Some err, st') \<Longrightarrow>
    run_step lib c w r (r\<lparr>rn_redis := st'\<rparr>)"
| gave_up: "rn_phase r = Ensuring \<Longrightarrow> rn_signalled r \<Longrightarrow>
    queue_EnsureGroup (wk_queue w) (rn_redis r) = (Some err, st') \<Longrightarrow>
    run_step lib c w r (r\<lparr>rn_phase := Returned (Some ''context canceled''), rn_redis := st'\<rparr>)"
| take_turn: "loop_of l \<in> set (rn_loops r) \<Longrightarrow> prints_with c l \<Longrightarrow>
    loop_step w l (app_db (rn_app r), rn_redis r) = (s', st') \<Longrightarrow>
    run_step lib c w r (r\<lparr>rn_redis := st', rn_app := (rn_app r)\<lparr>app_db := s',
      app_stream := app_stream (rn_app r) @ loop_published w l (app_db (rn_app r))\<rparr>\<rparr>)"
| clean: "CleanupLoop \<in> set (rn_loops r) \<Longrightarrow>
    worker_cleanupUploads w e (app_db (rn_app r), app_files (rn_app r)) = (stats, fs') \<Longrightarrow>
    run_step lib c w r (r\<lparr>rn_app := (rn_app r)\<lparr>app_files := fs'\<rparr>\<rparr>)"
| end_loop: "k \<in> set (rn_loops r) \<Longrightarrow> rn_signalled r \<or> k = CleanupLoop \<and> wk_files w = None \<Longrightarrow>
    run_step lib c w r (r\<lparr>rn_loops := remove1 k (rn_loops r)\<rparr>)"
| signal: "run_step lib c w r (r\<lparr>rn_signalled := True\<rparr>)"
| pass_time: "rn_clock r \<le> t \<Longrightarrow> run_step lib c w r (r\<lparr>rn_clock := t\<rparr>)"
| notice: "rn_phase r = Running \<Longrightarrow> rn_signalled r \<Longrightarrow> d = rn_clock r + wk_shutdown_grace w \<Longrightarrow>
    run_step lib c w r (r\<lparr>rn_phase := Stopping d, rn_deadline := Some d\<rparr>)"
| all_ended: "rn_phase r = Stopping d \<Longrightarrow> rn_loops r = [] \<Longrightarrow> run_step lib c w r (r\<lparr>rn_phase := Returned None\<rparr>)"
| timed_out: "rn_phase r = Stopping d \<Longrightarrow> d \<le> rn_clock r \<Longrightarrow> run_step lib c w r (r\<lparr>rn_phase := Returned None\<rparr>)"
| others: "app_step lib c (rn_app r) a' \<Longrightarrow> run_step lib c w r (r\<lparr>rn_app := a', rn_redis := st'\<rparr>)"

section \<open>The waits end\<close>

text \<open>
  A loop whose rounds take at least \<open>pause\<close> ends, with the first attempt that succeeds or the
  first that fails after the deadline.
\<close>

lemma retry_loop_ends:
  assumes "\<And>k. clock k + pause \<le> clock (Suc k)" "0 < pause"
  shows "\<exists>n\<ge>k. (\<forall>i. k \<le> i \<longrightarrow> i < n \<longrightarrow> attempt i \<noteq> None \<and> clock i \<le> deadline)
    \<and> (attempt n = None \<or> deadline < clock n) \<and> retry_loop attempt clock deadline k = Some (attempt n)"
proof (induction "nat (deadline + 1 - clock k)" arbitrary: k rule: less_induct)
  case less
  show ?case
  proof (cases "attempt k = None \<or> deadline < clock k")
    case True
    then have "retry_loop attempt clock deadline k = Some (attempt k)" by (subst retry_loop.simps) auto
    then show ?thesis using True by (intro exI [of _ k]) auto
  next
    case False
    then have "nat (deadline + 1 - clock (Suc k)) < nat (deadline + 1 - clock k)"
      using assms(1) [of k] assms(2) by simp
    from less [OF this] obtain n where n: "Suc k \<le> n"
      "\<forall>i. Suc k \<le> i \<longrightarrow> i < n \<longrightarrow> attempt i \<noteq> None \<and> clock i \<le> deadline"
      "attempt n = None \<or> deadline < clock n" "retry_loop attempt clock deadline (Suc k) = Some (attempt n)" by blast
    have "attempt i \<noteq> None \<and> clock i \<le> deadline" if "k \<le> i" "i < n" for i
      using that n(2) False by (cases "i = k") auto
    moreover have "retry_loop attempt clock deadline k = Some (attempt n)"
      using False n(4) by (subst retry_loop.simps) auto
    ultimately show ?thesis using n by (intro exI [of _ n]) simp
  qed
qed

lemma waitUntilRedisReady_ends:
  assumes "\<And>k. clock k + redisPingInterval \<le> clock (Suc k)"
  shows "\<exists>n. waitUntilRedisReady ping clock t = Some (ping n)
    \<and> (ping n = None \<or> t + redisPingTimeout < clock n)"
  using retry_loop_ends [where clock = clock and pause = redisPingInterval and k = 0 and attempt = ping
      and deadline = "t + redisPingTimeout", OF assms]
  by (auto simp: waitUntilRedisReady_def redisPingInterval_def)

lemma NewPostgres_ends:
  assumes "\<And>k. clock k + connectRetryInterval \<le> clock (Suc k)" "dsn \<noteq> []"
  shows "\<exists>n. NewPostgres dsn open_db clock t = Some (map_option ((@) ''open postgres: '') (open_db n))
    \<and> (open_db n = None \<or> t + connectRetryTimeout < clock n)"
proof -
  obtain n where "open_db n = None \<or> t + connectRetryTimeout < clock n"
    "retry_loop open_db clock (t + connectRetryTimeout) 0 = Some (open_db n)"
    using retry_loop_ends [where clock = clock and pause = connectRetryInterval and k = 0 and attempt = open_db
        and deadline = "t + connectRetryTimeout", OF assms(1)]
    by (auto simp: connectRetryInterval_def)
  then show ?thesis using assms(2) by (intro exI [of _ n]) (simp add: NewPostgres_def)
qed

section \<open>A run of the worker is a run of the server\<close>

lemma recover_one_append:
  "recover_one e mx cutoff k j (s, q) = (x, (s', q')) \<Longrightarrow> recover_one e mx cutoff k j (s, p @ q) = (x, (s', p @ q'))"
  by (auto simp: recover_one_def job_publish_def simp del: sql_Inr split: if_splits sum.splits prod.splits)

lemma recover_loop_append:
  "recover_loop e mx cutoff k js (s, q) = (x, (s', q')) \<Longrightarrow>
     recover_loop e mx cutoff k js (s, p @ q) = (x, (s', p @ q'))"
proof (induction js arbitrary: k s q)
  case (Cons j js)
  obtain y s1 q1 where one: "recover_one e mx cutoff k j (s, q) = (y, (s1, q1))"
    by (cases "recover_one e mx cutoff k j (s, q)") auto
  then show ?case using Cons recover_one_append [OF one, of p] by (cases y) auto
qed simp

lemma reconcile_one_append:
  "reconcile_one e cutoff k j (s, q) = (x, (s', q')) \<Longrightarrow> reconcile_one e cutoff k j (s, p @ q) = (x, (s', p @ q'))"
  by (auto simp: reconcile_one_def job_publish_def Let_def simp del: sql_Inr split: if_splits sum.splits prod.splits)

lemma reconcile_loop_append:
  "reconcile_loop e cutoff k js (s, q) = (x, (s', q')) \<Longrightarrow>
     reconcile_loop e cutoff k js (s, p @ q) = (x, (s', p @ q'))"
proof (induction js arbitrary: k s q)
  case (Cons j js)
  obtain y s1 q1 where one: "reconcile_one e cutoff k j (s, q) = (y, (s1, q1))"
    by (cases "reconcile_one e cutoff k j (s, q)") auto
  then show ?case using Cons reconcile_one_append [OF one, of p] by (cases y) auto
qed simp

lemma repairs_append:
  "worker_recoverStaleJobs lt mx e (s, []) = (x, (s', q)) \<Longrightarrow> worker_recoverStaleJobs lt mx e (s, p) = (x, (s', p @ q))"
  "worker_reconcilePendingJobs gr e (s, []) = (x, (s', q)) \<Longrightarrow>
     worker_reconcilePendingJobs gr e (s, p) = (x, (s', p @ q))"
  using recover_loop_append [where q = "[]" and p = p] reconcile_loop_append [where q = "[]" and p = p]
  by (auto simp: worker_recoverStaleJobs_def worker_reconcilePendingJobs_def Let_def simp del: sql_Inr split: sum.splits)

lemma worker_deliver_steps:
  assumes "tn_codec tn = c" "worker_deliver w tn k m (app_db a, st) = (s', st')"
  shows "app_steps lib c a (a\<lparr>app_db := s'\<rparr>)"
proof (cases "tn_slot tn k \<and> 0 < pm_job_id m")
  case True
  obtain x s1 where run: "worker_processJob c (tn_parser tn) (tn_message_env tn k) (pm_job_id m) (app_db a) = (x, s1)"
    by fastforce
  then have "s' = s1"
    using assms True by (auto simp: worker_deliver_def worker_handleMessage_def split: prod.splits)
  then show ?thesis using worker_processJob_steps [OF run] by simp
next
  case False
  then show ?thesis using assms by (auto simp: worker_deliver_def worker_handleMessage_def not_less split: if_splits)
qed

lemma deliver_all_steps:
  "tn_codec tn = c \<Longrightarrow> deliver_all w tn k ms (app_db a, st) = (s', st') \<Longrightarrow> app_steps lib c a (a\<lparr>app_db := s'\<rparr>)"
proof (induction ms arbitrary: k a st)
  case (Cons m ms)
  obtain s1 st1 where one: "worker_deliver w tn k m (app_db a, st) = (s1, st1)" by fastforce
  have "app_steps lib c a (a\<lparr>app_db := s1\<rparr>)" by (rule worker_deliver_steps [OF Cons.prems(1) one])
  moreover have "app_steps lib c (a\<lparr>app_db := s1\<rparr>) (a\<lparr>app_db := s'\<rparr>)"
    using Cons.IH [of "Suc k" "a\<lparr>app_db := s1\<rparr>" st1] Cons.prems one by simp
  ultimately show ?case by (rule rtranclp_trans)
qed auto

lemma loop_steps:
  assumes "prints_with c l" "loop_step w l (app_db a, st) = (s', st')"
  shows "app_steps lib c a (a\<lparr>app_db := s', app_stream := app_stream a @ loop_published w l (app_db a)\<rparr>)"
proof (cases l)
  case (Consume tn backoff)
  obtain x st1 where read: "queue_Read (wk_queue w) (wk_consumer w) 1 (wk_block_timeout w) st = (x, st1)" by fastforce
  show ?thesis
  proof (cases x)
    case (Inl err)
    then show ?thesis using assms Consume read by (auto simp: consume_turn_def)
  next
    case (Inr ms)
    then have "deliver_all w tn 0 ms (app_db a, st1) = (s', st')" using assms Consume read by (simp add: consume_turn_def)
    then show ?thesis using deliver_all_steps [of tn c] assms(1) Consume by simp
  qed
next
  case (Reclaim tn)
  obtain y s1 published where rec: "worker_recoverStaleJobs (wk_lease_timeout w) (wk_max_recoveries w) (tn_env tn)
      (app_db a, []) = (y, (s1, published))" by (metis surj_pair)
  let ?a = "a\<lparr>app_db := s1, app_stream := app_stream a @ published\<rparr>"
  have one: "app_steps lib c a ?a" by (rule worker_recoverStaleJobs_steps [OF repairs_append(1) [OF rec]])
  obtain x st1 where claim: "queue_ClaimStale (wk_queue w) (wk_consumer w) (wk_lease_timeout w) reconciliationBatchSize
      (publish_all (wk_queue w) published st) = (x, st1)" by fastforce
  have "app_steps lib c ?a (?a\<lparr>app_db := s'\<rparr>)"
  proof (cases x)
    case (Inl err)
    then have "?a\<lparr>app_db := s'\<rparr> = ?a"
      using assms(2) Reclaim rec claim by (intro app.equality) (simp_all add: reclaim_turn_def)
    then show ?thesis by simp
  next
    case (Inr ms)
    then have "deliver_all w tn 0 ms (app_db ?a, st1) = (s', st')"
      using assms Reclaim rec claim by (simp add: reclaim_turn_def)
    then show ?thesis using deliver_all_steps [of tn c w 0 ms ?a st1 s' st'] assms(1) Reclaim by simp
  qed
  with one have "app_steps lib c a (?a\<lparr>app_db := s'\<rparr>)" by (rule rtranclp_trans)
  moreover have "?a\<lparr>app_db := s'\<rparr> = a\<lparr>app_db := s', app_stream := app_stream a @ published\<rparr>"
    by (rule app.equality) simp_all
  ultimately show ?thesis using Reclaim rec by simp
next
  case (Reconcile tn)
  obtain y s1 published where rec: "worker_reconcilePendingJobs (wk_pending_grace w) (tn_env tn) (app_db a, [])
    = (y, (s1, published))" by (metis surj_pair)
  then show ?thesis
    using assms Reconcile worker_reconcilePendingJobs_steps [OF repairs_append(2) [OF rec]]
    by (auto simp: reconcile_turn_def)
qed (use assms in auto)

lemma worker_cleanupUploads_steps:
  assumes "worker_cleanupUploads w e (s, app_files a) = (stats, fs')"
  shows "app_steps lib c a (a\<lparr>app_files := fs'\<rparr>)"
proof (cases "stats")
  case None
  then have "fs' = app_files a"
    using assms by (auto simp: worker_cleanupUploads_def simp del: sql_Inr split: option.splits sum.splits prod.splits)
  then show ?thesis by simp
next
  case (Some x)
  then obtain root ds errs where "Cleanup (local_list e root) (local_del e root) (referenced_keys ds) (now e)
      (wk_temp_grace w) (wk_orphan_grace w) (app_files a) = (x, errs, fs')"
    using assms by (auto simp: worker_cleanupUploads_def simp del: sql_Inr split: option.splits sum.splits prod.splits)
  then show ?thesis using app_step.clean_up by blast
qed

text \<open>What holds of the phases of a run.\<close>

definition run_shape :: "'q worker \<Rightarrow> int \<Rightarrow> 'q run \<Rightarrow> bool" where
  "run_shape w t r \<longleftrightarrow> t \<le> rn_clock r \<and>
     count_list (rn_loops r) ConsumeLoop \<le> nat (wk_concurrency w)
     \<and> (\<forall>d. rn_deadline r = Some d \<longrightarrow> rn_signalled r \<and> t + wk_shutdown_grace w \<le> d)
     \<and> (case rn_phase r of
          Ensuring \<Rightarrow> rn_loops r = [] \<and> rn_deadline r = None
        | Running \<Rightarrow> rn_deadline r = None
        | Stopping d \<Rightarrow> rn_deadline r = Some d
        | Returned None \<Rightarrow> (\<exists>d. rn_deadline r = Some d \<and> (rn_loops r = [] \<or> d \<le> rn_clock r))
        | Returned (Some err) \<Rightarrow> rn_signalled r \<and> rn_loops r = [])"

lemma count_list_remove1_le: "count_list (remove1 k xs) x \<le> count_list xs x"
  by (induction xs) auto

lemma count_list_replicate: "count_list (replicate n x) y = (if x = y then n else 0)"
  by (induction n) auto

lemma remove1_Nil_iff: "k \<in> set xs \<Longrightarrow> xs \<noteq> []"
  by auto

lemma run_step_shape: "run_step lib c w r r' \<Longrightarrow> run_shape w t r \<Longrightarrow> run_shape w t r'"
proof (induction rule: run_step.induct)
  case (end_loop k r)
  then show ?case using count_list_remove1_le [of k "rn_loops r" ConsumeLoop]
    by (auto simp: run_shape_def split: run_phase.splits option.splits)
qed (auto simp: run_shape_def started_loops_def count_list_replicate split: run_phase.splits option.splits)

lemma run_step_steps:
  assumes "run_step lib c w r r'"
  shows "app_steps lib c (rn_app r) (rn_app r')"
  using assms
proof cases
  case (take_turn l s' st')
  then show ?thesis using loop_steps [OF take_turn(3,4)] by simp
next
  case (clean e stats fs')
  then show ?thesis using worker_cleanupUploads_steps [OF clean(3)] by simp
qed (auto intro: r_into_rtranclp)

text \<open>
  C35: A worker process runs as part of the server and stops in order. Whatever its loops, the
  signals, the clock and the rest of the server do, and in whichever order, the state of the
  server is always one that single steps of the transition system lead to, so all that holds of
  reachable states holds while workers run. Never more consumers run than the configured number.
  \<open>Run\<close> returns only after a signal: with an error only if the consumer group was never there and
  no loop was started, and otherwise when all loops have ended or the grace period is over.
\<close>

theorem worker_run_refines_steps:
  assumes "(run_step lib c w)\<^sup>*\<^sup>* (run_init a st t) r"
  shows "app_steps lib c a (rn_app r)
    \<and> count_list (rn_loops r) ConsumeLoop \<le> nat (wk_concurrency w)
    \<and> (case rn_phase r of
         Returned None \<Rightarrow> rn_signalled r
           \<and> (\<exists>d\<ge>t + wk_shutdown_grace w. rn_deadline r = Some d \<and> (rn_loops r = [] \<or> d \<le> rn_clock r))
       | Returned (Some err) \<Rightarrow> rn_signalled r \<and> rn_loops r = []
       | _ \<Rightarrow> True)"
proof -
  have "app_steps lib c a (rn_app r) \<and> run_shape w t r"
    using assms
  proof induction
    case base
    then show ?case by (simp add: run_init_def run_shape_def)
  next
    case (step r r')
    then show ?case using run_step_steps [OF step(2)] run_step_shape [OF step(2)] by (meson rtranclp_trans)
  qed
  then show ?thesis by (auto simp: run_shape_def split: run_phase.splits option.splits)
qed

section \<open>What a started worker relies on\<close>

text \<open>Seconds whose nanoseconds fit into 64 bits, and what becomes of the others.\<close>

definition fits :: "int \<Rightarrow> bool" where
  "fits x \<longleftrightarrow> x \<le> 9223372036"

lemma seconds_pos: "0 < x \<Longrightarrow> fits x \<Longrightarrow> int64_wrap (x * 1000000000) = x * 1000000000"
  by (simp add: fits_def)

definition worker_settings_fit :: "worker_settings \<Rightarrow> bool" where
  "worker_settings_fit s \<longleftrightarrow> list_all fits [ws_block_timeout s, ws_reconcile_interval s, ws_pending_grace s,
     ws_lease_timeout s, ws_stream_retention s, ws_heartbeat_interval s, ws_heartbeat_ttl s, ws_shutdown_grace s]"

lemma duration_or_pos: "0 < d \<Longrightarrow> 0 < duration_or x d"
  by (simp add: duration_or_def Let_def)

text \<open>
  C36: A worker that starts has settings its loops can run with. If the process starts, the file
  and the environment gave a configuration within its limits, there is a queue with a client, a
  stream and a group, between one and sixteen consumers are configured, a stale job is handed out
  again at least once, and the intervals of the clean-up are positive. If no setting exceeds the
  seconds that 64 bits hold in nanoseconds, every interval is positive and the heartbeat is
  renewed before it expires; without that a setting may turn into a negative interval.
\<close>

theorem started_worker_within:
  assumes "worker_process st env parsed client consumer = Inr (parser, w)"
  shows "\<exists>c. Load env parsed = Inr c \<and> within_limits c
    \<and> requireClient (wk_queue w) = Inr client \<and> 1 \<le> wk_concurrency w \<and> wk_concurrency w \<le> 16
    \<and> 0 < wk_max_recoveries w \<and> 0 < wk_cleanup_interval w \<and> 0 < wk_temp_grace w \<and> 0 < wk_orphan_grace w
    \<and> (worker_settings_fit (cfg_worker c) \<longrightarrow>
         0 < wk_block_timeout w \<and> 0 < wk_reconcile_interval w \<and> 0 < wk_pending_grace w \<and> 0 < wk_lease_timeout w
         \<and> 0 < wk_stream_retention w \<and> 0 < wk_shutdown_grace w
         \<and> 0 < wk_heartbeat_interval w \<and> wk_heartbeat_interval w < wk_heartbeat_ttl w)
    \<and> (ws_reconcile_interval (cfg_worker c) = 9223372037 \<longrightarrow> wk_reconcile_interval w < 0)"
proof -
  obtain c where c: "Load env parsed = Inr c" using assms by (auto simp: worker_process_def split: sum.splits)
  have lim: "within_limits c" by (rule Load_Inr(1) [OF c])
  then have wl: "worker_within (cfg_worker c)" by (simp add: within_limits_def)
  let ?q = "if svc_redis (NewServiceContext st c)
    then Some \<lparr>jq_client = Some client, jq_stream_key = ws_stream_key (cfg_worker c),
               jq_group = ws_consumer_group (cfg_worker c)\<rparr> else None"
  have new: "worker_New (svc_db (NewServiceContext st c)) ?q True (svc_files (NewServiceContext st c)) consumer c = Inr w"
    using assms c by (auto simp: worker_process_def Let_def split: sum.splits)
  have q: "wk_queue w = \<lparr>jq_client = Some client, jq_stream_key = ws_stream_key (cfg_worker c),
               jq_group = ws_consumer_group (cfg_worker c)\<rparr>"
    using new by (auto simp: worker_New_def Let_def split: if_splits option.splits)
  have fields: "wk_concurrency w = ws_concurrency (cfg_worker c)" "wk_max_recoveries w = ws_max_recoveries (cfg_worker c)"
      "wk_block_timeout w = int64_wrap (ws_block_timeout (cfg_worker c) * 1000000000)"
      "wk_reconcile_interval w = int64_wrap (ws_reconcile_interval (cfg_worker c) * 1000000000)"
      "wk_pending_grace w = int64_wrap (ws_pending_grace (cfg_worker c) * 1000000000)"
      "wk_lease_timeout w = int64_wrap (ws_lease_timeout (cfg_worker c) * 1000000000)"
      "wk_stream_retention w = int64_wrap (ws_stream_retention (cfg_worker c) * 1000000000)"
      "wk_shutdown_grace w = int64_wrap (ws_shutdown_grace (cfg_worker c) * 1000000000)"
      "wk_heartbeat_interval w = int64_wrap (ws_heartbeat_interval (cfg_worker c) * 1000000000)"
      "wk_heartbeat_ttl w = int64_wrap (ws_heartbeat_ttl (cfg_worker c) * 1000000000)"
    and pos: "0 < wk_cleanup_interval w" "0 < wk_temp_grace w" "0 < wk_orphan_grace w"
    using new by (auto simp: worker_New_def Let_def duration_or_pos split: if_splits option.splits)
  have "requireClient (wk_queue w) = Inr client" using wl q by (simp add: requireClient_def worker_within_def)
  moreover have "0 < wk_block_timeout w \<and> 0 < wk_reconcile_interval w \<and> 0 < wk_pending_grace w \<and> 0 < wk_lease_timeout w
      \<and> 0 < wk_stream_retention w \<and> 0 < wk_shutdown_grace w
      \<and> 0 < wk_heartbeat_interval w \<and> wk_heartbeat_interval w < wk_heartbeat_ttl w"
    if "worker_settings_fit (cfg_worker c)"
    using that wl by (simp add: fields worker_settings_fit_def worker_within_def seconds_pos)
  moreover have "wk_reconcile_interval w < 0" if "ws_reconcile_interval (cfg_worker c) = 9223372037"
    by (simp add: fields that int64_wrap_def)
  ultimately show ?thesis using c lim wl fields(1,2) pos by (auto simp: worker_within_def)
qed

text \<open>The smallest configuration of a worker: the secret, the database, Redis and the key of the AI service.\<close>

definition worker_config :: config where
  "worker_config = bare_config\<lparr>cfg_cache := \<lparr>cs_host = ''r'', cs_pass = [], cs_type = []\<rparr>,
     cfg_database := \<lparr>dbs_data_source = ''d''\<rparr>, cfg_ai := (cfg_ai bare_config)\<lparr>ais_api_key := ''k''\<rparr>\<rparr>"

definition worker_startup :: startup where
  "worker_startup = \<lparr>st_database = True, st_upload_root = Some, st_valid_uri = (\<lambda>_. True)\<rparr>"

lemma worker_config_loads:
  "\<exists>c. Load Map.empty (Inr worker_config) = Inr c \<and> dbs_data_source (cfg_database c) = ''d'' \<and> cs_host (cfg_cache c) = ''r'' \<and> ais_api_key (cfg_ai c) = ''k''
     \<and> ais_model (cfg_ai c) = ''gpt-5.6-terra'' \<and> ais_request_timeout (cfg_ai c) = 180
     \<and> ais_max_output_tokens (cfg_ai c) = 8000 \<and> ws_concurrency (cfg_worker c) = 2"
  by (simp add: Load_def no_overrides int32_wrap_def worker_config_def bare_config_def load_auth_def
      applyAuthRateLimitDefaults_def load_ai_def applyUploadDefaults_def load_worker_def applyWorkerDefaults_def
      or_default_def Let_def)

lemma worker_config_starts:
  "\<exists>parser w. worker_process worker_startup Map.empty (Inr worker_config) memory_client ''c'' = Inr (parser, w)
     \<and> wk_concurrency w = 2"
proof -
  obtain c where c: "Load Map.empty (Inr worker_config) = Inr c" "dbs_data_source (cfg_database c) = ''d''" "cs_host (cfg_cache c) = ''r''" "ais_api_key (cfg_ai c) = ''k''"
    "ais_model (cfg_ai c) = ''gpt-5.6-terra''" "ais_request_timeout (cfg_ai c) = 180"
    "ais_max_output_tokens (cfg_ai c) = 8000" "ws_concurrency (cfg_worker c) = 2"
    using worker_config_loads by blast
  have "trim_space ''k'' \<noteq> []" "trim_space ''gpt-5.6-terra'' \<noteq> []" by (simp_all add: ascii_simps)
  then show ?thesis
    using c by (simp add: worker_process_def NewResponsesParser_def worker_startup_def seconds_def NewServiceContext_def
        worker_New_def Let_def)
qed

theorem started_worker_within_witness:
  "\<exists>parser w. worker_process worker_startup Map.empty (Inr worker_config) memory_client ''c'' = Inr (parser, w)
    \<and> wk_concurrency w = 2 \<and> 0 < wk_max_recoveries w \<and> requireClient (wk_queue w) = Inr memory_client"
proof -
  obtain parser w where start: "worker_process worker_startup Map.empty (Inr worker_config) memory_client ''c'' = Inr (parser, w)"
    "wk_concurrency w = 2"
    using worker_config_starts by blast
  then show ?thesis using started_worker_within [OF start(1)] by blast
qed

text \<open>A worker takes one message, gets the signal and returns when its second of grace is over.\<close>

theorem worker_run_refines_steps_witness:
  "\<exists>r :: memory run. rn_phase r = Returned None \<and> rn_loops r \<noteq> []
     \<and> app_steps sample_lib sample_codec (start\<lparr>app_db := pending_db\<rparr>) (rn_app r)
     \<and> (\<exists>d\<ge>1. rn_deadline r = Some d \<and> d \<le> rn_clock r)"
proof -
  let ?step = "run_step sample_lib sample_codec sample_worker"
  let ?a = "start\<lparr>app_db := pending_db\<rparr>"
  let ?st = "[Some [''job_id'' \<mapsto> ''5'']]"
  let ?l = "Consume sample_turn 1000000000"
  let ?r0 = "run_init ?a ?st 0"
  let ?r1 = "?r0\<lparr>rn_phase := Running, rn_loops := started_loops sample_worker\<rparr>"
  have "queue_EnsureGroup (wk_queue sample_worker) ?st = (None, ?st)"
    by (simp add: queue_EnsureGroup_def requireClient_def sample_worker_def memory_client_def isBusyGroupError_def)
  then have 1: "?step ?r0 ?r1"
    using run_step.ensured [where r = ?r0 and w = sample_worker and st' = ?st and lib = sample_lib and c = sample_codec] by (simp add: run_init_def)
  obtain s' st' where turn: "loop_step sample_worker ?l (pending_db, ?st) = (s', st')" by fastforce
  define r2 where "r2 = ?r1\<lparr>rn_redis := st', rn_app := ?a\<lparr>app_db := s'\<rparr>\<rparr>"
  have 2: "?step ?r1 r2"
    using run_step.take_turn [where l = ?l and r = ?r1 and c = sample_codec and w = sample_worker and s' = s' and st' = st' and lib = sample_lib] turn
    by (simp add: r2_def run_init_def started_loops_def sample_worker_def sample_turn_def)
  define r3 where "r3 = r2\<lparr>rn_signalled := True\<rparr>"
  have 3: "?step r2 r3" unfolding r3_def by (rule run_step.signal)
  define r4 where "r4 = r3\<lparr>rn_phase := Stopping 1, rn_deadline := Some 1\<rparr>"
  have 4: "?step r3 r4"
    using run_step.notice [where r = r3 and w = sample_worker and d = 1 and lib = sample_lib and c = sample_codec]
    by (simp add: r4_def r3_def r2_def run_init_def sample_worker_def)
  define r5 where "r5 = r4\<lparr>rn_clock := 1\<rparr>"
  have 5: "?step r4 r5"
    using run_step.pass_time [where r = r4 and t = 1 and lib = sample_lib and c = sample_codec and w = sample_worker]
    by (simp add: r5_def r4_def r3_def r2_def run_init_def)
  define r6 where "r6 = r5\<lparr>rn_phase := Returned None\<rparr>"
  have 6: "?step r5 r6"
    using run_step.timed_out [where r = r5 and d = 1 and lib = sample_lib and c = sample_codec and w = sample_worker] by (simp add: r6_def r5_def r4_def)
  have "?step\<^sup>*\<^sup>* ?r0 r6"
    using 1 2 3 4 5 6 by (meson converse_rtranclp_into_rtranclp rtranclp.rtrancl_refl)
  from worker_run_refines_steps [OF this] have "app_steps sample_lib sample_codec ?a (rn_app r6)"
    "\<exists>d\<ge>1. rn_deadline r6 = Some d \<and> d \<le> rn_clock r6"
    by (simp_all add: r6_def r5_def r4_def r3_def r2_def started_loops_def sample_worker_def)
  moreover have "rn_phase r6 = Returned None" "rn_loops r6 \<noteq> []"
    by (simp_all add: r6_def r5_def r4_def r3_def r2_def started_loops_def)
  ultimately show ?thesis by blast
qed

end
