(* ===== verification/StoredFiles.thy ===== *)
theory StoredFiles
  imports UploadCleanup
begin

text \<open>
  The upload directory next to the table of documents, over any sequence of uploads, deletions
  and clean-ups and with everything else the server does in between: every document that is not
  deleted has its file. Files of the API (\<open>logic/document\<close>) and of the worker share one root.
\<close>

section \<open>The invariant\<close>

definition pdf_document :: "document \<Rightarrow> bool" where
  "pdf_document d \<longleftrightarrow> doc_source_type d = ''pdf''"

definition files_ok :: "string \<Rightarrow> db \<times> file_tree \<Rightarrow> bool" where
  "files_ok root sf \<longleftrightarrow>
     (case sf of (s, fs) \<Rightarrow>
       schema_ok s \<and> tree_ok root fs
       \<and> distinct (map doc_file_url (filter pdf_document (documents s)))
       \<and> (\<forall>d\<in>set (documents s). pdf_document d \<longrightarrow>
            (\<exists>k. doc_file_url d = Some k \<and> canonical_key k \<and> under_prefix ''documents'' k
               \<and> (doc_deleted_at d = None \<longrightarrow> tree_files root fs k \<noteq> None))))"

text \<open>What becomes of the documents and their files: a document stays, with its file, or is marked deleted.\<close>

definition keeps_files :: "string \<Rightarrow> db \<times> file_tree \<Rightarrow> db \<times> file_tree \<Rightarrow> bool" where
  "keeps_files root sf sf' \<longleftrightarrow>
     (\<forall>d\<in>set (documents (fst sf)).
        d \<in> set (documents (fst sf'))
          \<and> (pdf_document d \<and> doc_deleted_at d = None \<longrightarrow>
               tree_files root (snd sf') (the (doc_file_url d)) = tree_files root (snd sf) (the (doc_file_url d)))
        \<or> doc_deleted_at d = None \<and> (\<exists>t. d\<lparr>doc_deleted_at := Some t\<rparr> \<in> set (documents (fst sf'))))"

lemma keeps_files_refl: "keeps_files root sf sf"
  by (simp add: keeps_files_def)

lemma keeps_files_trans:
  assumes "keeps_files root a b" "keeps_files root b c"
  shows "keeps_files root a c"
  unfolding keeps_files_def
proof
  fix d
  assume d: "d \<in> set (documents (fst a))"
  show "d \<in> set (documents (fst c))
          \<and> (pdf_document d \<and> doc_deleted_at d = None \<longrightarrow>
               tree_files root (snd c) (the (doc_file_url d)) = tree_files root (snd a) (the (doc_file_url d)))
        \<or> doc_deleted_at d = None \<and> (\<exists>t. d\<lparr>doc_deleted_at := Some t\<rparr> \<in> set (documents (fst c)))"
  proof (cases "\<exists>t. d\<lparr>doc_deleted_at := Some t\<rparr> \<in> set (documents (fst b)) \<and> doc_deleted_at d = None")
    case True
    then obtain t where t: "d\<lparr>doc_deleted_at := Some t\<rparr> \<in> set (documents (fst b))" "doc_deleted_at d = None" by blast
    then have "d\<lparr>doc_deleted_at := Some t\<rparr> \<in> set (documents (fst c))"
      using assms(2) by (force simp: keeps_files_def)
    then show ?thesis using t(2) by blast
  next
    case False
    then have b: "d \<in> set (documents (fst b))" "pdf_document d \<and> doc_deleted_at d = None \<longrightarrow>
        tree_files root (snd b) (the (doc_file_url d)) = tree_files root (snd a) (the (doc_file_url d))"
      using assms(1) d by (auto simp: keeps_files_def)
    then show ?thesis using assms(2) by (auto simp: keeps_files_def)
  qed
qed

section \<open>What an upload touches\<close>

definition touches :: "string \<Rightarrow> string set \<Rightarrow> file_tree \<Rightarrow> file_tree \<Rightarrow> bool" where
  "touches root ks fs fs' \<longleftrightarrow> tree_ok root fs' \<and> (\<forall>k. k \<notin> ks \<longrightarrow> tree_files root fs' k = tree_files root fs k)"

lemma touches_trans: "touches root ks fs fs' \<Longrightarrow> touches root ks fs' fs'' \<Longrightarrow> touches root ks fs fs''"
  by (simp add: touches_def)

lemma delete_touches:
  "tree_ok root fs \<Longrightarrow> canonical_key k \<Longrightarrow> k \<in> ks \<Longrightarrow> touches root ks fs (snd (file_Delete e n root k fs))"
  using file_Delete_known [of root fs k e n "fst (file_Delete e n root k fs)" "snd (file_Delete e n root k fs)"]
  by (auto simp: touches_def split: if_splits)

lemma write_touches:
  "tree_ok root fs \<Longrightarrow> canonical_key k \<Longrightarrow> k \<in> ks \<Longrightarrow> touches root ks fs (fs_write (key_path root k) f fs)"
  using tree_ok_write [of root fs k f] tree_files_write [of root k f fs]
  by (auto simp: touches_def tree_ok_def)

lemma SaveTemp_touches:
  assumes ok: "tree_ok root fs" and save: "SaveTemp e rnd 0 root rs m fs = (r, fs')"
  shows "touches root {temp_key (hex_encode (rnd 0))} fs fs'"
proof -
  let ?k = "temp_key (hex_encode (rnd 0))"
  have ck: "canonical_key ?k" by (rule canonical_temp_key)
  have path: "file_resolve root ?k = Inr (key_path root ?k)"
    using key_path_props(3) [OF _ ck] ok by (simp add: tree_ok_def)
  have "fs' = fs \<or> (\<exists>f. fs' = fs_write (key_path root ?k) f fs)"
    using save path unfolding SaveTemp_def Let_def randomName_def Join_temp_key [symmetric]
    by (auto split: sum.splits if_splits prod.splits option.splits)
  then show ?thesis using write_touches [OF ok ck, of "{?k}"] ok by (auto simp: touches_def)
qed

lemma doc_CreatePDF_touches:
  assumes ok: "tree_ok root fs" and root: "us_root svc = Some root"
    and call: "doc_CreatePDF e rnd today svc u rq rs (s, fs) = (r, (s', fs'))"
  defines "k \<equiv> document_key u today (hex_encode (rnd 1))"
  shows "touches root {temp_key (hex_encode (rnd 0)), k} fs fs'
    \<and> (s' = s \<or> (\<exists>d. s' = s\<lparr>documents := documents s @ [d]\<rparr> \<and> documents_violation s (documents s @ [d]) = None
          \<and> pdf_document d \<and> doc_file_url d = Some k \<and> tree_files root fs' k \<noteq> None))"
proof -
  let ?t = "temp_key (hex_encode (rnd 0))"
  let ?ks = "{?t, k}"
  have rt: "rooted root" using ok by (simp add: tree_ok_def)
  have ck: "canonical_key ?t" "canonical_key k" by (rule canonical_temp_key, simp add: k_def document_key_elements(1))
  have same: ?thesis if "s' = s" "touches root ?ks fs fs'"
    using that by simp
  have refl: "touches root ?ks fs fs" using ok by (simp add: touches_def)
  let ?n = "sanitizedFileName (cpd_file_name rq)"
  let ?title = "pdf_title (cpd_title rq) ?n"
  let ?m = "if us_max_file_bytes svc = 0 then 10485760 else us_max_file_bytes svc"
  show ?thesis
  proof (cases "db_up e \<and> us_extractor svc \<noteq> None \<and> \<not> (?title = [] \<or> rune_count ?title > 255 \<or> ?n = [])")
    case False
    then have "s' = s \<and> fs' = fs" using call root by (auto simp: doc_CreatePDF_def Let_def split: option.splits if_splits)
    then show ?thesis using same refl by simp
  next
    case True
    then obtain xt where ex: "us_extractor svc = Some xt" by blast
    obtain sr fs1 where save: "SaveTemp e rnd 0 root rs ?m fs = (sr, fs1)" by fastforce
    have t1: "touches root ?ks fs fs1" using SaveTemp_touches [OF ok save] by (auto simp: touches_def)
    then have ok1: "tree_ok root fs1" by (simp add: touches_def)
    show ?thesis
    proof (cases sr)
      case (Inl err)
      then have "s' = s \<and> fs' = fs1" using call root True ex save by (auto simp: doc_CreatePDF_def Let_def)
      then show ?thesis using same t1 by simp
    next
      case (Inr f)
      obtain data where f: "f = \<lparr>fl_key = ?t, fl_local_path = key_path root ?t, fl_size = int (length data),
          fl_mod_time = now e\<rparr>" and fs1: "fs1 = fs_write (key_path root ?t) \<lparr>sf_data = data, sf_mod_time = now e\<rparr> fs"
        using SaveTemp_Inr [OF save [unfolded Inr] ok] by blast
      let ?F = "\<lparr>sf_data = data, sf_mod_time = now e\<rparr>"
      have files1: "tree_files root fs1 = (tree_files root fs)(?t \<mapsto> ?F)"
        using tree_files_write [OF rt ck(1)] by (simp add: fs1)
      have undo: "touches root ?ks fs (snd (file_Delete e 0 root ?t g))" if "touches root ?ks fs g" for g
        using touches_trans [OF that] delete_touches [of root g ?t ?ks e 0] that ck(1) by (simp add: touches_def)
      note call' = call [unfolded doc_CreatePDF_def prod.case root ex option.case Let_def] True save Inr f
      show ?thesis
      proof (cases "validatePDFHeader e (key_path root ?t) fs1")
        case (Some err)
        then have "s' = s \<and> fs' = snd (file_Delete e 0 root ?t fs1)" using call' by simp
        then show ?thesis using same undo [OF t1] by simp
      next
        case None
        note head = None
        show ?thesis
        proof (cases "xt (case map_of fs1 (key_path root ?t) of None \<Rightarrow> [] | Some f \<Rightarrow> sf_data f)")
          case (Inl x)
          then have "s' = s \<and> fs' = snd (file_Delete e 0 root ?t fs1)" using call' head by simp
          then show ?thesis using same undo [OF t1] by simp
        next
          case (Inr tp)
          obtain tx pages where tp: "tp = (tx, pages)" by fastforce
          note stored = Inr [unfolded tp]
          show ?thesis
          proof (cases "DocumentKey e rnd 1 u today")
            case (Inl err)
            then have "s' = s \<and> fs' = snd (file_Delete e 0 root ?t fs1)" using call' head stored by simp
            then show ?thesis using same undo [OF t1] by simp
          next
            case (Inr key)
            then have key: "DocumentKey e rnd 1 u today = Inr k" using DocumentKey_Inr [OF Inr] by (simp add: k_def)
            obtain pr fs2 where prom: "Promote e root ?t k fs1 = (pr, fs2)" by fastforce
            have "?t \<noteq> k" unfolding k_def by (rule temp_key_not_document_key)
            from Promote_cases [OF prom ok1 ck this, of ?F] files1
            consider (refused) err where "pr = Inl err" "fs2 = fs1"
              | (moved) "pr = Inr ()" "tree_ok root fs2" "tree_files root fs2 = (tree_files root fs1)(?t := None, k \<mapsto> ?F)"
              by auto
            then show ?thesis
            proof cases
              case refused
              then have "s' = s \<and> fs' = snd (file_Delete e 0 root ?t fs1)" using call' head stored key prom by simp
              then show ?thesis using same undo [OF t1] by simp
            next
              case moved
              then have t2: "touches root ?ks fs fs2" using t1 by (simp add: touches_def)
              let ?doc = "new_pdf_document e u ?title ?n k tx pages (int (length data))"
              show ?thesis
              proof (cases "sql e ''create PDF document'' 0 (sql_insert (documents_violation s) [?doc] (documents s))")
                case (Inl x)
                then have "s' = s \<and> fs' = snd (file_Delete e 1 root k fs2)"
                  using call' head stored key prom moved(1) by simp
                then show ?thesis
                  using same touches_trans [OF t2 delete_touches [OF moved(2) ck(2), of ?ks e 1]] by simp
              next
                case (Inr ds)
                then have "ds = documents s @ [?doc]" "documents_violation s (documents s @ [?doc]) = None"
                  by (auto simp: sql_insert_Inr)
                moreover have "s' = s\<lparr>documents := ds\<rparr> \<and> fs' = fs2"
                  using call' head stored key prom moved(1) Inr by (auto simp del: sql_Inr)
                ultimately show ?thesis using t2 moved(3)
                  by (intro conjI disjI2 exI [of _ ?doc]) (simp_all add: pdf_document_def)
              qed
            qed
          qed
        qed
      qed
    qed
  qed
qed

section \<open>Steps\<close>

text \<open>
  The operations on documents, with any environment, for services and workers on one root; an
  upload draws a name no document refers to. \<open>elsewhere\<close> is any other change of the database.
\<close>

inductive file_step :: "string \<Rightarrow> 'q worker set \<Rightarrow> db \<times> file_tree \<Rightarrow> db \<times> file_tree \<Rightarrow> bool" for root ws where
  upload: "us_root svc = Some root \<Longrightarrow>
    Some (document_key u today (hex_encode (rnd 1))) \<notin> doc_file_url ` set (documents s) \<Longrightarrow>
    doc_CreatePDF e rnd today svc u rq rs (s, fs) = (x, (s', fs')) \<Longrightarrow> file_step root ws (s, fs) (s', fs')"
| enter_text: "doc_CreateText e u rt s = (x, s') \<Longrightarrow> file_step root ws (s, fs) (s', fs)"
| remove: "us_root svc = Some root \<Longrightarrow> doc_Delete e svc u i (s, fs) = (y, (s', fs')) \<Longrightarrow>
    file_step root ws (s, fs) (s', fs')"
| tidy: "w \<in> ws \<Longrightarrow> wk_files w = Some root \<Longrightarrow> worker_cleanupUploads w e (s, fs) = (stats, fs') \<Longrightarrow>
    file_step root ws (s, fs) (s, fs')"
| elsewhere: "documents s' = documents s \<Longrightarrow> schema_ok s' \<Longrightarrow> file_step root ws (s, fs) (s', fs)"

lemma files_okD:
  assumes "files_ok root (s, fs)"
  shows "schema_ok s" "tree_ok root fs" "distinct (map doc_file_url (filter pdf_document (documents s)))"
    and "d \<in> set (documents s) \<Longrightarrow> pdf_document d \<Longrightarrow>
      \<exists>k. doc_file_url d = Some k \<and> canonical_key k \<and> under_prefix ''documents'' k
        \<and> (doc_deleted_at d = None \<longrightarrow> tree_files root fs k \<noteq> None)"
  using assms by (auto simp: files_ok_def)

lemma files_ok_keep:
  assumes "files_ok root (s, fs)" "tree_ok root fs'" "schema_ok s'" "documents s' = documents s"
    and "\<And>d k. d \<in> set (documents s) \<Longrightarrow> pdf_document d \<Longrightarrow> doc_deleted_at d = None \<Longrightarrow> doc_file_url d = Some k \<Longrightarrow>
      tree_files root fs' k = tree_files root fs k"
  shows "files_ok root (s', fs') \<and> keeps_files root (s, fs) (s', fs')"
  using assms files_okD(4) [OF assms(1)] by (fastforce simp: files_ok_def keeps_files_def)

lemma files_ok_new:
  assumes ok: "files_ok root (s, fs)" and viol: "documents_violation s (documents s @ [d]) = None" and tree: "tree_ok root fs'"
    and same: "\<And>c k. c \<in> set (documents s) \<Longrightarrow> pdf_document c \<Longrightarrow> doc_file_url c = Some k \<Longrightarrow>
      tree_files root fs' k = tree_files root fs k"
    and new: "pdf_document d \<longrightarrow> (\<exists>k. doc_file_url d = Some k \<and> canonical_key k \<and> under_prefix ''documents'' k
      \<and> tree_files root fs' k \<noteq> None \<and> Some k \<notin> doc_file_url ` set (documents s))"
  shows "files_ok root (s\<lparr>documents := documents s @ [d]\<rparr>, fs')
    \<and> keeps_files root (s, fs) (s\<lparr>documents := documents s @ [d]\<rparr>, fs')"
proof -
  have "schema_ok (s\<lparr>documents := documents s @ [d]\<rparr>)"
    using files_okD(1) [OF ok] viol by (auto intro: schema_ok_documents)
  moreover have "distinct (map doc_file_url (filter pdf_document (documents s @ [d])))"
    using files_okD(3) [OF ok] new by (fastforce simp: image_iff)
  moreover have "\<exists>k. doc_file_url c = Some k \<and> canonical_key k \<and> under_prefix ''documents'' k
      \<and> (doc_deleted_at c = None \<longrightarrow> tree_files root fs' k \<noteq> None)"
    if "c \<in> set (documents s)" "pdf_document c" for c
    using files_okD(4) [OF ok that] same [OF that] by auto
  moreover have "tree_files root fs' (the (doc_file_url c)) = tree_files root fs (the (doc_file_url c))"
    if "c \<in> set (documents s)" "pdf_document c" for c
    using files_okD(4) [OF ok that] same [OF that] by auto
  ultimately show ?thesis using tree new by (auto simp: files_ok_def keeps_files_def)
qed

lemma upload_keeps:
  assumes ok: "files_ok root (s, fs)" and root: "us_root svc = Some root"
    and fresh: "Some (document_key u today (hex_encode (rnd 1))) \<notin> doc_file_url ` set (documents s)"
    and run: "doc_CreatePDF e rnd today svc u rq rs (s, fs) = (x, (s', fs'))"
  shows "files_ok root (s', fs') \<and> keeps_files root (s, fs) (s', fs')"
proof -
  let ?t = "temp_key (hex_encode (rnd 0))" and ?k = "document_key u today (hex_encode (rnd 1))"
  note t = doc_CreatePDF_touches [OF files_okD(2) [OF ok] root run]
  have "\<not> under_prefix ''documents'' ?t"
  proof -
    have "elements ?t = [''.tmp'', hex_encode (rnd 0) @ ''.pdf'']"
      using canonical_join [of "[''.tmp'', hex_encode (rnd 0) @ ''.pdf'']"] normal_hex_pdf [of "rnd 0"]
      by (simp add: temp_key_def normal_element_def)
    moreover have "clean_elements ''documents'' = [''documents'']" by (simp add: clean_elements_def clean_step.simps)
    ultimately show ?thesis by (simp add: under_prefix_def)
  qed
  then have same: "tree_files root fs' k = tree_files root fs k"
    if "c \<in> set (documents s)" "pdf_document c" "doc_file_url c = Some k" for c k
  proof -
    have "under_prefix ''documents'' k" using files_okD(4) [OF ok that(1,2)] that(3) by auto
    then have "k \<noteq> ?t" using \<open>\<not> under_prefix ''documents'' ?t\<close> by auto
    moreover have "k \<noteq> ?k" using fresh that(1,3) by (metis image_eqI)
    ultimately show ?thesis using t by (simp add: touches_def)
  qed
  have tree: "tree_ok root fs'" using t by (simp add: touches_def)
  from t consider "s' = s" | d where "s' = s\<lparr>documents := documents s @ [d]\<rparr>"
      "documents_violation s (documents s @ [d]) = None" "pdf_document d" "doc_file_url d = Some ?k" "tree_files root fs' ?k \<noteq> None"
    by blast
  then show ?thesis
  proof cases
    case 1
    then show ?thesis using files_ok_keep [OF ok tree files_okD(1) [OF ok]] same by blast
  next
    case (2 d)
    have "canonical_key ?k" by (rule document_key_elements(1))
    then show ?thesis
      using files_ok_new [OF ok 2(2) tree same] 2 fresh under_documents [of u today "rnd 1"] by auto
  qed
qed

lemma remove_keeps:
  assumes ok: "files_ok root (s, fs)" and root: "us_root svc = Some root"
    and run: "doc_Delete e svc u i (s, fs) = (y, (s', fs'))"
  shows "files_ok root (s', fs') \<and> keeps_files root (s, fs) (s', fs')"
proof (cases "s' = s \<and> fs' = fs")
  case True
  then show ?thesis using ok keeps_files_refl by simp
next
  case False
  then obtain key where tx: "doc_Delete_tx e u i s = Inr (key, s')"
    and fs': "fs' = (if key = [] then fs else snd (file_Delete e 0 root key fs))"
    using doc_Delete_cases [OF run] root by auto
  from doc_Delete_tx_Inr [OF tx files_okD(1) [OF ok]] obtain d where d: "d \<in> set (documents s)" "own_document u i d"
    and ed: "document_edit s d (d\<lparr>doc_deleted_at := Some (now e)\<rparr>) s'"
    and key: "key = (if doc_source_type d = ''pdf'' then case doc_file_url d of None \<Rightarrow> [] | Some k \<Rightarrow> k else [])"
    by blast
  let ?d = "d\<lparr>doc_deleted_at := Some (now e)\<rparr>"
  have dist: "distinct (map doc_id (documents s))" by (rule schema_ok_distinct(1) [OF files_okD(1) [OF ok]])
  have s': "documents s' = replace_row doc_id ?d (documents s)"
    "documents_violation s (replace_row doc_id ?d (documents s)) = None" "s' = s\<lparr>documents := documents s'\<rparr>"
    using ed by (simp_all add: document_edit_def)
  have S: "set (documents s') = insert ?d {c \<in> set (documents s). doc_id c \<noteq> doc_id d}"
    using set_replace_row [of d "documents s" doc_id ?d] d(1) s'(1) by simp
  have live: "doc_deleted_at d = None" using d(2) by (simp add: own_document_def)
  have "schema_ok s'" using schema_ok_documents [OF files_okD(1) [OF ok] s'(2)] s' S by auto
  moreover have "map doc_file_url (filter pdf_document (documents s')) = map doc_file_url (filter pdf_document (documents s))"
  proof -
    have "replace_row doc_id ?d (documents s) = map (\<lambda>c. if c = d then ?d else c) (documents s)"
      using distinct_map_unique [OF dist _ d(1)] by (auto simp: replace_row_def)
    moreover have "map doc_file_url (filter pdf_document (map (\<lambda>c. if c = d then ?d else c) cs))
        = map doc_file_url (filter pdf_document cs)" for cs
      by (induction cs) (auto simp: pdf_document_def)
    ultimately show ?thesis using s'(1) by simp
  qed
  moreover have files: "tree_ok root fs' \<and> (\<forall>k. doc_file_url d \<noteq> Some k \<or> \<not> pdf_document d \<longrightarrow>
      tree_files root fs' k = tree_files root fs k)"
  proof (cases "pdf_document d")
    case True
    then obtain k where k: "doc_file_url d = Some k" "canonical_key k" using files_okD(4) [OF ok d(1)] by blast
    then have "fs' = snd (file_Delete e 0 root k fs)" using fs' key True by (auto simp: pdf_document_def)
    then show ?thesis
      using delete_touches [OF files_okD(2) [OF ok] k(2), of "{k}" e 0] k(1) True by (auto simp: touches_def)
  next
    case False
    then show ?thesis using fs' key files_okD(2) [OF ok] by (simp add: pdf_document_def)
  qed
  moreover have same: "tree_files root fs' k = tree_files root fs k"
    if "c \<in> set (documents s)" "c \<noteq> d" "pdf_document c" "doc_file_url c = Some k" for c k
  proof -
    have "\<not> (doc_file_url d = Some k \<and> pdf_document d)"
      using distinct_map_unique [OF files_okD(3) [OF ok], of c d] that d(1) by auto
    then show ?thesis using files by blast
  qed
  moreover have "\<exists>k. doc_file_url c = Some k \<and> canonical_key k \<and> under_prefix ''documents'' k
      \<and> (doc_deleted_at c = None \<longrightarrow> tree_files root fs' k \<noteq> None)"
    if "c \<in> set (documents s')" "pdf_document c" for c
  proof (cases "c = ?d")
    case True
    then show ?thesis using files_okD(4) [OF ok d(1)] that(2) by (auto simp: pdf_document_def)
  next
    case False
    then have "c \<in> set (documents s)" "c \<noteq> d" using that(1) S by auto
    then show ?thesis using files_okD(4) [OF ok _ that(2)] same [OF _ _ that(2)] by fastforce
  qed
  ultimately have "files_ok root (s', fs')" using files_okD(3) [OF ok] by (simp add: files_ok_def)
  moreover have "keeps_files root (s, fs) (s', fs')"
    unfolding keeps_files_def
  proof
    fix c
    assume c: "c \<in> set (documents (fst (s, fs)))"
    show "c \<in> set (documents (fst (s', fs')))
          \<and> (pdf_document c \<and> doc_deleted_at c = None \<longrightarrow>
               tree_files root (snd (s', fs')) (the (doc_file_url c)) = tree_files root (snd (s, fs)) (the (doc_file_url c)))
        \<or> doc_deleted_at c = None \<and> (\<exists>t. c\<lparr>doc_deleted_at := Some t\<rparr> \<in> set (documents (fst (s', fs'))))"
    proof (cases "c = d")
      case True
      then show ?thesis using S live by auto
    next
      case False
      then have "c \<in> set (documents s')" using c S distinct_map_unique [OF dist _ d(1), of c] by auto
      moreover have "tree_files root fs' (the (doc_file_url c)) = tree_files root fs (the (doc_file_url c))"
        if "pdf_document c"
        using same [OF _ False that] files_okD(4) [OF ok _ that] c by auto
      ultimately show ?thesis by auto
    qed
  qed
  ultimately show ?thesis by blast
qed

lemma tidy_keeps:
  assumes ok: "files_ok root (s, fs)" and root: "wk_files w = Some root"
    and run: "worker_cleanupUploads w e (s, fs) = (stats, fs')"
  shows "files_ok root (s, fs') \<and> keeps_files root (s, fs) (s, fs')"
proof (rule files_ok_keep [OF ok _ files_okD(1) [OF ok] refl])
  note exact = worker_cleanupUploads_exact [OF root files_okD(2) [OF ok] run]
  show "tree_ok root fs'" using exact by blast
  fix d k
  assume d: "d \<in> set (documents s)" "pdf_document d" "doc_deleted_at d = None" "doc_file_url d = Some k"
  have "under_prefix ''documents'' k" using files_okD(4) [OF ok d(1,2)] d(4) by auto
  then have "\<not> under_prefix ''.tmp'' k" by (auto simp: under_prefix_def clean_elements_def clean_step.simps)
  then have "\<not> unused_file w e s k g" for g using d by (auto simp: unused_file_def pdf_document_def)
  then show "tree_files root fs' k = tree_files root fs k" using exact [of k] by blast
qed

lemma file_step_keeps:
  "file_step root ws sf sf' \<Longrightarrow> files_ok root sf \<Longrightarrow> files_ok root sf' \<and> keeps_files root sf sf'"
proof (induction rule: file_step.induct)
  case (upload svc u today rnd s e rq rs fs x s' fs')
  then show ?case using upload_keeps by blast
next
  case (enter_text e u rt s x s' fs)
  note ok = enter_text(2)
  from doc_CreateText_cases [OF enter_text(1)] consider "s' = s" | d where "s' = s\<lparr>documents := documents s @ [d]\<rparr>"
      "documents_violation s (documents s @ [d]) = None" "\<not> pdf_document d"
    by (auto simp: pdf_document_def new_text_document_def)
  then show ?case
  proof cases
    case 1
    then show ?thesis using ok keeps_files_refl by simp
  next
    case (2 d)
    then show ?thesis using files_ok_new [OF ok 2(2) files_okD(2) [OF ok]] by simp
  qed
next
  case (remove svc e u i s fs y s' fs')
  then show ?case using remove_keeps by blast
next
  case (tidy w e s fs stats fs')
  then show ?case using tidy_keeps by blast
next
  case (elsewhere s' s fs)
  then show ?case using files_ok_keep [OF elsewhere(3) files_okD(2) [OF elsewhere(3)]] by blast
qed

text \<open>
  C32: A stored PDF keeps its file. Start where every PDF document that is not deleted has its
  file and no two share one. After any sequence of uploads, deletions, clean-ups and other
  changes, whoever makes them and whichever calls fail, that is still so; and every document is
  still there, with the same bytes in its file, unless it was marked deleted.
\<close>

theorem stored_files_stay:
  assumes "(file_step root ws)\<^sup>*\<^sup>* (s, fs) (s', fs')" "files_ok root (s, fs)"
  shows "files_ok root (s', fs')
    \<and> (\<forall>d\<in>set (documents s).
        (\<exists>t. d\<lparr>doc_deleted_at := Some t\<rparr> \<in> set (documents s'))
        \<or> d \<in> set (documents s')
          \<and> (pdf_document d \<and> doc_deleted_at d = None \<longrightarrow>
               tree_files root fs' (the (doc_file_url d)) = tree_files root fs (the (doc_file_url d))))"
proof -
  have "files_ok root (s', fs') \<and> keeps_files root (s, fs) (s', fs')"
    using assms
  proof (induction rule: rtranclp_induct)
    case base
    then show ?case by (simp add: keeps_files_refl)
  next
    case (step b c)
    then show ?case using file_step_keeps [OF step(2)] keeps_files_trans by blast
  qed
  then show ?thesis by (auto simp: keeps_files_def)
qed

text \<open>The stored document next to an old temporary file, which a clean-up takes away.\<close>

lemma stored_pdf_ok: "files_ok ''/up'' (stored_pdf_db, sample_tree)"
proof -
  let ?d = "(sample_document 2)\<lparr>doc_source_type := ''pdf'', doc_file_name := Some ''t'', doc_file_url := Some ''documents/1/b''\<rparr>"
  have "document_check ?d" "document_check (sample_document 1)"
    by (simp_all add: document_check_def sample_document_def varchar_def rune_count_ascii)
  then have "documents_violation sample_db [sample_document 1, ?d] = None"
    by (simp add: documents_violation_def document_refs_def sample_db_def sample_document_def sample_user_def)
  then have "schema_ok stored_pdf_db"
    unfolding stored_pdf_db_def
    by (rule schema_ok_documents [OF schema_ok_sample]) (simp add: sample_db_def sample_document_def)
  moreover have "tree_files ''/up'' sample_tree ''documents/1/b'' = Some \<lparr>sf_data = ''y'', sf_mod_time = 0\<rparr>"
    by (simp add: tree_files_def canonical_key_def normal_element_def key_path_def sample_tree_elements sample_tree_def)
  moreover have "canonical_key ''documents/1/b''" by (simp add: canonical_key_def normal_element_def)
  moreover have "under_prefix ''documents'' ''documents/1/b''"
    by (simp add: under_prefix_def clean_elements_def clean_step.simps)
  ultimately show ?thesis using tree_ok_sample by (simp add: files_ok_def stored_pdf_db_def pdf_document_def sample_document_def)
qed

theorem stored_files_stay_witness:
  "\<exists>fs'. (file_step ''/up'' {sample_worker})\<^sup>*\<^sup>* (stored_pdf_db, sample_tree) (stored_pdf_db, fs')
    \<and> tree_files ''/up'' fs' ''documents/1/b'' \<noteq> None"
proof -
  obtain stats fs' where run: "worker_cleanupUploads sample_worker no_fault_env (stored_pdf_db, sample_tree) = (stats, fs')"
    by fastforce
  have "file_step ''/up'' {sample_worker} (stored_pdf_db, sample_tree) (stored_pdf_db, fs')"
    by (rule file_step.tidy [OF _ _ run]) (simp_all add: sample_worker_def)
  then have steps: "(file_step ''/up'' {sample_worker})\<^sup>*\<^sup>* (stored_pdf_db, sample_tree) (stored_pdf_db, fs')" by simp
  then have "files_ok ''/up'' (stored_pdf_db, fs')" using stored_files_stay [OF steps stored_pdf_ok] by blast
  then have "tree_files ''/up'' fs' ''documents/1/b'' \<noteq> None"
    by (simp add: files_ok_def stored_pdf_db_def pdf_document_def sample_document_def)
  then show ?thesis using steps by blast
qed

end
